(* ===== verification/Fabric_Prelude.thy ===== *)
theory Fabric_Prelude
  imports Main "HOL-Library.Word" "HOL-Library.Code_Target_Nat"
begin

text \<open>
  Shared vocabulary of the development: the integer operations of Rust that the sources use, the
  result type and its sequencing, and actions, which are computations that thread a mutable
  receiver (\<^verbatim>\<open>&mut self\<close>) and return early on an error the way the \<^verbatim>\<open>?\<close> operator does. An action
  that fails keeps the state it had reached: the mutations made before an early return stay.
\<close>

section \<open>Collections of facts\<close>

named_theorems act_simps \<open>equations for actions\<close>
named_theorems preserve_rules \<open>introduction rules for state predicates kept by an action\<close>
named_theorems result_simps \<open>equations for results\<close>

section \<open>Machine integers\<close>

text \<open>
  Bytes are 8-bit words. Sizes, offsets and identifiers (\<^verbatim>\<open>u64\<close>, and \<^verbatim>\<open>usize\<close> on a 64-bit target)
  are natural numbers with the range checks, the saturation and the wrap-around of a release build
  written out.
\<close>

type_synonym u8 = "8 word"
type_synonym u32 = "32 word"
type_synonym u64 = nat
type_synonym usize = nat

abbreviation u16_max :: nat where "u16_max \<equiv> 65535"
abbreviation u32_max :: nat where "u32_max \<equiv> 4294967295"
abbreviation u64_max :: nat where "u64_max \<equiv> 18446744073709551615"

definition checked_add_u64 :: "u64 \<Rightarrow> u64 \<Rightarrow> u64 option" where
  "checked_add_u64 a b = (if a + b \<le> u64_max then Some (a + b) else None)"

definition saturating_add_u64 :: "u64 \<Rightarrow> u64 \<Rightarrow> u64" where
  "saturating_add_u64 a b = min (a + b) u64_max"

definition saturating_sub_u64 :: "u64 \<Rightarrow> u64 \<Rightarrow> u64" where
  "saturating_sub_u64 a b = a - b"

definition add_u64 :: "u64 \<Rightarrow> u64 \<Rightarrow> u64" where
  "add_u64 a b = (a + b) mod 18446744073709551616"

lemma add_u64_fits [simp]: "a + b \<le> u64_max \<Longrightarrow> add_u64 a b = a + b"
  by (simp add: add_u64_def)

lemma add_u64_bound: "add_u64 a b \<le> u64_max"
proof -
  have "add_u64 a b < 18446744073709551616" by (simp add: add_u64_def)
  then show ?thesis by simp
qed

lemma checked_add_u64_Some [simp]:
  "checked_add_u64 a b = Some c \<longleftrightarrow> a + b \<le> u64_max \<and> c = a + b"
  by (auto simp: checked_add_u64_def)

lemma saturating_add_u64_le: "saturating_add_u64 a b \<le> a + b"
  by (simp add: saturating_add_u64_def)

lemma saturating_add_u64_gt_iff:
  "m < u64_max \<Longrightarrow> saturating_add_u64 a b > m \<longleftrightarrow> a + b > m"
  by (auto simp: saturating_add_u64_def)

section \<open>Results\<close>

text \<open>\<^verbatim>\<open>Result<T, E>\<close> is \<open>'e + 'a\<close>, the error on the left.\<close>

definition res_bind :: "'e + 'a \<Rightarrow> ('a \<Rightarrow> 'e + 'b) \<Rightarrow> 'e + 'b" where
  "res_bind r f = (case r of Inl e \<Rightarrow> Inl e | Inr x \<Rightarrow> f x)"

definition map_err :: "('e \<Rightarrow> 'f) \<Rightarrow> 'e + 'a \<Rightarrow> 'f + 'a" where
  "map_err h r = (case r of Inl e \<Rightarrow> Inl (h e) | Inr x \<Rightarrow> Inr x)"

definition ok_or :: "'e \<Rightarrow> 'a option \<Rightarrow> 'e + 'a" where
  "ok_or e v = (case v of None \<Rightarrow> Inl e | Some x \<Rightarrow> Inr x)"

definition res_ok :: "'e + 'a \<Rightarrow> 'a option" where
  "res_ok r = (case r of Inl _ \<Rightarrow> None | Inr x \<Rightarrow> Some x)"

definition is_ok :: "'e + 'a \<Rightarrow> bool" where
  "is_ok r = (case r of Inl _ \<Rightarrow> False | Inr _ \<Rightarrow> True)"

text \<open>\<^verbatim>\<open>iter().map(f).collect::<Result<Vec<_>, _>>()\<close>: stops at the first error.\<close>

fun res_map :: "('a \<Rightarrow> 'e + 'b) \<Rightarrow> 'a list \<Rightarrow> 'e + 'b list" where
  "res_map f [] = Inr []"
| "res_map f (x # xs) = res_bind (f x) (\<lambda>y. res_bind (res_map f xs) (\<lambda>ys. Inr (y # ys)))"

text \<open>A \<^verbatim>\<open>for\<close> loop whose body may return early with an error.\<close>

fun res_each :: "('a \<Rightarrow> 'e + unit) \<Rightarrow> 'a list \<Rightarrow> 'e + unit" where
  "res_each f [] = Inr ()"
| "res_each f (x # xs) = res_bind (f x) (\<lambda>_. res_each f xs)"

lemma res_bind_simps [simp, result_simps]:
  "res_bind (Inl e) f = Inl e"
  "res_bind (Inr x) f = f x"
  by (simp_all add: res_bind_def)

lemma map_err_simps [simp, result_simps]:
  "map_err h (Inl e) = Inl (h e)"
  "map_err h (Inr x) = Inr x"
  by (simp_all add: map_err_def)

lemma ok_or_simps [simp, result_simps]:
  "ok_or e None = Inl e"
  "ok_or e (Some x) = Inr x"
  by (simp_all add: ok_or_def)

lemma res_ok_simps [simp, result_simps]:
  "res_ok (Inl e) = None"
  "res_ok (Inr x) = Some x"
  by (simp_all add: res_ok_def)

lemma is_ok_simps [simp, result_simps]:
  "is_ok (Inl e) = False"
  "is_ok (Inr x) = True"
  by (simp_all add: is_ok_def)

lemma is_ok_iff: "is_ok r \<longleftrightarrow> (\<exists>x. r = Inr x)"
  by (cases r) simp_all

lemma not_is_ok_iff: "\<not> is_ok r \<longleftrightarrow> (\<exists>e. r = Inl e)"
  by (cases r) simp_all

lemma res_bind_Inr_iff:
  "res_bind r f = Inr y \<longleftrightarrow> (\<exists>x. r = Inr x \<and> f x = Inr y)"
  by (cases r) simp_all

lemma res_bind_Inl_iff:
  "res_bind r f = Inl e \<longleftrightarrow> r = Inl e \<or> (\<exists>x. r = Inr x \<and> f x = Inl e)"
  by (cases r) simp_all

lemma map_err_Inr_iff [simp]: "map_err h r = Inr x \<longleftrightarrow> r = Inr x"
  by (cases r) simp_all

lemma ok_or_Inr_iff [simp]: "ok_or e v = Inr x \<longleftrightarrow> v = Some x"
  by (cases v) simp_all

lemma ok_or_Inl_iff [simp]: "ok_or e v = Inl e' \<longleftrightarrow> v = None \<and> e' = e"
  by (cases v) auto

lemma res_each_Inr_iff:
  "res_each f xs = Inr u \<longleftrightarrow> (\<forall>x \<in> set xs. f x = Inr ())"
  by (induction xs) (auto simp: res_bind_Inr_iff)

lemma res_map_Inr_iff:
  "res_map f xs = Inr ys \<longleftrightarrow> list_all2 (\<lambda>x y. f x = Inr y) xs ys"
  by (induction xs arbitrary: ys) (auto simp: res_bind_Inr_iff list_all2_Cons1)

lemma res_map_length: "res_map f xs = Inr ys \<Longrightarrow> length ys = length xs"
  by (auto simp: res_map_Inr_iff dest: list_all2_lengthD)

section \<open>Actions\<close>

type_synonym ('s, 'e, 'a) act = "'s \<Rightarrow> ('e + 'a) \<times> 's"

definition ok_act :: "'a \<Rightarrow> ('s, 'e, 'a) act" where
  "ok_act x s = (Inr x, s)"

definition err_act :: "'e \<Rightarrow> ('s, 'e, 'a) act" where
  "err_act e s = (Inl e, s)"

definition lift_res :: "'e + 'a \<Rightarrow> ('s, 'e, 'a) act" where
  "lift_res r s = (r, s)"

definition get_act :: "('s \<Rightarrow> 'a) \<Rightarrow> ('s, 'e, 'a) act" where
  "get_act f s = (Inr (f s), s)"

definition mod_act :: "('s \<Rightarrow> 's) \<Rightarrow> ('s, 'e, unit) act" where
  "mod_act f s = (Inr (), f s)"

definition bind_act :: "('s, 'e, 'a) act \<Rightarrow> ('a \<Rightarrow> ('s, 'e, 'b) act) \<Rightarrow> ('s, 'e, 'b) act" where
  "bind_act m f s = (case m s of (Inl e, t) \<Rightarrow> (Inl e, t) | (Inr x, t) \<Rightarrow> f x t)"

definition seq_act :: "('s, 'e, 'a) act \<Rightarrow> ('s, 'e, 'b) act \<Rightarrow> ('s, 'e, 'b) act" where
  "seq_act m n = bind_act m (\<lambda>_. n)"

text \<open>A \<^verbatim>\<open>match\<close> on the result of a call: its error becomes a value.\<close>

definition try_act :: "('s, 'e, 'a) act \<Rightarrow> ('s, 'f, 'e + 'a) act" where
  "try_act m s = (case m s of (r, t) \<Rightarrow> (Inr r, t))"

text \<open>An action on a field of the state, and \<^verbatim>\<open>map_err\<close> on its result.\<close>

definition zoom_act :: "('s \<Rightarrow> 't) \<Rightarrow> ('t \<Rightarrow> 's \<Rightarrow> 's) \<Rightarrow> ('t, 'e, 'a) act \<Rightarrow> ('s, 'e, 'a) act" where
  "zoom_act get put m s = (case m (get s) of (r, t) \<Rightarrow> (r, put t s))"

definition map_err_act :: "('e \<Rightarrow> 'f) \<Rightarrow> ('s, 'e, 'a) act \<Rightarrow> ('s, 'f, 'a) act" where
  "map_err_act h m s = (case m s of (r, t) \<Rightarrow> (map_err h r, t))"

definition when_act :: "bool \<Rightarrow> ('s, 'e, unit) act \<Rightarrow> ('s, 'e, unit) act" where
  "when_act b m = (if b then m else ok_act ())"

fun each_act :: "('a \<Rightarrow> ('s, 'e, unit) act) \<Rightarrow> 'a list \<Rightarrow> ('s, 'e, unit) act" where
  "each_act f [] = ok_act ()"
| "each_act f (x # xs) = seq_act (f x) (each_act f xs)"

text \<open>A loop that runs its body a fixed number of times and collects what it returns.\<close>

fun repeat_act :: "nat \<Rightarrow> ('s, 'e, 'a) act \<Rightarrow> ('s, 'e, 'a list) act" where
  "repeat_act 0 m = ok_act []"
| "repeat_act (Suc n) m = bind_act m (\<lambda>x. bind_act (repeat_act n m) (\<lambda>xs. ok_act (x # xs)))"

lemma act_eqs [simp, act_simps]:
  "ok_act x s = (Inr x, s)"
  "err_act e s = (Inl e, s)"
  "lift_res r s = (r, s)"
  "get_act f s = (Inr (f s), s)"
  "mod_act h s = (Inr (), h s)"
  "when_act b m s = (if b then m s else (Inr (), s))"
  by (simp_all add: ok_act_def err_act_def lift_res_def get_act_def mod_act_def when_act_def)

lemma bind_act_step:
  "m s = (Inr x, t) \<Longrightarrow> bind_act m f s = f x t"
  "m s = (Inl e, t) \<Longrightarrow> bind_act m f s = (Inl e, t)"
  by (simp_all add: bind_act_def)

lemma seq_act_step:
  "m s = (Inr x, t) \<Longrightarrow> seq_act m n s = n t"
  "m s = (Inl e, t) \<Longrightarrow> seq_act m n s = (Inl e, t)"
  by (simp_all add: seq_act_def bind_act_def)

lemma zoom_act_step: "m (get s) = (r, t) \<Longrightarrow> zoom_act get put m s = (r, put t s)"
  by (simp add: zoom_act_def)

lemma map_err_act_step: "m s = (r, t) \<Longrightarrow> map_err_act h m s = (map_err h r, t)"
  by (simp add: map_err_act_def)

lemma try_act_step: "m s = (r, t) \<Longrightarrow> try_act m s = (Inr r, t)"
  by (simp add: try_act_def)

lemma bind_act_eqs [simp, act_simps]:
  "bind_act (ok_act x) f s = f x s"
  "bind_act (err_act e) f s = (Inl e, s)"
  "bind_act (lift_res (Inr x)) f s = f x s"
  "bind_act (lift_res (Inl e)) f s = (Inl e, s)"
  "bind_act (get_act g) f s = f (g s) s"
  "seq_act (mod_act h) n s = n (h s)"
  "seq_act (ok_act x) n s = n s"
  by (simp_all add: bind_act_def seq_act_def)

lemma bind_act_Inr_iff:
  "bind_act m f s = (Inr y, u) \<longleftrightarrow> (\<exists>x t. m s = (Inr x, t) \<and> f x t = (Inr y, u))"
  by (auto simp: bind_act_def split: prod.splits sum.splits)

lemma seq_act_Inr_iff:
  "seq_act m n s = (Inr y, u) \<longleftrightarrow> (\<exists>x t. m s = (Inr x, t) \<and> n t = (Inr y, u))"
  by (simp add: seq_act_def bind_act_Inr_iff)

lemma bind_act_Inl_iff:
  "bind_act m f s = (Inl e, u) \<longleftrightarrow>
     m s = (Inl e, u) \<or> (\<exists>x t. m s = (Inr x, t) \<and> f x t = (Inl e, u))"
  by (auto simp: bind_act_def split: prod.splits sum.splits)

subsection \<open>State predicates kept by an action\<close>

text \<open>\<open>preserves P m\<close>: whatever \<open>m\<close> returns, it keeps \<open>P\<close>; used for frame and invariant facts.\<close>

definition preserves :: "('s \<Rightarrow> bool) \<Rightarrow> ('s, 'e, 'a) act \<Rightarrow> bool" where
  "preserves P m \<longleftrightarrow> (\<forall>s. P s \<longrightarrow> P (snd (m s)))"

lemma preservesI: "(\<And>s. P s \<Longrightarrow> P (snd (m s))) \<Longrightarrow> preserves P m"
  by (simp add: preserves_def)

lemma preservesD: "preserves P m \<Longrightarrow> P s \<Longrightarrow> m s = (r, t) \<Longrightarrow> P t"
  by (metis preserves_def snd_conv)

lemma preserves_basic [preserve_rules]:
  "preserves P (ok_act x)"
  "preserves P (err_act e)"
  "preserves P (lift_res r)"
  "preserves P (get_act f)"
  by (simp_all add: preserves_def)

lemma preserves_mod [preserve_rules]: "(\<And>s. P s \<Longrightarrow> P (h s)) \<Longrightarrow> preserves P (mod_act h)"
  by (simp add: preserves_def)

lemma preserves_bind [preserve_rules]:
  assumes "preserves P m" and "\<And>x. preserves P (f x)"
  shows "preserves P (bind_act m f)"
proof (rule preservesI)
  fix s assume s: "P s"
  obtain r t where m: "m s = (r, t)" by (cases "m s")
  with assms(1) s have t: "P t" by (blast dest: preservesD)
  show "P (snd (bind_act m f s))"
  proof (cases r)
    case (Inl e)
    with m t show ?thesis by (simp add: bind_act_def)
  next
    case (Inr x)
    obtain r' u where f: "f x t = (r', u)" by (cases "f x t")
    with assms(2) t have "P u" by (blast dest: preservesD)
    with m Inr f show ?thesis by (simp add: bind_act_def)
  qed
qed

lemma preserves_seq [preserve_rules]:
  "preserves P m \<Longrightarrow> preserves P n \<Longrightarrow> preserves P (seq_act m n)"
  by (simp add: seq_act_def preserves_bind)

lemma preserves_try [preserve_rules]: "preserves P m \<Longrightarrow> preserves P (try_act m)"
  by (auto simp: preserves_def try_act_def split: prod.splits)

lemma preserves_when [preserve_rules]: "preserves P m \<Longrightarrow> preserves P (when_act b m)"
  by (simp add: when_act_def preserves_basic)

lemma preserves_if [preserve_rules]:
  "preserves P m \<Longrightarrow> preserves P n \<Longrightarrow> preserves P (if b then m else n)"
  by simp

lemma preserves_each [preserve_rules]:
  "(\<And>x. x \<in> set xs \<Longrightarrow> preserves P (f x)) \<Longrightarrow> preserves P (each_act f xs)"
  by (induction xs) (auto intro!: preserve_rules)

end
