(* ===== verification/Fabric_Text.thy ===== *)
theory Fabric_Text
  imports Fabric_Prelude "HOL-Library.Char_ord" "HOL-Library.List_Lexorder" "HOL-Library.Sublist"
begin

text \<open>
  Text and bytes. A Rust \<^verbatim>\<open>String\<close> is the sequence of its UTF-8 bytes, held as an HOL \<^typ>\<open>string\<close>
  (one \<^typ>\<open>char\<close> per byte): \<^verbatim>\<open>len()\<close> is \<^const>\<open>length\<close>, and the order of strings is the byte-wise
  lexicographic order. Byte buffers are lists of 8-bit words. This theory models the parts of
  the standard library the sources use on them: UTF-8 validation, white space, ASCII case,
  decimal printing and parsing of integers, and little-endian integers.
\<close>

section \<open>Strings and bytes\<close>

definition as_bytes :: "string \<Rightarrow> u8 list" where
  "as_bytes s = map of_char s"

definition from_bytes :: "u8 list \<Rightarrow> string" where
  "from_bytes bs = map (\<lambda>b. char_of (unat b)) bs"

lemma unat_of_char [simp]: "unat (of_char c :: u8) = of_char c"
proof -
  have "(of_char c :: u8) = of_nat (of_char c)" by (simp only: of_nat_of_char)
  moreover have "(of_char c :: nat) < 256" by (rule nat_of_char_less_256)
  ultimately show ?thesis by (simp add: unat_of_nat del: of_nat_of_char)
qed

lemma unat_u8: "unat (b :: u8) < 256"
proof -
  have "unat b < 2 ^ LENGTH(8)" by (rule unsigned_less)
  then show ?thesis by simp
qed

lemma length_as_bytes [simp]: "length (as_bytes s) = length s"
  by (simp add: as_bytes_def)

lemma length_from_bytes [simp]: "length (from_bytes bs) = length bs"
  by (simp add: from_bytes_def)

lemma as_bytes_append [simp]: "as_bytes (s @ t) = as_bytes s @ as_bytes t"
  by (simp add: as_bytes_def)

lemma as_bytes_Nil [simp]: "as_bytes [] = []"
  by (simp add: as_bytes_def)

lemma from_as_bytes [simp]: "from_bytes (as_bytes s) = s"
  by (simp add: from_bytes_def as_bytes_def comp_def)

lemma as_from_bytes [simp]: "as_bytes (from_bytes bs) = bs"
proof -
  have "(of_char (char_of (unat b)) :: u8) = b" for b :: u8
  proof -
    have "unat b < 256" by (rule unat_u8)
    then have "unat (of_char (char_of (unat b)) :: u8) = unat b"
      by (simp add: of_char_of)
    then show ?thesis by (rule word_unat_eq_iff [THEN iffD2])
  qed
  then show ?thesis by (simp add: from_bytes_def as_bytes_def comp_def)
qed

section \<open>UTF-8 validation\<close>

text \<open>
  \<^verbatim>\<open>String::from_utf8\<close>: the well-formed byte sequences of the Unicode standard, with the error
  position and length the standard library reports. \<open>utf8_char\<close> looks at the first character:
  its width, or the length of the invalid sequence (\<^const>\<open>None\<close> when the input ends inside it).
\<close>

definition is_cont :: "u8 \<Rightarrow> bool" where
  "is_cont b \<longleftrightarrow> 0x80 \<le> b \<and> b < 0xC0"

definition second_ok3 :: "u8 \<Rightarrow> u8 \<Rightarrow> bool" where
  "second_ok3 a b \<longleftrightarrow>
     (if a = 0xE0 then 0xA0 \<le> b \<and> b < 0xC0
      else if a = 0xED then 0x80 \<le> b \<and> b < 0xA0
      else is_cont b)"

definition second_ok4 :: "u8 \<Rightarrow> u8 \<Rightarrow> bool" where
  "second_ok4 a b \<longleftrightarrow>
     (if a = 0xF0 then 0x90 \<le> b \<and> b < 0xC0
      else if a = 0xF4 then 0x80 \<le> b \<and> b < 0x90
      else is_cont b)"

fun utf8_char :: "u8 list \<Rightarrow> nat option + nat" where
  "utf8_char [] = Inl None"
| "utf8_char (a # bs) =
     (if a < 0x80 then Inr 1
      else if a < 0xC2 then Inl (Some 1)
      else if a < 0xE0 then
        (case bs of [] \<Rightarrow> Inl None
         | b # _ \<Rightarrow> if is_cont b then Inr 2 else Inl (Some 1))
      else if a < 0xF0 then
        (case bs of [] \<Rightarrow> Inl None
         | b # cs \<Rightarrow> if \<not> second_ok3 a b then Inl (Some 1)
             else (case cs of [] \<Rightarrow> Inl None
                   | c # _ \<Rightarrow> if is_cont c then Inr 3 else Inl (Some 2)))
      else if a < 0xF5 then
        (case bs of [] \<Rightarrow> Inl None
         | b # cs \<Rightarrow> if \<not> second_ok4 a b then Inl (Some 1)
             else (case cs of [] \<Rightarrow> Inl None
                   | c # ds \<Rightarrow> if \<not> is_cont c then Inl (Some 2)
                       else (case ds of [] \<Rightarrow> Inl None
                             | d # _ \<Rightarrow> if is_cont d then Inr 4 else Inl (Some 3))))
      else Inl (Some 1))"

lemma utf8_char_width: "utf8_char bs = Inr w \<Longrightarrow> 0 < w \<and> w \<le> length bs"
  by (induction bs rule: utf8_char.induct) (auto split: if_splits list.splits)

function utf8_check :: "nat \<Rightarrow> u8 list \<Rightarrow> (nat \<times> nat option) + unit" where
  "utf8_check i [] = Inr ()"
| "utf8_check i (b # bs) =
     (case utf8_char (b # bs) of
        Inl n \<Rightarrow> Inl (i, n)
      | Inr w \<Rightarrow> utf8_check (i + w) (drop w (b # bs)))"
  by pat_completeness auto
termination
proof (relation "measure (\<lambda>(i, bs). length bs)", goal_cases)
  case (2 i b bs w)
  then have "0 < w" using utf8_char_width [of "b # bs" w] by simp
  then show ?case by simp
qed simp

definition from_utf8 :: "u8 list \<Rightarrow> (nat \<times> nat option) + string" where
  "from_utf8 bs = res_bind (utf8_check 0 bs) (\<lambda>_. Inr (from_bytes bs))"

text \<open>A Rust string value: its bytes are valid UTF-8.\<close>

definition valid_str :: "string \<Rightarrow> bool" where
  "valid_str s \<longleftrightarrow> is_ok (utf8_check 0 (as_bytes s))"

lemma from_utf8_as_bytes [simp]: "valid_str s \<Longrightarrow> from_utf8 (as_bytes s) = Inr s"
  by (auto simp: valid_str_def from_utf8_def is_ok_iff)

lemma from_utf8_valid: "from_utf8 bs = Inr s \<Longrightarrow> valid_str s \<and> as_bytes s = bs"
  by (auto simp: valid_str_def from_utf8_def res_bind_Inr_iff)

text \<open>ASCII text is valid.\<close>

definition ascii_str :: "string \<Rightarrow> bool" where
  "ascii_str s \<longleftrightarrow> list_all (\<lambda>c. of_char c < (128 :: nat)) s"

lemma of_char_less_word: "(of_char c :: nat) < 128 \<Longrightarrow> (of_char c :: u8) < 0x80"
  by (simp add: word_less_nat_alt)

lemma utf8_check_ascii: "ascii_str s \<Longrightarrow> utf8_check i (as_bytes s) = Inr ()"
proof (induction s arbitrary: i)
  case Nil
  then show ?case by simp
next
  case (Cons c s)
  then have "(of_char c :: u8) < 0x80" and "ascii_str s"
    by (simp_all add: ascii_str_def of_char_less_word)
  with Cons.IH show ?case by (simp add: as_bytes_def)
qed

lemma ascii_str_valid: "ascii_str s \<Longrightarrow> valid_str s"
  by (simp add: valid_str_def utf8_check_ascii)

section \<open>White space\<close>

text \<open>
  \<^verbatim>\<open>char::is_whitespace\<close> is the Unicode property \<^verbatim>\<open>White_Space\<close>. \<open>ws_width\<close> is the number of bytes of
  a white space character at the front of a string (0 when there is none) and \<open>ws_width_rev\<close> the
  same for the end of a string that is given reversed.
\<close>

definition ascii_ws :: "nat \<Rightarrow> bool" where
  "ascii_ws n \<longleftrightarrow> n = 32 \<or> (9 \<le> n \<and> n \<le> 13)"

definition ws2 :: "nat \<Rightarrow> nat \<Rightarrow> bool" where
  "ws2 a b \<longleftrightarrow> a = 0xC2 \<and> (b = 0x85 \<or> b = 0xA0)"

definition ws3 :: "nat \<Rightarrow> nat \<Rightarrow> nat \<Rightarrow> bool" where
  "ws3 a b c \<longleftrightarrow>
     (a = 0xE1 \<and> b = 0x9A \<and> c = 0x80) \<or>
     (a = 0xE2 \<and> b = 0x80 \<and> ((0x80 \<le> c \<and> c \<le> 0x8A) \<or> c = 0xA8 \<or> c = 0xA9 \<or> c = 0xAF)) \<or>
     (a = 0xE2 \<and> b = 0x81 \<and> c = 0x9F) \<or>
     (a = 0xE3 \<and> b = 0x80 \<and> c = 0x80)"

fun ws_width :: "string \<Rightarrow> nat" where
  "ws_width [] = 0"
| "ws_width (a # s) =
     (if ascii_ws (of_char a) then 1
      else (case s of [] \<Rightarrow> 0
            | b # t \<Rightarrow> if ws2 (of_char a) (of_char b) then 2
                else (case t of [] \<Rightarrow> 0
                      | c # _ \<Rightarrow> if ws3 (of_char a) (of_char b) (of_char c) then 3 else 0)))"

fun ws_width_rev :: "string \<Rightarrow> nat" where
  "ws_width_rev [] = 0"
| "ws_width_rev (c # s) =
     (if ascii_ws (of_char c) then 1
      else (case s of [] \<Rightarrow> 0
            | b # t \<Rightarrow> if ws2 (of_char b) (of_char c) then 2
                else (case t of [] \<Rightarrow> 0
                      | a # _ \<Rightarrow> if ws3 (of_char a) (of_char b) (of_char c) then 3 else 0)))"

function skip_ws :: "(string \<Rightarrow> nat) \<Rightarrow> string \<Rightarrow> string" where
  "skip_ws w s = (if w s = 0 \<or> s = [] then s else skip_ws w (drop (w s) s))"
  by pat_completeness auto
termination
  by (relation "measure (\<lambda>(w, s). length s)") auto

declare skip_ws.simps [simp del]

definition trim_start :: "string \<Rightarrow> string" where
  "trim_start s = skip_ws ws_width s"

definition trim_end :: "string \<Rightarrow> string" where
  "trim_end s = rev (skip_ws ws_width_rev (rev s))"

definition trim :: "string \<Rightarrow> string" where
  "trim s = trim_end (trim_start s)"

abbreviation blank :: "string \<Rightarrow> bool" where
  "blank s \<equiv> trim s = []"

lemma skip_ws_Nil [simp]: "skip_ws w [] = []"
  by (simp add: skip_ws.simps)

lemma skip_ws_stop [simp]: "w s = 0 \<Longrightarrow> skip_ws w s = s"
  by (simp add: skip_ws.simps)

lemma blank_Nil [simp]: "blank []"
  by (simp add: trim_def trim_start_def trim_end_def)

lemma skip_ws_length: "length (skip_ws w s) \<le> length s"
proof (induction w s rule: skip_ws.induct)
  case (1 w s)
  show ?case
  proof (cases "w s = 0 \<or> s = []")
    case True
    then show ?thesis by (simp add: skip_ws.simps)
  next
    case False
    with 1 have "length (skip_ws w (drop (w s) s)) \<le> length (drop (w s) s)" by simp
    with False show ?thesis by (subst skip_ws.simps) simp
  qed
qed

lemma skip_ws_done: "w (skip_ws w s) = 0 \<or> skip_ws w s = []"
proof (induction w s rule: skip_ws.induct)
  case (1 w s)
  then show ?case by (cases "w s = 0 \<or> s = []") (auto simp: skip_ws.simps [of w s])
qed

lemma length_trim: "length (trim s) \<le> length s"
proof -
  have "length (trim s) \<le> length (trim_start s)"
    using skip_ws_length [of ws_width_rev "rev (trim_start s)"] by (simp add: trim_def trim_end_def)
  also have "\<dots> \<le> length s" by (simp add: trim_start_def skip_ws_length)
  finally show ?thesis .
qed

fun take_word :: "string \<Rightarrow> string" where
  "take_word [] = []"
| "take_word (c # s) = (if ws_width (c # s) > 0 then [] else c # take_word s)"

lemma take_word_Nil_iff: "take_word s = [] \<longleftrightarrow> s = [] \<or> ws_width s > 0"
  by (cases s) auto

function split_whitespace :: "string \<Rightarrow> string list" where
  "split_whitespace s =
     (let t = trim_start s in
      if t = [] then [] else take_word t # split_whitespace (drop (length (take_word t)) t))"
  by pat_completeness auto
termination
proof (relation "measure length", goal_cases)
  case (2 s t)
  then have "take_word t \<noteq> []"
    using skip_ws_done [of ws_width s] by (auto simp: take_word_Nil_iff trim_start_def)
  with 2 have "length (drop (length (take_word t)) t) < length t" by simp
  also have "length t \<le> length s" using 2 by (simp add: trim_start_def skip_ws_length)
  finally show ?case by simp
qed simp

declare split_whitespace.simps [simp del]

text \<open>Words made of ASCII characters that are no white space.\<close>

definition plain_char :: "char \<Rightarrow> bool" where
  "plain_char c \<longleftrightarrow> of_char c < (128 :: nat) \<and> \<not> ascii_ws (of_char c)"

lemma ws_width_plain: "plain_char c \<Longrightarrow> ws_width (c # s) = 0"
  by (auto simp: plain_char_def ws2_def ws3_def split: list.splits)

lemma ws_width_rev_plain: "plain_char c \<Longrightarrow> ws_width_rev (c # s) = 0"
  by (auto simp: plain_char_def ws2_def ws3_def split: list.splits)

lemma take_word_plain:
  assumes "list_all plain_char w" and "ascii_ws (of_char c)"
  shows "take_word (w @ c # s) = w"
  using assms(1)
proof (induction w)
  case Nil
  then show ?case using assms(2) by simp
next
  case (Cons x w)
  then show ?case using ws_width_plain [of x "w @ c # s"] by (simp del: ws_width.simps)
qed

lemma trim_start_plain: "plain_char c \<Longrightarrow> trim_start (c # s) = c # s"
  using ws_width_plain [of c s] by (simp add: trim_start_def del: ws_width.simps)

lemma trim_start_ws: "ascii_ws (of_char c) \<Longrightarrow> trim_start (c # s) = trim_start s"
  by (simp add: trim_start_def skip_ws.simps [of ws_width "c # s"])

lemma trim_start_Nil [simp]: "trim_start [] = []"
  by (simp add: trim_start_def)

lemma split_whitespace_word:
  assumes "list_all plain_char w" and "w \<noteq> []" and "ascii_ws (of_char c)"
  shows "split_whitespace (w @ c # s) = w # split_whitespace s"
proof -
  obtain x v where w: "w = x # v" using assms(2) by (cases w) auto
  with assms(1) have "plain_char x" by simp
  then have t: "trim_start (w @ c # s) = w @ c # s"
    using trim_start_plain [of x "v @ c # s"] w by simp
  have "split_whitespace (w @ c # s) = w # split_whitespace (c # s)"
    using assms t by (subst split_whitespace.simps) (simp add: take_word_plain)
  also have "split_whitespace (c # s) = split_whitespace s"
    by (simp only: split_whitespace.simps [of "c # s"] split_whitespace.simps [of s]
        trim_start_ws [OF assms(3)])
  finally show ?thesis .
qed

lemma split_whitespace_Nil [simp]: "split_whitespace [] = []"
  by (simp add: split_whitespace.simps)

lemma ws_width_rev_inside:
  assumes "plain_char c"
  shows "ws_width_rev (t @ [c]) \<le> length t"
proof (cases t)
  case Nil
  then show ?thesis using ws_width_rev_plain [OF assms] by (simp del: ws_width_rev.simps)
next
  case (Cons x u)
  from assms have c: "of_char c \<noteq> (0xC2 :: nat)" "of_char c \<noteq> (0xE1 :: nat)"
    "of_char c \<noteq> (0xE2 :: nat)" "of_char c \<noteq> (0xE3 :: nat)"
    by (auto simp: plain_char_def)
  show ?thesis
  proof (cases u)
    case Nil
    with Cons c show ?thesis by (simp add: ws2_def)
  next
    case (Cons y v)
    with \<open>t = x # u\<close> c show ?thesis by (cases v) (simp_all add: ws2_def ws3_def)
  qed
qed

lemma skip_ws_rev_plain:
  assumes "plain_char c"
  shows "skip_ws ws_width_rev (t @ [c]) \<noteq> []"
proof (induction t rule: length_induct)
  case (1 t)
  define n where "n = ws_width_rev (t @ [c])"
  have n: "n \<le> length t" unfolding n_def by (rule ws_width_rev_inside [OF assms])
  show ?case
  proof (cases "n = 0")
    case True
    then show ?thesis by (simp add: n_def)
  next
    case False
    with n have "length (drop n t) < length t" by simp
    with 1 have "skip_ws ws_width_rev (drop n t @ [c]) \<noteq> []" by blast
    moreover have "skip_ws ws_width_rev (t @ [c]) = skip_ws ws_width_rev (drop n t @ [c])"
      using False n by (subst skip_ws.simps) (simp add: n_def)
    ultimately show ?thesis by simp
  qed
qed

lemma not_blank_plain: "plain_char c \<Longrightarrow> \<not> blank (c # s)"
  using skip_ws_rev_plain [of c "rev s"] by (simp add: trim_def trim_start_plain trim_end_def)

lemma trim_plain: "list_all plain_char s \<Longrightarrow> trim s = s"
proof (cases s rule: rev_cases)
  case (snoc s' d)
  assume p: "list_all plain_char s"
  show ?thesis
  proof (cases s')
    case Nil
    with snoc p show ?thesis
      using trim_start_plain [of d "[]"] ws_width_rev_plain [of d "[]"] by (simp add: trim_def trim_end_def del: ws_width_rev.simps)
  next
    case (Cons c s'')
    with snoc p show ?thesis
      using trim_start_plain [of c "s'' @ [d]"] ws_width_rev_plain [of d "rev (c # s'')"]
      by (simp add: trim_def trim_end_def del: ws_width_rev.simps)
  qed
qed (simp add: trim_def trim_end_def)

section \<open>ASCII case\<close>

definition ascii_lower_char :: "char \<Rightarrow> char" where
  "ascii_lower_char c =
     (let n = (of_char c :: nat) in if 65 \<le> n \<and> n \<le> 90 then char_of (n + 32) else c)"

definition to_ascii_lowercase :: "string \<Rightarrow> string" where
  "to_ascii_lowercase s = map ascii_lower_char s"

definition eq_ignore_ascii_case :: "string \<Rightarrow> string \<Rightarrow> bool" where
  "eq_ignore_ascii_case s t \<longleftrightarrow> to_ascii_lowercase s = to_ascii_lowercase t"

lemma ascii_lower_char_idem [simp]: "ascii_lower_char (ascii_lower_char c) = ascii_lower_char c"
  by (auto simp: ascii_lower_char_def Let_def of_char_of)

lemma to_ascii_lowercase_idem [simp]:
  "to_ascii_lowercase (to_ascii_lowercase s) = to_ascii_lowercase s"
  by (simp add: to_ascii_lowercase_def)

section \<open>Prefixes and suffixes\<close>

definition starts_with :: "string \<Rightarrow> string \<Rightarrow> bool" where
  "starts_with p s \<longleftrightarrow> take (length p) s = p"

definition ends_with :: "string \<Rightarrow> string \<Rightarrow> bool" where
  "ends_with x s \<longleftrightarrow> length x \<le> length s \<and> drop (length s - length x) s = x"

definition strip_prefix :: "string \<Rightarrow> string \<Rightarrow> string option" where
  "strip_prefix p s = (if starts_with p s then Some (drop (length p) s) else None)"

definition strip_suffix :: "string \<Rightarrow> string \<Rightarrow> string option" where
  "strip_suffix x s = (if ends_with x s then Some (take (length s - length x) s) else None)"

lemma ends_with_iff: "ends_with x s \<longleftrightarrow> (\<exists>p. s = p @ x)"
proof
  assume "ends_with x s"
  then have "s = take (length s - length x) s @ x"
    by (metis append_take_drop_id ends_with_def)
  then show "\<exists>p. s = p @ x" by blast
qed (auto simp: ends_with_def)

lemma starts_with_iff: "starts_with p s \<longleftrightarrow> (\<exists>x. s = p @ x)"
proof
  assume "starts_with p s"
  then have "s = p @ drop (length p) s"
    by (metis append_take_drop_id starts_with_def)
  then show "\<exists>x. s = p @ x" by blast
qed (auto simp: starts_with_def)

lemma strip_suffix_Some [simp]: "strip_suffix x s = Some p \<longleftrightarrow> s = p @ x"
  by (auto simp: strip_suffix_def ends_with_iff)

lemma strip_prefix_Some [simp]: "strip_prefix p s = Some x \<longleftrightarrow> s = p @ x"
  by (auto simp: strip_prefix_def starts_with_iff)

section \<open>Decimal integers\<close>

definition digit_char :: "nat \<Rightarrow> char" where
  "digit_char d = char_of (48 + d)"

definition digit_val :: "char \<Rightarrow> nat option" where
  "digit_val c = (let n = (of_char c :: nat) in if 48 \<le> n \<and> n \<le> 57 then Some (n - 48) else None)"

fun show_nat :: "nat \<Rightarrow> string" where
  "show_nat n = (if n < 10 then [digit_char n] else show_nat (n div 10) @ [digit_char (n mod 10)])"

declare show_nat.simps [simp del]

text \<open>\<^verbatim>\<open>format!("{n:0width$}")\<close> pads with zeros on the left.\<close>

definition show_padded :: "nat \<Rightarrow> nat \<Rightarrow> string" where
  "show_padded width n = replicate (width - length (show_nat n)) (digit_char 0) @ show_nat n"

datatype parse_int_error = Empty | InvalidDigit | PosOverflow | NegOverflow

fun parse_digits :: "nat \<Rightarrow> nat \<Rightarrow> string \<Rightarrow> parse_int_error + nat" where
  "parse_digits m acc [] = Inr acc"
| "parse_digits m acc (c # cs) =
     (case digit_val c of
        None \<Rightarrow> Inl InvalidDigit
      | Some d \<Rightarrow> if acc * 10 + d \<le> m then parse_digits m (acc * 10 + d) cs else Inl PosOverflow)"

text \<open>\<^verbatim>\<open>str::parse\<close> for an unsigned type with maximum \<open>m\<close>: an optional plus sign, then digits.\<close>

definition parse_uint :: "nat \<Rightarrow> string \<Rightarrow> parse_int_error + nat" where
  "parse_uint m s =
     (case s of
        [] \<Rightarrow> Inl Empty
      | c # cs \<Rightarrow>
          if cs = [] \<and> (c = CHR ''+'' \<or> c = CHR ''-'') then Inl InvalidDigit
          else if c = CHR ''+'' then parse_digits m 0 cs
          else parse_digits m 0 s)"

abbreviation parse_u64 :: "string \<Rightarrow> u64 option" where
  "parse_u64 s \<equiv> res_ok (parse_uint u64_max s)"

fun show_parse_int_error :: "parse_int_error \<Rightarrow> string" where
  "show_parse_int_error Empty = ''cannot parse integer from empty string''"
| "show_parse_int_error InvalidDigit = ''invalid digit found in string''"
| "show_parse_int_error PosOverflow = ''number too large to fit in target type''"
| "show_parse_int_error NegOverflow = ''number too small to fit in target type''"

lemma digit_val_char [simp]: "d < 10 \<Longrightarrow> digit_val (digit_char d) = Some d"
  by (simp add: digit_val_def digit_char_def of_char_of)

lemma plain_digit [simp]: "d < 10 \<Longrightarrow> plain_char (digit_char d)"
  by (simp add: plain_char_def digit_char_def of_char_of ascii_ws_def)

lemma digit_char_sign: "d < 10 \<Longrightarrow> digit_char d \<noteq> CHR ''+'' \<and> digit_char d \<noteq> CHR ''-''"
proof -
  assume "d < 10"
  then have "digit_val (digit_char d) \<noteq> None" by simp
  moreover have "digit_val (CHR ''+'') = None" "digit_val (CHR ''-'') = None"
    by (simp_all add: digit_val_def)
  ultimately show ?thesis by metis
qed

lemma show_nat_nonempty [simp]: "show_nat n \<noteq> []"
  by (subst show_nat.simps) simp

lemma show_nat_digits: "c \<in> set (show_nat n) \<Longrightarrow> \<exists>d < 10. c = digit_char d"
proof (induction n rule: show_nat.induct)
  case (1 n)
  show ?case
  proof (cases "n < 10")
    case True
    with "1.prems" show ?thesis by (subst (asm) show_nat.simps) auto
  next
    case False
    with "1.prems" have "c \<in> set (show_nat (n div 10)) \<or> c = digit_char (n mod 10)"
      by (subst (asm) show_nat.simps) auto
    with "1.IH" [OF False] show ?thesis by (auto intro: exI [of _ "n mod 10"])
  qed
qed

lemma show_nat_plain: "list_all plain_char (show_nat n)"
  by (auto simp: list_all_iff dest: show_nat_digits)

lemma show_padded_digits: "c \<in> set (show_padded w n) \<Longrightarrow> \<exists>d < 10. c = digit_char d"
  by (auto simp: show_padded_def dest: show_nat_digits intro: exI [of _ 0])

lemma parse_digits_show:
  "acc * 10 ^ length (show_nat n) + n \<le> m \<Longrightarrow>
   parse_digits m acc (show_nat n @ s) = parse_digits m (acc * 10 ^ length (show_nat n) + n) s"
proof (induction n arbitrary: s rule: show_nat.induct)
  case (1 n)
  show ?case
  proof (cases "n < 10")
    case True
    with "1.prems" show ?thesis by (simp add: show_nat.simps [of n])
  next
    case False
    let ?q = "n div 10" and ?l = "length (show_nat (n div 10))"
    have len: "length (show_nat n) = Suc ?l" using False by (simp add: show_nat.simps [of n])
    have eq: "(acc * 10 ^ ?l + ?q) * 10 + n mod 10 = acc * 10 ^ Suc ?l + n"
      by (simp add: algebra_simps)
    with "1.prems" len have le: "(acc * 10 ^ ?l + ?q) * 10 + n mod 10 \<le> m" by simp
    have shrink: "x * 10 + y \<le> m \<Longrightarrow> x \<le> m" for x y :: nat by simp
    from le have "acc * 10 ^ ?l + ?q \<le> m" by (rule shrink)
    then have "parse_digits m acc (show_nat ?q @ [digit_char (n mod 10)] @ s) =
      parse_digits m (acc * 10 ^ ?l + ?q) ([digit_char (n mod 10)] @ s)"
      by (rule "1.IH" [OF False])
    also have "\<dots> = parse_digits m (acc * 10 ^ Suc ?l + n) s"
      using le eq by (simp add: algebra_simps)
    finally show ?thesis using False len by (simp add: show_nat.simps [of n])
  qed
qed

lemma parse_digits_zeros:
  "parse_digits m 0 (replicate k (digit_char 0) @ s) = parse_digits m 0 s"
  by (induction k) simp_all

lemma parse_uint_digits:
  assumes "s \<noteq> []" and "\<And>c. c \<in> set s \<Longrightarrow> \<exists>d < 10. c = digit_char d"
  shows "parse_uint m s = parse_digits m 0 s"
proof -
  obtain c cs where s: "s = c # cs" using assms(1) by (cases s) auto
  then obtain d where "d < 10" "c = digit_char d" using assms(2) by auto
  then have "c \<noteq> CHR ''+''" "c \<noteq> CHR ''-''" using digit_char_sign by auto
  with s show ?thesis by (simp add: parse_uint_def)
qed

lemma parse_show_nat [simp]:
  assumes "n \<le> m"
  shows "parse_uint m (show_nat n) = Inr n"
proof -
  have "parse_uint m (show_nat n) = parse_digits m 0 (show_nat n)"
    by (rule parse_uint_digits) (auto dest: show_nat_digits)
  with parse_digits_show [of 0 n m "[]"] assms show ?thesis by simp
qed

lemma parse_show_padded [simp]:
  assumes "n \<le> m"
  shows "parse_uint m (show_padded w n) = Inr n"
proof -
  have "parse_uint m (show_padded w n) = parse_digits m 0 (show_padded w n)"
    by (rule parse_uint_digits) (auto simp: show_padded_def dest: show_padded_digits show_nat_digits intro: exI [of _ 0])
  also have "\<dots> = Inr n"
    using assms parse_digits_show [of 0 n m "[]"] by (simp add: show_padded_def parse_digits_zeros)
  finally show ?thesis .
qed

lemma parse_digits_bound: "parse_digits m acc s = Inr n \<Longrightarrow> acc \<le> m \<Longrightarrow> n \<le> m"
  by (induction m acc s rule: parse_digits.induct) (auto split: option.splits if_splits)

lemma parse_uint_bound: "parse_uint m s = Inr n \<Longrightarrow> n \<le> m"
  by (auto simp: parse_uint_def simp del: parse_digits.simps
      dest: parse_digits_bound split: list.splits if_splits)

section \<open>Little-endian integers\<close>

fun le_bytes :: "nat \<Rightarrow> nat \<Rightarrow> u8 list" where
  "le_bytes 0 n = []"
| "le_bytes (Suc k) n = of_nat (n mod 256) # le_bytes k (n div 256)"

fun le_value :: "u8 list \<Rightarrow> nat" where
  "le_value [] = 0"
| "le_value (b # bs) = unat b + 256 * le_value bs"

lemma length_le_bytes [simp]: "length (le_bytes k n) = k"
  by (induction k arbitrary: n) simp_all

lemma le_value_le_bytes: "n < 256 ^ k \<Longrightarrow> le_value (le_bytes k n) = n"
proof (induction k arbitrary: n)
  case 0
  then show ?case by simp
next
  case (Suc k)
  then have "n div 256 < 256 ^ k" by (simp add: less_mult_imp_div_less mult.commute)
  then have "le_value (le_bytes k (n div 256)) = n div 256" by (rule Suc.IH)
  then show ?case by (simp add: unat_of_nat)
qed

lemma le_value_bound: "le_value bs < 256 ^ length bs"
proof (induction bs)
  case Nil
  then show ?case by simp
next
  case (Cons b bs)
  have "unat b < 256" by (rule unat_u8)
  with Cons show ?case by simp
qed

lemma le_bytes_le_value: "length bs = k \<Longrightarrow> le_bytes k (le_value bs) = bs"
proof (induction bs arbitrary: k)
  case Nil
  then show ?case by simp
next
  case (Cons b bs)
  have "unat b < 256" by (rule unat_u8)
  with Cons show ?case by auto
qed

end
