(* ===== verification/Segment_Dir.thy ===== *)
theory Segment_Dir
  imports Fabric_Text "HOL-Library.AList"
begin

text \<open>
  The directory a disk queue lives in, and the part of \<^verbatim>\<open>std::fs\<close> that
  \<^verbatim>\<open>crates/telemetry-buffer/src/lib.rs\<close> uses on it. A directory is an association list from file
  names to contents, in the order \<^verbatim>\<open>read_dir\<close> lists it. Every call can fail: the disk carries a
  schedule of faults, one entry per call, which says whether the call fails and, for a write, how
  many bytes reached the file before it did. The schedule \<open>no_faults\<close> never fails.

  The theory also holds the file names of the queue (\<^verbatim>\<open>segment_path\<close>, \<^verbatim>\<open>corrupt_segment_path\<close>,
  \<^verbatim>\<open>quarantine_reason_path\<close>) and the listing of segments (\<^verbatim>\<open>segment_ids\<close>), with the facts that relate
  names and identifiers.
\<close>

section \<open>Files and faults\<close>

datatype io_error = NotFound | UnexpectedEof | InvalidInput | InvalidUtf8 | OsError string

type_synonym dir_entries = "(string \<times> u8 list) list"
type_synonym fault = "nat \<times> string"

record disk =
  files :: dir_entries
  faults :: "nat \<Rightarrow> fault option"

abbreviation no_faults :: "nat \<Rightarrow> fault option" where
  "no_faults \<equiv> (\<lambda>_. None)"

type_synonym 'a fs = "(disk, io_error, 'a) act"

abbreviation has_file :: "dir_entries \<Rightarrow> string \<Rightarrow> bool" where
  "has_file d n \<equiv> map_of d n \<noteq> None"

definition content :: "dir_entries \<Rightarrow> string \<Rightarrow> u8 list" where
  "content d n = (case map_of d n of None \<Rightarrow> [] | Some bs \<Rightarrow> bs)"

definition next_call :: "disk \<Rightarrow> disk" where
  "next_call d = d\<lparr>faults := (\<lambda>n. faults d (Suc n))\<rparr>"

definition put_file :: "string \<Rightarrow> u8 list \<Rightarrow> disk \<Rightarrow> disk" where
  "put_file n bs d = d\<lparr>files := AList.update n bs (files d)\<rparr>"

definition drop_file :: "string \<Rightarrow> disk \<Rightarrow> disk" where
  "drop_file n d = d\<lparr>files := AList.delete n (files d)\<rparr>"

text \<open>A call that does nothing but may fail.\<close>

definition fs_call :: "unit fs" where
  "fs_call d =
     (case faults d 0 of
        None \<Rightarrow> (Inr (), next_call d)
      | Some (_, msg) \<Rightarrow> (Inl (OsError msg), next_call d))"

text \<open>\<^verbatim>\<open>Path::exists\<close> answers false when the metadata cannot be read.\<close>

definition fs_exists :: "string \<Rightarrow> disk \<Rightarrow> bool \<times> disk" where
  "fs_exists n d = (faults d 0 = None \<and> has_file (files d) n, next_call d)"

definition fs_read_dir :: "string list fs" where
  "fs_read_dir = seq_act fs_call (get_act (\<lambda>d. map fst (files d)))"

definition fs_read_file :: "string \<Rightarrow> u8 list fs" where
  "fs_read_file n =
     bind_act (get_act (\<lambda>d. map_of (files d) n)) (\<lambda>f. lift_res (ok_or NotFound f))"

definition fs_metadata_len :: "string \<Rightarrow> u64 fs" where
  "fs_metadata_len n = seq_act fs_call (bind_act (fs_read_file n) (\<lambda>bs. ok_act (length bs)))"

text \<open>\<^verbatim>\<open>File::create\<close> truncates an existing file.\<close>

definition fs_create :: "string \<Rightarrow> unit fs" where
  "fs_create n = seq_act fs_call (mod_act (put_file n []))"

text \<open>\<^verbatim>\<open>OpenOptions::new().create(true).append(true).open\<close> keeps the contents.\<close>

definition fs_open_append :: "string \<Rightarrow> unit fs" where
  "fs_open_append n = seq_act fs_call (mod_act (\<lambda>d. put_file n (content (files d) n) d))"

text \<open>\<^verbatim>\<open>write_all\<close> at the end of an open file; a failure may leave a prefix of the bytes behind.\<close>

definition fs_write_all :: "string \<Rightarrow> u8 list \<Rightarrow> unit fs" where
  "fs_write_all n bs d =
     (case faults d 0 of
        None \<Rightarrow> (Inr (), next_call (put_file n (content (files d) n @ bs) d))
      | Some (k, msg) \<Rightarrow>
          (Inl (OsError msg), next_call (put_file n (content (files d) n @ take k bs) d)))"

definition fs_write :: "string \<Rightarrow> u8 list \<Rightarrow> unit fs" where
  "fs_write n bs = seq_act (fs_create n) (fs_write_all n bs)"

definition fs_sync_data :: "unit fs" where
  "fs_sync_data = fs_call"

text \<open>
  An open file is its contents and its position. Seeking past the end is allowed, seeking past the
  signed 64-bit range is not. A short read is the error \<open>UnexpectedEof\<close>.
\<close>

record open_file =
  of_bytes :: "u8 list"
  of_pos :: nat

definition fs_open :: "string \<Rightarrow> open_file fs" where
  "fs_open n =
     seq_act fs_call
       (bind_act (fs_read_file n) (\<lambda>bs. ok_act \<lparr>of_bytes = bs, of_pos = 0\<rparr>))"

definition fs_seek :: "open_file \<Rightarrow> u64 \<Rightarrow> open_file fs" where
  "fs_seek f off =
     seq_act fs_call
       (if off \<le> 9223372036854775807 then ok_act (f\<lparr>of_pos := off\<rparr>) else err_act InvalidInput)"

definition fs_read_exact :: "open_file \<Rightarrow> nat \<Rightarrow> (u8 list \<times> open_file) fs" where
  "fs_read_exact f n =
     seq_act fs_call
       (if of_pos f + n \<le> length (of_bytes f)
        then ok_act (take n (drop (of_pos f) (of_bytes f)), f\<lparr>of_pos := of_pos f + n\<rparr>)
        else err_act UnexpectedEof)"

definition fs_read_to_string :: "string \<Rightarrow> string fs" where
  "fs_read_to_string n =
     seq_act fs_call
       (bind_act (fs_read_file n) (\<lambda>bs. lift_res (map_err (\<lambda>_. InvalidUtf8) (from_utf8 bs))))"

definition fs_rename :: "string \<Rightarrow> string \<Rightarrow> unit fs" where
  "fs_rename a b =
     seq_act fs_call
       (bind_act (fs_read_file a) (\<lambda>bs. mod_act (\<lambda>d. put_file b bs (drop_file a d))))"

definition fs_remove_file :: "string \<Rightarrow> unit fs" where
  "fs_remove_file n =
     seq_act fs_call (bind_act (fs_read_file n) (\<lambda>_. mod_act (drop_file n)))"

definition fs_create_dir_all :: "unit fs" where
  "fs_create_dir_all = fs_call"

section \<open>File names\<close>

definition SEGMENT_SUFFIX :: string where "SEGMENT_SUFFIX = ''.segment''"
definition CORRUPT_SUFFIX :: string where "CORRUPT_SUFFIX = ''.corrupt''"
definition CURSOR_FILE :: string where "CURSOR_FILE = ''cursor''"
definition CURSOR_TMP :: string where "CURSOR_TMP = ''cursor.tmp''"

definition segment_path :: "u64 \<Rightarrow> string" where
  "segment_path i = show_padded 20 i @ SEGMENT_SUFFIX"

text \<open>What \<^verbatim>\<open>segment_ids\<close> reads off one directory entry.\<close>

definition segment_id_of :: "string \<Rightarrow> u64 option" where
  "segment_id_of name =
     (case strip_suffix SEGMENT_SUFFIX name of None \<Rightarrow> None | Some s \<Rightarrow> parse_u64 s)"

definition ids_of :: "string list \<Rightarrow> u64 list" where
  "ids_of names = sort (List.map_filter segment_id_of names)"

definition segment_ids :: "u64 list fs" where
  "segment_ids = bind_act fs_read_dir (\<lambda>names. ok_act (ids_of names))"

fun total_segment_bytes_from :: "u64 \<Rightarrow> u64 list \<Rightarrow> u64 fs" where
  "total_segment_bytes_from acc [] = ok_act acc"
| "total_segment_bytes_from acc (i # ids) =
     bind_act (fs_metadata_len (segment_path i))
       (\<lambda>n. total_segment_bytes_from (add_u64 acc n) ids)"

definition total_segment_bytes :: "u64 list \<Rightarrow> u64 fs" where
  "total_segment_bytes segments = total_segment_bytes_from 0 segments"

definition corrupt_candidate :: "string \<Rightarrow> nat \<Rightarrow> string" where
  "corrupt_candidate source k =
     (if k = 0 then source @ CORRUPT_SUFFIX
      else source @ CORRUPT_SUFFIX @ ''.'' @ show_nat k)"

fun first_free :: "string list \<Rightarrow> disk \<Rightarrow> string option \<times> disk" where
  "first_free [] d = (None, d)"
| "first_free (c # cs) d =
     (case fs_exists c d of (there, d') \<Rightarrow> if there then first_free cs d' else (Some c, d'))"

definition corrupt_segment_path :: "string \<Rightarrow> disk \<Rightarrow> string option \<times> disk" where
  "corrupt_segment_path source d = first_free (map (corrupt_candidate source) [0..<1000]) d"

definition quarantine_reason_path :: "string \<Rightarrow> string" where
  "quarantine_reason_path corrupt_segment = corrupt_segment @ ''.reason''"

section \<open>Facts about files\<close>

abbreviation healthy :: "disk \<Rightarrow> bool" where
  "healthy d \<equiv> faults d = no_faults"

lemma next_call_healthy [simp]: "healthy d \<Longrightarrow> next_call d = d"
  by (simp add: next_call_def)

lemma files_next_call [simp]: "files (next_call d) = files d"
  by (simp add: next_call_def)

lemma put_file_simps [simp]:
  "map_of (files (put_file n bs d)) = (map_of (files d))(n \<mapsto> bs)"
  "faults (put_file n bs d) = faults d"
  "distinct (map fst (files d)) \<Longrightarrow> distinct (map fst (files (put_file n bs d)))"
  by (simp_all add: put_file_def update_conv' distinct_update)

lemma drop_file_simps [simp]:
  "map_of (files (drop_file n d)) = (map_of (files d))(n := None)"
  "faults (drop_file n d) = faults d"
  "distinct (map fst (files d)) \<Longrightarrow> distinct (map fst (files (drop_file n d)))"
  by (simp_all add: drop_file_def delete_conv' distinct_delete)

lemma content_Some [simp]: "map_of d n = Some bs \<Longrightarrow> content d n = bs"
  by (simp add: content_def)

lemma content_cong: "map_of d n = map_of d' n \<Longrightarrow> content d n = content d' n"
  by (simp add: content_def)

lemma healthy_calls [act_simps]:
  assumes "healthy d"
  shows "fs_call d = (Inr (), d)"
    and "fs_exists n d = (has_file (files d) n, d)"
    and "fs_read_dir d = (Inr (map fst (files d)), d)"
    and "fs_metadata_len n d =
           (case map_of (files d) n of None \<Rightarrow> Inl NotFound | Some bs \<Rightarrow> Inr (length bs), d)"
    and "fs_create n d = (Inr (), put_file n [] d)"
    and "fs_open_append n d = (Inr (), put_file n (content (files d) n) d)"
    and "fs_write_all n bs d = (Inr (), put_file n (content (files d) n @ bs) d)"
    and "fs_sync_data d = (Inr (), d)"
    and "fs_create_dir_all d = (Inr (), d)"
    and "segment_ids d = (Inr (ids_of (map fst (files d))), d)"
  using assms
  by (simp_all add: fs_call_def fs_exists_def fs_read_dir_def fs_metadata_len_def fs_read_file_def
      fs_create_def fs_open_append_def fs_write_all_def fs_sync_data_def fs_create_dir_all_def
      segment_ids_def seq_act_def bind_act_def split: option.splits)

lemma healthy_write [act_simps]:
  assumes "healthy d"
  shows "fs_write n bs d = (Inr (), put_file n bs (put_file n [] d))"
  using assms by (simp add: fs_write_def seq_act_step healthy_calls)

lemma healthy_reads [act_simps]:
  assumes "healthy d" and "map_of (files d) n = Some bs"
  shows "fs_open n d = (Inr \<lparr>of_bytes = bs, of_pos = 0\<rparr>, d)"
    and "fs_read_to_string n d = (map_err (\<lambda>_. InvalidUtf8) (from_utf8 bs), d)"
    and "fs_rename n m d = (Inr (), put_file m bs (drop_file n d))"
    and "fs_remove_file n d = (Inr (), drop_file n d)"
  using assms
  by (simp_all add: fs_open_def fs_read_file_def fs_read_to_string_def fs_rename_def
      fs_remove_file_def fs_call_def seq_act_def bind_act_def)

lemma healthy_cursor_ops [act_simps]:
  assumes "healthy d"
  shows "off \<le> 9223372036854775807 \<Longrightarrow> fs_seek f off d = (Inr (f\<lparr>of_pos := off\<rparr>), d)"
    and "of_pos f + n \<le> length (of_bytes f) \<Longrightarrow>
           fs_read_exact f n d =
             (Inr (take n (drop (of_pos f) (of_bytes f)), f\<lparr>of_pos := of_pos f + n\<rparr>), d)"
    and "length (of_bytes f) < of_pos f + n \<Longrightarrow> fs_read_exact f n d = (Inl UnexpectedEof, d)"
  using assms
  by (simp_all add: fs_seek_def fs_read_exact_def fs_call_def seq_act_def bind_act_def)

section \<open>Facts about names\<close>

lemma segment_id_of_path [simp]: "i \<le> u64_max \<Longrightarrow> segment_id_of (segment_path i) = Some i"
  by (simp add: segment_id_of_def segment_path_def strip_suffix_def ends_with_def)

lemma segment_path_inj [simp]:
  assumes "i \<le> u64_max" and "j \<le> u64_max"
  shows "segment_path i = segment_path j \<longleftrightarrow> i = j"
  using segment_id_of_path [OF assms(1)] segment_id_of_path [OF assms(2)]
  by (metis option.inject)

lemma segment_id_of_bound: "segment_id_of n = Some i \<Longrightarrow> i \<le> u64_max"
  by (auto simp: segment_id_of_def res_ok_def dest: parse_uint_bound
      split: option.splits sum.splits)

lemma segment_id_of_last:
  "n \<noteq> [] \<Longrightarrow> last n \<noteq> CHR ''t'' \<Longrightarrow> segment_id_of n = None"
  by (auto simp: segment_id_of_def SEGMENT_SUFFIX_def split: option.splits)

lemma digit_char_not_t: "d < 10 \<Longrightarrow> digit_char d \<noteq> CHR ''t''"
proof
  assume "d < 10" and "digit_char d = CHR ''t''"
  then have "digit_val CHR ''t'' = Some d" using digit_val_char by metis
  then show False by (simp add: digit_val_def)
qed

lemma last_show_nat: "last (show_nat n) \<noteq> CHR ''t''"
proof -
  have "last (show_nat n) \<in> set (show_nat n)" by simp
  then show ?thesis using digit_char_not_t by (metis show_nat_digits)
qed

lemma segment_id_of_corrupt [simp]: "segment_id_of (corrupt_candidate s k) = None"
proof (cases "k = 0")
  case True
  have "segment_id_of (s @ ''.corrupt'') = None"
  proof (cases "strip_suffix ''.segment'' (s @ ''.corrupt'')")
    case None
    then show ?thesis by (simp add: segment_id_of_def SEGMENT_SUFFIX_def)
  next
    case (Some p)
    then have "drop (length (s @ ''.corrupt'') - 8) (s @ ''.corrupt'') =
               drop (length (p @ ''.segment'') - 8) (p @ ''.segment'')" by simp
    then show ?thesis by simp
  qed
  with True show ?thesis by (simp add: corrupt_candidate_def CORRUPT_SUFFIX_def)
next
  case False
  then show ?thesis
    by (intro segment_id_of_last)
      (simp_all add: corrupt_candidate_def CORRUPT_SUFFIX_def last_show_nat)
qed

lemma segment_id_of_others [simp]:
  "segment_id_of (quarantine_reason_path s) = None"
  "segment_id_of CURSOR_FILE = None"
  "segment_id_of CURSOR_TMP = None"
  by (simp_all add: segment_id_of_last quarantine_reason_path_def CURSOR_FILE_def CURSOR_TMP_def)

lemma not_segment_path:
  "i \<le> u64_max \<Longrightarrow> segment_id_of n = None \<Longrightarrow> segment_path i \<noteq> n"
  using segment_id_of_path [of i] by auto

lemmas name_clash_simps [simp] =
  not_segment_path [OF _ segment_id_of_corrupt]
  not_segment_path [OF _ segment_id_of_others(1)]
  not_segment_path [OF _ segment_id_of_others(2)]
  not_segment_path [OF _ segment_id_of_others(3)]

end
