(* ===== verification/Disk_Queue.thy ===== *)
theory Disk_Queue
  imports Segment_Dir
begin

text \<open>
  The durable queue of \<^verbatim>\<open>crates/telemetry-buffer/src/lib.rs\<close>: append-only segment files, a cursor file,
  quarantine of corrupt segments. The queue value carries the disk of its directory, so that what an
  operation leaves behind after a failed call is part of the model. Operations are actions on the
  queue value: an early return keeps the updates made before it.
\<close>

section \<open>Data\<close>

datatype disk_queue_error =
  Io io_error
| CorruptSegment string
| PayloadTooLarge usize
| Sink string

fun show_disk_queue_error :: "(io_error \<Rightarrow> string) \<Rightarrow> disk_queue_error \<Rightarrow> string" where
  "show_disk_queue_error show_io (Io err) = ''disk queue I/O error: '' @ show_io err"
| "show_disk_queue_error show_io (CorruptSegment message) =
     ''corrupt disk queue segment: '' @ message"
| "show_disk_queue_error show_io (PayloadTooLarge n) =
     ''payload too large for disk queue: '' @ show_nat n"
| "show_disk_queue_error show_io (Sink message) = ''disk queue sink failed: '' @ message"

record disk_queue_options =
  max_segment_bytes :: u64
  fsync_on_write :: bool

definition default_disk_queue_options :: disk_queue_options where
  "default_disk_queue_options = \<lparr>max_segment_bytes = 64 * 1024 * 1024, fsync_on_write = False\<rparr>"

record cursor =
  segment_id :: u64
  offset :: u64

datatype read_step = ReadRecord "u8 list" cursor | ReadMove cursor | ReadEmpty

record pending_batch =
  payloads :: "u8 list list"
  next_cursor :: cursor
  should_commit :: bool

record disk_queue =
  dir :: disk
  options :: disk_queue_options
  active_segment_id :: u64
  active_segment_bytes :: u64
  queued_bytes :: u64
  cursor :: cursor

type_synonym 'a qact = "(disk_queue, disk_queue_error, 'a) act"

abbreviation RECORD_HEADER_LEN :: u64 where "RECORD_HEADER_LEN \<equiv> 8"

section \<open>Calls into the file system\<close>

text \<open>The conversion \<^verbatim>\<open>From<io::Error>\<close> of \<^verbatim>\<open>?\<close>, with the disk threaded through.\<close>

definition io_act :: "'a fs \<Rightarrow> (disk, disk_queue_error, 'a) act" where
  "io_act m d = (case m d of (r, d') \<Rightarrow> (map_err Io r, d'))"

definition fs_probe :: "(disk \<Rightarrow> 'a \<times> disk) \<Rightarrow> (disk, 'e, 'a) act" where
  "fs_probe f d = (case f d of (x, d') \<Rightarrow> (Inr x, d'))"

text \<open>The same calls from a method, on the disk of the queue.\<close>

definition via_dir :: "(disk, disk_queue_error, 'a) act \<Rightarrow> 'a qact" where
  "via_dir m q = (case m (dir q) of (r, d) \<Rightarrow> (r, q\<lparr>dir := d\<rparr>))"

definition on_disk :: "'a fs \<Rightarrow> 'a qact" where
  "on_disk m = via_dir (io_act m)"

definition probe :: "(disk \<Rightarrow> 'a \<times> disk) \<Rightarrow> 'a qact" where
  "probe f = via_dir (fs_probe f)"

section \<open>Record format\<close>

definition checksum32 :: "u8 list \<Rightarrow> u32" where
  "checksum32 payload =
     foldl (\<lambda>hash byte. xor hash (ucast byte) * 0x01000193) 0x811c9dc5 payload"

definition storage_bytes_for_payload :: "usize \<Rightarrow> disk_queue_error + u64" where
  "storage_bytes_for_payload payload_len =
     (if payload_len > u32_max then Inl (PayloadTooLarge payload_len)
      else Inr (add_u64 RECORD_HEADER_LEN payload_len))"

section \<open>The cursor file\<close>

definition read_cursor :: "cursor option fs" where
  "read_cursor =
     bind_act (fs_probe (fs_exists CURSOR_FILE)) (\<lambda>there.
     if \<not> there then ok_act None
     else bind_act (fs_read_to_string CURSOR_FILE) (\<lambda>text.
       ok_act
         (case split_whitespace text of
            a # b # _ \<Rightarrow>
              (case (parse_u64 a, parse_u64 b) of
                 (Some seg, Some off) \<Rightarrow> Some \<lparr>segment_id = seg, offset = off\<rparr>
               | _ \<Rightarrow> None)
          | _ \<Rightarrow> None)))"

definition cursor_text :: "cursor \<Rightarrow> string" where
  "cursor_text c = show_nat (segment_id c) @ '' '' @ show_nat (offset c) @ ''\<newline>''"

definition persist_cursor :: "cursor \<Rightarrow> unit fs" where
  "persist_cursor c =
     seq_act (fs_write CURSOR_TMP (as_bytes (cursor_text c))) (fs_rename CURSOR_TMP CURSOR_FILE)"

section \<open>Opening\<close>

definition disk_queue_open :: "disk_queue_options \<Rightarrow> (disk, disk_queue_error, disk_queue) act" where
  "disk_queue_open opts =
     (bind_act (io_act fs_create_dir_all) (\<lambda>_.
      bind_act (io_act segment_ids) (\<lambda>segments.
      let active = (if segments = [] then 1 else Max (set segments));
          active_path = segment_path active in
      bind_act (fs_probe (fs_exists active_path)) (\<lambda>there.
      bind_act (when_act (\<not> there) (io_act (fs_create active_path))) (\<lambda>_.
      bind_act (io_act (fs_metadata_len active_path)) (\<lambda>active_bytes.
      bind_act (io_act (total_segment_bytes segments)) (\<lambda>queued.
      bind_act (io_act read_cursor) (\<lambda>saved.
      let c = (case saved of
                 Some c \<Rightarrow> c
               | None \<Rightarrow>
                   \<lparr>segment_id = (if segments = [] then active else Min (set segments)),
                    offset = 0\<rparr>) in
      bind_act (io_act (persist_cursor c)) (\<lambda>_.
      get_act (\<lambda>d.
        \<lparr>dir = d, options = opts, active_segment_id = active, active_segment_bytes = active_bytes,
         queued_bytes = queued, cursor = c\<rparr>))))))))))"

section \<open>Writing\<close>

definition rotate_segment :: "unit qact" where
  "rotate_segment =
     bind_act (get_act active_segment_id) (\<lambda>active.
     bind_act (lift_res (ok_or (CorruptSegment ''segment id overflow'') (checked_add_u64 active 1)))
       (\<lambda>new_id.
     seq_act (mod_act (\<lambda>q. q\<lparr>active_segment_id := new_id, active_segment_bytes := 0\<rparr>))
       (on_disk (fs_create (segment_path new_id)))))"

definition record_header :: "u8 list \<Rightarrow> u8 list" where
  "record_header payload = le_bytes 4 (length payload) @ le_bytes 4 (unat (checksum32 payload))"

text \<open>The second half of \<^verbatim>\<open>enqueue\<close>: open the active segment, write, account.\<close>

definition append_record :: "u8 list \<Rightarrow> u64 \<Rightarrow> unit qact" where
  "append_record payload record_len =
     bind_act (get_act (\<lambda>q. segment_path (active_segment_id q))) (\<lambda>path.
     seq_act (on_disk (fs_open_append path))
     (seq_act (on_disk (fs_write_all path (le_bytes 4 (length payload))))
     (seq_act (on_disk (fs_write_all path (le_bytes 4 (unat (checksum32 payload)))))
     (seq_act (on_disk (fs_write_all path payload))
     (bind_act (get_act (\<lambda>q. fsync_on_write (options q))) (\<lambda>fsync.
     seq_act (when_act fsync (on_disk fs_sync_data))
     (mod_act (\<lambda>q. q\<lparr>active_segment_bytes := add_u64 (active_segment_bytes q) record_len,
                     queued_bytes := add_u64 (queued_bytes q) record_len\<rparr>))))))))"

definition enqueue :: "u8 list \<Rightarrow> unit qact" where
  "enqueue payload =
     (if length payload > u32_max then err_act (PayloadTooLarge (length payload))
      else
        bind_act (lift_res (storage_bytes_for_payload (length payload))) (\<lambda>record_len.
        bind_act (get_act (\<lambda>q. active_segment_bytes q > 0 \<and>
                     add_u64 (active_segment_bytes q) record_len > max_segment_bytes (options q)))
          (\<lambda>full.
        seq_act (when_act full rotate_segment) (append_record payload record_len))))"

section \<open>Reading\<close>

definition next_segment_after :: "u64 \<Rightarrow> u64 option qact" where
  "next_segment_after current =
     bind_act (on_disk segment_ids) (\<lambda>ids.
       let later = filter (\<lambda>i. i > current) ids in
       ok_act (if later = [] then None else Some (Min (set later))))"

definition next_cursor_after :: "u64 \<Rightarrow> cursor option qact" where
  "next_cursor_after current =
     bind_act (next_segment_after current) (\<lambda>n.
       ok_act (map_option (\<lambda>seg. \<lparr>segment_id = seg, offset = 0\<rparr>) n))"

text \<open>\<^verbatim>\<open>.map_or(ReadStep::Empty, ReadStep::Move)\<close>\<close>

definition move_or_empty :: "cursor option \<Rightarrow> read_step" where
  "move_or_empty c = (case c of None \<Rightarrow> ReadEmpty | Some c \<Rightarrow> ReadMove c)"

definition move_after :: "u64 \<Rightarrow> read_step qact" where
  "move_after seg = bind_act (next_cursor_after seg) (\<lambda>c. ok_act (move_or_empty c))"

definition quarantine_segment :: "u64 \<Rightarrow> string \<Rightarrow> unit qact" where
  "quarantine_segment seg reason =
     (let source = segment_path seg in
      bind_act (probe (fs_exists source)) (\<lambda>there.
      if \<not> there then ok_act ()
      else
        bind_act (on_disk (fs_metadata_len source)) (\<lambda>source_bytes.
        bind_act (probe (corrupt_segment_path source)) (\<lambda>candidate.
        bind_act (lift_res (ok_or
            (CorruptSegment (''could not allocate quarantine path for '' @ source)) candidate))
          (\<lambda>destination.
        seq_act (on_disk (fs_rename source destination))
        (seq_act (mod_act (\<lambda>q. q\<lparr>queued_bytes := saturating_sub_u64 (queued_bytes q) source_bytes\<rparr>))
        (on_disk (fs_write (quarantine_reason_path destination)
           (as_bytes (reason @ ''\<newline>''))))))))))"

definition quarantine_and_advance :: "u64 \<Rightarrow> string \<Rightarrow> read_step qact" where
  "quarantine_and_advance seg reason =
     seq_act (quarantine_segment seg reason)
     (bind_act (get_act active_segment_id) (\<lambda>active.
      if seg \<ge> active then
        bind_act (lift_res (ok_or (CorruptSegment ''segment id overflow'') (checked_add_u64 seg 1)))
          (\<lambda>new_id.
        seq_act (mod_act (\<lambda>q. q\<lparr>active_segment_id := new_id, active_segment_bytes := 0\<rparr>))
        (seq_act (on_disk (fs_create (segment_path new_id)))
        (ok_act (ReadMove \<lparr>segment_id = new_id, offset = 0\<rparr>))))
      else move_after seg))"

definition read_payload_at :: "cursor \<Rightarrow> open_file \<Rightarrow> u8 list \<Rightarrow> read_step qact" where
  "read_payload_at c file header =
     (let len = le_value (take 4 header);
          expected_checksum = (of_nat (le_value (drop 4 header)) :: u32);
          at = '' in segment '' @ show_nat (segment_id c) @ '' at offset '' @ show_nat (offset c) in
      bind_act (try_act (on_disk (fs_read_exact file len))) (\<lambda>r.
      case r of
        Inl err \<Rightarrow>
          if err = Io UnexpectedEof
          then quarantine_and_advance (segment_id c) (''truncated record'' @ at)
          else err_act err
      | Inr (payload, _) \<Rightarrow>
          if checksum32 payload \<noteq> expected_checksum
          then quarantine_and_advance (segment_id c) (''checksum mismatch'' @ at)
          else ok_act (ReadRecord payload
                 \<lparr>segment_id = segment_id c,
                  offset = add_u64 (add_u64 (offset c) RECORD_HEADER_LEN) len\<rparr>)))"

definition read_step_at :: "cursor \<Rightarrow> read_step qact" where
  "read_step_at c =
     (let path = segment_path (segment_id c) in
      bind_act (probe (fs_exists path)) (\<lambda>there.
      if \<not> there then move_after (segment_id c)
      else
        bind_act (on_disk (fs_open path)) (\<lambda>file0.
        bind_act (on_disk (fs_seek file0 (offset c))) (\<lambda>file1.
        bind_act (try_act (on_disk (fs_read_exact file1 RECORD_HEADER_LEN))) (\<lambda>r.
        case r of
          Inl err \<Rightarrow>
            if err = Io UnexpectedEof
            then bind_act (get_act active_segment_id) (\<lambda>active.
              if segment_id c < active
              then move_after (segment_id c)
              else ok_act ReadEmpty)
            else err_act err
        | Inr (header, file2) \<Rightarrow> read_payload_at c file2 header)))))"

section \<open>Committing\<close>

definition remove_segment :: "u64 \<Rightarrow> unit qact" where
  "remove_segment i =
     (let path = segment_path i in
      bind_act (probe (fs_exists path)) (\<lambda>there.
      when_act there
        (bind_act (on_disk (fs_metadata_len path)) (\<lambda>removed_bytes.
         seq_act (on_disk (fs_remove_file path))
           (mod_act (\<lambda>q.
              q\<lparr>queued_bytes := saturating_sub_u64 (queued_bytes q) removed_bytes\<rparr>))))))"

definition remove_segments_before :: "u64 \<Rightarrow> unit qact" where
  "remove_segments_before seg =
     bind_act (on_disk segment_ids) (\<lambda>ids. each_act remove_segment (filter (\<lambda>i. i < seg) ids))"

definition commit_cursor :: "cursor \<Rightarrow> unit qact" where
  "commit_cursor c =
     seq_act (mod_act (\<lambda>q. q\<lparr>cursor := c\<rparr>))
     (seq_act (remove_segments_before (segment_id c))
     (bind_act (get_act cursor) (\<lambda>c'. on_disk (persist_cursor c'))))"

definition commit_batch :: "pending_batch \<Rightarrow> usize qact" where
  "commit_batch batch =
     (let len = length (payloads batch) in
      seq_act (when_act (len > 0 \<or> should_commit batch) (commit_cursor (next_cursor batch)))
        (ok_act len))"

definition cursor_position :: "disk_queue \<Rightarrow> u64 \<times> u64" where
  "cursor_position q = (segment_id (cursor q), offset (cursor q))"

section \<open>Reading always ends\<close>

lemma fs_call_files: "fs_call d = (r, d') \<Longrightarrow> files d' = files d"
  by (auto simp: fs_call_def split: option.splits)

lemma fs_read_ops_files:
  "fs_read_dir d = (r, d') \<Longrightarrow> files d' = files d"
  "fs_read_file n d = (r1, d') \<Longrightarrow> files d' = files d"
  "fs_metadata_len n d = (r2, d') \<Longrightarrow> files d' = files d"
  "fs_open n d = (r3, d') \<Longrightarrow> files d' = files d"
  "fs_seek f k d = (r4, d') \<Longrightarrow> files d' = files d"
  "fs_read_exact f k d = (r5, d') \<Longrightarrow> files d' = files d"
  "segment_ids d = (r6, d') \<Longrightarrow> files d' = files d"
  by (auto simp: fs_read_dir_def fs_read_file_def fs_metadata_len_def fs_open_def fs_seek_def
      fs_read_exact_def segment_ids_def seq_act_def bind_act_def
      split: prod.splits sum.splits if_splits dest!: fs_call_files)

lemma first_free_files: "first_free cs d = (r, d') \<Longrightarrow> files d' = files d"
  by (induction cs arbitrary: d) (auto simp: fs_exists_def split: if_splits)

lemma first_free_in: "first_free cs d = (Some c, d') \<Longrightarrow> c \<in> set cs"
  by (induction cs arbitrary: d) (auto split: if_splits prod.splits)

lemma segment_ids_Inr: "segment_ids d = (Inr ids, d') \<Longrightarrow> ids = ids_of (map fst (files d))"
  by (auto simp: segment_ids_def fs_read_dir_def bind_act_Inr_iff seq_act_Inr_iff dest: fs_call_files)

lemma on_disk_iff:
  "on_disk m q = (Inr x, q') \<longleftrightarrow> (\<exists>d. m (dir q) = (Inr x, d) \<and> q' = q\<lparr>dir := d\<rparr>)"
  by (auto simp: on_disk_def via_dir_def io_act_def split: prod.splits)

lemma probe_iff: "probe f q = (r, q') \<longleftrightarrow> (\<exists>x d. f (dir q) = (x, d) \<and> r = Inr x \<and> q' = q\<lparr>dir := d\<rparr>)"
  by (auto simp: probe_def via_dir_def fs_probe_def split: prod.splits)

text \<open>How many segments lie beyond an identifier.\<close>

definition ids_beyond :: "u64 \<Rightarrow> dir_entries \<Rightarrow> u64 list" where
  "ids_beyond c d = filter (\<lambda>i. i > c) (ids_of (map fst d))"

definition name_beyond :: "u64 \<Rightarrow> string \<Rightarrow> bool" where
  "name_beyond c n \<longleftrightarrow> (case segment_id_of n of None \<Rightarrow> False | Some i \<Rightarrow> i > c)"

lemma length_ids_beyond: "length (ids_beyond c d) = length (filter (name_beyond c) (map fst d))"
proof -
  have "length (filter P (sort xs)) = length (filter P xs)" for P and xs :: "nat list"
    by (simp add: filter_sort)
  then have "length (ids_beyond c d) =
      length (filter (\<lambda>i. i > c) (List.map_filter segment_id_of (map fst d)))"
    by (simp add: ids_beyond_def ids_of_def)
  also have "\<dots> = length (filter (name_beyond c) (map fst d))"
    by (induction d) (auto simp: name_beyond_def map_filter_simps split: option.splits)
  finally show ?thesis .
qed

lemma ids_beyond_update:
  "\<not> name_beyond c n \<Longrightarrow> length (ids_beyond c (AList.update n bs d)) = length (ids_beyond c d)"
  by (simp only: length_ids_beyond update_keys) auto

lemma ids_beyond_delete: "length (ids_beyond c (AList.delete n d)) \<le> length (ids_beyond c d)"
  unfolding length_ids_beyond
  by (induction d) (auto simp: delete_simps)

lemma ids_beyond_mono: "c \<le> c' \<Longrightarrow> length (ids_beyond c' d) \<le> length (ids_beyond c d)"
  unfolding length_ids_beyond
  by (induction d) (auto simp: name_beyond_def split: option.splits)

lemma ids_beyond_Min:
  assumes "ids_beyond c d \<noteq> []"
  shows "length (ids_beyond (Min (set (ids_beyond c d))) d) < length (ids_beyond c d)"
proof -
  let ?m = "Min (set (ids_beyond c d))"
  have m: "?m \<in> set (ids_beyond c d)" using assms by (intro Min_in) auto
  then have c: "c < ?m" by (simp add: ids_beyond_def)
  then have "ids_beyond ?m d = filter (\<lambda>i. i > ?m) (ids_beyond c d)"
    by (auto simp: ids_beyond_def intro!: filter_cong)
  then show ?thesis using m length_filter_less [of ?m "ids_beyond c d" "\<lambda>i. i > ?m"] by simp
qed

definition read_measure :: "cursor \<Rightarrow> disk_queue \<Rightarrow> nat" where
  "read_measure c q =
     2 * length (ids_beyond (segment_id c) (files (dir q))) +
     (if 8 \<le> length (content (files (dir q)) (segment_path (segment_id c))) then 1 else 0)"

lemma next_cursor_after_Some:
  assumes "next_cursor_after seg q = (Inr (Some c), q')"
  shows "files (dir q') = files (dir q)"
    and "length (ids_beyond (segment_id c) (files (dir q))) < length (ids_beyond seg (files (dir q)))"
proof -
  from assms obtain ids d where ids: "segment_ids (dir q) = (Inr ids, d)" and q': "q' = q\<lparr>dir := d\<rparr>"
    and ne: "filter (\<lambda>i. i > seg) ids \<noteq> []"
    and c: "segment_id c = Min (set (filter (\<lambda>i. i > seg) ids))"
    by (auto simp: next_cursor_after_def next_segment_after_def bind_act_Inr_iff on_disk_iff Let_def
        split: if_splits)
  have i: "filter (\<lambda>i. i > seg) ids = ids_beyond seg (files (dir q))"
    using segment_ids_Inr [OF ids] by (simp add: ids_beyond_def)
  from ids q' show "files (dir q') = files (dir q)" by (auto dest: fs_read_ops_files(7))
  show "length (ids_beyond (segment_id c) (files (dir q))) < length (ids_beyond seg (files (dir q)))"
    using ids_beyond_Min [of seg "files (dir q)"] ne unfolding c i by simp
qed

lemma move_after_measure:
  assumes "move_after seg q = (Inr (ReadMove c'), q')"
  shows "read_measure c' q' < 2 * length (ids_beyond seg (files (dir q)))"
proof -
  have "next_cursor_after seg q = (Inr (Some c'), q')"
    using assms by (auto simp: move_after_def bind_act_Inr_iff move_or_empty_def split: option.splits)
  from next_cursor_after_Some [OF this] show ?thesis by (simp add: read_measure_def)
qed

lemma fs_rename_Inr:
  "fs_rename a b d = (Inr u, d') \<Longrightarrow>
     \<exists>bs. map_of (files d) a = Some bs \<and>
          files d' = AList.update b bs (AList.delete a (files d))"
  by (auto simp: fs_rename_def fs_read_file_def seq_act_Inr_iff bind_act_Inr_iff put_file_def
      drop_file_def dest: fs_call_files)

lemma fs_create_Inr: "fs_create n d = (Inr u, d') \<Longrightarrow> files d' = AList.update n [] (files d)"
  by (auto simp: fs_create_def seq_act_Inr_iff put_file_def dest: fs_call_files)

lemma fs_write_Inr:
  "fs_write n bs d = (Inr u, d') \<Longrightarrow>
     files d' = AList.update n bs (files d)"
  by (auto simp: fs_write_def fs_write_all_def seq_act_Inr_iff put_file_def content_def update_conv'
      dest!: fs_create_Inr split: option.splits)

lemma quarantine_segment_Inr:
  assumes "quarantine_segment seg reason q = (Inr u, q')"
  shows "files (dir q') = files (dir q) \<or>
    (\<exists>dest bs r t. dest \<in> range (corrupt_candidate (segment_path seg)) \<and>
       r = quarantine_reason_path dest \<and>
       files (dir q') = AList.update r t
         (AList.update dest bs (AList.delete (segment_path seg) (files (dir q)))))"
    and "active_segment_id q' = active_segment_id q"
proof -
  obtain there d0 where d0: "fs_exists (segment_path seg) (dir q) = (there, d0)"
    by fastforce
  then have f0: "files d0 = files (dir q)" by (auto simp: fs_exists_def)
  have "files (dir q') = files (dir q) \<and> active_segment_id q' = active_segment_id q" if "\<not> there"
    using assms that d0 f0
    by (auto simp: quarantine_segment_def Let_def bind_act_Inr_iff probe_iff)
  moreover have "active_segment_id q' = active_segment_id q \<and>
     (\<exists>dest bs r t. dest \<in> range (corrupt_candidate (segment_path seg)) \<and>
       r = quarantine_reason_path dest \<and>
       files (dir q') = AList.update r t
         (AList.update dest bs (AList.delete (segment_path seg) (files (dir q)))))" if there
  proof -
    from assms that d0 obtain k d1 dest d2 d3 d4 where
      k: "fs_metadata_len (segment_path seg) d0 = (Inr k, d1)"
      and c: "corrupt_segment_path (segment_path seg) d1 = (Some dest, d2)"
      and r: "fs_rename (segment_path seg) dest d2 = (Inr (), d3)"
      and w: "fs_write (quarantine_reason_path dest) (as_bytes (reason @ ''\<newline>'')) d3 = (Inr (), d4)"
      and q': "dir q' = d4" "active_segment_id q' = active_segment_id q"
      by (auto simp: quarantine_segment_def Let_def bind_act_Inr_iff seq_act_Inr_iff probe_iff
          on_disk_iff)
    have d2: "files d2 = files (dir q)"
      using f0 fs_read_ops_files(3) [OF k] first_free_files c
      by (metis corrupt_segment_path_def)
    have "dest \<in> range (corrupt_candidate (segment_path seg))"
      using c by (auto simp: corrupt_segment_path_def dest!: first_free_in)
    with fs_rename_Inr [OF r] fs_write_Inr [OF w] d2 q' show ?thesis by metis
  qed
  ultimately show "files (dir q') = files (dir q) \<or>
    (\<exists>dest bs r t. dest \<in> range (corrupt_candidate (segment_path seg)) \<and>
       r = quarantine_reason_path dest \<and>
       files (dir q') = AList.update r t
         (AList.update dest bs (AList.delete (segment_path seg) (files (dir q)))))"
    and "active_segment_id q' = active_segment_id q" by blast+
qed

lemma quarantine_segment_beyond:
  assumes "quarantine_segment seg reason q = (Inr u, q')"
  shows "length (ids_beyond c (files (dir q'))) \<le> length (ids_beyond c (files (dir q)))"
  using quarantine_segment_Inr(1) [OF assms]
  by (auto simp: ids_beyond_update name_beyond_def ids_beyond_delete)

lemma quarantine_and_advance_measure:
  assumes "quarantine_and_advance seg reason q = (Inr (ReadMove c'), q')"
  shows "read_measure c' q' < 2 * length (ids_beyond seg (files (dir q))) + 1"
proof -
  from assms obtain q1 where q1: "quarantine_segment seg reason q = (Inr (), q1)"
    and rest: "(if seg \<ge> active_segment_id q1 then
        bind_act (lift_res (ok_or (CorruptSegment ''segment id overflow'') (checked_add_u64 seg 1)))
          (\<lambda>new_id.
        seq_act (mod_act (\<lambda>q. q\<lparr>active_segment_id := new_id, active_segment_bytes := 0\<rparr>))
        (seq_act (on_disk (fs_create (segment_path new_id)))
        (ok_act (ReadMove \<lparr>segment_id = new_id, offset = 0\<rparr>)))) q1
      else move_after seg q1)
      = (Inr (ReadMove c'), q')"
    by (auto simp: quarantine_and_advance_def seq_act_Inr_iff bind_act_Inr_iff split: if_splits)
  note len = quarantine_segment_beyond [OF q1, of seg]
  show ?thesis
  proof (cases "seg \<ge> active_segment_id q1")
    case True
    with rest have f: "files (dir q') = AList.update (segment_path (Suc seg)) [] (files (dir q1))"
      and c: "segment_id c' = Suc seg" and "Suc seg \<le> u64_max"
      by (auto simp: bind_act_Inr_iff seq_act_Inr_iff on_disk_iff dest!: fs_create_Inr)
    then have "\<not> name_beyond (Suc seg) (segment_path (Suc seg))" by (simp add: name_beyond_def)
    with f c have "read_measure c' q' = 2 * length (ids_beyond (Suc seg) (files (dir q1)))"
      by (simp add: read_measure_def ids_beyond_update content_def update_conv')
    also have "\<dots> \<le> 2 * length (ids_beyond seg (files (dir q1)))"
      using ids_beyond_mono [of seg "Suc seg"] by simp
    finally show ?thesis using len by simp
  next
    case False
    with rest move_after_measure [of seg q1 c' q'] len show ?thesis by simp
  qed
qed

lemma fs_open_Inr:
  "fs_open n d = (Inr f, d') \<Longrightarrow>
     \<exists>bs. map_of (files d) n = Some bs \<and> f = \<lparr>of_bytes = bs, of_pos = 0\<rparr>"
  by (auto simp: fs_open_def fs_read_file_def seq_act_Inr_iff bind_act_Inr_iff dest: fs_call_files)

lemma fs_seek_Inr: "fs_seek f k d = (Inr f', d') \<Longrightarrow> f' = f\<lparr>of_pos := k\<rparr>"
  by (auto simp: fs_seek_def seq_act_Inr_iff split: if_splits)

lemma fs_read_exact_Inr:
  "fs_read_exact f k d = (Inr (bs, f'), d') \<Longrightarrow>
     of_pos f + k \<le> length (of_bytes f) \<and> bs = take k (drop (of_pos f) (of_bytes f)) \<and>
     f' = f\<lparr>of_pos := of_pos f + k\<rparr>"
  by (auto simp: fs_read_exact_def seq_act_Inr_iff split: if_splits)

lemma try_on_disk_iff:
  "try_act (on_disk m) q = (r, q') \<longleftrightarrow>
     (\<exists>x d. m (dir q) = (x, d) \<and> r = Inr (map_err Io x) \<and> q' = q\<lparr>dir := d\<rparr>)"
  by (auto simp: try_act_def on_disk_def via_dir_def io_act_def split: prod.splits)

lemma read_payload_at_measure:
  assumes "read_payload_at c f header q = (Inr (ReadMove c'), q')"
  shows "read_measure c' q' < 2 * length (ids_beyond (segment_id c) (files (dir q))) + 1"
proof -
  obtain x d where x: "fs_read_exact f (le_value (take 4 header)) (dir q) = (x, d)"
    by fastforce
  have "\<exists>reason. quarantine_and_advance (segment_id c) reason (q\<lparr>dir := d\<rparr>) = (Inr (ReadMove c'), q')"
    using assms x
    by (cases x) (auto simp: read_payload_at_def Let_def bind_act_Inr_iff try_on_disk_iff
        split: if_splits)
  then show ?thesis
    using quarantine_and_advance_measure fs_read_ops_files(6) [OF x] by fastforce
qed

lemma read_step_at_Move_cases:
  assumes "read_step_at c q = (Inr (ReadMove c'), q')"
  obtains (gone) q1 where "files (dir q1) = files (dir q)"
      and "move_after (segment_id c) q1 = (Inr (ReadMove c'), q')"
  | (payload) f header q1 where
      "8 \<le> length (content (files (dir q)) (segment_path (segment_id c)))"
      and "files (dir q1) = files (dir q)"
      and "read_payload_at c f header q1 = (Inr (ReadMove c'), q')"
proof -
  let ?path = "segment_path (segment_id c)"
  obtain there d0 where d0: "fs_exists ?path (dir q) = (there, d0)" by fastforce
  then have f0: "files d0 = files (dir q)" by (auto simp: fs_exists_def)
  show thesis
  proof (cases there)
    case False
    with assms d0 f0 gone [of "q\<lparr>dir := d0\<rparr>"] show thesis
      by (auto simp: read_step_at_def Let_def bind_act_Inr_iff probe_iff)
  next
    case True
    with assms d0 obtain f d1 g d2 where f: "fs_open ?path d0 = (Inr f, d1)"
      and g: "fs_seek f (offset c) d1 = (Inr g, d2)"
      by (auto simp: read_step_at_def Let_def bind_act_Inr_iff probe_iff on_disk_iff)
    obtain x d3 where x: "fs_read_exact g 8 d2 = (x, d3)" by fastforce
    have files: "files d3 = files (dir q)"
      using f0 fs_read_ops_files(4) [OF f] fs_read_ops_files(5) [OF g] fs_read_ops_files(6) [OF x]
      by simp
    note steps = assms [unfolded read_step_at_def Let_def] d0 True f g x
    show thesis
    proof (cases x)
      case (Inl e)
      with steps files gone [of "q\<lparr>dir := d3\<rparr>"] show thesis
        by (auto simp: bind_act_Inr_iff probe_iff on_disk_iff try_on_disk_iff split: if_splits)
    next
      case (Inr y)
      then obtain header h where y: "x = Inr (header, h)" by (cases y) simp
      with steps have "read_payload_at c h header (q\<lparr>dir := d3\<rparr>) = (Inr (ReadMove c'), q')"
        by (auto simp: bind_act_Inr_iff probe_iff on_disk_iff try_on_disk_iff)
      moreover have "8 \<le> length (content (files (dir q)) ?path)"
        using fs_open_Inr [OF f] fs_seek_Inr [OF g] fs_read_exact_Inr x y f0 by fastforce
      ultimately show thesis using payload [of "q\<lparr>dir := d3\<rparr>"] files by simp
    qed
  qed
qed

lemma read_step_at_measure:
  assumes "read_step_at c q = (Inr (ReadMove c'), q')"
  shows "read_measure c' q' < read_measure c q"
  using assms
proof (cases rule: read_step_at_Move_cases)
  case (gone q1)
  with move_after_measure [OF gone(2)] show ?thesis by (simp add: read_measure_def)
next
  case (payload f header q1)
  with read_payload_at_measure [OF payload(3)] show ?thesis by (simp add: read_measure_def)
qed

section \<open>Batches\<close>

text \<open>The loop of \<^verbatim>\<open>read_batch\<close>: \<^verbatim>\<open>read_cursor\<close> and \<^verbatim>\<open>final_cursor\<close> move together, so one cursor is kept.\<close>

function (sequential) read_batch_loop ::
  "usize \<Rightarrow> u8 list list \<Rightarrow> bool \<Rightarrow> cursor \<Rightarrow> pending_batch qact" where
  "read_batch_loop max_items batch moved c q =
     (if length batch < max_items then
        (case read_step_at c q of
           (Inl e, q') \<Rightarrow> (Inl e, q')
         | (Inr (ReadRecord payload c'), q') \<Rightarrow>
             read_batch_loop max_items (batch @ [payload]) moved c' q'
         | (Inr (ReadMove c'), q') \<Rightarrow> read_batch_loop max_items batch True c' q'
         | (Inr ReadEmpty, q') \<Rightarrow>
             (Inr \<lparr>payloads = batch, next_cursor = c, should_commit = moved\<rparr>, q'))
      else (Inr \<lparr>payloads = batch, next_cursor = c, should_commit = moved\<rparr>, q))"
  by pat_completeness auto
termination
proof (relation "measures [\<lambda>(m, batch, _, _, _). m - length batch,
                           \<lambda>(_, _, _, c, q). read_measure c q]", goal_cases)
  case 1
  show ?case by simp
next
  case 2
  then show ?case by auto
next
  case (3 max_items batch moved c q)
  then show ?case by (auto simp: read_step_at_measure)
qed

declare read_batch_loop.simps [simp del]

definition read_batch :: "usize \<Rightarrow> pending_batch qact" where
  "read_batch max_items =
     (if max_items = 0 then
        get_act (\<lambda>q. \<lparr>payloads = [], next_cursor = cursor q, should_commit = False\<rparr>)
      else bind_act (get_act cursor) (\<lambda>c. read_batch_loop max_items [] False c))"

text \<open>
  The callbacks of \<^verbatim>\<open>drain\<close> and \<^verbatim>\<open>drain_batch\<close> are \<^verbatim>\<open>FnMut\<close>: they own a state, which is threaded beside
  the queue.
\<close>

type_synonym ('s, 'p) sink = "'p \<Rightarrow> 's \<Rightarrow> (disk_queue_error + unit) \<times> 's"

definition drain_batch ::
  "('s, u8 list list) sink \<Rightarrow> usize \<Rightarrow> (disk_queue \<times> 's, disk_queue_error, usize) act" where
  "drain_batch sink max_items = (\<lambda>(q, s).
     case read_batch max_items q of
       (Inl e, q') \<Rightarrow> (Inl e, (q', s))
     | (Inr batch, q') \<Rightarrow>
         if payloads batch = [] then
           (case commit_batch batch q' of
              (Inl e, q'') \<Rightarrow> (Inl e, (q'', s))
            | (Inr _, q'') \<Rightarrow> (Inr 0, (q'', s)))
         else
           (case sink (payloads batch) s of
              (Inl e, s') \<Rightarrow> (Inl e, (q', s'))
            | (Inr _, s') \<Rightarrow> (case commit_batch batch q' of (r, q'') \<Rightarrow> (r, (q'', s')))))"

subsection \<open>Draining record by record\<close>

text \<open>
  Frame facts: what a file operation keeps, whatever it returns. \<open>read_measure\<close> only looks at segment
  files, and committing a cursor never grows it.
\<close>

lemma preserves_via_dir [preserve_rules]:
  assumes "preserves R m"
  shows "preserves (\<lambda>q. R (dir q)) (via_dir m)"
  using assms by (auto simp: preserves_def via_dir_def split: prod.splits)

lemma preserves_io_act [preserve_rules]: "preserves R m \<Longrightarrow> preserves R (io_act m)"
  by (auto simp: preserves_def io_act_def split: prod.splits)

lemma preserves_on_disk [preserve_rules]:
  "preserves R m \<Longrightarrow> preserves (\<lambda>q. R (dir q)) (on_disk m)"
  by (simp add: on_disk_def preserves_via_dir preserves_io_act)

lemma preserves_on_disk_field:
  assumes "\<And>q d. P (q\<lparr>dir := d\<rparr>) = P q"
  shows "preserves P (on_disk m)" and "preserves P (probe f)"
  using assms by (auto simp: preserves_def on_disk_def via_dir_def probe_def split: prod.splits)

definition seg_measure :: "u64 \<Rightarrow> dir_entries \<Rightarrow> nat" where
  "seg_measure seg d =
     2 * length (ids_beyond seg d) + (if 8 \<le> length (content d (segment_path seg)) then 1 else 0)"

lemma read_measure_seg: "read_measure c q = seg_measure (segment_id c) (files (dir q))"
  by (simp add: read_measure_def seg_measure_def)

abbreviation measure_le :: "u64 \<Rightarrow> nat \<Rightarrow> disk \<Rightarrow> bool" where
  "measure_le seg m \<equiv> (\<lambda>d. seg_measure seg (files d) \<le> m)"

lemma last_segment_path: "last (segment_path i) = CHR ''t''"
  by (simp add: segment_path_def SEGMENT_SUFFIX_def)

lemma cursor_names_not_segment: "segment_path i \<noteq> CURSOR_FILE" "segment_path i \<noteq> CURSOR_TMP"
  using last_segment_path [of i] by (auto simp: CURSOR_FILE_def CURSOR_TMP_def)

lemma seg_measure_put:
  assumes "segment_id_of n = None" and "segment_path seg \<noteq> n"
  shows "seg_measure seg (AList.update n bs d) = seg_measure seg d"
  using assms by (simp add: seg_measure_def ids_beyond_update name_beyond_def content_def update_conv')

lemma seg_measure_delete: "seg_measure seg (AList.delete n d) \<le> seg_measure seg d"
  using ids_beyond_delete [of seg n d]
  by (auto simp: seg_measure_def content_def delete_conv' split: option.splits)

lemma preserves_measure_frame:
  assumes "\<And>d r d'. m d = (r, d') \<Longrightarrow> files d' = files d"
  shows "preserves (measure_le seg k) m"
proof (rule preservesI)
  fix d assume "measure_le seg k d"
  then show "measure_le seg k (snd (m d))" by (cases "m d") (simp add: assms)
qed

lemma fs_frame_measure [preserve_rules]:
  "preserves (measure_le seg k) fs_call"
  "preserves (measure_le seg k) fs_read_dir"
  "preserves (measure_le seg k) segment_ids"
  "preserves (measure_le seg k) (fs_metadata_len n)"
  "preserves (measure_le seg k) (fs_read_file n)"
  "preserves (measure_le seg k) (fs_probe (fs_exists n))"
proof goal_cases
  case 1 show ?case by (rule preserves_measure_frame) (erule fs_call_files)
  case 2 show ?case by (rule preserves_measure_frame) (erule fs_read_ops_files)
  case 3 show ?case by (rule preserves_measure_frame) (erule fs_read_ops_files)
  case 4 show ?case by (rule preserves_measure_frame) (erule fs_read_ops_files)
  case 5 show ?case by (rule preserves_measure_frame) (erule fs_read_ops_files)
  case 6 show ?case by (auto simp: preserves_def fs_probe_def fs_exists_def)
qed

lemma fs_writes_measure [preserve_rules]:
  assumes "segment_id_of n = None" and "segment_path seg \<noteq> n"
  shows "preserves (measure_le seg k) (fs_write n bs)"
    and "preserves (measure_le seg k) (fs_rename m n)"
proof -
  have "preserves (measure_le seg k) (fs_write_all n bs)"
    using assms
    by (auto simp: preserves_def fs_write_all_def put_file_def seg_measure_put split: option.splits)
  then show "preserves (measure_le seg k) (fs_write n bs)"
    using assms unfolding fs_write_def fs_create_def
    by (intro preserve_rules) (simp_all add: put_file_def seg_measure_put)
  have "seg_measure seg (AList.update n bs' (AList.delete m d)) \<le> seg_measure seg d" for bs' d
    using seg_measure_delete [of seg m d] by (simp add: seg_measure_put [OF assms])
  then show "preserves (measure_le seg k) (fs_rename m n)"
    unfolding fs_rename_def
    by (intro preserve_rules) (auto simp: put_file_def drop_file_def intro: order_trans)
qed

lemma fs_remove_measure [preserve_rules]: "preserves (measure_le seg k) (fs_remove_file n)"
  unfolding fs_remove_file_def
  by (intro preserve_rules) (auto simp: drop_file_def intro: order_trans [OF seg_measure_delete])

lemma commit_cursor_measure:
  "preserves (\<lambda>q. measure_le seg k (dir q)) (commit_cursor c)"
  unfolding commit_cursor_def remove_segments_before_def remove_segment_def persist_cursor_def
    Let_def probe_def
  by (intro preserve_rules) (simp_all add: cursor_names_not_segment)

lemma commit_cursor_sets_cursor:
  assumes "commit_cursor c q = (r, q')"
  shows "cursor q' = c"
proof -
  have "preserves (\<lambda>q. cursor q = c)
      (seq_act (remove_segments_before (segment_id c))
         (bind_act (get_act cursor) (\<lambda>c'. on_disk (persist_cursor c'))))"
    unfolding remove_segments_before_def remove_segment_def Let_def
    by (intro preserve_rules preserves_on_disk_field) simp_all
  from preservesD [OF this, of "q\<lparr>cursor := c\<rparr>" r q'] assms show ?thesis
    by (simp add: commit_cursor_def)
qed

text \<open>The loop of \<^verbatim>\<open>drain\<close>.\<close>

function (sequential) drain_loop ::
  "('s, u8 list) sink \<Rightarrow> usize \<Rightarrow> usize \<Rightarrow> (disk_queue \<times> 's, disk_queue_error, usize) act" where
  "drain_loop sink max_items drained (q, s) =
     (if drained < max_items then
        (case read_step_at (cursor q) q of
           (Inl e, q') \<Rightarrow> (Inl e, (q', s))
         | (Inr (ReadRecord payload c'), q') \<Rightarrow>
             (case sink payload s of
                (Inl e, s') \<Rightarrow> (Inl e, (q', s'))
              | (Inr _, s') \<Rightarrow>
                  (case commit_cursor c' q' of
                     (Inl e, q'') \<Rightarrow> (Inl e, (q'', s'))
                   | (Inr _, q'') \<Rightarrow> drain_loop sink max_items (drained + 1) (q'', s')))
         | (Inr (ReadMove c'), q') \<Rightarrow>
             (case commit_cursor c' q' of
                (Inl e, q'') \<Rightarrow> (Inl e, (q'', s))
              | (Inr _, q'') \<Rightarrow> drain_loop sink max_items drained (q'', s))
         | (Inr ReadEmpty, q') \<Rightarrow> (Inr drained, (q', s)))
      else (Inr drained, (q, s)))"
  by pat_completeness auto
termination
proof (relation "measures [\<lambda>(_, m, drained, _, _). m - drained,
                           \<lambda>(_, _, _, q, _). read_measure (cursor q) q]", goal_cases)
  case 1
  show ?case by simp
next
  case 2
  then show ?case by auto
next
  case (3 sink max_items drained q s x q' x' c' x1 q'')
  then have "read_measure c' q' < read_measure (cursor q) q" by (simp add: read_step_at_measure)
  moreover have "read_measure c' q'' \<le> read_measure c' q'"
    using preservesD [OF commit_cursor_measure [of "segment_id c'" "read_measure c' q'" c'], of q'] 3
    by (metis order_refl read_measure_seg)
  moreover have "cursor q'' = c'" using 3 commit_cursor_sets_cursor by metis
  ultimately show ?case using 3 by simp
qed

declare drain_loop.simps [simp del]

definition drain ::
  "('s, u8 list) sink \<Rightarrow> usize \<Rightarrow> (disk_queue \<times> 's, disk_queue_error, usize) act" where
  "drain sink max_items = drain_loop sink max_items 0"

end
