(* ===== verification/Queue_Contract.thy ===== *)
theory Queue_Contract
  imports Disk_Queue
begin

section \<open>What a segment holds\<close>

definition stored :: "u8 list \<Rightarrow> u8 list" where
  "stored p = record_header p @ p"

definition fits_u32 :: "u8 list \<Rightarrow> bool" where
  "fits_u32 p \<longleftrightarrow> length p \<le> u32_max"

text \<open>One record at the head of a segment's bytes, when it is whole and its checksum is right.\<close>

definition head_record :: "u8 list \<Rightarrow> u8 list option" where
  "head_record bs =
     (let len = le_value (take 4 bs); p = take len (drop 8 bs) in
      if 8 \<le> length bs \<and> 8 + len \<le> length bs \<and>
         checksum32 p = of_nat (le_value (take 4 (drop 4 bs)))
      then Some p else None)"

function segment_records :: "u8 list \<Rightarrow> u8 list list" where
  "segment_records bs =
     (case head_record bs of
        None \<Rightarrow> []
      | Some p \<Rightarrow> p # segment_records (drop (8 + length p) bs))"
  by pat_completeness auto
termination
  by (relation "measure length") (auto simp: head_record_def Let_def split: if_splits)

declare segment_records.simps [simp del]

definition clean :: "u8 list \<Rightarrow> bool" where
  "clean bs \<longleftrightarrow> (\<exists>ps. list_all fits_u32 ps \<and> bs = concat (map stored ps))"

lemma length_record_header [simp]: "length (record_header p) = 8"
  by (simp add: record_header_def)

lemma length_stored [simp]: "length (stored p) = 8 + length p"
  by (simp add: stored_def)

lemma record_header_fields:
  assumes "fits_u32 p"
  shows "le_value (take 4 (record_header p)) = length p"
    and "(of_nat (le_value (take 4 (drop 4 (record_header p)))) :: u32) = checksum32 p"
proof -
  show "le_value (take 4 (record_header p)) = length p"
    using assms by (simp add: record_header_def le_value_le_bytes fits_u32_def)
  have "unat (checksum32 p) < 256 ^ 4"
    using unsigned_less [of "checksum32 p"] by simp
  then show "(of_nat (le_value (take 4 (drop 4 (record_header p)))) :: u32) = checksum32 p"
    by (simp add: record_header_def le_value_le_bytes)
qed

lemma head_record_stored [simp]: "fits_u32 p \<Longrightarrow> head_record (stored p @ bs) = Some p"
  using record_header_fields [of p] by (simp add: head_record_def stored_def Let_def)

lemma head_record_short: "length bs < 8 \<Longrightarrow> head_record bs = None"
  by (simp add: head_record_def Let_def)

lemma head_record_Some_length:
  "head_record bs = Some p \<Longrightarrow> 8 + length p \<le> length bs \<and> length p = le_value (take 4 bs)"
  by (auto simp: head_record_def Let_def split: if_splits)

lemma segment_records_stored [simp]:
  "fits_u32 p \<Longrightarrow> segment_records (stored p @ bs) = p # segment_records bs"
  by (subst segment_records.simps) simp

lemma segment_records_short [simp]: "length bs < 8 \<Longrightarrow> segment_records bs = []"
  by (subst segment_records.simps) (simp add: head_record_short)

lemma segment_records_concat:
  "list_all fits_u32 ps \<Longrightarrow> segment_records (concat (map stored ps) @ bs) = ps @ segment_records bs"
  by (induction ps) simp_all

text \<open>A record of which only a proper prefix reached the file is not seen.\<close>

lemma head_record_torn:
  assumes "fits_u32 p" and "k < length (stored p)"
  shows "head_record (take k (stored p)) = None"
proof (cases "k < 8")
  case True
  then show ?thesis using assms by (simp add: head_record_short)
next
  case False
  then have "take 4 (take k (stored p)) = take 4 (record_header p)" by (simp add: stored_def)
  then have "le_value (take 4 (take k (stored p))) = length p"
    using record_header_fields(1) [OF assms(1)] by simp
  then show ?thesis using assms by (simp add: head_record_def Let_def)
qed

lemma segment_records_torn:
  assumes "clean bs" and "fits_u32 p" and "k < length (stored p)"
  shows "segment_records (bs @ take k (stored p)) = segment_records bs"
proof -
  have "segment_records (take k (stored p)) = []"
    using head_record_torn [OF assms(2,3)] by (simp add: segment_records.simps)
  with assms(1) show ?thesis
    using segment_records_concat [of _ "[]"] by (auto simp: clean_def segment_records_concat)
qed

lemma segment_records_append:
  assumes "clean bs" and "fits_u32 p"
  shows "segment_records (bs @ stored p) = segment_records bs @ [p]"
  using assms segment_records_concat [of _ "[]"] segment_records_stored [of p "[]"]
  by (auto simp: clean_def segment_records_concat)

lemma clean_Nil [simp]: "clean []"
  by (auto simp: clean_def intro: exI [of _ "[]"])

lemma clean_append: "clean bs \<Longrightarrow> fits_u32 p \<Longrightarrow> clean (bs @ stored p)"
proof -
  assume "clean bs" and p: "fits_u32 p"
  then obtain ps where "list_all fits_u32 ps" "bs = concat (map stored ps)" by (auto simp: clean_def)
  with p show ?thesis by (auto simp: clean_def intro!: exI [of _ "ps @ [p]"])
qed

lemma clean_head:
  assumes "clean bs" and "head_record bs = Some p"
  shows "clean (drop (8 + length p) bs)"
proof -
  from assms(1) obtain ps where ps: "list_all fits_u32 ps" "bs = concat (map stored ps)"
    by (auto simp: clean_def)
  show ?thesis
  proof (cases ps)
    case Nil
    with assms(2) ps show ?thesis by (simp add: head_record_short)
  next
    case (Cons p' ps')
    with assms(2) ps have "p' = p" by simp
    with Cons ps show ?thesis by (auto simp: clean_def intro!: exI [of _ ps'])
  qed
qed

text \<open>A record that is read back is byte for byte what \<^verbatim>\<open>enqueue\<close> stores for it.\<close>

lemma head_record_bytes:
  assumes "head_record bs = Some p"
  shows "take (8 + length p) bs = stored p" and "fits_u32 p"
proof -
  let ?len = "le_value (take 4 bs)" and ?sum = "le_value (take 4 (drop 4 bs))"
  from assms have l: "8 + ?len \<le> length bs" and p: "p = take ?len (drop 8 bs)"
    and ck: "checksum32 p = of_nat ?sum" by (auto simp: head_record_def Let_def split: if_splits)
  then have lp: "length p = ?len" by simp
  have "?sum < 256 ^ 4" using le_value_bound [of "take 4 (drop 4 bs)"] l by simp
  then have "unat (of_nat ?sum :: u32) = ?sum" by (simp add: unat_of_nat)
  then have "le_bytes 4 (unat (checksum32 p)) = take 4 (drop 4 bs)"
    using ck l by (simp add: le_bytes_le_value)
  moreover have "le_bytes 4 (length p) = take 4 bs" using lp l by (simp add: le_bytes_le_value)
  moreover have "take (8 + length p) bs = take 4 bs @ take 4 (drop 4 bs) @ take ?len (drop 8 bs)"
    using take_add [of 4 4 bs] take_add [of 8 ?len bs] lp by simp
  ultimately show "take (8 + length p) bs = stored p" using p by (simp add: stored_def record_header_def)
  have "?len < 256 ^ 4" using le_value_bound [of "take 4 bs"] l by simp
  then show "fits_u32 p" using lp by (simp add: fits_u32_def)
qed

lemma clean_nonempty: "clean bs \<Longrightarrow> bs \<noteq> [] \<Longrightarrow> segment_records bs \<noteq> []"
  using segment_records_concat [of _ "[]"] by (auto simp: clean_def)

section \<open>Directories in order\<close>

text \<open>
  A tidy directory lists each file once, and every file that parses as a segment has the canonical
  name of that segment. Then its listing is determined by the set of segments it holds.
\<close>

definition tidy :: "dir_entries \<Rightarrow> bool" where
  "tidy d \<longleftrightarrow> distinct (map fst d) \<and>
     (\<forall>n \<in> set (map fst d). case segment_id_of n of None \<Rightarrow> True | Some i \<Rightarrow> n = segment_path i)"

definition seg_set :: "dir_entries \<Rightarrow> u64 set" where
  "seg_set d = {i. i \<le> u64_max \<and> has_file d (segment_path i)}"

lemma tidy_name: "tidy d \<Longrightarrow> has_file d n \<Longrightarrow> segment_id_of n = Some i \<Longrightarrow> n = segment_path i"
  by (fastforce simp: tidy_def map_of_eq_None_iff)

lemma set_map_filter: "set (List.map_filter f xs) = {y. \<exists>x \<in> set xs. f x = Some y}"
  by (induction xs) (auto simp: map_filter_simps split: option.splits)

lemma set_ids_of:
  assumes "tidy d"
  shows "set (ids_of (map fst d)) = seg_set d"
proof -
  have "set (ids_of (map fst d)) = {i. \<exists>n. has_file d n \<and> segment_id_of n = Some i}"
    by (auto simp: ids_of_def set_map_filter map_of_eq_None_iff image_iff)
  also have "\<dots> = seg_set d"
  proof (intro set_eqI iffI)
    fix i assume "i \<in> {i. \<exists>n. has_file d n \<and> segment_id_of n = Some i}"
    then obtain n where n: "has_file d n" "segment_id_of n = Some i" by blast
    then have "n = segment_path i" using tidy_name [OF assms] by blast
    with n show "i \<in> seg_set d" using segment_id_of_bound by (simp add: seg_set_def)
  next
    fix i assume "i \<in> seg_set d"
    then show "i \<in> {i. \<exists>n. has_file d n \<and> segment_id_of n = Some i}"
      by (auto simp: seg_set_def intro!: exI [of _ "segment_path i"])
  qed
  finally show ?thesis .
qed

lemma distinct_map_filter:
  assumes "distinct ns" and "\<And>n m i. f n = Some i \<Longrightarrow> f m = Some i \<Longrightarrow> n \<in> set ns \<Longrightarrow> m \<in> set ns \<Longrightarrow> n = m"
  shows "distinct (List.map_filter f ns)"
  using assms
proof (induction ns)
  case Nil
  then show ?case by (simp add: map_filter_simps)
next
  case (Cons n ns)
  show ?case
  proof (cases "f n")
    case None
    with Cons show ?thesis by (simp add: map_filter_simps)
  next
    case (Some i)
    have "i \<notin> set (List.map_filter f ns)"
    proof
      assume "i \<in> set (List.map_filter f ns)"
      then obtain m where "m \<in> set ns" "f m = Some i" by (auto simp: set_map_filter)
      with Cons.prems(2) [OF Some] have "n = m" by simp
      with \<open>m \<in> set ns\<close> Cons.prems(1) show False by simp
    qed
    with Cons Some show ?thesis by (simp add: map_filter_simps)
  qed
qed

lemma finite_seg_set [simp]: "tidy d \<Longrightarrow> finite (seg_set d)"
  by (metis List.finite_set set_ids_of)

lemma ids_of_tidy:
  assumes "tidy d"
  shows "ids_of (map fst d) = sorted_list_of_set (seg_set d)"
proof -
  have "distinct (List.map_filter segment_id_of (map fst d))"
  proof (rule distinct_map_filter)
    show "distinct (map fst d)" using assms by (simp add: tidy_def)
  next
    fix n m i
    assume "segment_id_of n = Some i" "segment_id_of m = Some i"
      "n \<in> set (map fst d)" "m \<in> set (map fst d)"
    then have "n = segment_path i \<and> m = segment_path i"
      using assms by (fastforce simp: tidy_def)
    then show "n = m" by simp
  qed
  then have "distinct (ids_of (map fst d)) \<and> sorted (ids_of (map fst d))"
    by (simp add: ids_of_def)
  then show ?thesis
    using set_ids_of [OF assms] sorted_list_of_set.idem_if_sorted_distinct by metis
qed

lemma filter_sorted_list_of_set:
  assumes "finite A"
  shows "filter P (sorted_list_of_set A) = sorted_list_of_set {i \<in> A. P i}"
proof -
  let ?l = "filter P (sorted_list_of_set A)"
  have "sorted ?l" and "distinct ?l" by (simp_all add: sorted_wrt_filter)
  moreover have "set ?l = {i \<in> A. P i}" using assms by auto
  ultimately show ?thesis by (metis sorted_list_of_set.idem_if_sorted_distinct)
qed

lemma ids_beyond_tidy:
  "tidy d \<Longrightarrow> ids_beyond c d = sorted_list_of_set {i \<in> seg_set d. c < i}"
  by (simp add: ids_beyond_def ids_of_tidy filter_sorted_list_of_set)

lemma ids_beyond_Cons:
  assumes "tidy d" and "ids_beyond c d \<noteq> []"
  defines "m \<equiv> Min (set (ids_beyond c d))"
  shows "ids_beyond c d = m # ids_beyond m d" and "m \<in> seg_set d" and "c < m"
    and "\<And>i. i \<in> seg_set d \<Longrightarrow> c < i \<Longrightarrow> m \<le> i"
proof -
  let ?A = "{i \<in> seg_set d. c < i}"
  have s: "set (ids_beyond c d) = ?A" and fin: "finite ?A"
    using assms(1) by (simp_all add: ids_beyond_tidy)
  with assms(2) have ne: "?A \<noteq> {}" by (metis set_empty)
  have mA: "m = Min ?A" by (simp add: m_def s)
  show "m \<in> seg_set d" and "c < m" using Min_in [OF fin ne] by (auto simp: mA)
  show least: "\<And>i. i \<in> seg_set d \<Longrightarrow> c < i \<Longrightarrow> m \<le> i" using Min_le [OF fin] by (simp add: mA)
  have "?A - {m} = {i \<in> seg_set d. m < i}" using least \<open>c < m\<close> by (auto simp: le_less)
  then show "ids_beyond c d = m # ids_beyond m d"
    using sorted_list_of_set_nonempty [OF fin ne] assms(1) by (simp add: ids_beyond_tidy mA)
qed

lemma ids_beyond_Nil_iff: "tidy d \<Longrightarrow> ids_beyond c d = [] \<longleftrightarrow> (\<forall>i \<in> seg_set d. i \<le> c)"
  by (fastforce simp: ids_beyond_def filter_empty_conv set_ids_of [symmetric])

lemma tidy_update:
  assumes "tidy d" and "segment_id_of n = None \<or> (\<exists>i \<le> u64_max. n = segment_path i)"
  shows "tidy (AList.update n bs d)"
proof -
  have "case segment_id_of n of None \<Rightarrow> True | Some i \<Rightarrow> n = segment_path i"
    using assms(2) by (auto split: option.splits)
  with assms(1) show ?thesis
    unfolding tidy_def update_keys by (auto simp: distinct_update)
qed

lemma tidy_delete: "tidy d \<Longrightarrow> tidy (AList.delete n d)"
  by (auto simp: tidy_def distinct_removeAll delete_keys)

lemma seg_set_other:
  "segment_id_of n = None \<Longrightarrow> seg_set (AList.update n bs d) = seg_set d"
  "segment_id_of n = None \<Longrightarrow> seg_set (AList.delete n d) = seg_set d"
  by (auto simp: seg_set_def update_conv' delete_conv' dest: not_segment_path)

lemma seg_set_segment:
  "i \<le> u64_max \<Longrightarrow> seg_set (AList.update (segment_path i) bs d) = insert i (seg_set d)"
  "i \<le> u64_max \<Longrightarrow> seg_set (AList.delete (segment_path i) d) = seg_set d - {i}"
  by (auto simp: seg_set_def update_conv' delete_conv')

section \<open>The payloads still to deliver\<close>

definition segment_bytes :: "dir_entries \<Rightarrow> u64 \<Rightarrow> u8 list" where
  "segment_bytes d i = content d (segment_path i)"

definition pending_from :: "cursor \<Rightarrow> dir_entries \<Rightarrow> u8 list list" where
  "pending_from c d =
     segment_records (drop (offset c) (segment_bytes d (segment_id c))) @
     concat (map (\<lambda>i. segment_records (segment_bytes d i)) (ids_beyond (segment_id c) d))"

definition pending :: "disk_queue \<Rightarrow> u8 list list" where
  "pending q = pending_from (cursor q) (files (dir q))"

lemma segment_bytes_cong:
  "map_of d (segment_path i) = map_of d' (segment_path i) \<Longrightarrow> segment_bytes d i = segment_bytes d' i"
  by (simp add: segment_bytes_def content_def)

lemma pending_from_cong:
  assumes "tidy d" and "tidy d'"
    and same: "\<And>i. segment_id c \<le> i \<Longrightarrow> i \<le> u64_max \<Longrightarrow>
                 map_of d (segment_path i) = map_of d' (segment_path i)"
    and "segment_id c \<le> u64_max"
  shows "pending_from c d = pending_from c d'"
proof -
  have "{i \<in> seg_set d. segment_id c < i} = {i \<in> seg_set d'. segment_id c < i}"
    using same by (auto simp: seg_set_def)
  then have ids: "ids_beyond (segment_id c) d = ids_beyond (segment_id c) d'"
    using assms(1,2) by (simp add: ids_beyond_tidy)
  have bytes: "segment_bytes d i = segment_bytes d' i" if "segment_id c \<le> i" "i \<le> u64_max" for i
    using same that by (intro segment_bytes_cong) simp
  have "map (\<lambda>i. segment_records (segment_bytes d i)) (ids_beyond (segment_id c) d')
      = map (\<lambda>i. segment_records (segment_bytes d' i)) (ids_beyond (segment_id c) d')"
    using assms(2) by (intro map_cong) (auto simp: ids_beyond_tidy seg_set_def bytes)
  then show ?thesis using ids bytes [of "segment_id c"] assms(4)
    unfolding pending_from_def by (simp del: map_eq_conv)
qed

text \<open>Moving to the next segment once the current one has nothing more to give.\<close>

lemma pending_from_next:
  assumes "tidy d" and "ids_beyond (segment_id c) d \<noteq> []"
    and "segment_records (drop (offset c) (segment_bytes d (segment_id c))) = []"
  shows "pending_from \<lparr>segment_id = Min (set (ids_beyond (segment_id c) d)), offset = 0\<rparr> d
           = pending_from c d"
  unfolding pending_from_def assms(3)
  by (subst (2) ids_beyond_Cons(1) [OF assms(1,2)]) simp

lemma pending_from_dry:
  assumes "tidy d" and "tidy d'"
    and "segment_records (drop (offset c) (segment_bytes d (segment_id c))) = []"
    and "segment_records (drop (offset c) (segment_bytes d' (segment_id c))) = []"
    and "{i \<in> seg_set d. segment_id c < i} = {i \<in> seg_set d'. segment_id c < i}"
    and "\<And>i. i \<in> seg_set d' \<Longrightarrow> segment_id c < i \<Longrightarrow> segment_bytes d i = segment_bytes d' i"
  shows "pending_from c d = pending_from c d'"
proof -
  have "ids_beyond (segment_id c) d = ids_beyond (segment_id c) d'"
    using assms by (simp add: ids_beyond_tidy)
  moreover have "map (\<lambda>i. segment_records (segment_bytes d i)) (ids_beyond (segment_id c) d')
      = map (\<lambda>i. segment_records (segment_bytes d' i)) (ids_beyond (segment_id c) d')"
    using assms by (intro map_cong) (auto simp: ids_beyond_tidy)
  ultimately show ?thesis using assms(3,4) unfolding pending_from_def by (simp del: map_eq_conv)
qed

section \<open>The invariant of an open queue\<close>

definition total_bytes :: "dir_entries \<Rightarrow> nat" where
  "total_bytes d = (\<Sum>i\<in>seg_set d. length (segment_bytes d i))"

abbreviation max_offset :: nat where "max_offset \<equiv> 9223372036854775807"

definition cursor_ok :: "cursor \<Rightarrow> disk_queue \<Rightarrow> bool" where
  "cursor_ok c q \<longleftrightarrow>
     segment_id c \<le> active_segment_id q \<and> offset c \<le> max_offset \<and>
     (segment_id c \<in> seg_set (files (dir q)) \<longrightarrow>
        offset c \<le> length (segment_bytes (files (dir q)) (segment_id c)))"

text \<open>
  \<open>queue_ok\<close>: what holds of the value and its directory between calls, corrupt contents allowed. The
  segments still to read, and those to come, have their quarantine name free.
\<close>

definition slots_free :: "disk_queue \<Rightarrow> bool" where
  "slots_free q \<longleftrightarrow>
     (\<forall>i \<le> u64_max. i \<in> seg_set (files (dir q)) \<or> active_segment_id q < i \<longrightarrow>
        \<not> has_file (files (dir q)) (segment_path i @ CORRUPT_SUFFIX))"

definition queue_ok :: "disk_queue \<Rightarrow> bool" where
  "queue_ok q \<longleftrightarrow>
     healthy (dir q) \<and> tidy (files (dir q)) \<and>
     active_segment_id q \<in> seg_set (files (dir q)) \<and>
     (\<forall>i \<in> seg_set (files (dir q)). i \<le> active_segment_id q) \<and>
     active_segment_bytes q = length (segment_bytes (files (dir q)) (active_segment_id q)) \<and>
     queued_bytes q = total_bytes (files (dir q)) \<and> total_bytes (files (dir q)) \<le> max_offset \<and>
     map_of (files (dir q)) CURSOR_FILE = Some (as_bytes (cursor_text (cursor q))) \<and>
     cursor_ok (cursor q) q \<and> slots_free q"

text \<open>The bytes a new record will be appended to end at a record boundary.\<close>

definition tail_clean :: "cursor \<Rightarrow> disk_queue \<Rightarrow> bool" where
  "tail_clean c q \<longleftrightarrow>
     clean (drop (if segment_id c = active_segment_id q then offset c else 0)
              (segment_bytes (files (dir q)) (active_segment_id q)))"

text \<open>Nothing from the cursor on is corrupt.\<close>

definition intact :: "cursor \<Rightarrow> dir_entries \<Rightarrow> bool" where
  "intact c F \<longleftrightarrow> clean (drop (offset c) (segment_bytes F (segment_id c))) \<and>
     (\<forall>i \<in> seg_set F. segment_id c < i \<longrightarrow> clean (segment_bytes F i))"

text \<open>The cursor stands at a record boundary of its segment.\<close>

definition aligned :: "cursor \<Rightarrow> dir_entries \<Rightarrow> bool" where
  "aligned c F \<longleftrightarrow> clean (take (offset c) (segment_bytes F (segment_id c)))"

text \<open>There is an identifier left for the segment that replaces a corrupt active one.\<close>

definition can_advance :: "disk_queue \<Rightarrow> bool" where
  "can_advance q \<longleftrightarrow> active_segment_id q < u64_max \<or>
     segment_bytes (files (dir q)) (active_segment_id q) = []"

section \<open>One read step\<close>

lemma on_disk_step:
  "m (dir q) = (Inr x, d) \<Longrightarrow> on_disk m q = (Inr x, q\<lparr>dir := d\<rparr>)"
  "m (dir q) = (Inl e, d) \<Longrightarrow> on_disk m q = (Inl (Io e), q\<lparr>dir := d\<rparr>)"
  by (simp_all add: on_disk_def via_dir_def io_act_def)

lemma probe_step: "f (dir q) = (x, d) \<Longrightarrow> probe f q = (Inr x, q\<lparr>dir := d\<rparr>)"
  by (simp add: probe_def via_dir_def fs_probe_def)

lemma dir_update_id [simp]: "q\<lparr>dir := dir q\<rparr> = q"
  by simp

lemma flow_simps:
  "bind_act (probe f) g q = (case f (dir q) of (x, d) \<Rightarrow> g x (q\<lparr>dir := d\<rparr>))"
  "bind_act (on_disk m) h q =
     (case m (dir q) of (Inl e, d) \<Rightarrow> (Inl (Io e), q\<lparr>dir := d\<rparr>) | (Inr x, d) \<Rightarrow> h x (q\<lparr>dir := d\<rparr>))"
  "seq_act (on_disk m) n q =
     (case m (dir q) of (Inl e, d) \<Rightarrow> (Inl (Io e), q\<lparr>dir := d\<rparr>) | (Inr x, d) \<Rightarrow> n (q\<lparr>dir := d\<rparr>))"
  "bind_act (try_act (on_disk m)) t q = (case m (dir q) of (r, d) \<Rightarrow> t (map_err Io r) (q\<lparr>dir := d\<rparr>))"
  by (auto simp: bind_act_def seq_act_def probe_def on_disk_def via_dir_def fs_probe_def io_act_def
      try_act_def split: prod.splits sum.splits)

lemmas step_simps =
  flow_simps on_disk_step healthy_calls healthy_write healthy_reads healthy_cursor_ops

lemma next_cursor_after_ok:
  assumes "healthy (dir q)"
  shows "next_cursor_after seg q =
    (Inr (if ids_beyond seg (files (dir q)) = [] then None
          else Some \<lparr>segment_id = Min (set (ids_beyond seg (files (dir q)))), offset = 0\<rparr>), q)"
  using assms
  by (simp add: next_cursor_after_def next_segment_after_def step_simps Let_def ids_beyond_def
      bind_act_def)

lemma move_after_ok:
  assumes "healthy (dir q)"
  shows "move_after seg q =
    (Inr (if ids_beyond seg (files (dir q)) = [] then ReadEmpty
          else ReadMove \<lparr>segment_id = Min (set (ids_beyond seg (files (dir q)))), offset = 0\<rparr>), q)"
  using assms by (simp add: move_after_def bind_act_step next_cursor_after_ok move_or_empty_def)

lemma read_step_at_missing:
  assumes "healthy (dir q)" and "\<not> has_file (files (dir q)) (segment_path (segment_id c))"
  shows "read_step_at c q = move_after (segment_id c) q"
  using assms by (simp add: read_step_at_def step_simps Let_def)

lemma read_step_at_open:
  assumes "healthy (dir q)" and "map_of (files (dir q)) (segment_path (segment_id c)) = Some bs"
    and "offset c \<le> max_offset"
  shows "read_step_at c q =
    (if length bs < offset c + 8
     then (if segment_id c < active_segment_id q then move_after (segment_id c) q else (Inr ReadEmpty, q))
     else read_payload_at c \<lparr>of_bytes = bs, of_pos = offset c + 8\<rparr> (take 8 (drop (offset c) bs)) q)"
  using assms
  by (cases "length bs < offset c + 8") (simp_all add: read_step_at_def step_simps Let_def)

lemma read_payload_at_ok:
  assumes "healthy (dir q)" and "offset c + 8 \<le> length bs" and "length bs \<le> max_offset"
  defines "f \<equiv> \<lparr>of_bytes = bs, of_pos = offset c + 8\<rparr>" and "h \<equiv> take 8 (drop (offset c) bs)"
  shows "case head_record (drop (offset c) bs) of
      Some p \<Rightarrow> read_payload_at c f h q =
        (Inr (ReadRecord p \<lparr>segment_id = segment_id c, offset = offset c + 8 + length p\<rparr>), q)
    | None \<Rightarrow> \<exists>reason. read_payload_at c f h q = quarantine_and_advance (segment_id c) reason q"
proof -
  let ?r = "drop (offset c) bs"
  let ?len = "le_value (take 4 ?r)"
  let ?p = "take ?len (drop 8 ?r)"
  have len: "le_value (take 4 h) = ?len" by (simp add: h_def)
  have sum: "drop 4 h = take 4 (drop 4 ?r)" by (simp add: h_def take_drop [symmetric] drop_take)
  have dr: "drop (offset c + 8) bs = drop 8 ?r" by (simp add: add.commute)
  show ?thesis
  proof (cases "offset c + 8 + ?len \<le> length bs")
    case False
    then have "fs_read_exact f ?len (dir q) = (Inl UnexpectedEof, dir q)"
      using assms(1) by (simp add: f_def healthy_cursor_ops)
    then have "\<exists>reason. read_payload_at c f h q = quarantine_and_advance (segment_id c) reason q"
      unfolding read_payload_at_def Let_def len by (auto simp: step_simps)
    moreover have "head_record ?r = None" using False by (auto simp: head_record_def Let_def)
    ultimately show ?thesis by simp
  next
    case True
    then have "fs_read_exact f ?len (dir q) = (Inr (?p, f\<lparr>of_pos := offset c + 8 + ?len\<rparr>), dir q)"
      using assms(1) dr by (simp add: f_def healthy_cursor_ops)
    then have rd: "read_payload_at c f h q =
      (if checksum32 ?p \<noteq> of_nat (le_value (take 4 (drop 4 ?r)))
       then quarantine_and_advance (segment_id c) (''checksum mismatch'' @ '' in segment '' @
              show_nat (segment_id c) @ '' at offset '' @ show_nat (offset c)) q
       else (Inr (ReadRecord ?p \<lparr>segment_id = segment_id c, offset = offset c + 8 + ?len\<rparr>), q))"
      unfolding read_payload_at_def Let_def len sum
      using True assms(3) by (simp add: step_simps)
    have "head_record ?r = (if checksum32 ?p = of_nat (le_value (take 4 (drop 4 ?r))) then Some ?p else None)"
      using True assms(2) by (auto simp: head_record_def Let_def)
    moreover have "length ?p = ?len" using True by simp
    ultimately show ?thesis using rd by auto
  qed
qed

section \<open>Quarantine\<close>

text \<open>The directory after segment \<open>seg\<close> with contents \<open>bs\<close> has been moved out of the way.\<close>

definition quarantined :: "u64 \<Rightarrow> u8 list \<Rightarrow> u8 list \<Rightarrow> dir_entries \<Rightarrow> dir_entries" where
  "quarantined seg bs note F =
     AList.update (quarantine_reason_path (segment_path seg @ CORRUPT_SUFFIX)) note
       (AList.update (segment_path seg @ CORRUPT_SUFFIX) bs (AList.delete (segment_path seg) F))"

lemma corrupt_segment_path_free:
  assumes "healthy d" and "\<not> has_file (files d) (s @ CORRUPT_SUFFIX)"
  shows "corrupt_segment_path s d = (Some (s @ CORRUPT_SUFFIX), d)"
proof -
  have c0: "corrupt_candidate s 0 = s @ CORRUPT_SUFFIX" by (simp add: corrupt_candidate_def)
  have "first_free (map (corrupt_candidate s) (0 # ks)) d = (Some (s @ CORRUPT_SUFFIX), d)" for ks
    using assms by (simp add: healthy_calls c0)
  then show ?thesis
    unfolding corrupt_segment_path_def upt_conv_Cons [OF zero_less_numeral] .
qed

lemma quarantine_segment_ok:
  assumes "healthy (dir q)" and "map_of (files (dir q)) (segment_path seg) = Some bs"
    and "\<not> has_file (files (dir q)) (segment_path seg @ CORRUPT_SUFFIX)"
  obtains d where "quarantine_segment seg reason q =
      (Inr (), q\<lparr>dir := d, queued_bytes := saturating_sub_u64 (queued_bytes q) (length bs)\<rparr>)"
    and "healthy d" and "files d = quarantined seg bs (as_bytes (reason @ ''\<newline>'')) (files (dir q))"
proof
  let ?dest = "segment_path seg @ CORRUPT_SUFFIX"
  let ?r = "quarantine_reason_path ?dest"
  let ?t = "as_bytes (reason @ ''\<newline>'')"
  let ?d = "put_file ?r ?t (put_file ?r [] (put_file ?dest bs (drop_file (segment_path seg) (dir q))))"
  show "quarantine_segment seg reason q =
      (Inr (), q\<lparr>dir := ?d, queued_bytes := saturating_sub_u64 (queued_bytes q) (length bs)\<rparr>)"
    using assms
    by (simp add: quarantine_segment_def Let_def step_simps corrupt_segment_path_free)
  show "healthy ?d" using assms by simp
  show "files ?d = quarantined seg bs ?t (files (dir q))"
    by (simp add: put_file_def drop_file_def quarantined_def)
qed

lemma segment_id_of_corrupt_suffix [simp]: "segment_id_of (s @ CORRUPT_SUFFIX) = None"
  using segment_id_of_corrupt [of s 0] by (simp add: corrupt_candidate_def)

lemma special_names:
  "CURSOR_FILE \<noteq> s @ CORRUPT_SUFFIX" "CURSOR_FILE \<noteq> quarantine_reason_path s"
  "s @ CORRUPT_SUFFIX \<noteq> quarantine_reason_path s'" "CURSOR_TMP \<noteq> CURSOR_FILE"
  "s @ CORRUPT_SUFFIX \<noteq> CURSOR_TMP" "s @ CORRUPT_SUFFIX \<noteq> CURSOR_FILE"
proof -
  have l: "last (s @ CORRUPT_SUFFIX) = CHR ''t''" for s by (simp add: CORRUPT_SUFFIX_def)
  have r: "last (quarantine_reason_path s) = CHR ''n''" for s by (simp add: quarantine_reason_path_def)
  have c: "last CURSOR_FILE = CHR ''r''" "last CURSOR_TMP = CHR ''p''"
    by (simp_all add: CURSOR_FILE_def CURSOR_TMP_def)
  from l [of s] r [of s] r [of s'] c show
  "CURSOR_FILE \<noteq> s @ CORRUPT_SUFFIX" "CURSOR_FILE \<noteq> quarantine_reason_path s"
  "s @ CORRUPT_SUFFIX \<noteq> quarantine_reason_path s'" "CURSOR_TMP \<noteq> CURSOR_FILE"
  "s @ CORRUPT_SUFFIX \<noteq> CURSOR_TMP" "s @ CORRUPT_SUFFIX \<noteq> CURSOR_FILE"
    by force+
qed

lemma segment_path_not_cursor: "CURSOR_FILE \<noteq> segment_path i" "CURSOR_TMP \<noteq> segment_path i"
  using cursor_names_not_segment by metis+

lemma segment_path_not_corrupt: "i \<le> u64_max \<Longrightarrow> s @ CORRUPT_SUFFIX \<noteq> segment_path i"
  using not_segment_path [OF _ segment_id_of_corrupt_suffix] by metis

lemma quarantined_facts:
  assumes "tidy F" and "seg \<le> u64_max"
  shows "tidy (quarantined seg bs t F)"
    and "seg_set (quarantined seg bs t F) = seg_set F - {seg}"
    and "i \<le> u64_max \<Longrightarrow> map_of (quarantined seg bs t F) (segment_path i) =
           (if i = seg then None else map_of F (segment_path i))"
    and "map_of (quarantined seg bs t F) CURSOR_FILE = map_of F CURSOR_FILE"
    and "i \<le> u64_max \<Longrightarrow> i \<noteq> seg \<Longrightarrow>
           map_of (quarantined seg bs t F) (segment_path i @ CORRUPT_SUFFIX) =
           map_of F (segment_path i @ CORRUPT_SUFFIX)"
proof -
  show "tidy (quarantined seg bs t F)"
    using assms by (simp add: quarantined_def tidy_update tidy_delete)
  show "seg_set (quarantined seg bs t F) = seg_set F - {seg}"
    using assms by (simp add: quarantined_def seg_set_other seg_set_segment)
  show "i \<le> u64_max \<Longrightarrow> map_of (quarantined seg bs t F) (segment_path i) =
           (if i = seg then None else map_of F (segment_path i))"
    using assms segment_path_not_corrupt [of i "segment_path seg"]
    by (simp add: quarantined_def update_conv' delete_conv')
  show "map_of (quarantined seg bs t F) CURSOR_FILE = map_of F CURSOR_FILE"
    by (simp add: quarantined_def update_conv' delete_conv' special_names segment_path_not_cursor)
  show "i \<le> u64_max \<Longrightarrow> i \<noteq> seg \<Longrightarrow>
           map_of (quarantined seg bs t F) (segment_path i @ CORRUPT_SUFFIX) =
           map_of F (segment_path i @ CORRUPT_SUFFIX)"
    using assms segment_path_not_corrupt [of seg "segment_path i"]
    by (simp add: quarantined_def update_conv' delete_conv' special_names)
qed

lemma total_bytes_diff:
  assumes "tidy F" and "i \<in> seg_set F" and "seg_set F' = seg_set F - {i}"
    and "\<And>j. j \<in> seg_set F' \<Longrightarrow> segment_bytes F' j = segment_bytes F j"
  shows "total_bytes F = length (segment_bytes F i) + total_bytes F'"
proof -
  have "total_bytes F' = (\<Sum>j\<in>seg_set F - {i}. length (segment_bytes F j))"
    using assms(3,4) by (simp add: total_bytes_def)
  then show ?thesis using assms(1,2) by (simp add: total_bytes_def sum.remove)
qed

lemma seg_set_path: "i \<in> seg_set F \<Longrightarrow> map_of F (segment_path i) = Some (segment_bytes F i)"
  by (auto simp: seg_set_def segment_bytes_def)

lemma seg_set_bound: "i \<in> seg_set F \<Longrightarrow> i \<le> u64_max"
  by (simp add: seg_set_def)

lemma segment_bytes_le_total:
  "tidy F \<Longrightarrow> i \<in> seg_set F \<Longrightarrow> length (segment_bytes F i) \<le> total_bytes F"
  unfolding total_bytes_def by (rule member_le_sum) simp_all

lemma quarantined_bytes:
  assumes "tidy F" and "seg \<in> seg_set F"
  shows "i \<in> seg_set F \<Longrightarrow> i \<noteq> seg \<Longrightarrow>
           segment_bytes (quarantined seg bs t F) i = segment_bytes F i"
    and "total_bytes F = length (segment_bytes F seg) + total_bytes (quarantined seg bs t F)"
proof -
  note facts = quarantined_facts [OF assms(1) seg_set_bound [OF assms(2)]]
  show same: "segment_bytes (quarantined seg bs t F) i = segment_bytes F i"
    if "i \<in> seg_set F" "i \<noteq> seg" for i
    using that facts(3) seg_set_bound [OF that(1)] by (simp add: segment_bytes_def content_def)
  show "total_bytes F = length (segment_bytes F seg) + total_bytes (quarantined seg bs t F)"
    using assms facts(2) same by (intro total_bytes_diff) auto
qed

lemma queue_okD:
  assumes "queue_ok q"
  shows "healthy (dir q)" "tidy (files (dir q))"
    "active_segment_id q \<in> seg_set (files (dir q))"
    "i \<in> seg_set (files (dir q)) \<Longrightarrow> i \<le> active_segment_id q"
    "active_segment_bytes q = length (segment_bytes (files (dir q)) (active_segment_id q))"
    "queued_bytes q = total_bytes (files (dir q))" "total_bytes (files (dir q)) \<le> max_offset"
    "map_of (files (dir q)) CURSOR_FILE = Some (as_bytes (cursor_text (cursor q)))"
    "cursor_ok (cursor q) q" "slots_free q" "active_segment_id q \<le> u64_max"
    "i \<in> seg_set (files (dir q)) \<Longrightarrow>
       \<not> has_file (files (dir q)) (segment_path i @ CORRUPT_SUFFIX)"
  using assms by (auto simp: queue_ok_def seg_set_bound slots_free_def)

text \<open>A corrupt segment before the active one is set aside; the queue continues after it.\<close>

lemma quarantine_old_ok:
  assumes q: "queue_ok q" and seg: "seg \<in> seg_set (files (dir q))" and old: "seg < active_segment_id q"
    and d: "healthy d" "files d = quarantined seg bs t (files (dir q))"
  defines "q' \<equiv> q\<lparr>dir := d, queued_bytes :=
             saturating_sub_u64 (queued_bytes q) (length (segment_bytes (files (dir q)) seg))\<rparr>"
  shows "queue_ok q'"
proof -
  note inv = queue_okD [OF q]
  note facts = quarantined_facts [OF inv(2) seg_set_bound [OF seg], where bs = bs and t = t]
  note bytes = quarantined_bytes [OF inv(2) seg, where bs = bs and t = t]
  have "cursor_ok (cursor q') q'"
    using inv(9) by (auto simp: q'_def cursor_ok_def d facts(2) bytes(1))
  moreover have "slots_free q'"
    using inv(10) facts(5) old seg_set_bound [OF seg]
    by (auto simp: slots_free_def q'_def d facts(2))
  moreover have "queued_bytes q' = total_bytes (files (dir q'))"
    using bytes(2) inv(6) by (simp add: q'_def d saturating_sub_u64_def)
  ultimately show ?thesis
    using inv old bytes d facts(1,2,4) by (simp add: queue_ok_def q'_def)
qed

text \<open>A corrupt active segment is set aside and a fresh one takes its place.\<close>

lemma quarantine_active_ok:
  assumes q: "queue_ok q" and seg: "seg = active_segment_id q" and room: "seg < u64_max"
    and d: "healthy d"
      "files d = AList.update (segment_path (Suc seg)) [] (quarantined seg bs t (files (dir q)))"
  defines "q' \<equiv> q\<lparr>dir := d, active_segment_id := Suc seg, active_segment_bytes := 0,
             queued_bytes := saturating_sub_u64 (queued_bytes q) (length (segment_bytes (files (dir q)) seg))\<rparr>"
  shows "queue_ok q'" and "seg_set (files d) = insert (Suc seg) (seg_set (files (dir q)) - {seg})"
    and "segment_bytes (files d) (Suc seg) = []"
    and "\<And>i. i \<in> seg_set (files (dir q)) \<Longrightarrow> i \<noteq> seg \<Longrightarrow>
           segment_bytes (files d) i = segment_bytes (files (dir q)) i"
proof -
  note inv = queue_okD [OF q]
  have s: "seg \<in> seg_set (files (dir q))" using inv(3) seg by simp
  note facts = quarantined_facts [OF inv(2) seg_set_bound [OF s], where bs = bs and t = t]
  note bytes = quarantined_bytes [OF inv(2) s, where bs = bs and t = t]
  let ?F = "quarantined seg bs t (files (dir q))"
  have fresh: "Suc seg \<notin> seg_set (files (dir q))" using inv(4) seg by fastforce
  show set: "seg_set (files d) = insert (Suc seg) (seg_set (files (dir q)) - {seg})"
    using room by (simp add: d facts(2) seg_set_segment)
  show new: "segment_bytes (files d) (Suc seg) = []"
    by (simp add: d segment_bytes_def content_def update_conv')
  have upd: "segment_bytes (files d) i = segment_bytes ?F i" if "i \<le> u64_max" "i \<noteq> Suc seg" for i
    using that room by (simp add: d segment_bytes_def content_def update_conv')
  show old: "segment_bytes (files d) i = segment_bytes (files (dir q)) i"
    if "i \<in> seg_set (files (dir q))" "i \<noteq> seg" for i
    using that upd [of i] bytes(1) fresh seg_set_bound by metis
  have "Suc seg \<le> u64_max" using room by simp
  then have tidy: "tidy (files d)" unfolding d by (intro tidy_update [OF facts(1)]) blast
  have "total_bytes (files d) = length (segment_bytes (files d) (Suc seg)) + total_bytes ?F"
    using set fresh facts(2) by (intro total_bytes_diff [OF tidy]) (auto simp: old bytes(1))
  then have total: "total_bytes (files d) = total_bytes ?F" using new by simp
  have curs: "cursor_ok (cursor q') q'"
    using inv(9) seg old by (auto simp: q'_def cursor_ok_def set new)
  have corrupt: "map_of (files d) (segment_path i @ CORRUPT_SUFFIX) = map_of ?F (segment_path i @ CORRUPT_SUFFIX)"
    for i
    using segment_path_not_corrupt [of "Suc seg" "segment_path i"] room by (simp add: d update_conv')
  have slots: "slots_free q'"
    using inv(10) facts(5) seg room by (auto simp: slots_free_def q'_def set corrupt)
  have "map_of (files d) CURSOR_FILE = map_of (files (dir q)) CURSOR_FILE"
    using facts(4) by (simp add: d update_conv' segment_path_not_cursor)
  then show "queue_ok q'"
    using inv seg bytes(2) d(1) tidy set new total curs slots
    by (auto simp: queue_ok_def q'_def saturating_sub_u64_def le_SucI)
qed

section \<open>Reading\<close>

text \<open>
  What one read step does from a cursor of a sound queue: it gives the next payload, or moves to a
  later segment without skipping an intact payload, or there is nothing left.
\<close>

definition step_spec :: "cursor \<Rightarrow> disk_queue \<Rightarrow> read_step \<Rightarrow> disk_queue \<Rightarrow> bool" where
  "step_spec c q st q' \<longleftrightarrow>
     queue_ok q' \<and> can_advance q' \<and> cursor q' = cursor q \<and> options q' = options q \<and>
     (tail_clean (cursor q) q \<longrightarrow> tail_clean (cursor q) q') \<and>
     (intact c (files (dir q)) \<longrightarrow> q' = q) \<and>
     (case st of
        ReadRecord p c' \<Rightarrow> segment_id c' = segment_id c \<and>
          (aligned c (files (dir q)) \<longrightarrow> aligned c' (files (dir q))) \<and> (intact c (files (dir q)) \<longrightarrow> intact c' (files (dir q))) \<and> q' = q \<and> cursor_ok c' q \<and> (tail_clean c q \<longrightarrow> tail_clean c' q) \<and>
          pending_from c (files (dir q)) = p # pending_from c' (files (dir q))
      | ReadMove c' \<Rightarrow> segment_id c < segment_id c' \<and> offset c' = 0 \<and> (intact c (files (dir q)) \<longrightarrow> intact c' (files (dir q))) \<and> cursor_ok c' q' \<and> (tail_clean c q \<longrightarrow> tail_clean c' q') \<and>
          pending_from c' (files (dir q')) = pending_from c (files (dir q))
      | ReadEmpty \<Rightarrow> q' = q \<and> pending_from c (files (dir q)) = [])"

lemma move_after_spec:
  assumes q: "queue_ok q" "can_advance q" and c: "cursor_ok c q" and old: "segment_id c < active_segment_id q"
    and dry: "segment_records (drop (offset c) (segment_bytes (files (dir q)) (segment_id c))) = []"
  shows "\<exists>c'. move_after (segment_id c) q = (Inr (ReadMove c'), q) \<and> step_spec c q (ReadMove c') q"
proof -
  note inv = queue_okD [OF q(1)]
  let ?F = "files (dir q)"
  have ne: "ids_beyond (segment_id c) ?F \<noteq> []"
    using inv(3) old ids_beyond_Nil_iff [OF inv(2)] by fastforce
  let ?m = "Min (set (ids_beyond (segment_id c) ?F))"
  let ?c = "\<lparr>segment_id = ?m, offset = 0\<rparr>"
  have m: "?m \<in> seg_set ?F" using ids_beyond_Cons(2) [OF inv(2) ne] .
  have "cursor_ok ?c q" using inv(4) [OF m] by (simp add: cursor_ok_def)
  moreover have "tail_clean c q \<longrightarrow> tail_clean ?c q" using old by (simp add: tail_clean_def)
  moreover have "intact c ?F \<longrightarrow> intact ?c ?F"
    using m ids_beyond_Cons(3) [OF inv(2) ne] by (auto simp: intact_def)
  moreover have "pending_from ?c ?F = pending_from c ?F"
    using pending_from_next [OF inv(2) ne dry] .
  ultimately have "step_spec c q (ReadMove ?c) q"
    using q ids_beyond_Cons(3) [OF inv(2) ne] by (simp add: step_spec_def)
  then show ?thesis using move_after_ok [OF inv(1), of "segment_id c"] ne by simp
qed

lemma quarantine_and_advance_spec:
  assumes q: "queue_ok q" "can_advance q" and c: "cursor_ok c q" and s: "segment_id c \<in> seg_set (files (dir q))"
    and bad: "segment_records (drop (offset c) (segment_bytes (files (dir q)) (segment_id c))) = []"
    and nonempty: "drop (offset c) (segment_bytes (files (dir q)) (segment_id c)) \<noteq> []"
  shows "\<exists>st q'. quarantine_and_advance (segment_id c) reason q = (Inr st, q') \<and> step_spec c q st q'"
proof -
  note inv = queue_okD [OF q(1)]
  let ?F = "files (dir q)" and ?seg = "segment_id c"
  let ?bs = "segment_bytes ?F ?seg"
  obtain d where quar: "quarantine_segment ?seg reason q =
      (Inr (), q\<lparr>dir := d, queued_bytes := saturating_sub_u64 (queued_bytes q) (length ?bs)\<rparr>)"
    and hd: "healthy d" and fd: "files d = quarantined ?seg ?bs (as_bytes (reason @ ''\<newline>'')) ?F"
    using quarantine_segment_ok [OF inv(1) seg_set_path [OF s] inv(12) [OF s]] by blast
  let ?q1 = "q\<lparr>dir := d, queued_bytes := saturating_sub_u64 (queued_bytes q) (length ?bs)\<rparr>"
  note facts = quarantined_facts [OF inv(2) seg_set_bound [OF s],
      where bs = ?bs and t = "as_bytes (reason @ ''\<newline>'')", folded fd]
  have corrupt: "\<not> intact c ?F"
    using clean_nonempty [OF _ nonempty] bad by (auto simp: intact_def)
  note go = seq_act_step(1) [of "quarantine_segment ?seg reason" q, OF quar]
  show ?thesis
  proof (cases "?seg < active_segment_id q")
    case True
    have ok1: "queue_ok ?q1" by (rule quarantine_old_ok [OF q(1) s True hd fd])
    have same: "segment_bytes (files d) i = segment_bytes ?F i" if "i \<in> seg_set ?F" "i \<noteq> ?seg" for i
      using that quarantined_bytes(1) [OF inv(2) s] by (simp add: fd)
    have eval: "quarantine_and_advance ?seg reason q = move_after ?seg ?q1"
      using True by (simp add: quarantine_and_advance_def go)
    have none: "segment_bytes (files d) ?seg = []"
      using facts(3) [of ?seg] seg_set_bound [OF s] by (simp add: segment_bytes_def content_def)
    have "cursor_ok c ?q1" using c by (simp add: cursor_ok_def facts(2))
    moreover have "can_advance ?q1"
      using q(2) True same [OF inv(3)] by (auto simp: can_advance_def)
    ultimately obtain c' where mv: "move_after ?seg ?q1 = (Inr (ReadMove c'), ?q1)"
      and sp: "step_spec c ?q1 (ReadMove c') ?q1"
      using move_after_spec [OF ok1] True none by fastforce
    have "pending_from c (files d) = pending_from c ?F"
      using bad none same by (intro pending_from_dry [OF facts(1) inv(2)]) (auto simp: facts(2))
    moreover have "tail_clean x q \<longrightarrow> tail_clean x ?q1" for x
      using True same [OF inv(3)] by (simp add: tail_clean_def)
    ultimately have "step_spec c q (ReadMove c') ?q1" using sp corrupt by (simp add: step_spec_def)
    with eval mv show ?thesis by simp
  next
    case False
    then have act: "?seg = active_segment_id q" using c by (simp add: cursor_ok_def)
    have room: "?seg < u64_max" using q(2) nonempty act by (auto simp: can_advance_def)
    let ?d = "put_file (segment_path (Suc ?seg)) [] d"
    let ?c = "\<lparr>segment_id = Suc ?seg, offset = 0\<rparr>"
    let ?q2 = "q\<lparr>dir := ?d, active_segment_id := Suc ?seg, active_segment_bytes := 0,
                 queued_bytes := saturating_sub_u64 (queued_bytes q) (length ?bs)\<rparr>"
    have hd2: "healthy ?d" using hd by simp
    have fd2: "files ?d = AList.update (segment_path (Suc ?seg)) []
        (quarantined ?seg ?bs (as_bytes (reason @ ''\<newline>'')) ?F)"
      by (simp add: put_file_def fd)
    note fresh = quarantine_active_ok [OF q(1) act room hd2 fd2]
    have eval: "quarantine_and_advance ?seg reason q = (Inr (ReadMove ?c), ?q2)"
      unfolding quarantine_and_advance_def go
      using act [symmetric] room hd by (simp add: checked_add_u64_def step_simps)
    have tidy2: "tidy (files ?d)" using fresh(1) by (simp add: queue_ok_def)
    have "ids_beyond ?seg ?F = []"
      using inv(4) act by (simp add: ids_beyond_Nil_iff [OF inv(2)])
    moreover have "ids_beyond (Suc ?seg) (files ?d) = []"
      using inv(4) act unfolding ids_beyond_Nil_iff [OF tidy2] fresh(2) by (auto intro: le_SucI)
    ultimately have "pending_from ?c (files ?d) = pending_from c ?F"
      using bad fresh(3) by (simp add: pending_from_def)
    moreover have "tail_clean x ?q2" if "segment_id x \<le> Suc ?seg" for x
      using fresh(3) by (simp add: tail_clean_def)
    ultimately have "step_spec c q (ReadMove ?c) ?q2"
      using fresh(1,3) inv(9) act corrupt by (simp add: step_spec_def can_advance_def cursor_ok_def)
    with eval show ?thesis by simp
  qed
qed

lemma read_step_at_spec:
  assumes q: "queue_ok q" "can_advance q" and c: "cursor_ok c q"
  shows "\<exists>st q'. read_step_at c q = (Inr st, q') \<and> step_spec c q st q'"
proof -
  note inv = queue_okD [OF q(1)]
  let ?F = "files (dir q)" and ?seg = "segment_id c"
  let ?bs = "segment_bytes ?F ?seg"
  have le: "?seg \<le> active_segment_id q" using c by (simp add: cursor_ok_def)
  show ?thesis
  proof (cases "?seg \<in> seg_set ?F")
    case False
    then have none: "map_of ?F (segment_path ?seg) = None" using le inv(11) by (auto simp: seg_set_def)
    moreover have "?seg < active_segment_id q" using le inv(3) False by (metis le_neq_implies_less)
    ultimately show ?thesis
      using move_after_spec [OF q c] read_step_at_missing [OF inv(1)]
      by (fastforce simp: segment_bytes_def content_def)
  next
    case True
    note present = seg_set_path [OF True]
    have off: "offset c \<le> max_offset" "offset c \<le> length ?bs" using c True by (auto simp: cursor_ok_def)
    have big: "length ?bs \<le> max_offset"
      using segment_bytes_le_total [OF inv(2) True] inv(7) by simp
    show ?thesis
    proof (cases "length ?bs < offset c + 8")
      case short: True
      then have dry: "segment_records (drop (offset c) ?bs) = []" using off by simp
      show ?thesis
      proof (cases "?seg < active_segment_id q")
        case True
        with move_after_spec [OF q c True dry] short show ?thesis
          by (auto simp: read_step_at_open [OF inv(1) present off(1)])
      next
        case False
        with le have "?seg = active_segment_id q" by simp
        then have "ids_beyond ?seg ?F = []" using inv(4) by (simp add: ids_beyond_Nil_iff [OF inv(2)])
        with dry have "pending_from c ?F = []" by (simp add: pending_from_def)
        with q have "step_spec c q ReadEmpty q" by (simp add: step_spec_def)
        with False short show ?thesis by (simp add: read_step_at_open [OF inv(1) present off(1)])
      qed
    next
      case long: False
      note payload = read_payload_at_ok [OF inv(1) _ big, of c]
      show ?thesis
      proof (cases "head_record (drop (offset c) ?bs)")
        case None
        then have bad: "segment_records (drop (offset c) ?bs) = []" by (simp add: segment_records.simps)
        from None payload long obtain reason where
          "read_step_at c q = quarantine_and_advance ?seg reason q"
          by (auto simp: read_step_at_open [OF inv(1) present off(1)])
        moreover have "drop (offset c) ?bs \<noteq> []" using long by auto
        ultimately show ?thesis using quarantine_and_advance_spec [OF q c True bad] by simp
      next
        case (Some p)
        let ?c = "\<lparr>segment_id = ?seg, offset = offset c + 8 + length p\<rparr>"
        have step: "read_step_at c q = (Inr (ReadRecord p ?c), q)"
          using Some payload long by (simp add: read_step_at_open [OF inv(1) present off(1)])
        have fits: "offset c + 8 + length p \<le> length ?bs"
          using head_record_Some_length [OF Some] off(2) unfolding length_drop by linarith
        have dr: "drop (offset c + 8 + length p) ?bs = drop (8 + length p) (drop (offset c) ?bs)"
          by (simp add: ac_simps)
        have "pending_from c ?F = p # pending_from ?c ?F"
          unfolding pending_from_def
          by (subst segment_records.simps) (simp add: Some dr)
        moreover have "cursor_ok ?c q" using fits big le by (simp add: cursor_ok_def)
        moreover have "tail_clean c q \<longrightarrow> tail_clean ?c q"
          using clean_head [OF _ Some] dr by (auto simp: tail_clean_def)
        moreover have "intact c ?F \<longrightarrow> intact ?c ?F"
          using clean_head [OF _ Some] dr by (auto simp: intact_def)
        moreover have "aligned c ?F \<longrightarrow> aligned ?c ?F"
        proof
          assume "aligned c ?F"
          then have "clean (take (offset c) ?bs @ stored p)"
            using clean_append head_record_bytes(2) [OF Some] by (simp add: aligned_def)
          then show "aligned ?c ?F"
            using take_add [of "offset c" "8 + length p" ?bs] head_record_bytes(1) [OF Some]
            by (simp add: aligned_def add.assoc)
        qed
        ultimately have "step_spec c q (ReadRecord p ?c) q" using q by (simp add: step_spec_def)
        with step show ?thesis by simp
      qed
    qed
  qed
qed

text \<open>
  What a batch read promises: the payloads are the next ones in order, committing the batch will
  continue right after them, and nothing changes when no segment is corrupt.
\<close>

definition batch_spec ::
  "usize \<Rightarrow> cursor \<Rightarrow> disk_queue \<Rightarrow> u8 list list \<Rightarrow> cursor \<Rightarrow> disk_queue \<Rightarrow> bool" where
  "batch_spec n c q ps c' q' \<longleftrightarrow>
     ps = take n (pending_from c (files (dir q))) \<and>
     pending_from c' (files (dir q')) = drop n (pending_from c (files (dir q))) \<and>
     queue_ok q' \<and> can_advance q' \<and> cursor q' = cursor q \<and> options q' = options q \<and>
     cursor_ok c' q' \<and> (tail_clean c q \<longrightarrow> tail_clean c' q') \<and>
     segment_id c \<le> segment_id c' \<and> (aligned c (files (dir q)) \<longrightarrow> aligned c' (files (dir q'))) \<and>
     (tail_clean (cursor q) q \<longrightarrow> tail_clean (cursor q) q') \<and>
     (intact c (files (dir q)) \<longrightarrow> q' = q \<and> intact c' (files (dir q')))"

lemma batch_spec_refl:
  "queue_ok q \<Longrightarrow> can_advance q \<Longrightarrow> cursor_ok c q \<Longrightarrow>
   n = 0 \<or> pending_from c (files (dir q)) = [] \<Longrightarrow> batch_spec n c q [] c q"
  by (auto simp: batch_spec_def)

lemma batch_spec_record:
  assumes "step_spec c q (ReadRecord p c1) q1" and "batch_spec n c1 q1 ps c' q'"
  shows "batch_spec (Suc n) c q (p # ps) c' q'"
  using assms by (auto simp: step_spec_def batch_spec_def)

lemma batch_spec_move:
  assumes "step_spec c q (ReadMove c1) q1" and "batch_spec n c1 q1 ps c' q'"
  shows "batch_spec n c q ps c' q'"
  using assms by (auto simp: step_spec_def batch_spec_def aligned_def)

lemma read_batch_loop_spec:
  assumes "queue_ok q" and "can_advance q" and "cursor_ok c q" and "length batch \<le> m"
  shows "\<exists>ps c' moved' q'. read_batch_loop m batch moved c q =
           (Inr \<lparr>payloads = batch @ ps, next_cursor = c', should_commit = moved'\<rparr>, q') \<and>
         batch_spec (m - length batch) c q ps c' q' \<and>
         (moved \<longrightarrow> moved') \<and> (ps = [] \<and> \<not> moved' \<longrightarrow> c' = c \<and> q' = q)"
  using assms
proof (induction m batch moved c q rule: read_batch_loop.induct)
  case (1 m batch moved c q)
  note ok = 1(3,4,5) and len = 1(6)
  show ?case
  proof (cases "length batch < m")
    case False
    with len batch_spec_refl [OF ok, of 0] show ?thesis
      by (subst read_batch_loop.simps) auto
  next
    case True
    obtain st q1 where st: "read_step_at c q = (Inr st, q1)" and sp: "step_spec c q st q1"
      using read_step_at_spec [OF ok] by blast
    show ?thesis
    proof (cases st)
      case (ReadRecord p c1)
      have "queue_ok q1" "can_advance q1" "cursor_ok c1 q1" "length (batch @ [p]) \<le> m"
        using sp ReadRecord True by (auto simp: step_spec_def)
      from 1(1) [OF True st [symmetric] refl ReadRecord this] obtain ps c' moved' q' where
        rest: "read_batch_loop m (batch @ [p]) moved c1 q1 =
           (Inr \<lparr>payloads = (batch @ [p]) @ ps, next_cursor = c', should_commit = moved'\<rparr>, q')"
        "batch_spec (m - length (batch @ [p])) c1 q1 ps c' q'" "moved \<longrightarrow> moved'"
        by blast
      have "batch_spec (m - length batch) c q (p # ps) c' q'"
        using batch_spec_record [OF sp [unfolded ReadRecord] rest(2)] True by (simp add: Suc_diff_Suc)
      moreover have "read_batch_loop m batch moved c q =
           (Inr \<lparr>payloads = batch @ (p # ps), next_cursor = c', should_commit = moved'\<rparr>, q')"
        using rest(1) st ReadRecord True by (subst read_batch_loop.simps) simp
      ultimately show ?thesis using rest(3) by blast
    next
      case (ReadMove c1)
      have "queue_ok q1" "can_advance q1" "cursor_ok c1 q1"
        using sp ReadMove by (auto simp: step_spec_def)
      from 1(2) [OF True st [symmetric] refl ReadMove this len] obtain ps c' moved' q' where
        rest: "read_batch_loop m batch True c1 q1 =
           (Inr \<lparr>payloads = batch @ ps, next_cursor = c', should_commit = moved'\<rparr>, q')"
        "batch_spec (m - length batch) c1 q1 ps c' q'" "moved'"
        by blast
      have "batch_spec (m - length batch) c q ps c' q'"
        using batch_spec_move [OF sp [unfolded ReadMove] rest(2)] .
      moreover have "read_batch_loop m batch moved c q =
           (Inr \<lparr>payloads = batch @ ps, next_cursor = c', should_commit = moved'\<rparr>, q')"
        using rest(1) st ReadMove True by (subst read_batch_loop.simps) simp
      ultimately show ?thesis using rest(3) by blast
    next
      case ReadEmpty
      with sp have "q1 = q" "pending_from c (files (dir q)) = []" by (auto simp: step_spec_def)
      moreover from this st ReadEmpty True have "read_batch_loop m batch moved c q =
           (Inr \<lparr>payloads = batch @ [], next_cursor = c, should_commit = moved\<rparr>, q)"
        by (subst read_batch_loop.simps) simp
      ultimately show ?thesis using batch_spec_refl [OF ok] by blast
    qed
  qed
qed

lemma read_batch_spec:
  assumes "queue_ok q" and "can_advance q"
  obtains ps c' moved q' where
    "read_batch n q = (Inr \<lparr>payloads = ps, next_cursor = c', should_commit = moved\<rparr>, q')"
    and "batch_spec n (cursor q) q ps c' q'"
    and "ps = [] \<Longrightarrow> \<not> moved \<Longrightarrow> c' = cursor q \<and> q' = q"
proof (cases "n = 0")
  case True
  then show thesis
    using that [of "[]" "cursor q" False q] batch_spec_refl [OF assms queue_okD(9) [OF assms(1)]]
    by (simp add: read_batch_def)
next
  case False
  then show thesis
    using read_batch_loop_spec [OF assms queue_okD(9) [OF assms(1)], of "[]" n False] that
    by (auto simp: read_batch_def)
qed

end
