(* ===== verification/Queue_Writes.thy ===== *)
theory Queue_Writes
  imports Queue_Contract
begin

section \<open>A fresh active segment\<close>

lemma fresh_segment:
  assumes t: "tidy F" and top: "\<And>i. i \<in> seg_set F \<Longrightarrow> i \<le> a" and room: "a < u64_max"
  defines "F' \<equiv> AList.update (segment_path (Suc a)) [] F"
  shows "tidy F'" and "seg_set F' = insert (Suc a) (seg_set F)"
    and "segment_bytes F' (Suc a) = []"
    and "i \<le> a \<Longrightarrow> segment_bytes F' i = segment_bytes F i"
    and "total_bytes F' = total_bytes F"
    and "map_of F' CURSOR_FILE = map_of F CURSOR_FILE"
    and "map_of F' (s @ CORRUPT_SUFFIX) = map_of F (s @ CORRUPT_SUFFIX)"
    and "segment_id c \<le> a \<Longrightarrow> pending_from c F' = pending_from c F"
proof -
  have le: "Suc a \<le> u64_max" using room by simp
  show t': "tidy F'" unfolding F'_def by (rule tidy_update [OF t]) (use le in blast)
  show set: "seg_set F' = insert (Suc a) (seg_set F)" using le by (simp add: F'_def seg_set_segment)
  show new: "segment_bytes F' (Suc a) = []"
    by (simp add: F'_def segment_bytes_def content_def update_conv')
  show old: "segment_bytes F' i = segment_bytes F i" if "i \<le> a" for i
    using that le by (simp add: F'_def segment_bytes_def content_def update_conv')
  have out: "Suc a \<notin> seg_set F" using top by fastforce
  have "total_bytes F' = length (segment_bytes F' (Suc a)) + total_bytes F"
    using set out top old by (intro total_bytes_diff [OF t']) auto
  with new show "total_bytes F' = total_bytes F" by simp
  show "map_of F' CURSOR_FILE = map_of F CURSOR_FILE"
    by (simp add: F'_def update_conv' segment_path_not_cursor)
  show "map_of F' (s @ CORRUPT_SUFFIX) = map_of F (s @ CORRUPT_SUFFIX)"
    using segment_path_not_corrupt [OF le] by (simp add: F'_def update_conv')
  show "pending_from c F' = pending_from c F" if c: "segment_id c \<le> a"
  proof -
    have snoc: "ids_beyond (segment_id c) F' = ids_beyond (segment_id c) F @ [Suc a]"
    proof -
      let ?l = "ids_beyond (segment_id c) F @ [Suc a]"
      have s: "set ?l = {i \<in> seg_set F'. segment_id c < i}"
        using c set by (auto simp: ids_beyond_tidy [OF t] t)
      have "sorted ?l" "distinct ?l"
        using top out t by (auto simp: ids_beyond_tidy sorted_append le_SucI)
      then have "?l = sorted_list_of_set (set ?l)"
        by (metis sorted_list_of_set.idem_if_sorted_distinct)
      with s show ?thesis by (simp add: ids_beyond_tidy [OF t'])
    qed
    have "map (\<lambda>i. segment_records (segment_bytes F' i)) (ids_beyond (segment_id c) F)
        = map (\<lambda>i. segment_records (segment_bytes F i)) (ids_beyond (segment_id c) F)"
      using top by (intro map_cong) (auto simp: ids_beyond_tidy [OF t] t old)
    then show ?thesis
      unfolding pending_from_def snoc using new old [OF c] by (simp del: map_eq_conv)
  qed
qed

definition rotated :: "disk_queue \<Rightarrow> disk_queue" where
  "rotated q = q\<lparr>active_segment_id := Suc (active_segment_id q), active_segment_bytes := 0,
                 dir := put_file (segment_path (Suc (active_segment_id q))) [] (dir q)\<rparr>"

lemma rotate_segment_ok:
  assumes q: "queue_ok q" and room: "active_segment_id q < u64_max"
  shows "rotate_segment q = (Inr (), rotated q)" and "queue_ok (rotated q)"
    and "cursor_ok c q \<Longrightarrow> cursor_ok c (rotated q)"
    and "cursor_ok c q \<Longrightarrow> pending_from c (files (dir (rotated q))) = pending_from c (files (dir q))"
    and "tail_clean c (rotated q) \<or> \<not> cursor_ok c q"
    and "cursor_ok c q \<Longrightarrow> intact c (files (dir q)) \<Longrightarrow> intact c (files (dir (rotated q)))"
    and "cursor_ok c q \<Longrightarrow> aligned c (files (dir q)) \<Longrightarrow> aligned c (files (dir (rotated q)))"
proof -
  note inv = queue_okD [OF q]
  let ?a = "active_segment_id q"
  have f: "files (dir (rotated q)) = AList.update (segment_path (Suc ?a)) [] (files (dir q))"
    by (simp add: rotated_def put_file_def)
  note fresh = fresh_segment [OF inv(2,4) room, folded f]
  show "rotate_segment q = (Inr (), rotated q)"
    using room inv(1) by (simp add: rotate_segment_def step_simps rotated_def checked_add_u64_def)
  show curs: "cursor_ok c q \<Longrightarrow> cursor_ok c (rotated q)" for c
    using fresh(2,4) by (auto simp: cursor_ok_def rotated_def)
  have act: "active_segment_id (rotated q) = Suc ?a" "active_segment_bytes (rotated q) = 0"
    "queued_bytes (rotated q) = queued_bytes q" "cursor (rotated q) = cursor q"
    "healthy (dir (rotated q))"
    using inv(1) by (simp_all add: rotated_def)
  have "slots_free (rotated q)"
    using inv(10) room by (auto simp: slots_free_def act fresh(2,7))
  then show "queue_ok (rotated q)"
    using inv fresh(1-3,5,6) curs [OF inv(9)]
    by (auto simp: queue_ok_def act le_SucI)
  show "cursor_ok c q \<Longrightarrow> pending_from c (files (dir (rotated q))) = pending_from c (files (dir q))"
    using fresh(8) by (simp add: cursor_ok_def)
  show "tail_clean c (rotated q) \<or> \<not> cursor_ok c q"
    using fresh(3) by (auto simp: tail_clean_def act cursor_ok_def)
  show "cursor_ok c q \<Longrightarrow> intact c (files (dir q)) \<Longrightarrow> intact c (files (dir (rotated q)))"
    using fresh(2,3,4) inv(4) by (auto simp: intact_def cursor_ok_def)
  show "cursor_ok c q \<Longrightarrow> aligned c (files (dir q)) \<Longrightarrow> aligned c (files (dir (rotated q)))"
    using fresh(4) by (simp add: aligned_def cursor_ok_def)
qed

section \<open>Appending to the active segment\<close>

lemma ids_beyond_snoc:
  assumes t: "tidy F" and a: "a \<in> seg_set F" and top: "\<And>i. i \<in> seg_set F \<Longrightarrow> i \<le> a" and c: "c < a"
  obtains ids where "ids_beyond c F = ids @ [a]" and "a \<notin> set ids"
proof -
  have set: "set (ids_beyond c F) = {i \<in> seg_set F. c < i}" and s: "sorted (ids_beyond c F)"
    and d: "distinct (ids_beyond c F)" by (simp_all add: ids_beyond_tidy t)
  with a c have "ids_beyond c F \<noteq> []" by (metis (mono_tags, lifting) empty_iff list.set(1) mem_Collect_eq)
  then obtain ids l where l: "ids_beyond c F = ids @ [l]" by (metis rev_exhaust)
  have "l \<le> a" using set l top by fastforce
  moreover have "a \<le> l" using s a c set unfolding l by (auto simp: sorted_append)
  ultimately show thesis using that l d by simp
qed

lemma append_segment:
  fixes x :: "u8 list"
  assumes t: "tidy F" and a: "a \<in> seg_set F" and top: "\<And>i. i \<in> seg_set F \<Longrightarrow> i \<le> a"
  defines "F' \<equiv> AList.update (segment_path a) (segment_bytes F a @ x) F"
  shows "tidy F'" and "seg_set F' = seg_set F"
    and "segment_bytes F' a = segment_bytes F a @ x"
    and "i \<le> u64_max \<Longrightarrow> i \<noteq> a \<Longrightarrow> segment_bytes F' i = segment_bytes F i"
    and "total_bytes F' = total_bytes F + length x"
    and "map_of F' CURSOR_FILE = map_of F CURSOR_FILE"
    and "map_of F' (s @ CORRUPT_SUFFIX) = map_of F (s @ CORRUPT_SUFFIX)"
    and "segment_id c \<le> a \<Longrightarrow> segment_id c = a \<longrightarrow> offset c \<le> length (segment_bytes F a) \<Longrightarrow>
         segment_records (drop (if segment_id c = a then offset c else 0) (segment_bytes F a) @ x) =
         segment_records (drop (if segment_id c = a then offset c else 0) (segment_bytes F a)) @ ps \<Longrightarrow>
         pending_from c F' = pending_from c F @ ps"
proof -
  have le: "a \<le> u64_max" using a by (rule seg_set_bound)
  show t': "tidy F'" unfolding F'_def by (rule tidy_update [OF t]) (use le in blast)
  show set: "seg_set F' = seg_set F" using le a by (simp add: F'_def seg_set_segment insert_absorb)
  show new: "segment_bytes F' a = segment_bytes F a @ x"
    by (simp add: F'_def segment_bytes_def content_def update_conv')
  show old: "segment_bytes F' i = segment_bytes F i" if "i \<le> u64_max" "i \<noteq> a" for i
    using that le by (simp add: F'_def segment_bytes_def content_def update_conv')
  have "(\<Sum>i\<in>seg_set F - {a}. length (segment_bytes F' i)) = (\<Sum>i\<in>seg_set F - {a}. length (segment_bytes F i))"
    by (intro sum.cong) (auto simp: old seg_set_bound)
  then show "total_bytes F' = total_bytes F + length x"
    using t a new by (simp add: total_bytes_def set sum.remove [of "seg_set F" a])
  show "map_of F' CURSOR_FILE = map_of F CURSOR_FILE"
    by (simp add: F'_def update_conv' segment_path_not_cursor)
  show "map_of F' (s @ CORRUPT_SUFFIX) = map_of F (s @ CORRUPT_SUFFIX)"
    using segment_path_not_corrupt [OF le] by (simp add: F'_def update_conv')
  have ids: "ids_beyond j F' = ids_beyond j F" for j by (simp add: ids_beyond_tidy t t' set)
  assume c: "segment_id c \<le> a" and off: "segment_id c = a \<longrightarrow> offset c \<le> length (segment_bytes F a)"
    and rec: "segment_records (drop (if segment_id c = a then offset c else 0) (segment_bytes F a) @ x) =
         segment_records (drop (if segment_id c = a then offset c else 0) (segment_bytes F a)) @ ps"
  show "pending_from c F' = pending_from c F @ ps"
  proof (cases "segment_id c = a")
    case True
    then have "ids_beyond (segment_id c) F = []" using top by (simp add: ids_beyond_Nil_iff [OF t])
    with True off rec new show ?thesis by (simp add: pending_from_def ids)
  next
    case False
    with c obtain ids' where i: "ids_beyond (segment_id c) F = ids' @ [a]" "a \<notin> set ids'"
      using ids_beyond_snoc [OF t a top, of "segment_id c"] by force
    have "set ids' \<subseteq> seg_set F" using i(1) by (metis (no_types, lifting) Un_subset_iff filter_is_subset
          ids_beyond_def set_append set_ids_of t)
    then have "map (\<lambda>i. segment_records (segment_bytes F' i)) ids' = map (\<lambda>i. segment_records (segment_bytes F i)) ids'"
      using i(2) by (intro map_cong refl arg_cong [of _ _ segment_records] old) (auto dest: seg_set_bound)
    moreover have "segment_id c \<le> u64_max" using c le by simp
    ultimately show ?thesis
      using False rec new old unfolding pending_from_def ids i(1) by (simp del: map_eq_conv)
  qed
qed

definition appended :: "u8 list \<Rightarrow> disk_queue \<Rightarrow> disk_queue" where
  "appended p q = q\<lparr>dir := put_file (segment_path (active_segment_id q))
       (segment_bytes (files (dir q)) (active_segment_id q) @ stored p) (dir q),
     active_segment_bytes := active_segment_bytes q + (8 + length p),
     queued_bytes := queued_bytes q + (8 + length p)\<rparr>"

lemma put_file_again: "put_file n x (put_file n y d) = put_file n x d"
  by (simp add: put_file_def)

lemma when_act_steps:
  "seq_act (when_act True m) n = seq_act m n"
  "seq_act (when_act False m) n s = n s"
  by (simp_all add: when_act_def)

lemma append_record_ok:
  assumes q: "queue_ok q" and fits: "total_bytes (files (dir q)) + (8 + length p) \<le> max_offset"
  shows "append_record p (8 + length p) q = (Inr (), appended p q)"
proof -
  note inv = queue_okD [OF q]
  have "active_segment_bytes q \<le> total_bytes (files (dir q))"
    using segment_bytes_le_total [OF inv(2,3)] inv(5) by simp
  then have "add_u64 (active_segment_bytes q) (8 + length p) = active_segment_bytes q + (8 + length p)"
    and "add_u64 (queued_bytes q) (8 + length p) = queued_bytes q + (8 + length p)"
    using fits inv(6) by simp_all
  then show ?thesis
    using inv(1)
    by (cases "fsync_on_write (options q)")
      (simp_all add: append_record_def step_simps when_act_steps put_file_again content_def appended_def
        segment_bytes_def stored_def record_header_def)
qed

lemma appended_ok:
  assumes q: "queue_ok q" and p: "fits_u32 p"
    and fits: "total_bytes (files (dir q)) + (8 + length p) \<le> max_offset"
  shows "queue_ok (appended p q)"
    and "cursor_ok c q \<Longrightarrow> cursor_ok c (appended p q)"
    and "cursor_ok c q \<Longrightarrow> tail_clean c q \<Longrightarrow> tail_clean c (appended p q)"
    and "cursor_ok c q \<Longrightarrow> tail_clean c q \<Longrightarrow>
         pending_from c (files (dir (appended p q))) = pending_from c (files (dir q)) @ [p]"
    and "cursor_ok c q \<Longrightarrow> intact c (files (dir q)) \<Longrightarrow> intact c (files (dir (appended p q)))"
    and "cursor_ok c q \<Longrightarrow> aligned c (files (dir q)) \<Longrightarrow> aligned c (files (dir (appended p q)))"
proof -
  note inv = queue_okD [OF q]
  let ?a = "active_segment_id q"
  have f: "files (dir (appended p q)) =
      AList.update (segment_path ?a) (segment_bytes (files (dir q)) ?a @ stored p) (files (dir q))"
    by (simp add: appended_def put_file_def)
  note app = append_segment [OF inv(2,3,4), where x = "stored p", folded f]
  have act: "active_segment_id (appended p q) = ?a" "cursor (appended p q) = cursor q"
    "healthy (dir (appended p q))" "active_segment_bytes (appended p q) = active_segment_bytes q + (8 + length p)"
    "queued_bytes (appended p q) = queued_bytes q + (8 + length p)"
    using inv(1) by (simp_all add: appended_def)
  have bytes: "segment_bytes (files (dir (appended p q))) i =
      (if i = ?a then segment_bytes (files (dir q)) ?a @ stored p else segment_bytes (files (dir q)) i)"
    if "i \<in> seg_set (files (dir q))" for i
    using app(3,4) seg_set_bound [OF that] by simp
  show curs: "cursor_ok c q \<Longrightarrow> cursor_ok c (appended p q)" for c
    by (auto simp: cursor_ok_def act app(2) bytes)
  have "slots_free (appended p q)" using inv(10) by (simp add: slots_free_def act app(2,7))
  then show "queue_ok (appended p q)"
    using inv app(1,2,3,5,6) curs fits by (simp add: queue_ok_def act)
  show "tail_clean c (appended p q)" if "cursor_ok c q" "tail_clean c q"
    using that inv(3) clean_append [OF _ p] by (auto simp: tail_clean_def act app(3) cursor_ok_def)
  show "pending_from c (files (dir (appended p q))) = pending_from c (files (dir q)) @ [p]"
    if "cursor_ok c q" "tail_clean c q"
    using that inv(3) segment_records_append [OF _ p]
    by (intro app(8)) (auto simp: cursor_ok_def tail_clean_def)
  show "aligned c (files (dir (appended p q)))" if "cursor_ok c q" "aligned c (files (dir q))"
    using that app(3,4) inv(3,11) by (cases "segment_id c = ?a") (auto simp: aligned_def cursor_ok_def)
  show "intact c (files (dir (appended p q)))" if c: "cursor_ok c q" and i: "intact c (files (dir q))"
  proof -
    have le: "segment_id c \<le> u64_max" using c inv(11) by (simp add: cursor_ok_def)
    have "clean (drop (offset c) (segment_bytes (files (dir (appended p q))) (segment_id c)))"
    proof (cases "segment_id c = ?a")
      case True
      then have "offset c \<le> length (segment_bytes (files (dir q)) ?a)"
        using c inv(3) by (simp add: cursor_ok_def)
      with True i clean_append [OF _ p] show ?thesis by (simp add: intact_def app(3))
    next
      case False
      with i app(4) le show ?thesis by (simp add: intact_def)
    qed
    with i clean_append [OF _ p] show ?thesis by (simp add: intact_def app(2) bytes)
  qed
qed

section \<open>Enqueue\<close>

definition needs_rotation :: "u8 list \<Rightarrow> disk_queue \<Rightarrow> bool" where
  "needs_rotation p q \<longleftrightarrow> active_segment_bytes q > 0 \<and>
     active_segment_bytes q + (8 + length p) > max_segment_bytes (options q)"

definition enqueued :: "u8 list \<Rightarrow> disk_queue \<Rightarrow> disk_queue" where
  "enqueued p q = appended p (if needs_rotation p q then rotated q else q)"

text \<open>Room for one more record: within the offset range, with an identifier left to rotate to.\<close>

definition has_room :: "u8 list \<Rightarrow> disk_queue \<Rightarrow> bool" where
  "has_room p q \<longleftrightarrow> fits_u32 p \<and> total_bytes (files (dir q)) + (8 + length p) \<le> max_offset \<and>
     active_segment_id q < u64_max"

lemma rotated_total: "queue_ok q \<Longrightarrow> active_segment_id q < u64_max \<Longrightarrow>
    total_bytes (files (dir (rotated q))) = total_bytes (files (dir q))"
  using fresh_segment(5) [OF queue_okD(2,4)] by (simp add: rotated_def put_file_def)

lemma enqueue_ok:
  assumes q: "queue_ok q" and room: "has_room p q"
  shows "enqueue p q = (Inr (), enqueued p q)"
proof -
  note inv = queue_okD [OF q]
  have len: "length p \<le> u32_max" and fits: "total_bytes (files (dir q)) + (8 + length p) \<le> max_offset"
    and act: "active_segment_id q < u64_max" using room by (auto simp: has_room_def fits_u32_def)
  have sb: "storage_bytes_for_payload (length p) = Inr (8 + length p)"
    using len by (simp add: storage_bytes_for_payload_def)
  have "active_segment_bytes q \<le> total_bytes (files (dir q))"
    using segment_bytes_le_total [OF inv(2,3)] inv(5) by simp
  then have add: "add_u64 (active_segment_bytes q) (8 + length p) = active_segment_bytes q + (8 + length p)"
    using fits by simp
  have e: "enqueue p q = seq_act (when_act (needs_rotation p q) rotate_segment) (append_record p (8 + length p)) q"
    using len add by (simp add: enqueue_def sb needs_rotation_def)
  show ?thesis
  proof (cases "needs_rotation p q")
    case True
    note rot = rotate_segment_ok [OF q act]
    show ?thesis
      using True append_record_ok [OF rot(2)] fits rotated_total [OF q act]
      by (simp add: e when_act_steps seq_act_step(1) [of rotate_segment, OF rot(1)] enqueued_def)
  next
    case False
    with append_record_ok [OF q fits] show ?thesis by (simp add: e when_act_steps enqueued_def)
  qed
qed

lemma enqueued_ok:
  assumes q: "queue_ok q" and room: "has_room p q"
  shows "queue_ok (enqueued p q)" and "cursor (enqueued p q) = cursor q"
    and "options (enqueued p q) = options q"
    and "active_segment_id (enqueued p q) \<le> Suc (active_segment_id q)"
    and "queued_bytes (enqueued p q) = queued_bytes q + (8 + length p)"
    and "cursor_ok c q \<Longrightarrow> cursor_ok c (enqueued p q)"
    and "cursor_ok c q \<Longrightarrow> tail_clean c q \<Longrightarrow> tail_clean c (enqueued p q)"
    and "cursor_ok c q \<Longrightarrow> tail_clean c q \<Longrightarrow>
         pending_from c (files (dir (enqueued p q))) = pending_from c (files (dir q)) @ [p]"
    and "cursor_ok c q \<Longrightarrow> intact c (files (dir q)) \<Longrightarrow> intact c (files (dir (enqueued p q)))"
    and "cursor_ok c q \<Longrightarrow> aligned c (files (dir q)) \<Longrightarrow> aligned c (files (dir (enqueued p q)))"
proof -
  have p: "fits_u32 p" and fits: "total_bytes (files (dir q)) + (8 + length p) \<le> max_offset"
    and act: "active_segment_id q < u64_max" using room by (auto simp: has_room_def)
  note rot = rotate_segment_ok [OF q act]
  note here = appended_ok [OF q p fits]
  have fits': "total_bytes (files (dir (rotated q))) + (8 + length p) \<le> max_offset"
    using fits rotated_total [OF q act] by simp
  note there = appended_ok [OF rot(2) p fits']
  show "queue_ok (enqueued p q)" using here(1) there(1) by (simp add: enqueued_def)
  show "cursor (enqueued p q) = cursor q" "options (enqueued p q) = options q"
    "active_segment_id (enqueued p q) \<le> Suc (active_segment_id q)"
    "queued_bytes (enqueued p q) = queued_bytes q + (8 + length p)"
    by (simp_all add: enqueued_def appended_def rotated_def)
  show "cursor_ok c q \<Longrightarrow> cursor_ok c (enqueued p q)"
    using here(2) there(2) rot(3) by (simp add: enqueued_def)
  show "cursor_ok c q \<Longrightarrow> tail_clean c q \<Longrightarrow> tail_clean c (enqueued p q)"
    using here(3) there(3) rot(3,5) by (auto simp: enqueued_def)
  show "cursor_ok c q \<Longrightarrow> tail_clean c q \<Longrightarrow>
         pending_from c (files (dir (enqueued p q))) = pending_from c (files (dir q)) @ [p]"
    using here(4) [of c] there(4) [of c] rot(3,4) [of c] rot(5) [of c] by (simp add: enqueued_def)
  show "cursor_ok c q \<Longrightarrow> intact c (files (dir q)) \<Longrightarrow> intact c (files (dir (enqueued p q)))"
    using here(5) there(5) rot(3,6) by (simp add: enqueued_def)
  show "cursor_ok c q \<Longrightarrow> aligned c (files (dir q)) \<Longrightarrow> aligned c (files (dir (enqueued p q)))"
    using here(6) there(6) rot(3,7) by (simp add: enqueued_def)
qed

section \<open>Commit\<close>

lemma delete_segment:
  assumes "tidy F" and "i \<in> seg_set F"
  defines "F' \<equiv> AList.delete (segment_path i) F"
  shows "tidy F'" and "seg_set F' = seg_set F - {i}"
    and "total_bytes F = length (segment_bytes F i) + total_bytes F'"
    and "n \<noteq> segment_path i \<Longrightarrow> map_of F' n = map_of F n"
proof -
  have le: "i \<le> u64_max" using assms(2) by (rule seg_set_bound)
  show "tidy F'" using assms(1) by (simp add: F'_def tidy_delete)
  show set: "seg_set F' = seg_set F - {i}" using le by (simp add: F'_def seg_set_segment)
  show other: "map_of F' n = map_of F n" if "n \<noteq> segment_path i" for n
    using that by (simp add: F'_def delete_conv')
  have "segment_bytes F' j = segment_bytes F j" if "j \<in> seg_set F'" for j
    using that set le seg_set_bound [of j F] by (intro segment_bytes_cong other) simp
  then show "total_bytes F = length (segment_bytes F i) + total_bytes F'"
    by (rule total_bytes_diff [OF assms(1,2) set])
qed

lemma remove_segment_ok:
  assumes "healthy (dir q)" and "i \<in> seg_set (files (dir q))"
  shows "remove_segment i q =
    (Inr (), q\<lparr>dir := drop_file (segment_path i) (dir q),
               queued_bytes := queued_bytes q - length (segment_bytes (files (dir q)) i)\<rparr>)"
  using assms
  by (simp add: remove_segment_def Let_def step_simps seg_set_path saturating_sub_u64_def)

lemma remove_each_ok:
  assumes "healthy (dir q)" and "tidy (files (dir q))" and "queued_bytes q = total_bytes (files (dir q))"
    and "distinct ids" and "set ids \<subseteq> seg_set (files (dir q))"
  shows "\<exists>d. each_act remove_segment ids q = (Inr (), q\<lparr>dir := d, queued_bytes := total_bytes (files d)\<rparr>) \<and>
           healthy d \<and> tidy (files d) \<and> seg_set (files d) = seg_set (files (dir q)) - set ids \<and>
           (\<forall>n. n \<notin> segment_path ` set ids \<longrightarrow> map_of (files d) n = map_of (files (dir q)) n)"
  using assms
proof (induction ids arbitrary: q)
  case Nil
  then show ?case by (auto intro!: exI [of _ "dir q"])
next
  case (Cons i ids)
  let ?F = "files (dir q)" and ?d = "drop_file (segment_path i) (dir q)"
  let ?q = "q\<lparr>dir := ?d, queued_bytes := queued_bytes q - length (segment_bytes ?F i)\<rparr>"
  have i: "i \<in> seg_set ?F" using Cons.prems by simp
  have f: "files ?d = AList.delete (segment_path i) ?F" by (simp add: drop_file_def)
  note del = delete_segment [OF Cons.prems(2) i, folded f]
  have "\<exists>d. each_act remove_segment ids ?q = (Inr (), ?q\<lparr>dir := d, queued_bytes := total_bytes (files d)\<rparr>) \<and>
           healthy d \<and> tidy (files d) \<and> seg_set (files d) = seg_set (files (dir ?q)) - set ids \<and>
           (\<forall>n. n \<notin> segment_path ` set ids \<longrightarrow> map_of (files d) n = map_of (files (dir ?q)) n)"
    using Cons.prems del by (intro Cons.IH) auto
  then obtain d where d: "each_act remove_segment ids ?q = (Inr (), ?q\<lparr>dir := d, queued_bytes := total_bytes (files d)\<rparr>)"
    "healthy d" "tidy (files d)" "seg_set (files d) = seg_set (files ?d) - set ids"
    "\<forall>n. n \<notin> segment_path ` set ids \<longrightarrow> map_of (files d) n = map_of (files ?d) n" by auto
  have "each_act remove_segment (i # ids) q = (Inr (), q\<lparr>dir := d, queued_bytes := total_bytes (files d)\<rparr>)"
    using d(1) by (simp add: seq_act_step(1) [of "remove_segment i" q, OF remove_segment_ok [OF Cons.prems(1) i]])
  moreover have "\<forall>n. n \<notin> segment_path ` set (i # ids) \<longrightarrow> map_of (files d) n = map_of ?F n"
    using d(5) del(4) by auto
  moreover have "seg_set (files d) = seg_set ?F - set (i # ids)" using d(4) del(2) by auto
  ultimately show ?case using d(2,3) by blast
qed

lemma persist_cursor_ok:
  assumes "healthy d"
  obtains d' where "persist_cursor c d = (Inr (), d')" and "healthy d'"
    and "files d' = AList.update CURSOR_FILE (as_bytes (cursor_text c))
           (AList.delete CURSOR_TMP (AList.update CURSOR_TMP (as_bytes (cursor_text c)) (files d)))"
proof
  let ?t = "as_bytes (cursor_text c)"
  let ?d1 = "put_file CURSOR_TMP ?t (put_file CURSOR_TMP [] d)"
  let ?d2 = "put_file CURSOR_FILE ?t (drop_file CURSOR_TMP ?d1)"
  have "fs_rename CURSOR_TMP CURSOR_FILE ?d1 = (Inr (), ?d2)"
    using assms by (simp add: healthy_reads)
  then show "persist_cursor c d = (Inr (), ?d2)"
    using assms by (simp add: persist_cursor_def seq_act_step(1) [OF healthy_write])
  show "healthy ?d2" using assms by simp
  show "files ?d2 = AList.update CURSOR_FILE ?t (AList.delete CURSOR_TMP (AList.update CURSOR_TMP ?t (files d)))"
    by (simp add: put_file_def drop_file_def)
qed

lemma persist_cursor_files:
  fixes t F
  defines "F' \<equiv> AList.update CURSOR_FILE t (AList.delete CURSOR_TMP (AList.update CURSOR_TMP t F))"
  assumes "tidy F"
  shows "tidy F'" and "seg_set F' = seg_set F" and "map_of F' CURSOR_FILE = Some t"
    and "segment_bytes F' i = segment_bytes F i" and "total_bytes F' = total_bytes F"
    and "map_of F' (s @ CORRUPT_SUFFIX) = map_of F (s @ CORRUPT_SUFFIX)"
    and "map_of F' (segment_path i) = map_of F (segment_path i)"
proof -
  show "tidy F'" using assms(2) by (simp add: F'_def tidy_update tidy_delete)
  show s: "seg_set F' = seg_set F" by (simp add: F'_def seg_set_other)
  show "map_of F' CURSOR_FILE = Some t" by (simp add: F'_def update_conv')
  show m: "map_of F' (segment_path i) = map_of F (segment_path i)" for i
    by (simp add: F'_def update_conv' delete_conv' cursor_names_not_segment)
  show b: "segment_bytes F' i = segment_bytes F i" for i by (rule segment_bytes_cong) (rule m)
  show "total_bytes F' = total_bytes F" by (simp add: total_bytes_def s b)
  show "map_of F' (s @ CORRUPT_SUFFIX) = map_of F (s @ CORRUPT_SUFFIX)"
    by (simp add: F'_def update_conv' delete_conv' special_names)
qed

text \<open>
  After a commit the queue stands at the new cursor, and only segments before it are gone.
\<close>

definition commit_spec :: "cursor \<Rightarrow> disk_queue \<Rightarrow> disk_queue \<Rightarrow> bool" where
  "commit_spec c q q' \<longleftrightarrow>
     queue_ok q' \<and> cursor q' = c \<and> options q' = options q \<and>
     active_segment_id q' = active_segment_id q \<and>
     seg_set (files (dir q')) = {i \<in> seg_set (files (dir q)). segment_id c \<le> i} \<and>
     (\<forall>i. segment_id c \<le> i \<longrightarrow> i \<le> u64_max \<longrightarrow>
        map_of (files (dir q')) (segment_path i) = map_of (files (dir q)) (segment_path i))"

lemma commit_cursor_ok:
  assumes q: "queue_ok q" and c: "cursor_ok c q"
  shows "\<exists>q'. commit_cursor c q = (Inr (), q') \<and> commit_spec c q q'"
proof -
  note inv = queue_okD [OF q]
  let ?F = "files (dir q)" and ?q = "q\<lparr>cursor := c\<rparr>"
  let ?ids = "filter (\<lambda>i. i < segment_id c) (ids_of (map fst ?F))"
  have ids: "distinct ?ids" "set ?ids = {i \<in> seg_set ?F. i < segment_id c}"
    using set_ids_of [OF inv(2)] by (simp_all add: ids_of_tidy [OF inv(2)])
  then obtain d where rm: "each_act remove_segment ?ids ?q = (Inr (), ?q\<lparr>dir := d, queued_bytes := total_bytes (files d)\<rparr>)"
    and d: "healthy d" "tidy (files d)" "seg_set (files d) = seg_set ?F - set ?ids"
    and keep: "\<forall>n. n \<notin> segment_path ` set ?ids \<longrightarrow> map_of (files d) n = map_of ?F n"
    using remove_each_ok [of ?q ?ids] inv(1,2,6) by auto
  obtain d' where per: "persist_cursor c d = (Inr (), d')" and hd: "healthy d'"
    and fd: "files d' = AList.update CURSOR_FILE (as_bytes (cursor_text c))
           (AList.delete CURSOR_TMP (AList.update CURSOR_TMP (as_bytes (cursor_text c)) (files d)))"
    using persist_cursor_ok [OF d(1)] by blast
  note pf = persist_cursor_files [OF d(2), of "as_bytes (cursor_text c)", folded fd]
  let ?q' = "q\<lparr>cursor := c, dir := d', queued_bytes := total_bytes (files d)\<rparr>"
  have "remove_segments_before (segment_id c) ?q = (Inr (), ?q\<lparr>dir := d, queued_bytes := total_bytes (files d)\<rparr>)"
    using inv(1) rm by (simp add: remove_segments_before_def step_simps)
  then have run: "commit_cursor c q = (Inr (), ?q')"
    using per by (simp add: commit_cursor_def seq_act_def bind_act_def on_disk_step)
  have sets: "seg_set (files d') = {i \<in> seg_set ?F. segment_id c \<le> i}"
    unfolding pf(2) d(3) ids(2) by auto
  have map: "map_of (files d') (segment_path i) = map_of ?F (segment_path i)"
    if "segment_id c \<le> i" "i \<le> u64_max" for i
  proof -
    have "segment_path i \<noteq> segment_path j" if "j \<in> set ?ids" for j
      using that \<open>segment_id c \<le> i\<close> \<open>i \<le> u64_max\<close> seg_set_bound [of j ?F] unfolding ids(2) by simp
    then have "segment_path i \<notin> segment_path ` set ?ids" by blast
    then show ?thesis using keep pf(7) by simp
  qed
  have bytes: "segment_bytes (files d') i = segment_bytes ?F i"
    if "segment_id c \<le> i" "i \<le> u64_max" for i
    using map [OF that] by (rule segment_bytes_cong)
  have le: "segment_id c \<le> active_segment_id q" using c by (simp add: cursor_ok_def)
  have "cursor_ok c ?q'"
    using c bytes [of "segment_id c"] le inv(11) by (simp add: cursor_ok_def sets)
  moreover have "slots_free ?q'"
  proof -
    have "map_of (files d') (segment_path i @ CORRUPT_SUFFIX) = map_of ?F (segment_path i @ CORRUPT_SUFFIX)" for i
    proof -
      have "segment_path i @ CORRUPT_SUFFIX \<noteq> segment_path j" if "j \<in> set ?ids" for j
        using that segment_path_not_corrupt seg_set_bound [of j ?F] unfolding ids(2) by blast
      then show ?thesis using keep pf(6) by auto
    qed
    then show ?thesis using inv(10) by (auto simp: slots_free_def sets)
  qed
  moreover have "total_bytes (files d') \<le> max_offset"
  proof -
    have "total_bytes (files d') = (\<Sum>i\<in>{i \<in> seg_set ?F. segment_id c \<le> i}. length (segment_bytes ?F i))"
      unfolding total_bytes_def sets by (intro sum.cong) (auto simp: bytes seg_set_bound)
    also have "\<dots> \<le> total_bytes ?F"
      unfolding total_bytes_def using inv(2) by (intro sum_mono2) auto
    finally show ?thesis using inv(7) by simp
  qed
  ultimately have "queue_ok ?q'"
    using inv(3,4,5,11) hd pf(1,3,5) le bytes [of "active_segment_id q"]
    by (auto simp: queue_ok_def sets)
  then have "commit_spec c q ?q'" using sets map by (simp add: commit_spec_def)
  with run show ?thesis by blast
qed

lemma commit_specD:
  assumes sp: "commit_spec c q q'" and q: "queue_ok q" and c: "cursor_ok c q"
  shows "pending q' = pending_from c (files (dir q))"
    and "tail_clean c q \<Longrightarrow> tail_clean c q'"
    and "intact c (files (dir q)) \<Longrightarrow> intact c (files (dir q'))"
    and "can_advance q \<Longrightarrow> can_advance q'"
    and "aligned c (files (dir q)) \<Longrightarrow> aligned c (files (dir q'))"
proof -
  note inv = queue_okD [OF q] and inv' = queue_okD [of q']
  have q': "queue_ok q'" using sp by (simp add: commit_spec_def)
  have le: "segment_id c \<le> active_segment_id q" using c by (simp add: cursor_ok_def)
  have map: "map_of (files (dir q')) (segment_path i) = map_of (files (dir q)) (segment_path i)"
    if "segment_id c \<le> i" "i \<le> u64_max" for i
    using sp that by (simp add: commit_spec_def)
  note bytes = segment_bytes_cong [OF map]
  show "pending q' = pending_from c (files (dir q))"
    using pending_from_cong [OF inv'(2) inv(2) map] q' sp le inv(11) by (simp add: pending_def commit_spec_def)
  show "tail_clean c q \<Longrightarrow> tail_clean c q'" "can_advance q \<Longrightarrow> can_advance q'"
    using sp bytes [OF le inv(11)] by (simp_all add: tail_clean_def can_advance_def commit_spec_def)
  show "aligned c (files (dir q)) \<Longrightarrow> aligned c (files (dir q'))"
    using bytes [of "segment_id c"] le inv(11) by (simp add: aligned_def)
  show "intact c (files (dir q)) \<Longrightarrow> intact c (files (dir q'))"
    using sp bytes [of "segment_id c"] bytes le inv(11)
    by (auto simp: intact_def commit_spec_def seg_set_bound)
qed

end
