(* ===== verification/Queue_Open.thy ===== *)
theory Queue_Open
  imports Queue_Writes
begin

text \<open>
  Opening a queue: the cursor file round-trips, reopening the directory of a sound queue gives back
  the same queue, and an empty directory gives an empty queue.
\<close>

section \<open>The cursor file\<close>

lemma ascii_show_nat: "ascii_str (show_nat n)"
  using show_nat_plain [of n] by (auto simp: ascii_str_def plain_char_def list_all_iff)

lemma ascii_cursor_text: "ascii_str (cursor_text c)"
  using ascii_show_nat by (simp add: ascii_str_def cursor_text_def)

lemma split_cursor_text:
  "split_whitespace (cursor_text c) = [show_nat (segment_id c), show_nat (offset c)]"
proof -
  have sp: "ascii_ws (of_char CHR '' '')" and nl: "ascii_ws (of_char CHR ''\<newline>'')"
    by (simp_all add: ascii_ws_def)
  have "split_whitespace (show_nat (segment_id c) @ CHR '' '' # (show_nat (offset c) @ [CHR ''\<newline>'']))
      = show_nat (segment_id c) # split_whitespace (show_nat (offset c) @ [CHR ''\<newline>''])"
    by (rule split_whitespace_word [OF show_nat_plain show_nat_nonempty sp])
  also have "split_whitespace (show_nat (offset c) @ [CHR ''\<newline>'']) = [show_nat (offset c)]"
    using split_whitespace_word [OF show_nat_plain show_nat_nonempty nl, of "offset c" "[]"] by simp
  finally show ?thesis by (simp add: cursor_text_def)
qed

lemma read_cursor_saved:
  assumes "healthy d" and "map_of (files d) CURSOR_FILE = Some (as_bytes (cursor_text c))"
    and "segment_id c \<le> u64_max" and "offset c \<le> u64_max"
  shows "read_cursor d = (Inr (Some c), d)"
  using assms ascii_str_valid [OF ascii_cursor_text, of c]
  by (simp add: read_cursor_def fs_probe_def bind_act_def healthy_calls healthy_reads split_cursor_text)

lemma read_cursor_missing:
  assumes "healthy d" and "map_of (files d) CURSOR_FILE = None"
  shows "read_cursor d = (Inr None, d)"
  using assms by (simp add: read_cursor_def fs_probe_def bind_act_def healthy_calls)

section \<open>Totals\<close>

lemma total_segment_bytes_from_ok:
  assumes "healthy d" and "set ids \<subseteq> seg_set (files d)"
    and "acc + (\<Sum>i\<leftarrow>ids. length (segment_bytes (files d) i)) \<le> u64_max"
  shows "total_segment_bytes_from acc ids d =
    (Inr (acc + (\<Sum>i\<leftarrow>ids. length (segment_bytes (files d) i))), d)"
  using assms
proof (induction ids arbitrary: acc)
  case Nil
  then show ?case by simp
next
  case (Cons i ids)
  let ?n = "length (segment_bytes (files d) i)"
  have m: "fs_metadata_len (segment_path i) d = (Inr ?n, d)"
    using Cons.prems by (simp add: healthy_calls seg_set_path)
  have "add_u64 acc ?n = acc + ?n" using Cons.prems(3) by simp
  with Cons.IH [of "acc + ?n"] Cons.prems show ?case
    by (simp add: bind_act_step(1) [of "fs_metadata_len (segment_path i)" d, OF m] add.assoc)
qed

lemma total_segment_bytes_ok:
  assumes "healthy d" and t: "tidy (files d)" and "total_bytes (files d) \<le> max_offset"
  shows "total_segment_bytes (ids_of (map fst (files d))) d = (Inr (total_bytes (files d)), d)"
proof -
  have "(\<Sum>i\<leftarrow>ids_of (map fst (files d)). length (segment_bytes (files d) i)) = total_bytes (files d)"
    using t by (simp add: total_bytes_def ids_of_tidy sum_list_distinct_conv_sum_set)
  then show ?thesis
    using total_segment_bytes_from_ok [of d "ids_of (map fst (files d))" 0] assms
    by (simp add: total_segment_bytes_def set_ids_of)
qed

section \<open>Reopening\<close>

lemma io_act_step:
  "m d = (r, d') \<Longrightarrow> io_act m d = (map_err Io r, d')"
  by (simp add: io_act_def)

lemma bind_io_simps:
  "bind_act (io_act m) g d =
     (case m d of (Inl e, d') \<Rightarrow> (Inl (Io e), d') | (Inr x, d') \<Rightarrow> g x d')"
  "bind_act (fs_probe f) h d = (case f d of (x, d') \<Rightarrow> h x d')"
  by (auto simp: bind_act_def io_act_def fs_probe_def split: prod.splits sum.splits)

text \<open>What opening gives on any directory whose cursor file was written by \<^verbatim>\<open>persist_cursor\<close>.\<close>

lemma open_saved:
  assumes h: "healthy d" and t: "tidy (files d)" and a: "a \<in> seg_set (files d)"
    and top: "\<And>i. i \<in> seg_set (files d) \<Longrightarrow> i \<le> a" and fits: "total_bytes (files d) \<le> max_offset"
    and saved: "map_of (files d) CURSOR_FILE = Some (as_bytes (cursor_text c))"
    and c: "segment_id c \<le> u64_max" "offset c \<le> u64_max"
  obtains d' where "disk_queue_open opts d = (Inr
      \<lparr>dir = d', options = opts, active_segment_id = a,
       active_segment_bytes = length (segment_bytes (files d) a),
       queued_bytes = total_bytes (files d), cursor = c\<rparr>, d')"
    and "healthy d'"
    and "files d' = AList.update CURSOR_FILE (as_bytes (cursor_text c))
           (AList.delete CURSOR_TMP (AList.update CURSOR_TMP (as_bytes (cursor_text c)) (files d)))"
proof -
  let ?ids = "ids_of (map fst (files d))"
  have ids: "set ?ids = seg_set (files d)" by (rule set_ids_of [OF t])
  then have ne: "?ids \<noteq> []" using a by auto
  have max: "Max (set ?ids) = a" unfolding ids using t a top by (intro Max_eqI) auto
  obtain d' where per: "persist_cursor c d = (Inr (), d')" and d': "healthy d'"
    "files d' = AList.update CURSOR_FILE (as_bytes (cursor_text c))
           (AList.delete CURSOR_TMP (AList.update CURSOR_TMP (as_bytes (cursor_text c)) (files d)))"
    using persist_cursor_ok [OF h] by blast
  have "disk_queue_open opts d = (Inr
      \<lparr>dir = d', options = opts, active_segment_id = a,
       active_segment_bytes = length (segment_bytes (files d) a),
       queued_bytes = total_bytes (files d), cursor = c\<rparr>, d')"
    using ne max
    by (simp add: disk_queue_open_def bind_io_simps healthy_calls [OF h] seg_set_path [OF a]
        Let_def when_act_def per read_cursor_saved [OF h saved c] total_segment_bytes_ok [OF h t fits])
  then show thesis using that d' by blast
qed

lemma reopen_ok:
  assumes q: "queue_ok q"
  shows "\<exists>d. disk_queue_open opts (dir q) = (Inr (q\<lparr>dir := d, options := opts\<rparr>), d) \<and>
    queue_ok (q\<lparr>dir := d, options := opts\<rparr>) \<and>
    (\<forall>i. map_of (files d) (segment_path i) = map_of (files (dir q)) (segment_path i))"
proof -
  note inv = queue_okD [OF q]
  have c: "segment_id (cursor q) \<le> u64_max" "offset (cursor q) \<le> u64_max"
    using inv(9,11) by (simp_all add: cursor_ok_def)
  obtain d where o: "disk_queue_open opts (dir q) = (Inr
      \<lparr>dir = d, options = opts, active_segment_id = active_segment_id q,
       active_segment_bytes = length (segment_bytes (files (dir q)) (active_segment_id q)),
       queued_bytes = total_bytes (files (dir q)), cursor = cursor q\<rparr>, d)" and hd: "healthy d"
    and fd: "files d = AList.update CURSOR_FILE (as_bytes (cursor_text (cursor q)))
       (AList.delete CURSOR_TMP (AList.update CURSOR_TMP (as_bytes (cursor_text (cursor q))) (files (dir q))))"
    by (rule open_saved [OF inv(1-4,7,8) c])
  note pf = persist_cursor_files [OF inv(2), of "as_bytes (cursor_text (cursor q))", folded fd]
  have "disk_queue_open opts (dir q) = (Inr (q\<lparr>dir := d, options := opts\<rparr>), d)"
    using o inv(5,6) by simp
  moreover have "queue_ok (q\<lparr>dir := d, options := opts\<rparr>)"
    using inv hd pf by (simp add: queue_ok_def cursor_ok_def slots_free_def)
  ultimately show ?thesis using pf(7) by blast
qed

lemma reopen_pending:
  assumes q: "queue_ok q"
    and open_q: "disk_queue_open opts (dir q) = (Inr q', d)"
  shows "queue_ok q'" and "pending q' = pending q" and "cursor q' = cursor q" and "dir q' = d"
    and "options q' = opts"
    and "active_segment_id q' = active_segment_id q" and "queued_bytes q' = queued_bytes q"
    and "tail_clean c q' = tail_clean c q" and "intact c (files (dir q')) = intact c (files (dir q))"
    and "can_advance q' = can_advance q" and "aligned c (files (dir q')) = aligned c (files (dir q))"
proof -
  from reopen_ok [OF q, of opts] open_q have q': "q' = q\<lparr>dir := d, options := opts\<rparr>"
    and ok: "queue_ok (q\<lparr>dir := d, options := opts\<rparr>)"
    and map: "\<forall>i. map_of (files d) (segment_path i) = map_of (files (dir q)) (segment_path i)" by auto
  show "queue_ok q'" using ok q' by simp
  have b: "segment_bytes (files d) i = segment_bytes (files (dir q)) i" for i
    using map by (intro segment_bytes_cong) simp
  have s: "seg_set (files d) = seg_set (files (dir q))" using map by (simp add: seg_set_def)
  have "segment_id (cursor q) \<le> u64_max"
    using queue_okD(9,11) [OF q] by (simp add: cursor_ok_def)
  then show "pending q' = pending q"
    using pending_from_cong [of "files d" "files (dir q)"] map queue_okD(2) [OF q] queue_okD(2) [OF ok] q'
    by (simp add: pending_def)
  show "cursor q' = cursor q" "dir q' = d" "options q' = opts"
    "active_segment_id q' = active_segment_id q" "queued_bytes q' = queued_bytes q" by (simp_all add: q')
  show "tail_clean c q' = tail_clean c q" "intact c (files (dir q')) = intact c (files (dir q))"
    "can_advance q' = can_advance q" "aligned c (files (dir q')) = aligned c (files (dir q))"
    by (simp_all add: q' tail_clean_def intact_def can_advance_def aligned_def b s)
qed

section \<open>Opening an empty directory\<close>

definition empty_disk :: disk where
  "empty_disk = \<lparr>files = [], faults = no_faults\<rparr>"

definition fresh_queue :: "disk_queue_options \<Rightarrow> disk_queue" where
  "fresh_queue opts =
     \<lparr>dir = \<lparr>files = [(segment_path 1, []), (CURSOR_FILE, as_bytes (cursor_text \<lparr>segment_id = 1, offset = 0\<rparr>))],
             faults = no_faults\<rparr>,
      options = opts, active_segment_id = 1, active_segment_bytes = 0, queued_bytes = 0,
      cursor = \<lparr>segment_id = 1, offset = 0\<rparr>\<rparr>"

lemma open_empty: "disk_queue_open opts empty_disk = (Inr (fresh_queue opts), dir (fresh_queue opts))"
proof -
  let ?d1 = "put_file (segment_path 1) [] empty_disk"
  have h: "healthy empty_disk" "healthy ?d1" by (simp_all add: empty_disk_def)
  have f: "files ?d1 = [(segment_path 1, [])]" by (simp add: empty_disk_def put_file_def)
  let ?t = "as_bytes (cursor_text \<lparr>segment_id = 1, offset = 0\<rparr>)"
  have per: "persist_cursor \<lparr>segment_id = 1, offset = 0\<rparr> ?d1 = (Inr (), dir (fresh_queue opts))"
    using h
    by (simp add: persist_cursor_def seq_act_def bind_act_def healthy_write healthy_reads)
      (simp add: put_file_def drop_file_def empty_disk_def fresh_queue_def segment_path_not_cursor
        cursor_names_not_segment special_names special_names [symmetric])
  have "ids_of (map fst (files empty_disk)) = []"
    by (simp add: empty_disk_def ids_of_def map_filter_simps)
  moreover have "read_cursor ?d1 = (Inr None, ?d1)"
    using h f by (intro read_cursor_missing) (simp_all add: segment_path_not_cursor)
  moreover have "\<not> has_file (files empty_disk) n" for n by (simp add: empty_disk_def)
  ultimately show ?thesis
    by (simp add: disk_queue_open_def bind_io_simps healthy_calls h when_act_def Let_def
        total_segment_bytes_def per del: One_nat_def)
      (simp add: fresh_queue_def)
qed

lemma fresh_queue_ok:
  shows "queue_ok (fresh_queue opts)" and "pending (fresh_queue opts) = []"
    and "intact (cursor (fresh_queue opts)) (files (dir (fresh_queue opts)))"
    and "can_advance (fresh_queue opts)"
    and "aligned (cursor (fresh_queue opts)) (files (dir (fresh_queue opts)))"
proof -
  let ?F = "files (dir (fresh_queue opts))"
  have f: "?F = [(segment_path 1, []), (CURSOR_FILE, as_bytes (cursor_text \<lparr>segment_id = 1, offset = 0\<rparr>))]"
    by (simp add: fresh_queue_def)
  have set: "seg_set ?F = {1}"
    by (auto simp: f seg_set_def cursor_names_not_segment split: if_splits)
  have tidy: "tidy ?F" by (simp add: f tidy_def cursor_names_not_segment)
  have b: "segment_bytes ?F i = []" if "i \<le> u64_max" for i
    using that by (simp add: f segment_bytes_def content_def cursor_names_not_segment)
  have "total_bytes ?F = 0" by (simp add: total_bytes_def set b)
  moreover have "slots_free (fresh_queue opts)"
    using segment_path_not_corrupt [of 1] by (auto simp: slots_free_def f special_names)
  ultimately show "queue_ok (fresh_queue opts)"
    using set tidy b by (simp add: queue_ok_def cursor_ok_def) (simp add: fresh_queue_def segment_path_not_cursor)
  have c: "cursor (fresh_queue opts) = \<lparr>segment_id = 1, offset = 0\<rparr>" by (simp add: fresh_queue_def)
  have "ids_beyond 1 ?F = []" by (simp add: ids_beyond_Nil_iff [OF tidy] set)
  then show "pending (fresh_queue opts) = []"
    by (simp add: pending_def pending_from_def c b)
  show "intact (cursor (fresh_queue opts)) ?F" by (simp add: intact_def c b set)
  show "aligned (cursor (fresh_queue opts)) ?F" by (simp add: aligned_def c b)
  show "can_advance (fresh_queue opts)" by (simp add: can_advance_def) (simp add: fresh_queue_def)
qed

end
