(* ===== verification/Queue_Fifo.thy ===== *)
theory Queue_Fifo
  imports Queue_Open
begin

text \<open>
  The contract of the durable queue towards its clients, as a locale, and the proof that the disk
  queue keeps it. A client may enqueue while a batch it has read is outstanding, may give a batch
  up, and may restart the process at any moment.
\<close>

section \<open>The contract\<close>

locale fifo_queue =
  fixes inv :: "'q \<Rightarrow> bool"
    and items :: "'q \<Rightarrow> 'a list"
    and room :: "'a \<Rightarrow> 'q \<Rightarrow> bool"
    and put :: "'a \<Rightarrow> ('q, 'e, unit) act"
    and peek :: "nat \<Rightarrow> ('q, 'e, 'b) act"
    and entries :: "'b \<Rightarrow> 'a list"
    and ack :: "'b \<Rightarrow> ('q, 'e, nat) act"
    and held :: "'b \<Rightarrow> 'q \<Rightarrow> bool"
  assumes put_law: "inv q \<Longrightarrow> room x q \<Longrightarrow>
      \<exists>q'. put x q = (Inr (), q') \<and> inv q' \<and> items q' = items q @ [x] \<and> (\<forall>b. held b q \<longrightarrow> held b q')"
    and peek_law: "inv q \<Longrightarrow>
      \<exists>b q'. peek n q = (Inr b, q') \<and> inv q' \<and> items q' = items q \<and> held b q' \<and>
             entries b = take n (items q)"
    and ack_law: "inv q \<Longrightarrow> held b q \<Longrightarrow>
      \<exists>q'. ack b q = (Inr (length (entries b)), q') \<and> inv q' \<and>
           items q = entries b @ items q'"

locale durable_queue = fifo_queue inv items room put peek entries ack held
  for inv :: "'q \<Rightarrow> bool"
    and items :: "'q \<Rightarrow> 'a list"
    and room :: "'a \<Rightarrow> 'q \<Rightarrow> bool"
    and put :: "'a \<Rightarrow> ('q, 'e, unit) act"
    and peek :: "nat \<Rightarrow> ('q, 'e, 'b) act"
    and entries :: "'b \<Rightarrow> 'a list"
    and ack :: "'b \<Rightarrow> ('q, 'e, nat) act"
    and held :: "'b \<Rightarrow> 'q \<Rightarrow> bool" +
  fixes restart :: "'q \<Rightarrow> 'e + 'q"
  assumes restart_law: "inv q \<Longrightarrow> \<exists>q'. restart q = Inr q' \<and> inv q' \<and> items q' = items q"

text \<open>
  A session: any interleaving of enqueues, batch reads, commits, abandoned batches and restarts.
  It records what was put, what was delivered, and the batch that is out.
\<close>

inductive session ::
  "('a \<Rightarrow> 'q \<Rightarrow> bool) \<Rightarrow> ('a \<Rightarrow> ('q, 'e, unit) act) \<Rightarrow> (nat \<Rightarrow> ('q, 'e, 'b) act) \<Rightarrow> ('b \<Rightarrow> 'a list) \<Rightarrow>
   ('b \<Rightarrow> ('q, 'e, nat) act) \<Rightarrow> ('q \<Rightarrow> 'e + 'q) \<Rightarrow> 'q \<Rightarrow> 'a list \<Rightarrow> 'a list \<Rightarrow> 'b option \<Rightarrow> 'q \<Rightarrow> bool"
  for room put peek entries ack restart q0 where
  start: "session room put peek entries ack restart q0 [] [] None q0"
| put: "session room put peek entries ack restart q0 xs ds out q \<Longrightarrow> room x q \<Longrightarrow>
    put x q = (Inr (), q') \<Longrightarrow>
    session room put peek entries ack restart q0 (xs @ [x]) ds out q'"
| peek: "session room put peek entries ack restart q0 xs ds None q \<Longrightarrow> peek n q = (Inr b, q') \<Longrightarrow>
    session room put peek entries ack restart q0 xs ds (Some b) q'"
| ack: "session room put peek entries ack restart q0 xs ds (Some b) q \<Longrightarrow> ack b q = (Inr k, q') \<Longrightarrow>
    session room put peek entries ack restart q0 xs (ds @ entries b) None q'"
| abandon: "session room put peek entries ack restart q0 xs ds (Some b) q \<Longrightarrow>
    session room put peek entries ack restart q0 xs ds None q"
| restart: "session room put peek entries ack restart q0 xs ds out q \<Longrightarrow> restart q = Inr q' \<Longrightarrow>
    session room put peek entries ack restart q0 xs ds None q'"

context fifo_queue
begin

lemma put_step: "inv q \<Longrightarrow> room x q \<Longrightarrow> put x q = (r, q') \<Longrightarrow>
    r = Inr () \<and> inv q' \<and> items q' = items q @ [x] \<and> (\<forall>b. held b q \<longrightarrow> held b q')"
  using put_law [of q x] by auto

lemma peek_step: "inv q \<Longrightarrow> peek n q = (Inr b, q') \<Longrightarrow>
    inv q' \<and> items q' = items q \<and> held b q' \<and> entries b = take n (items q)"
  using peek_law [of q n] by auto

lemma ack_step: "inv q \<Longrightarrow> held b q \<Longrightarrow> ack b q = (r, q') \<Longrightarrow>
    r = Inr (length (entries b)) \<and> inv q' \<and> items q = entries b @ items q'"
  using ack_law [of q b] by auto

text \<open>A batch that is read and acknowledged takes exactly its payloads off the front.\<close>

lemma peek_ack:
  assumes "inv q"
  shows "\<exists>b q1 q2. peek n q = (Inr b, q1) \<and> ack b q1 = (Inr (length (entries b)), q2) \<and> inv q2 \<and>
           entries b = take n (items q) \<and> items q2 = drop n (items q)"
proof -
  obtain b q1 where b: "peek n q = (Inr b, q1)" "inv q1" "items q1 = items q" "held b q1"
    "entries b = take n (items q)" using peek_law [OF assms] by blast
  then obtain q2 where "ack b q1 = (Inr (length (entries b)), q2)" "inv q2" "items q1 = entries b @ items q2"
    using ack_law by blast
  moreover from this b have "items q2 = drop n (items q)" by (metis append_eq_conv_conj append_take_drop_id same_append_eq)
  ultimately show ?thesis using b by blast
qed

end

context durable_queue
begin

lemma session_delivers:
  assumes "session room put peek entries ack restart q0 xs ds out q" and "inv q0"
  shows "inv q \<and> items q0 @ xs = ds @ items q \<and> (\<forall>b. out = Some b \<longrightarrow> held b q)"
  using assms
proof (induction rule: session.induct)
  case start
  then show ?case by simp
next
  case (put xs ds out q x q')
  then show ?case using put_step [of q x "Inr ()" q'] by auto
next
  case (peek xs ds q n b q')
  then show ?case using peek_step [of q n b q'] by auto
next
  case (ack xs ds b q k q')
  then show ?case using ack_step [of q b "Inr k" q'] by auto
next
  case (abandon xs ds b q)
  then show ?case by simp
next
  case (restart xs ds out q q')
  then show ?case using restart_law [of q] by auto
qed

end

section \<open>The disk queue keeps it\<close>

text \<open>A sound queue: the invariant holds, nothing ahead is corrupt, and identifiers are left.\<close>

definition sound_queue :: "disk_queue \<Rightarrow> bool" where
  "sound_queue q \<longleftrightarrow> queue_ok q \<and> intact (cursor q) (files (dir q)) \<and>
     aligned (cursor q) (files (dir q)) \<and> active_segment_id q < u64_max"

definition queue_room :: "u8 list \<Rightarrow> disk_queue \<Rightarrow> bool" where
  "queue_room p q \<longleftrightarrow> has_room p q \<and> Suc (active_segment_id q) < u64_max"

definition batch_held :: "pending_batch \<Rightarrow> disk_queue \<Rightarrow> bool" where
  "batch_held b q \<longleftrightarrow> cursor_ok (next_cursor b) q \<and> intact (next_cursor b) (files (dir q)) \<and>
     aligned (next_cursor b) (files (dir q)) \<and> segment_id (cursor q) \<le> segment_id (next_cursor b) \<and>
     pending q = payloads b @ pending_from (next_cursor b) (files (dir q))"

definition reopen :: "disk_queue_options \<Rightarrow> disk_queue \<Rightarrow> disk_queue_error + disk_queue" where
  "reopen opts q = fst (disk_queue_open opts (dir q))"

lemma intact_tail_clean:
  "queue_ok q \<Longrightarrow> cursor_ok c q \<Longrightarrow> intact c (files (dir q)) \<Longrightarrow> tail_clean c q"
  using queue_okD(3) [of q] by (auto simp: intact_def tail_clean_def cursor_ok_def)

lemma sound_queueD:
  assumes "sound_queue q"
  shows "queue_ok q" "cursor_ok (cursor q) q" "intact (cursor q) (files (dir q))" "can_advance q"
    "tail_clean (cursor q) q" "active_segment_id q < u64_max" "aligned (cursor q) (files (dir q))"
  using assms queue_okD(9) [of q] by (auto simp: sound_queue_def can_advance_def intact_tail_clean)

lemma sound_enqueue:
  assumes s: "sound_queue q" and room: "queue_room p q"
  shows "\<exists>q'. enqueue p q = (Inr (), q') \<and> sound_queue q' \<and> pending q' = pending q @ [p] \<and>
    (\<forall>b. batch_held b q \<longrightarrow> batch_held b q')"
proof -
  note d = sound_queueD [OF s]
  have r: "has_room p q" using room by (simp add: queue_room_def)
  note e = enqueued_ok [OF d(1) r]
  have pend: "pending (enqueued p q) = pending q @ [p]"
    using e(8) [OF d(2,5)] e(2) by (simp add: pending_def)
  have "sound_queue (enqueued p q)"
    using e(1,2,4) e(9) [OF d(2,3)] e(10) [OF d(2,7)] room by (simp add: sound_queue_def queue_room_def)
  moreover have "batch_held b (enqueued p q)" if b: "batch_held b q" for b
  proof -
    have c: "cursor_ok (next_cursor b) q" "intact (next_cursor b) (files (dir q))"
      and p: "pending q = payloads b @ pending_from (next_cursor b) (files (dir q))"
      and al: "aligned (next_cursor b) (files (dir q))" "segment_id (cursor q) \<le> segment_id (next_cursor b)"
      using b by (simp_all add: batch_held_def)
    show ?thesis
      unfolding batch_held_def pend e(8) [OF c(1) intact_tail_clean [OF d(1) c]]
      using e(2) e(6) [OF c(1)] e(9) [OF c] e(10) [OF c(1) al(1)] al(2) p by simp
  qed
  ultimately show ?thesis using enqueue_ok [OF d(1) r] pend by blast
qed

lemma sound_read:
  assumes s: "sound_queue q"
  shows "\<exists>b. read_batch n q = (Inr b, q) \<and> batch_held b q \<and> payloads b = take n (pending q)"
proof -
  note d = sound_queueD [OF s]
  obtain ps c' m q' where r: "read_batch n q = (Inr \<lparr>payloads = ps, next_cursor = c', should_commit = m\<rparr>, q')"
    and sp: "batch_spec n (cursor q) q ps c' q'" by (rule read_batch_spec [OF d(1,4), of n]) (rule that)
  have "q' = q" "intact c' (files (dir q))" "aligned c' (files (dir q))" "segment_id (cursor q) \<le> segment_id c'"
    using sp d(3,7) by (auto simp: batch_spec_def)
  moreover have "ps = take n (pending q)" "pending_from c' (files (dir q')) = drop n (pending q)"
    "cursor_ok c' q'" using sp by (simp_all add: batch_spec_def pending_def)
  ultimately show ?thesis using r by (simp add: batch_held_def)
qed

lemma sound_commit:
  assumes s: "sound_queue q" and b: "batch_held b q"
  shows "\<exists>q'. commit_batch b q = (Inr (length (payloads b)), q') \<and> sound_queue q' \<and>
    pending q = payloads b @ pending q'"
proof (cases "payloads b \<noteq> [] \<or> should_commit b")
  case True
  note d = sound_queueD [OF s]
  have c: "cursor_ok (next_cursor b) q" "intact (next_cursor b) (files (dir q))"
    "pending q = payloads b @ pending_from (next_cursor b) (files (dir q))" "aligned (next_cursor b) (files (dir q))"
    using b by (simp_all add: batch_held_def)
  obtain q' where q': "commit_cursor (next_cursor b) q = (Inr (), q')" "commit_spec (next_cursor b) q q'"
    using commit_cursor_ok [OF d(1) c(1)] by blast
  note f = commit_specD [OF q'(2) d(1) c(1)]
  have "commit_batch b q = (Inr (length (payloads b)), q')"
    using True by (simp add: commit_batch_def Let_def when_act_def seq_act_def bind_act_def q'(1))
  moreover have "sound_queue q'"
    using q'(2) f(3) [OF c(2)] f(5) [OF c(4)] d(6) by (simp add: sound_queue_def commit_spec_def)
  ultimately show ?thesis using f(1) c(3) by auto
next
  case False
  then show ?thesis using s by (simp add: commit_batch_def Let_def when_act_def)
qed

lemma sound_reopen:
  assumes s: "sound_queue q"
  shows "\<exists>q'. reopen opts q = Inr q' \<and> sound_queue q' \<and> pending q' = pending q"
proof -
  note d = sound_queueD [OF s]
  obtain d' where r: "disk_queue_open opts (dir q) = (Inr (q\<lparr>dir := d', options := opts\<rparr>), d')"
    using reopen_ok [OF d(1)] by blast
  note p = reopen_pending [OF d(1) r]
  show ?thesis using r p(1,2,3,6) p(9,11) [of "cursor q"] d(3,6,7) by (simp add: reopen_def sound_queue_def)
qed

interpretation dq: durable_queue sound_queue pending queue_room enqueue read_batch payloads commit_batch
  batch_held "reopen opts"
proof unfold_locales
  show "sound_queue q \<Longrightarrow> queue_room x q \<Longrightarrow> \<exists>q'. enqueue x q = (Inr (), q') \<and> sound_queue q' \<and>
      pending q' = pending q @ [x] \<and> (\<forall>b. batch_held b q \<longrightarrow> batch_held b q')" for q x
    by (rule sound_enqueue)
  show "sound_queue q \<Longrightarrow> \<exists>b q'. read_batch n q = (Inr b, q') \<and> sound_queue q' \<and> pending q' = pending q \<and>
      batch_held b q' \<and> payloads b = take n (pending q)" for q n
    using sound_read by blast
  show "sound_queue q \<Longrightarrow> batch_held b q \<Longrightarrow> \<exists>q'. commit_batch b q = (Inr (length (payloads b)), q') \<and>
      sound_queue q' \<and> pending q = payloads b @ pending q'" for q b
    by (rule sound_commit)
  show "sound_queue q \<Longrightarrow> \<exists>q'. reopen opts q = Inr q' \<and> sound_queue q' \<and> pending q' = pending q" for q
    by (rule sound_reopen)
qed

end
