(* ===== verification/Queue_Crash.thy ===== *)
theory Queue_Crash
  imports Queue_Fifo
begin

text \<open>
  What calls that fail leave on disk. The fault schedule is arbitrary: any call of an operation may
  fail, a write after any number of its bytes. A crash is a failure after which the process is
  restarted on the directory as it was left.
\<close>

definition with_faults :: "(nat \<Rightarrow> fault option) \<Rightarrow> disk_queue \<Rightarrow> disk_queue" where
  "with_faults fl q = q\<lparr>dir := (dir q)\<lparr>faults := fl\<rparr>\<rparr>"

definition repaired :: "disk \<Rightarrow> disk" where
  "repaired d = d\<lparr>faults := no_faults\<rparr>"

section \<open>Enqueue is all or nothing\<close>

lemma fs_open_append_any:
  assumes "fs_open_append n d = (r, d')"
  shows "files d' = (if is_ok r then AList.update n (content (files d) n) (files d) else files d)"
  using assms
  by (auto simp: fs_open_append_def fs_call_def seq_act_def bind_act_def put_file_def split: option.splits)

lemma fs_write_all_any:
  assumes "fs_write_all n x d = (r, d')"
  shows "\<exists>k. files d' = AList.update n (content (files d) n @ take k x) (files d) \<and>
             (is_ok r \<longrightarrow> take k x = x)"
  using assms
  by (auto simp: fs_write_all_def put_file_def split: option.splits intro: exI [of _ "length x"])

lemma content_update [simp]: "content (AList.update n x F) n = x"
  by (simp add: content_def update_conv')

lemma on_disk_any:
  "on_disk m q = (r, q') \<Longrightarrow> \<exists>r0 d. m (dir q) = (r0, d) \<and> r = map_err Io r0 \<and> q' = q\<lparr>dir := d\<rparr>"
  by (auto simp: on_disk_def via_dir_def io_act_def split: prod.splits)

lemma bind_act_any:
  assumes "bind_act m f s = (r, u)"
  shows "(\<exists>e. m s = (Inl e, u) \<and> r = Inl e) \<or> (\<exists>x t. m s = (Inr x, t) \<and> f x t = (r, u))"
  using assms by (auto simp: bind_act_def split: prod.splits sum.splits)

lemma seq_act_any:
  assumes "seq_act m n s = (r, u)"
  shows "(\<exists>e. m s = (Inl e, u) \<and> r = Inl e) \<or> (\<exists>x t. m s = (Inr x, t) \<and> n t = (r, u))"
  using assms bind_act_any by (metis seq_act_def)

text \<open>\<open>wrote b x F q q'\<close>: the active segment held \<open>b\<close> and now holds \<open>b @ x\<close>, all else is as before.\<close>

definition wrote :: "u8 list \<Rightarrow> u8 list \<Rightarrow> disk_queue \<Rightarrow> disk_queue \<Rightarrow> bool" where
  "wrote b x q q' \<longleftrightarrow> q' = q\<lparr>dir := dir q'\<rparr> \<and>
     files (dir q') = AList.update (segment_path (active_segment_id q)) (b @ x) (files (dir q))"

lemma wrote_more:
  assumes "wrote b x q q1" and "on_disk (fs_write_all (segment_path (active_segment_id q)) y) q1 = (r, q2)"
  shows "\<exists>z. prefix z y \<and> wrote b (x @ z) q q2 \<and> (is_ok r \<longrightarrow> z = y)"
proof -
  obtain r0 d where w: "fs_write_all (segment_path (active_segment_id q)) y (dir q1) = (r0, d)"
    "r = map_err Io r0" "q2 = q1\<lparr>dir := d\<rparr>"
    using on_disk_any [OF assms(2)] by blast
  from fs_write_all_any [OF w(1)] obtain k where k:
    "files d = AList.update (segment_path (active_segment_id q))
       (content (files (dir q1)) (segment_path (active_segment_id q)) @ take k y) (files (dir q1))"
    "is_ok r0 \<longrightarrow> take k y = y" by blast
  have f: "files (dir q1) = AList.update (segment_path (active_segment_id q)) (b @ x) (files (dir q))"
    and q1: "q1 = q\<lparr>dir := dir q1\<rparr>" using assms(1) by (simp_all add: wrote_def)
  have "q2 = q\<lparr>dir := dir q2\<rparr>" using w(3) q1 by (metis disk_queue.select_convs(1) disk_queue.surjective disk_queue.update_convs(1))
  moreover have "files (dir q2) = AList.update (segment_path (active_segment_id q)) (b @ x @ take k y) (files (dir q))"
    using k(1) f w(3) by simp
  ultimately have "wrote b (x @ take k y) q q2" by (simp add: wrote_def)
  moreover have "is_ok r \<longrightarrow> take k y = y" using k(2) w(2) by (cases r0) simp_all
  ultimately show ?thesis using take_is_prefix by blast
qed

lemma wrote_seq:
  assumes "wrote b x q q1"
    and "seq_act (on_disk (fs_write_all (segment_path (active_segment_id q)) y)) m q1 = (r, q')"
  shows "(\<exists>z. prefix z y \<and> wrote b (x @ z) q q' \<and> \<not> is_ok r) \<or> (\<exists>q2. wrote b (x @ y) q q2 \<and> m q2 = (r, q'))"
  using seq_act_any [OF assms(2)] wrote_more [OF assms(1)] by fastforce

lemma fs_sync_any: "on_disk fs_sync_data q = (r, q') \<Longrightarrow> files (dir q') = files (dir q) \<and>
    cursor q' = cursor q \<and> active_segment_id q' = active_segment_id q"
  by (auto simp: fs_sync_data_def dest!: on_disk_any fs_call_files)

text \<open>What an append leaves: a prefix of the stored record, all of it when it returns \<^verbatim>\<open>Ok\<close>.\<close>

definition append_left :: "u8 list \<Rightarrow> disk_queue \<Rightarrow> (disk_queue_error + unit) \<Rightarrow> disk_queue \<Rightarrow> bool" where
  "append_left p q r q' \<longleftrightarrow> cursor q' = cursor q \<and> active_segment_id q' = active_segment_id q \<and>
     (\<exists>z. prefix z (stored p) \<and> (is_ok r \<longrightarrow> z = stored p) \<and>
        files (dir q') = AList.update (segment_path (active_segment_id q))
          (segment_bytes (files (dir q)) (active_segment_id q) @ z) (files (dir q)))"

lemma append_leftI:
  assumes "wrote (segment_bytes (files (dir q)) (active_segment_id q)) z q q1"
    and "files (dir q') = files (dir q1)" "cursor q' = cursor q1" "active_segment_id q' = active_segment_id q1"
    and "prefix z (stored p)" "is_ok r \<longrightarrow> z = stored p"
  shows "append_left p q r q'"
proof -
  have "cursor q1 = cursor q" "active_segment_id q1 = active_segment_id q"
    using assms(1) by (metis wrote_def disk_queue.simps(6,3) disk_queue.ext_inject disk_queue.surjective disk_queue.update_convs(1))+
  with assms show ?thesis by (auto simp: append_left_def wrote_def)
qed

lemma append_record_any:
  assumes run: "append_record p n q = (r, q')"
  defines "b \<equiv> segment_bytes (files (dir q)) (active_segment_id q)"
  shows "(files (dir q') = files (dir q) \<and> cursor q' = cursor q \<and> \<not> is_ok r) \<or> append_left p q r q'"
proof -
  let ?path = "segment_path (active_segment_id q)"
  let ?l = "le_bytes 4 (length p)" and ?c = "le_bytes 4 (unat (checksum32 p))"
  have st: "stored p = ?l @ ?c @ p" by (simp add: stored_def record_header_def)
  let ?rest = "bind_act (get_act (\<lambda>q. fsync_on_write (options q))) (\<lambda>fsync.
     seq_act (when_act fsync (on_disk fs_sync_data))
     (mod_act (\<lambda>q. q\<lparr>active_segment_bytes := add_u64 (active_segment_bytes q) n,
                     queued_bytes := add_u64 (queued_bytes q) n\<rparr>)))"
  from run have "seq_act (on_disk (fs_open_append ?path))
     (seq_act (on_disk (fs_write_all ?path ?l)) (seq_act (on_disk (fs_write_all ?path ?c))
     (seq_act (on_disk (fs_write_all ?path p)) ?rest))) q = (r, q')"
    by (simp add: append_record_def)
  from seq_act_any [OF this] show ?thesis
  proof (elim disjE exE conjE)
    fix e assume "on_disk (fs_open_append ?path) q = (Inl e, q')" "r = Inl e"
    then show ?thesis by (auto dest!: on_disk_any fs_open_append_any simp: map_err_def split: sum.splits)
  next
    fix x q0 assume o: "on_disk (fs_open_append ?path) q = (Inr x, q0)"
      and s0: "seq_act (on_disk (fs_write_all ?path ?l)) (seq_act (on_disk (fs_write_all ?path ?c))
        (seq_act (on_disk (fs_write_all ?path p)) ?rest)) q0 = (r, q')"
    have w0: "wrote b [] q q0"
    proof -
      obtain r0 d where od: "fs_open_append ?path (dir q) = (r0, d)" "Inr x = map_err Io r0" "q0 = q\<lparr>dir := d\<rparr>"
        using on_disk_any [OF o] by blast
      then have "is_ok r0" by (cases r0) simp_all
      with fs_open_append_any [OF od(1)] od(3) show ?thesis
        by (simp add: wrote_def b_def segment_bytes_def)
    qed
    note fin = append_leftI [of q _ _ q' p r, folded b_def]
    from wrote_seq [OF w0 s0] consider
      z where "prefix z ?l" "wrote b z q q'" "\<not> is_ok r"
    | q1 where "wrote b ?l q q1" "seq_act (on_disk (fs_write_all ?path ?c))
        (seq_act (on_disk (fs_write_all ?path p)) ?rest) q1 = (r, q')" by auto
    then show ?thesis
    proof cases
      case 1
      then show ?thesis by (intro disjI2 fin [of z q']) (auto simp: st)
    next
      case 2
      from wrote_seq [OF this] consider
        z where "prefix z ?c" "wrote b (?l @ z) q q'" "\<not> is_ok r"
      | q2 where "wrote b (?l @ ?c) q q2" "seq_act (on_disk (fs_write_all ?path p)) ?rest q2 = (r, q')" by blast
      then show ?thesis
      proof cases
        case 1
        then show ?thesis by (intro disjI2 fin [of "?l @ z" q']) (auto simp: st)
      next
        case 2
        from wrote_seq [OF this] consider
          z where "prefix z p" "wrote b ((?l @ ?c) @ z) q q'" "\<not> is_ok r"
        | q3 where "wrote b ((?l @ ?c) @ p) q q3" "?rest q3 = (r, q')" by blast
        then show ?thesis
        proof cases
          case 1
          then show ?thesis by (intro disjI2 fin [of "(?l @ ?c) @ z" q']) (auto simp: st)
        next
          case 2
          have "files (dir q') = files (dir q3) \<and> cursor q' = cursor q3 \<and>
              active_segment_id q' = active_segment_id q3"
          proof (cases "fsync_on_write (options q3)")
            case True
            with 2(2) have "seq_act (on_disk fs_sync_data) (mod_act (\<lambda>q. q\<lparr>active_segment_bytes := add_u64 (active_segment_bytes q) n,
                     queued_bytes := add_u64 (queued_bytes q) n\<rparr>)) q3 = (r, q')" by (simp add: when_act_steps)
            from seq_act_any [OF this] show ?thesis by (auto dest: fs_sync_any)
          next
            case False
            with 2(2) show ?thesis by (auto simp: when_act_steps)
          qed
          then show ?thesis
            using 2(1) by (intro disjI2 fin [of "(?l @ ?c) @ p" q3]) (auto simp: st)
        qed
      qed
    qed
  qed
qed

lemma append_left_pending:
  assumes left: "append_left p q r q'" and p: "fits_u32 p"
    and F: "tidy (files (dir q))" "active_segment_id q \<in> seg_set (files (dir q))"
      "\<And>i. i \<in> seg_set (files (dir q)) \<Longrightarrow> i \<le> active_segment_id q"
    and c: "cursor_ok (cursor q) q" and tail: "tail_clean (cursor q) q"
  shows "pending q' = pending q @ [p] \<or> pending q' = pending q \<and> \<not> is_ok r"
proof -
  let ?a = "active_segment_id q" and ?F = "files (dir q)"
  let ?b = "drop (if segment_id (cursor q) = ?a then offset (cursor q) else 0) (segment_bytes ?F ?a)"
  from left obtain z where z: "prefix z (stored p)" "is_ok r \<longrightarrow> z = stored p"
    and f: "files (dir q') = AList.update (segment_path ?a) (segment_bytes ?F ?a @ z) ?F"
    and cq: "cursor q' = cursor q" by (auto simp: append_left_def)
  have seg: "segment_id (cursor q) \<le> ?a"
    "segment_id (cursor q) = ?a \<longrightarrow> offset (cursor q) \<le> length (segment_bytes ?F ?a)"
    using c F(2) by (auto simp: cursor_ok_def)
  have cl: "clean ?b" using tail by (simp add: tail_clean_def)
  have upd: "segment_records (?b @ z) = segment_records ?b @ ps \<Longrightarrow> pending q' = pending q @ ps" for ps
    unfolding pending_def cq f by (rule append_segment(8) [OF F seg]) assumption+
  show ?thesis
  proof (cases "z = stored p")
    case True
    with upd [of "[p]"] segment_records_append [OF cl p] show ?thesis by simp
  next
    case False
    obtain w where w: "stored p = z @ w" using z(1) by (auto simp: prefix_def)
    with False have "z = take (length z) (stored p)" "length z < length (stored p)" by (auto simp: w)
    then have "segment_records (?b @ z) = segment_records ?b"
      using segment_records_torn [OF cl p] by metis
    with upd [of "[]"] False z(2) show ?thesis by simp
  qed
qed

lemma rotate_segment_any:
  assumes "rotate_segment q = (r, q')"
  shows "(files (dir q') = files (dir q) \<and> cursor q' = cursor q \<and> \<not> is_ok r) \<or>
    (is_ok r \<and> active_segment_id q < u64_max \<and> cursor q' = cursor q \<and> active_segment_id q' = Suc (active_segment_id q) \<and>
     files (dir q') = AList.update (segment_path (Suc (active_segment_id q))) [] (files (dir q)))"
proof (cases "checked_add_u64 (active_segment_id q) 1")
  case None
  with assms show ?thesis by (auto simp: rotate_segment_def)
next
  case (Some i)
  have "on_disk (fs_create (segment_path i)) (q\<lparr>active_segment_id := i, active_segment_bytes := 0\<rparr>) = (r, q')"
    using assms by (simp add: rotate_segment_def Some del: One_nat_def)
  from on_disk_any [OF this] Some show ?thesis
    by (auto simp: fs_create_def seq_act_def bind_act_def put_file_def split: prod.splits sum.splits
        dest: fs_call_files)
qed

lemma enqueue_atomic_aux:
  assumes s: "sound_queue q" and p: "fits_u32 p"
    and run: "enqueue p (with_faults fl q) = (r, q')"
  shows "pending q' = pending q @ [p] \<or> pending q' = pending q \<and> \<not> is_ok r"
proof -
  note d = sound_queueD [OF s] and inv = queue_okD [OF sound_queueD(1) [OF s]]
  let ?q = "with_faults fl q" and ?n = "add_u64 8 (length p)"
  have wf: "files (dir ?q) = files (dir q)" "cursor ?q = cursor q" "active_segment_id ?q = active_segment_id q"
    by (simp_all add: with_faults_def)
  have ok: "cursor_ok (cursor ?q) ?q" "tail_clean (cursor ?q) ?q"
    using d(2,5) by (simp_all add: cursor_ok_def tail_clean_def wf)
  have pq: "pending ?q = pending q" by (simp add: pending_def wf)
  obtain rot where e: "enqueue p ?q = seq_act (when_act rot rotate_segment) (append_record p ?n) ?q"
    using p by (simp add: enqueue_def storage_bytes_for_payload_def fits_u32_def)
  show ?thesis
  proof (cases rot)
    case False
    with run e have "append_record p ?n ?q = (r, q')" by (simp add: when_act_steps)
    from append_record_any [OF this] show ?thesis
    proof
      assume "files (dir q') = files (dir ?q) \<and> cursor q' = cursor ?q \<and> \<not> is_ok r"
      then show ?thesis by (simp add: pending_def wf)
    next
      assume "append_left p ?q r q'"
      from append_left_pending [OF this p _ _ _ ok] show ?thesis using inv(2,3,4) by (simp add: wf pq)
    qed
  next
    case True
    with run e have "seq_act rotate_segment (append_record p ?n) ?q = (r, q')" by (simp add: when_act_steps)
    from seq_act_any [OF this] show ?thesis
    proof (elim disjE exE conjE)
      fix e' assume "rotate_segment ?q = (Inl e', q')" "r = Inl e'"
      with rotate_segment_any [of ?q "Inl e'" q'] show ?thesis by (auto simp: pending_def wf)
    next
      fix x q1 assume q1: "rotate_segment ?q = (Inr x, q1)" and app: "append_record p ?n q1 = (r, q')"
      have room: "active_segment_id q < u64_max" and c1: "cursor q1 = cursor q"
        and a1: "active_segment_id q1 = Suc (active_segment_id q)"
        and f1: "files (dir q1) = AList.update (segment_path (Suc (active_segment_id q))) [] (files (dir q))"
        using rotate_segment_any [OF q1] by (auto simp: wf)
      note fresh = fresh_segment [OF inv(2,4) room, folded f1]
      have le: "segment_id (cursor q) \<le> active_segment_id q" using d(2) by (simp add: cursor_ok_def)
      have p1: "pending q1 = pending q" using fresh(8) le by (simp add: pending_def c1)
      have "cursor_ok (cursor q1) q1"
        using d(2) fresh(2,4) by (auto simp: cursor_ok_def c1 a1)
      moreover have "tail_clean (cursor q1) q1" using fresh(3) by (simp add: tail_clean_def c1 a1)
      moreover have "i \<in> seg_set (files (dir q1)) \<Longrightarrow> i \<le> active_segment_id q1" for i
        using inv(4) by (auto simp: fresh(2) a1 le_SucI)
      ultimately have "append_left p q1 r q' \<Longrightarrow> ?thesis"
        using append_left_pending [of p q1 r q'] p fresh(1,2) a1 p1 by simp
      with append_record_any [OF app] p1 show ?thesis by (auto simp: pending_def)
    qed
  qed
qed

section \<open>A commit never loses what it has not delivered\<close>

text \<open>\<open>pruned seg F F'\<close>: some segments before \<open>seg\<close> are gone, the other segments and the cursor file are as in \<open>F\<close>.\<close>

definition pruned :: "u64 \<Rightarrow> dir_entries \<Rightarrow> dir_entries \<Rightarrow> bool" where
  "pruned seg F F' \<longleftrightarrow> tidy F' \<and> map_of F' CURSOR_FILE = map_of F CURSOR_FILE \<and>
     (\<forall>i \<le> u64_max. map_of F' (segment_path i) = map_of F (segment_path i) \<or>
        (i < seg \<and> map_of F' (segment_path i) = None))"

lemma pruned_refl: "tidy F \<Longrightarrow> pruned seg F F"
  by (simp add: pruned_def)

lemma pruned_frame:
  fixes m :: "(disk, 'e, 'a) act"
  assumes "\<And>d r d'. m d = (r, d') \<Longrightarrow> files d' = files d"
  shows "preserves (\<lambda>d. pruned seg F (files d)) m"
proof (rule preservesI)
  fix d :: disk assume "pruned seg F (files d)"
  then show "pruned seg F (files (snd (m d)))" by (cases "m d") (simp add: assms)
qed

lemma pruned_calls [preserve_rules]:
  "preserves (\<lambda>d. pruned seg F (files d)) fs_call"
  "preserves (\<lambda>d. pruned seg F (files d)) (fs_read_file n)"
  "preserves (\<lambda>d. pruned seg F (files d)) (fs_metadata_len n)"
  "preserves (\<lambda>d. pruned seg F (files d)) segment_ids"
  "preserves (\<lambda>d. pruned seg F (files d)) (fs_probe (fs_exists n))"
proof goal_cases
  case 1 show ?case by (rule pruned_frame) (erule fs_call_files)
  case 2 show ?case by (rule pruned_frame) (erule fs_read_ops_files)
  case 3 show ?case by (rule pruned_frame) (erule fs_read_ops_files)
  case 4 show ?case by (rule pruned_frame) (erule fs_read_ops_files)
  case 5 show ?case by (auto simp: preserves_def fs_probe_def fs_exists_def)
qed

lemma pruned_delete:
  assumes "pruned seg F F'" and "i < seg" and "seg \<le> u64_max"
  shows "pruned seg F (AList.delete (segment_path i) F')"
  using assms
  by (auto simp: pruned_def tidy_delete delete_conv' segment_path_not_cursor)

lemma pruned_remove [preserve_rules]:
  assumes "i < seg" and "seg \<le> u64_max"
  shows "preserves (\<lambda>d. pruned seg F (files d)) (fs_remove_file (segment_path i))"
  unfolding fs_remove_file_def
  by (intro preserve_rules) (simp add: drop_file_def pruned_delete [OF _ assms])

lemma pruned_remove_before:
  assumes "seg \<le> u64_max"
  shows "preserves (\<lambda>q. pruned seg F (files (dir q))) (remove_segments_before seg)"
  unfolding remove_segments_before_def remove_segment_def Let_def probe_def
  by (intro preserve_rules) (auto simp: assms)

lemma pruned_update:
  assumes "pruned seg F F'" and "segment_id_of n = None" and "n \<noteq> CURSOR_FILE"
  shows "pruned seg F (AList.update n x F')"
  using assms not_segment_path [OF _ assms(2)]
  by (auto simp: pruned_def tidy_update update_conv')

lemma fs_write_any:
  assumes "fs_write n t d = (r, d')"
  shows "files d' = files d \<or> (\<exists>x. files d' = AList.update n x (files d))"
  using seq_act_any [OF assms [unfolded fs_write_def]]
proof (elim disjE exE conjE)
  fix e assume "fs_create n d = (Inl e, d')"
  then show ?thesis
    by (auto simp: fs_create_def seq_act_def bind_act_def split: prod.splits sum.splits dest: fs_call_files)
next
  fix x d1 assume c: "fs_create n d = (Inr x, d1)" and w: "fs_write_all n t d1 = (r, d')"
  from fs_create_Inr [OF c] fs_write_all_any [OF w] show ?thesis by auto
qed

lemma persist_cursor_any:
  assumes run: "persist_cursor c d = (r, d')" and d: "pruned seg F (files d)"
  shows "\<exists>F'. pruned seg F F' \<and> (files d' = F' \<or> files d' = AList.update CURSOR_FILE (as_bytes (cursor_text c)) F')"
proof -
  let ?t = "as_bytes (cursor_text c)"
  note tmp = pruned_update [OF d segment_id_of_others(3) special_names(4)]
  from seq_act_any [OF run [unfolded persist_cursor_def]] show ?thesis
  proof (elim disjE exE conjE)
    fix e assume "fs_write CURSOR_TMP ?t d = (Inl e, d')"
    then have "files d' = files d \<or> (\<exists>x. files d' = AList.update CURSOR_TMP x (files d))"
      by (rule fs_write_any)
    with d tmp show ?thesis by metis
  next
    fix x d1 assume w: "fs_write CURSOR_TMP ?t d = (Inr x, d1)" and rn: "fs_rename CURSOR_TMP CURSOR_FILE d1 = (r, d')"
    have f1: "files d1 = AList.update CURSOR_TMP ?t (files d)" by (rule fs_write_Inr [OF w])
    then have p1: "pruned seg F (files d1)" using tmp by simp
    show ?thesis
    proof (cases r)
      case (Inl e)
      then have "files d' = files d1"
        using rn by (auto simp: fs_rename_def fs_read_file_def seq_act_def bind_act_def
            split: prod.splits sum.splits dest: fs_call_files)
      with p1 show ?thesis by auto
    next
      case (Inr u)
      with fs_rename_Inr [of CURSOR_TMP CURSOR_FILE d1 u d'] rn f1
      have "files d' = AList.update CURSOR_FILE ?t (AList.delete CURSOR_TMP (files d1))"
        by (auto simp: update_conv')
      moreover have "pruned seg F (AList.delete CURSOR_TMP (files d1))"
        using p1 cursor_names_not_segment special_names(4)
        by (auto simp: pruned_def tidy_delete delete_conv')
      ultimately show ?thesis by blast
    qed
  qed
qed

lemma segment_records_split:
  assumes "clean bs"
  shows "segment_records (bs @ cs) = segment_records bs @ segment_records cs"
  using assms segment_records_concat [of _ "[]"] by (auto simp: clean_def segment_records_concat)

lemma sorted_split_at: "sorted l \<Longrightarrow> l = filter (\<lambda>i. i < k) l @ filter (\<lambda>i. (k :: nat) \<le> i) l"
proof (induction l)
  case Nil
  then show ?case by simp
next
  case (Cons i l)
  then have IH: "l = filter (\<lambda>i. i < k) l @ filter (\<lambda>i. k \<le> i) l" by simp
  show ?case
  proof (cases "i < k")
    case True
    with IH show ?thesis by simp
  next
    case False
    with Cons.prems have "filter (\<lambda>i. i < k) l = []" by (auto simp: filter_empty_conv)
    with False IH show ?thesis by simp
  qed
qed

lemma subseq_concat_filter: "subseq (concat (map f (filter P xs))) (concat (map f xs))"
  by (induction xs) (auto intro: list_emb_append_mono subseq_drop_many)

text \<open>Reading from the old cursor after segments before the new one have been removed.\<close>

lemma pruned_pending:
  assumes F: "tidy F" and pr: "pruned (segment_id c) F F'" and le: "segment_id c0 \<le> segment_id c" "segment_id c \<le> u64_max"
    and al: "aligned c F" and ps: "pending_from c0 F = ps @ pending_from c F"
  shows "suffix (pending_from c F) (pending_from c0 F')" and "subseq (pending_from c0 F') (pending_from c0 F)"
    and "pending_from c F' = pending_from c F"
proof -
  let ?k = "segment_id c"
  let ?recs = "\<lambda>G i. segment_records (segment_bytes G i)"
  have F': "tidy F'" using pr by (simp add: pruned_def)
  have map: "map_of F' (segment_path i) = map_of F (segment_path i)" if "?k \<le> i" "i \<le> u64_max" for i
    using pr that by (fastforce simp: pruned_def)
  have bytes: "segment_bytes F' i = segment_bytes F i" if "i \<in> seg_set F'" for i
    using pr that by (intro segment_bytes_cong) (auto simp: pruned_def seg_set_def)
  have sub: "seg_set F' \<subseteq> seg_set F" using pr by (fastforce simp: pruned_def seg_set_def)
  have high: "{i \<in> seg_set F'. ?k \<le> i} = {i \<in> seg_set F. ?k \<le> i}" using map by (auto simp: seg_set_def)
  show new: "pending_from c F' = pending_from c F"
    by (rule pending_from_cong [OF F' F map le(2)])
  have beyond: "concat (map (?recs F') (ids_beyond j F')) = concat (map (?recs F) (ids_beyond j F'))" for j
    using F' bytes by (intro arg_cong [of _ _ concat] map_cong refl) (simp add: ids_beyond_tidy)
  have filt: "ids_beyond j F' = filter (\<lambda>i. i \<in> seg_set F') (ids_beyond j F)" for j
    using sub by (auto simp: ids_beyond_tidy F F' filter_sorted_list_of_set intro!: arg_cong [of _ _ sorted_list_of_set])
  have "subseq (segment_records (drop (offset c0) (segment_bytes F' (segment_id c0))))
               (segment_records (drop (offset c0) (segment_bytes F (segment_id c0))))"
  proof -
    have "segment_id c0 \<le> u64_max" using le by simp
    then have "map_of F' (segment_path (segment_id c0)) = map_of F (segment_path (segment_id c0)) \<or>
        map_of F' (segment_path (segment_id c0)) = None" using pr by (auto simp: pruned_def)
    then show ?thesis by (auto simp: segment_bytes_def content_def)
  qed
  then show "subseq (pending_from c0 F') (pending_from c0 F)"
    unfolding pending_from_def beyond unfolding filt [of "segment_id c0"]
    by (intro list_emb_append_mono subseq_concat_filter)
  show "suffix (pending_from c F) (pending_from c0 F')"
  proof (cases "segment_id c0 = ?k")
    case True
    then have "pending_from c0 F' = pending_from c0 F"
      using pending_from_cong [OF F' F, of c0] map le(2) by simp
    with ps show ?thesis by (simp add: suffix_def)
  next
    case False
    with le have lt: "segment_id c0 < ?k" by simp
    let ?up = "sorted_list_of_set {i \<in> seg_set F. ?k \<le> i}"
    let ?l = "ids_beyond (segment_id c0) F'"
    have "sorted ?l" by (simp add: ids_beyond_tidy F')
    then have split: "?l = filter (\<lambda>i. i < ?k) ?l @ filter (\<lambda>i. ?k \<le> i) ?l" by (rule sorted_split_at)
    have "filter (\<lambda>i. ?k \<le> i) ?l = ?up"
      using lt high by (auto simp: ids_beyond_tidy F' filter_sorted_list_of_set intro!: arg_cong [of _ _ sorted_list_of_set])
    with split have "concat (map (?recs F) ?l) = concat (map (?recs F) (filter (\<lambda>i. i < ?k) ?l)) @ concat (map (?recs F) ?up)"
      by (metis concat_append map_append)
    moreover have "suffix (pending_from c F) (concat (map (?recs F) ?up))"
    proof (cases "?k \<in> seg_set F")
      case True
      have "?up = ?k # ids_beyond ?k F"
      proof -
        let ?A = "{i \<in> seg_set F. ?k \<le> i}"
        have "finite ?A" "?A \<noteq> {}" using F True by auto
        moreover from this have "Min ?A = ?k" using True by (intro Min_eqI) auto
        moreover have "?A - {?k} = {i \<in> seg_set F. ?k < i}" by auto
        ultimately show ?thesis using sorted_list_of_set_nonempty [of ?A] by (simp add: ids_beyond_tidy F)
      qed
      moreover have "?recs F ?k = segment_records (take (offset c) (segment_bytes F ?k)) @
          segment_records (drop (offset c) (segment_bytes F ?k))"
        using al segment_records_split [of "take (offset c) (segment_bytes F ?k)" "drop (offset c) (segment_bytes F ?k)"]
        by (simp add: aligned_def)
      ultimately show ?thesis by (simp add: pending_from_def suffix_def)
    next
      case False
      then have "{i \<in> seg_set F. ?k \<le> i} = {i \<in> seg_set F. ?k < i}" by (auto simp: le_less)
      moreover have "segment_bytes F ?k = []" using False le(2) by (simp add: seg_set_def segment_bytes_def content_def)
      ultimately show ?thesis by (simp add: pending_from_def ids_beyond_tidy F)
    qed
    ultimately show ?thesis
      unfolding pending_from_def [of c0] beyond by (simp add: suffix_appendI)
  qed
qed

text \<open>What a commit leaves on disk, however it ends, and what a restart reads there.\<close>

lemma commit_left:
  assumes F: "tidy (files (dir q))" and seg: "segment_id (next_cursor b) \<le> u64_max"
    and run: "commit_batch b (with_faults fl q) = (r, q1)"
  shows "\<exists>F'. pruned (segment_id (next_cursor b)) (files (dir q)) F' \<and>
      (files (dir q1) = F' \<or>
       files (dir q1) = AList.update CURSOR_FILE (as_bytes (cursor_text (next_cursor b))) F')"
proof (cases "length (payloads b) > 0 \<or> should_commit b")
  case False
  with run have "q1 = with_faults fl q" by (auto simp: commit_batch_def Let_def when_act_def)
  then show ?thesis using pruned_refl [OF F] by (auto simp: with_faults_def)
next
  case True
  let ?c = "next_cursor b" and ?q = "(with_faults fl q)\<lparr>cursor := next_cursor b\<rparr>"
  let ?P = "\<lambda>q'. pruned (segment_id ?c) (files (dir q)) (files (dir q'))"
  have start: "?P ?q" using pruned_refl [OF F] by (simp add: with_faults_def)
  have "\<exists>r'. commit_cursor ?c (with_faults fl q) = (r', q1)"
    using run True by (auto simp: commit_batch_def Let_def when_act_def seq_act_def bind_act_def
        split: prod.splits sum.splits)
  then obtain r' where "seq_act (remove_segments_before (segment_id ?c))
      (bind_act (get_act cursor) (\<lambda>c'. on_disk (persist_cursor c'))) ?q = (r', q1)"
    by (auto simp: commit_cursor_def)
  from seq_act_any [OF this] show ?thesis
  proof (elim disjE exE conjE)
    fix e assume "remove_segments_before (segment_id ?c) ?q = (Inl e, q1)"
    from preservesD [OF pruned_remove_before [OF seg] start this] show ?thesis by blast
  next
    fix x t assume rm: "remove_segments_before (segment_id ?c) ?q = (Inr x, t)"
      and "bind_act (get_act cursor) (\<lambda>c'. on_disk (persist_cursor c')) t = (r', q1)"
    then have per: "on_disk (persist_cursor (cursor t)) t = (r', q1)" by simp
    have "cursor t = ?c"
    proof -
      have "preserves (\<lambda>q. cursor q = ?c) (remove_segments_before (segment_id ?c))"
        unfolding remove_segments_before_def remove_segment_def Let_def
        by (intro preserve_rules preserves_on_disk_field) simp_all
      from preservesD [OF this _ rm] show ?thesis by simp
    qed
    with on_disk_any [OF per] obtain r0 d where "persist_cursor ?c (dir t) = (r0, d)" "q1 = t\<lparr>dir := d\<rparr>" by auto
    with persist_cursor_any [OF this(1) preservesD [OF pruned_remove_before [OF seg] start rm]]
    show ?thesis by simp
  qed
qed

lemma commit_crash_aux:
  assumes s: "sound_queue q" and b: "batch_held b q"
    and run: "commit_batch b (with_faults fl q) = (r, q1)"
  shows "\<exists>q2 d. disk_queue_open opts (repaired (dir q1)) = (Inr q2, d) \<and>
    suffix (pending_from (next_cursor b) (files (dir q))) (pending q2) \<and> subseq (pending q2) (pending q)"
proof -
  note d = sound_queueD [OF s] and inv = queue_okD [OF sound_queueD(1) [OF s]]
  let ?F = "files (dir q)" and ?c = "next_cursor b" and ?old = "cursor q"
  have c: "cursor_ok ?c q" "aligned ?c ?F" "segment_id ?old \<le> segment_id ?c"
    and ps: "pending_from ?old ?F = payloads b @ pending_from ?c ?F"
    using b by (simp_all add: batch_held_def pending_def)
  have le: "segment_id ?c \<le> active_segment_id q" "segment_id ?c \<le> u64_max" "segment_id ?old \<le> u64_max"
    "offset ?c \<le> u64_max" "offset ?old \<le> u64_max"
    using c(1) d(2) inv(11) by (auto simp: cursor_ok_def)
  have left: "\<exists>F'. pruned (segment_id ?c) ?F F' \<and>
      (files (dir q1) = F' \<or> files (dir q1) = AList.update CURSOR_FILE (as_bytes (cursor_text ?c)) F')"
    using run commit_left [OF inv(2) le(2)] by blast
  then obtain F' where pr: "pruned (segment_id ?c) ?F F'"
    and f1: "files (dir q1) = F' \<or> files (dir q1) = AList.update CURSOR_FILE (as_bytes (cursor_text ?c)) F'" by blast
  note pend = pruned_pending [OF inv(2) pr c(3) le(2) c(2) ps]
  let ?G = "files (dir q1)"
  have tG: "tidy ?G" using f1 pr by (auto simp: pruned_def tidy_update)
  have mG: "map_of ?G (segment_path i) = map_of F' (segment_path i)" for i
    using f1 by (auto simp: update_conv' cursor_names_not_segment)
  have sG: "seg_set ?G = seg_set F'" using mG by (simp add: seg_set_def)
  have bG: "segment_bytes ?G i = segment_bytes F' i" for i using mG by (rule segment_bytes_cong)
  have sub: "seg_set F' \<subseteq> seg_set ?F" using pr by (fastforce simp: pruned_def seg_set_def)
  have bF: "segment_bytes F' i = segment_bytes ?F i" if "i \<in> seg_set F'" for i
    using pr that by (intro segment_bytes_cong) (auto simp: pruned_def seg_set_def)
  have act: "active_segment_id q \<in> seg_set ?G"
  proof -
    have "\<not> active_segment_id q < segment_id ?c" using le(1) by simp
    then have "map_of F' (segment_path (active_segment_id q)) = map_of ?F (segment_path (active_segment_id q))"
      using pr inv(11) by (auto simp: pruned_def)
    then show ?thesis using inv(3) unfolding sG by (simp add: seg_set_def)
  qed
  have top: "i \<in> seg_set ?G \<Longrightarrow> i \<le> active_segment_id q" for i using sub inv(4) by (auto simp: sG)
  have total: "total_bytes ?G \<le> max_offset"
  proof -
    have "total_bytes ?G = (\<Sum>i\<in>seg_set F'. length (segment_bytes ?F i))" by (simp add: total_bytes_def sG bG bF)
    also have "\<dots> \<le> total_bytes ?F" unfolding total_bytes_def using sub inv(2) by (intro sum_mono2) auto
    finally show ?thesis using inv(7) by simp
  qed
  obtain c' where c': "c' = ?old \<or> c' = ?c" "map_of ?G CURSOR_FILE = Some (as_bytes (cursor_text c'))"
    using f1
  proof
    assume "files (dir q1) = F'"
    then show thesis using that [of ?old] pr inv(8) by (simp add: pruned_def)
  next
    assume "files (dir q1) = AList.update CURSOR_FILE (as_bytes (cursor_text ?c)) F'"
    then show thesis using that [of ?c] by (simp add: update_conv')
  qed
  obtain d' where op: "disk_queue_open opts (repaired (dir q1)) = (Inr
      \<lparr>dir = d', options = opts, active_segment_id = active_segment_id q,
       active_segment_bytes = length (segment_bytes ?G (active_segment_id q)),
       queued_bytes = total_bytes ?G, cursor = c'\<rparr>, d')"
    and fd: "files d' = AList.update CURSOR_FILE (as_bytes (cursor_text c'))
           (AList.delete CURSOR_TMP (AList.update CURSOR_TMP (as_bytes (cursor_text c')) ?G))"
    using open_saved [of "repaired (dir q1)" "active_segment_id q" c' opts] tG act top total c' le
    by (auto simp: repaired_def)
  note pf = persist_cursor_files [OF tG, of "as_bytes (cursor_text c')", folded fd]
  have "segment_id c' \<le> u64_max" using c'(1) le by auto
  then have "pending_from c' (files d') = pending_from c' F'"
    using pf(1,7) mG pr by (intro pending_from_cong) (auto simp: pruned_def)
  moreover have "suffix (pending_from ?c ?F) (pending_from c' F')" "subseq (pending_from c' F') (pending_from ?old ?F)"
    using c'(1) pend ps by (auto simp: subseq_drop_many)
  ultimately show ?thesis using op by (auto simp: pending_def)
qed

end
