(* ===== verification/Queue_Properties.thy ===== *)
theory Queue_Properties
  imports Queue_Crash
begin

text \<open>
  The properties of the durable queue: exact delivery over any session, behaviour of each operation
  on directories that may hold corrupt segments, durability across restarts, and what failed calls
  leave behind.
\<close>

section \<open>Draining\<close>

text \<open>The reference for \<^verbatim>\<open>drain\<close> on a plain list of payloads.\<close>

fun drain_list ::
  "('s, u8 list) sink \<Rightarrow> usize \<Rightarrow> usize \<Rightarrow> u8 list list \<Rightarrow> 's \<Rightarrow>
   (disk_queue_error + usize) \<times> u8 list list \<times> 's" where
  "drain_list sink m drained [] s = (Inr drained, [], s)"
| "drain_list sink m drained (p # ps) s =
     (if drained < m then
        (case sink p s of
           (Inl e, s') \<Rightarrow> (Inl e, p # ps, s')
         | (Inr _, s') \<Rightarrow> drain_list sink m (drained + 1) ps s')
      else (Inr drained, p # ps, s))"

lemma drain_list_done: "\<not> drained < m \<Longrightarrow> drain_list sink m drained ps s = (Inr drained, ps, s)"
  by (cases ps) simp_all

lemma commit_moves:
  assumes "queue_ok q" and "can_advance q" and "cursor_ok c q" and "commit_cursor c q = (r, q')"
  shows "r = Inr () \<and> queue_ok q' \<and> can_advance q' \<and> pending q' = pending_from c (files (dir q))"
proof -
  obtain q1 where q1: "commit_cursor c q = (Inr (), q1)" "commit_spec c q q1"
    using commit_cursor_ok [OF assms(1,3)] by blast
  with assms(4) commit_specD [OF q1(2) assms(1,3)] assms(2) show ?thesis
    by (auto simp: commit_spec_def)
qed

lemma drain_loop_refines:
  assumes "queue_ok q" and "can_advance q"
  shows "\<exists>r q' s'. drain_loop sink m drained (q, s) = (r, (q', s')) \<and> queue_ok q' \<and> can_advance q' \<and>
    drain_list sink m drained (pending q) s = (r, pending q', s')"
  using assms
proof (induction sink m drained "(q, s)" arbitrary: q s rule: drain_loop.induct)
  case (1 sink m drained q s)
  note ok = 1(3,4) queue_okD(9) [OF 1(3)]
  show ?case
  proof (cases "drained < m")
    case False
    with ok show ?thesis by (simp add: drain_loop.simps drain_list_done)
  next
    case True
    obtain st q1 where st: "read_step_at (cursor q) q = (Inr st, q1)" and sp: "step_spec (cursor q) q st q1"
      using read_step_at_spec [OF ok] by blast
    have q1: "queue_ok q1" "can_advance q1" using sp by (simp_all add: step_spec_def)
    show ?thesis
    proof (cases st)
      case (ReadRecord p c')
      with sp have c': "cursor_ok c' q1" and p: "pending q = p # pending_from c' (files (dir q1))" and same: "q1 = q"
        by (auto simp: step_spec_def pending_def)
      show ?thesis
      proof (cases "sink p s")
        case (Pair r s')
        show ?thesis
        proof (cases r)
          case (Inl e)
          with Pair True st ReadRecord same p ok show ?thesis by (simp add: drain_loop.simps)
        next
          case (Inr u)
          obtain rc q2 where q2: "commit_cursor c' q1 = (rc, q2)" by fastforce
          note mv = commit_moves [OF q1 c' q2]
          have "\<exists>r q' s''. drain_loop sink m (drained + 1) (q2, s') = (r, q', s'') \<and> queue_ok q' \<and> can_advance q' \<and>
              drain_list sink m (drained + 1) (pending q2) s' = (r, pending q', s'')"
            using mv q2 Pair Inr ReadRecord
            by (intro 1(1) [OF True st [symmetric] refl ReadRecord _ Inr]) auto
          with mv q2 Pair Inr True st ReadRecord p show ?thesis
            by (subst drain_loop.simps) auto
        qed
      qed
    next
      case (ReadMove c')
      with sp have c': "cursor_ok c' q1" and p: "pending q = pending_from c' (files (dir q1))"
        by (auto simp: step_spec_def pending_def)
      obtain rc q2 where q2: "commit_cursor c' q1 = (rc, q2)" by fastforce
      note mv = commit_moves [OF q1 c' q2]
      have "\<exists>r q' s''. drain_loop sink m drained (q2, s) = (r, q', s'') \<and> queue_ok q' \<and> can_advance q' \<and>
          drain_list sink m drained (pending q2) s = (r, pending q', s'')"
        using mv q2 by (intro 1(2) [OF True st [symmetric] refl ReadMove]) auto
      with mv q2 True st ReadMove p show ?thesis by (subst drain_loop.simps) auto
    next
      case ReadEmpty
      with sp have "pending q = []" "q1 = q" by (auto simp: step_spec_def pending_def)
      with ok True st ReadEmpty show ?thesis by (simp add: drain_loop.simps)
    qed
  qed
qed

section \<open>A sound queue to start from\<close>

lemma fresh_sound: "sound_queue (fresh_queue opts)"
  using fresh_queue_ok [of opts] by (simp add: sound_queue_def) (simp add: fresh_queue_def)

lemma fresh_room: "length p \<le> u32_max \<Longrightarrow> queue_room p (fresh_queue opts)"
  using queue_okD(6) [OF fresh_queue_ok(1), of opts]
  by (simp add: queue_room_def has_room_def fits_u32_def fresh_queue_def)

lemma fresh_next_room:
  assumes "enqueue [1] (fresh_queue default_disk_queue_options) = (Inr (), q)"
  shows "queue_room [2, 3] q"
proof -
  let ?q = "fresh_queue default_disk_queue_options"
  have r: "has_room [1] ?q" using fresh_room [of "[1]"] by (simp add: queue_room_def)
  have q: "q = enqueued [1] ?q" using enqueue_ok [OF fresh_queue_ok(1) r] assms by simp
  note e = enqueued_ok [OF fresh_queue_ok(1) r]
  have "total_bytes (files (dir q)) = 9"
    using queue_okD(6) [OF e(1)] e(5) q by (simp add: fresh_queue_def)
  moreover have "active_segment_id q \<le> 2" using e(4) q by (simp add: fresh_queue_def)
  ultimately show ?thesis by (simp add: queue_room_def has_room_def fits_u32_def)
qed

section \<open>Properties\<close>

text \<open>Property C1 (session_exact). Exactly-once delivery in order: over any interleaving of enqueues, batch
  reads, commits, abandoned batches and restarts of the process, the payloads delivered so far
  followed by the payloads still queued are the initial contents followed by everything enqueued.\<close>

theorem session_exact:
  assumes "sound_queue q0"
    and "session queue_room enqueue read_batch payloads commit_batch (reopen opts) q0 puts delivered out q"
  shows "pending q0 @ puts = delivered @ pending q \<and> sound_queue q"
  using dq.session_delivers [OF assms(2,1)] by blast

theorem session_exact_witness:
  "\<exists>q. session queue_room enqueue read_batch payloads commit_batch (reopen default_disk_queue_options)
         (fresh_queue default_disk_queue_options) [[1], [2, 3]] [[1]] None q \<and>
       pending (fresh_queue default_disk_queue_options) @ [[1], [2, 3]] = [[1]] @ pending q"
proof -
  let ?o = default_disk_queue_options
  let ?q0 = "fresh_queue ?o"
  let ?S = "session queue_room enqueue read_batch payloads commit_batch (reopen ?o) ?q0"
  obtain q1 where q1: "enqueue [1] ?q0 = (Inr (), q1)" "sound_queue q1" "pending q1 = [[1]]"
    and act: "queue_room [2, 3] q1"
    using sound_enqueue [OF fresh_sound fresh_room, of "[1]" ?o] fresh_queue_ok(2) fresh_next_room by auto
  obtain b where b: "read_batch 1 q1 = (Inr b, q1)" "batch_held b q1" "payloads b = [[1]]"
    using sound_read [OF q1(2), of 1] q1(3) by auto
  obtain q2 where q2: "enqueue [2, 3] q1 = (Inr (), q2)" "sound_queue q2" "batch_held b q2"
    using sound_enqueue [OF q1(2) act] b(2) by blast
  obtain q3 where q3: "commit_batch b q2 = (Inr (length (payloads b)), q3)"
    using sound_commit [OF q2(2,3)] by blast
  have "?S [] [] None ?q0" by (rule session.start)
  from session.put [where x = "[1]", OF this fresh_room q1(1)] have "?S [[1]] [] None q1" by simp
  from session.peek [where n = 1, OF this b(1)] have "?S [[1]] [] (Some b) q1" .
  from session.put [where x = "[2, 3]", OF this act q2(1)] have "?S [[1], [2, 3]] [] (Some b) q2" by simp
  from session.ack [OF this q3] have "?S [[1], [2, 3]] [[1]] None q3" by (simp add: b(3))
  with session_exact [OF fresh_sound this] show ?thesis by blast
qed

text \<open>A successful enqueue: on a queue whose active segment ends at a record
  boundary (older segments may be corrupt) \<^verbatim>\<open>enqueue\<close> returns \<^verbatim>\<open>Ok\<close>, the payload becomes the last one to
  deliver, and the byte counter grows by the header and the payload.\<close>

theorem enqueue_appends:
  assumes "queue_ok q" and "tail_clean (cursor q) q" and "has_room p q"
  shows "\<exists>q'. enqueue p q = (Inr (), q') \<and> queue_ok q' \<and> tail_clean (cursor q') q' \<and>
    pending q' = pending q @ [p] \<and> queued_bytes q' = queued_bytes q + (8 + length p)"
  using enqueue_ok [OF assms(1,3)] enqueued_ok(1,2,5) [OF assms(1,3)]
    enqueued_ok(7,8) [OF assms(1,3), of "cursor q"] queue_okD(9) [OF assms(1)] assms(2)
  by (simp add: pending_def)

theorem enqueue_appends_witness:
  "\<exists>q'. enqueue [7] (fresh_queue default_disk_queue_options) = (Inr (), q') \<and> queue_ok q' \<and>
    tail_clean (cursor q') q' \<and> pending q' = pending (fresh_queue default_disk_queue_options) @ [[7]] \<and>
    queued_bytes q' = queued_bytes (fresh_queue default_disk_queue_options) + (8 + length [7 :: u8])"
  using fresh_sound sound_queueD(1,5) [OF fresh_sound] fresh_room [of "[7]"]
  by (intro enqueue_appends) (auto simp: queue_room_def)

text \<open>Reading and committing a batch of at most \<open>n\<close> returns the next \<open>n\<close>
  payloads in order and takes exactly those off the queue. It holds with corrupt segments in the
  directory too: every intact payload before a corruption is returned, the corrupt segment is set
  aside and reading goes on in the next one.\<close>

theorem read_commit_exact:
  assumes "queue_ok q" and "can_advance q"
  shows "\<exists>b q1 q2. read_batch n q = (Inr b, q1) \<and> payloads b = take n (pending q) \<and>
    commit_batch b q1 = (Inr (length (payloads b)), q2) \<and> queue_ok q2 \<and> pending q2 = drop n (pending q)"
proof (rule read_batch_spec [OF assms, of n])
  fix ps c' moved q1
  assume r: "read_batch n q = (Inr \<lparr>payloads = ps, next_cursor = c', should_commit = moved\<rparr>, q1)"
    and sp: "batch_spec n (cursor q) q ps c' q1"
    and idle: "ps = [] \<Longrightarrow> \<not> moved \<Longrightarrow> c' = cursor q \<and> q1 = q"
  have q1: "queue_ok q1" "can_advance q1" "cursor_ok c' q1" and ps: "ps = take n (pending q)"
    and rest: "pending_from c' (files (dir q1)) = drop n (pending q)"
    using sp by (simp_all add: batch_spec_def pending_def)
  show ?thesis
  proof (cases "ps \<noteq> [] \<or> moved")
    case True
    obtain rc q2 where q2: "commit_cursor c' q1 = (rc, q2)" by fastforce
    note mv = commit_moves [OF q1 q2]
    have "commit_batch \<lparr>payloads = ps, next_cursor = c', should_commit = moved\<rparr> q1 = (Inr (length ps), q2)"
      using True q2 mv by (simp add: commit_batch_def when_act_def seq_act_def bind_act_def)
    with r ps rest mv show ?thesis by auto
  next
    case False
    then have "commit_batch \<lparr>payloads = ps, next_cursor = c', should_commit = moved\<rparr> q1 = (Inr (length ps), q1)"
      by (simp add: commit_batch_def when_act_def)
    moreover have "pending q1 = drop n (pending q)" using idle False rest by (simp add: pending_def)
    ultimately show ?thesis using r ps q1(1) by auto
  qed
qed

theorem read_commit_exact_witness:
  "\<exists>b q1 q2. read_batch 3 (fresh_queue default_disk_queue_options) = (Inr b, q1) \<and>
    payloads b = take 3 (pending (fresh_queue default_disk_queue_options)) \<and>
    commit_batch b q1 = (Inr (length (payloads b)), q2) \<and> queue_ok q2 \<and>
    pending q2 = drop 3 (pending (fresh_queue default_disk_queue_options))"
  using fresh_queue_ok by (intro read_commit_exact)

text \<open>Reading a batch of an uncorrupted queue changes nothing, in memory or on
  disk: only a commit moves the cursor.\<close>

theorem read_is_pure:
  assumes "sound_queue q"
  shows "\<exists>b. read_batch n q = (Inr b, q) \<and> payloads b = take n (pending q)"
  using sound_read [OF assms] by blast

theorem read_is_pure_witness:
  "\<exists>b. read_batch 2 (fresh_queue default_disk_queue_options) = (Inr b, fresh_queue default_disk_queue_options) \<and>
     payloads b = take 2 (pending (fresh_queue default_disk_queue_options))"
  by (rule read_is_pure [OF fresh_sound])

text \<open>Property C35 (drain_refines). \<^verbatim>\<open>drain\<close> is the plain loop over the queued payloads: it hands them to the sink
  one by one, takes each off the queue after the sink accepted it, and stops at the first error
  with the refused payload still queued.\<close>

theorem drain_refines:
  assumes "queue_ok q" and "can_advance q"
  shows "\<exists>r q' s'. drain sink n (q, s) = (r, (q', s')) \<and> queue_ok q' \<and>
    drain_list sink n 0 (pending q) s = (r, pending q', s')"
  using drain_loop_refines [OF assms, of sink n 0 s] by (auto simp: drain_def)

theorem drain_refines_witness:
  "\<exists>r q' s'. drain (\<lambda>p s. (Inr (), s @ [p])) 4 (fresh_queue default_disk_queue_options, []) = (r, (q', s')) \<and>
    queue_ok q' \<and> drain_list (\<lambda>p s. (Inr (), s @ [p])) 4 0 (pending (fresh_queue default_disk_queue_options)) [] =
      (r, pending q', s')"
  using fresh_queue_ok by (intro drain_refines)

text \<open>Opening the directory of a queue again gives the same queued payloads, the
  same cursor and the same byte count, and the opened queue satisfies the invariant.\<close>

theorem reopen_keeps:
  assumes "queue_ok q"
  shows "\<exists>q' d. disk_queue_open opts (dir q) = (Inr q', d) \<and> queue_ok q' \<and> pending q' = pending q \<and>
    cursor q' = cursor q \<and> queued_bytes q' = queued_bytes q \<and> active_segment_id q' = active_segment_id q"
  using reopen_ok [OF assms, of opts] reopen_pending [OF assms, of opts] by blast

theorem reopen_keeps_witness:
  "\<exists>q' d. disk_queue_open default_disk_queue_options (dir (fresh_queue default_disk_queue_options)) = (Inr q', d) \<and>
    queue_ok q' \<and> pending q' = pending (fresh_queue default_disk_queue_options) \<and>
    cursor q' = cursor (fresh_queue default_disk_queue_options) \<and>
    queued_bytes q' = queued_bytes (fresh_queue default_disk_queue_options) \<and>
    active_segment_id q' = active_segment_id (fresh_queue default_disk_queue_options)"
  by (rule reopen_keeps [OF fresh_queue_ok(1)])

text \<open>Property C3 (enqueue_atomic). Whatever call fails during an enqueue, and however many bytes of a failed
  write reached the file, the payload is queued whole or not at all and every other queued payload
  is untouched; after \<^verbatim>\<open>Ok\<close> it is queued.\<close>

theorem enqueue_atomic:
  assumes "sound_queue q" and "length p \<le> u32_max" and "enqueue p (with_faults fl q) = (r, q')"
  shows "pending q' = pending q @ [p] \<or> pending q' = pending q \<and> \<not> is_ok r"
  using enqueue_atomic_aux [OF assms(1) _ assms(3)] assms(2) by (simp add: fits_u32_def)

theorem enqueue_atomic_witness:
  "pending (snd (enqueue [5] (with_faults (\<lambda>n. if n = 3 then Some (0, ''ENOSPC'') else None)
      (fresh_queue default_disk_queue_options)))) = [[5]] \<or>
   pending (snd (enqueue [5] (with_faults (\<lambda>n. if n = 3 then Some (0, ''ENOSPC'') else None)
      (fresh_queue default_disk_queue_options)))) = []"
proof -
  let ?q = "fresh_queue default_disk_queue_options"
  let ?fl = "\<lambda>n :: nat. if n = 3 then Some (0 :: nat, ''ENOSPC'') else None"
  obtain r q' where e: "enqueue [5] (with_faults ?fl ?q) = (r, q')" by fastforce
  with enqueue_atomic [OF fresh_sound _ e] fresh_queue_ok(2) show ?thesis by auto
qed

text \<open>Property C2 (commit_crash_safe). A commit that fails at any point, followed by a restart on the directory
  it left, loses nothing that was not delivered: the undelivered payloads are the tail of what the
  restarted queue holds, and all it holds was queued before, in the same order.\<close>

theorem commit_crash_safe:
  assumes "sound_queue q" and "batch_held b q" and "commit_batch b (with_faults fl q) = (r, q1)"
  shows "\<exists>q2 d. disk_queue_open opts (repaired (dir q1)) = (Inr q2, d) \<and>
    suffix (drop (length (payloads b)) (pending q)) (pending q2) \<and> subseq (pending q2) (pending q)"
proof -
  have "drop (length (payloads b)) (pending q) = pending_from (next_cursor b) (files (dir q))"
    using assms(2) by (simp add: batch_held_def)
  then show ?thesis using commit_crash_aux [OF assms] by simp
qed

theorem commit_crash_safe_witness:
  "\<exists>b q2 d. disk_queue_open default_disk_queue_options (repaired (dir (snd (commit_batch b
       (with_faults (\<lambda>n. if n = 1 then Some (0, ''EIO'') else None) (fresh_queue default_disk_queue_options)))))) =
      (Inr q2, d) \<and> pending q2 = []"
proof -
  let ?q = "fresh_queue default_disk_queue_options"
  let ?fl = "\<lambda>n :: nat. if n = 1 then Some (0 :: nat, ''EIO'') else None"
  obtain b where b: "batch_held b ?q" using sound_read [OF fresh_sound] by blast
  obtain r q1 where c: "commit_batch b (with_faults ?fl ?q) = (r, q1)" by fastforce
  with commit_crash_safe [OF fresh_sound b c, of default_disk_queue_options] fresh_queue_ok(2) show ?thesis
    by (metis list_emb_Nil2 snd_conv)
qed

text \<open>A failed append is not cleaned up: when the disk is full while the payload of
  a record is written, its header stays in the active segment, the next \<^verbatim>\<open>enqueue\<close> appends behind it and
  returns \<^verbatim>\<open>Ok\<close>, and the payload it accepted can never be read.\<close>

theorem torn_write_hides_next:
  "\<exists>q1 q2. enqueue [5] (with_faults (\<lambda>n. if n = 3 then Some (0, ''ENOSPC'') else None)
        (fresh_queue default_disk_queue_options)) = (Inl (Io (OsError ''ENOSPC'')), q1) \<and>
     enqueue [6] (with_faults no_faults q1) = (Inr (), q2) \<and> pending q2 = []"
proof -
  let ?first = "enqueue [5] (with_faults (\<lambda>n. if n = 3 then Some (0, ''ENOSPC'') else None)
        (fresh_queue default_disk_queue_options))"
  let ?second = "enqueue [6] (with_faults no_faults (snd ?first))"
  have "fst ?first = Inl (Io (OsError ''ENOSPC''))" by code_simp
  moreover have "fst ?second = Inr ()" by code_simp
  moreover have "pending (snd ?second) = []" by code_simp
  ultimately show ?thesis by (metis prod.collapse)
qed

end
