(* ===== verification/Telemetry.thy ===== *)
theory Telemetry
  imports Fabric_Text
begin

text \<open>
  Crate \<^verbatim>\<open>telemetry-core\<close>, modules \<^verbatim>\<open>error\<close> and \<^verbatim>\<open>telemetry\<close>: the record that every other part of the
  agent passes around, its validation, and the binary codec that the durable queue stores. The
  decoder is an action over a byte cursor, as in the source. A locale states what a field codec
  promises; every field of the format is an interpretation of it, and the record codec is
  assembled from the interpretations.
\<close>

section \<open>Errors (error.rs)\<close>

datatype pipeline_error =
    InvalidConfig string
  | MissingRoute string
  | UnknownExporter string

fun show_pipeline_error :: "pipeline_error \<Rightarrow> string" where
  "show_pipeline_error (InvalidConfig message) = ''invalid pipeline config: '' @ message"
| "show_pipeline_error (MissingRoute sig) = ''missing route for signal: '' @ sig"
| "show_pipeline_error (UnknownExporter name) = ''unknown exporter referenced by route: '' @ name"

datatype telemetry_error =
    InvalidRecord string
  | DecodeError string
  | PayloadTooLarge nat

fun show_telemetry_error :: "telemetry_error \<Rightarrow> string" where
  "show_telemetry_error (InvalidRecord message) = ''invalid telemetry record: '' @ message"
| "show_telemetry_error (DecodeError message) = ''failed to decode telemetry record: '' @ message"
| "show_telemetry_error (PayloadTooLarge n) =
     ''payload is too large: '' @ show_nat n @ '' bytes''"

section \<open>Signals\<close>

datatype signal_kind = Trace | Metric | Log

fun signal_as_str :: "signal_kind \<Rightarrow> string" where
  "signal_as_str Trace = ''trace''"
| "signal_as_str Metric = ''metric''"
| "signal_as_str Log = ''log''"

definition signal_from_token :: "string \<Rightarrow> signal_kind option" where
  "signal_from_token value =
     (if value = ''trace'' \<or> value = ''traces'' then Some Trace
      else if value = ''metric'' \<or> value = ''metrics'' then Some Metric
      else if value = ''log'' \<or> value = ''logs'' then Some Log
      else None)"

fun signal_to_wire :: "signal_kind \<Rightarrow> u8" where
  "signal_to_wire Trace = 1"
| "signal_to_wire Metric = 2"
| "signal_to_wire Log = 3"

definition signal_from_wire :: "u8 \<Rightarrow> telemetry_error + signal_kind" where
  "signal_from_wire v =
     (if v = 1 then Inr Trace
      else if v = 2 then Inr Metric
      else if v = 3 then Inr Log
      else Inl (DecodeError (''unknown signal kind: '' @ show_nat (unat v))))"

section \<open>Records\<close>

record attribute =
  attr_key :: string
  attr_value :: string

record telemetry_record =
  tenant_id :: string
  signal :: signal_kind
  timestamp_unix_nanos :: "128 word"
  attributes :: "attribute list"
  body :: "u8 list"

text \<open>\<^verbatim>\<open>TelemetryRecord::new\<close> stamps the record with \<^verbatim>\<open>now_unix_nanos()\<close>: the clock reading is \<open>now\<close>.\<close>

definition record_new :: "128 word \<Rightarrow> string \<Rightarrow> signal_kind \<Rightarrow> u8 list \<Rightarrow> telemetry_record" where
  "record_new now t sg b =
     \<lparr>tenant_id = t, signal = sg, timestamp_unix_nanos = now, attributes = [], body = b\<rparr>"

definition with_attribute :: "string \<Rightarrow> string \<Rightarrow> telemetry_record \<Rightarrow> telemetry_record" where
  "with_attribute k v r = r\<lparr>attributes := attributes r @ [\<lparr>attr_key = k, attr_value = v\<rparr>]\<rparr>"

text \<open>\<^verbatim>\<open>duration_since(UNIX_EPOCH)\<close>, with 0 for a clock before the epoch.\<close>

definition now_unix_nanos :: "int \<Rightarrow> 128 word" where
  "now_unix_nanos system_time = (if 0 \<le> system_time then of_int system_time else 0)"

definition validate_record :: "nat \<Rightarrow> telemetry_record \<Rightarrow> telemetry_error + unit" where
  "validate_record max_record_bytes r =
     (if blank (tenant_id r) then Inl (InvalidRecord ''tenant_id must not be empty'')
      else if length (body r) > max_record_bytes then Inl (PayloadTooLarge (length (body r)))
      else res_each
        (\<lambda>a. if blank (attr_key a) then Inl (InvalidRecord ''attribute keys must not be empty'')
             else Inr ())
        (attributes r))"

text \<open>The invariant of the Rust type: every string field holds valid UTF-8.\<close>

definition valid_attr :: "attribute \<Rightarrow> bool" where
  "valid_attr a \<longleftrightarrow> valid_str (attr_key a) \<and> valid_str (attr_value a)"

definition valid_rec :: "telemetry_record \<Rightarrow> bool" where
  "valid_rec r \<longleftrightarrow> valid_str (tenant_id r) \<and> (\<forall>a \<in> set (attributes r). valid_attr a)"

section \<open>Encoding\<close>

definition RECORD_MAGIC :: "u8 list" where
  "RECORD_MAGIC = as_bytes ''TFB1''"

definition write_u16 :: "u8 list \<Rightarrow> nat \<Rightarrow> u8 list" where
  "write_u16 output value = output @ le_bytes 2 value"

definition write_u32 :: "u8 list \<Rightarrow> nat \<Rightarrow> u8 list" where
  "write_u32 output value = output @ le_bytes 4 value"

definition write_string :: "u8 list \<Rightarrow> string \<Rightarrow> telemetry_error + u8 list" where
  "write_string output value =
     (let bytes = as_bytes value in
      if length bytes > u16_max then Inl (PayloadTooLarge (length bytes))
      else Inr (write_u16 output (length bytes) @ bytes))"

fun write_attributes :: "u8 list \<Rightarrow> attribute list \<Rightarrow> telemetry_error + u8 list" where
  "write_attributes output [] = Inr output"
| "write_attributes output (a # as) =
     res_bind (write_string output (attr_key a)) (\<lambda>output.
     res_bind (write_string output (attr_value a)) (\<lambda>output.
     write_attributes output as))"

definition encode :: "telemetry_record \<Rightarrow> telemetry_error + u8 list" where
  "encode r =
     res_bind (validate_record u32_max r) (\<lambda>_.
     let tenant = as_bytes (tenant_id r) in
     if length tenant > u16_max then Inl (PayloadTooLarge (length tenant))
     else if length (attributes r) > u16_max then Inl (PayloadTooLarge (length (attributes r)))
     else if length (body r) > u32_max then Inl (PayloadTooLarge (length (body r)))
     else
       let output = RECORD_MAGIC @ [signal_to_wire (signal r)];
           output = output @ le_bytes 16 (unat (timestamp_unix_nanos r));
           output = write_u16 output (length tenant) @ tenant;
           output = write_u16 output (length (attributes r))
       in res_bind (write_attributes output (attributes r)) (\<lambda>output.
          Inr (write_u32 output (length (body r)) @ body r)))"

section \<open>Decoding\<close>

record byte_cursor =
  cur_input :: "u8 list"
  cur_offset :: usize

type_synonym 'a decoder = "(byte_cursor, telemetry_error, 'a) act"

definition cursor_new :: "u8 list \<Rightarrow> byte_cursor" where
  "cursor_new input = \<lparr>cur_input = input, cur_offset = 0\<rparr>"

definition read_exact :: "nat \<Rightarrow> u8 list decoder" where
  "read_exact len =
     bind_act (get_act cur_offset) (\<lambda>offset.
     bind_act (lift_res (ok_or (DecodeError ''offset overflow'') (checked_add_u64 offset len)))
       (\<lambda>stop.
     bind_act (get_act cur_input) (\<lambda>input.
     if stop > length input then err_act (DecodeError ''record ended unexpectedly'')
     else seq_act (mod_act (cur_offset_update (\<lambda>_. stop)))
            (ok_act (take (stop - offset) (drop offset input))))))"

definition read_u8 :: "u8 decoder" where
  "read_u8 = bind_act (read_exact 1) (\<lambda>bytes. ok_act (bytes ! 0))"

definition read_u16 :: "nat decoder" where
  "read_u16 = bind_act (read_exact 2) (\<lambda>bytes. ok_act (le_value [bytes ! 0, bytes ! 1]))"

definition read_u32 :: "nat decoder" where
  "read_u32 =
     bind_act (read_exact 4) (\<lambda>bytes.
       ok_act (le_value [bytes ! 0, bytes ! 1, bytes ! 2, bytes ! 3]))"

definition read_u128 :: "128 word decoder" where
  "read_u128 = bind_act (read_exact 16) (\<lambda>bytes. ok_act (of_nat (le_value bytes)))"

text \<open>The message of \<^verbatim>\<open>FromUtf8Error\<close>.\<close>

fun show_utf8_error :: "nat \<times> nat option \<Rightarrow> string" where
  "show_utf8_error (i, Some n) =
     ''invalid utf-8 sequence of '' @ show_nat n @ '' bytes from index '' @ show_nat i"
| "show_utf8_error (i, None) = ''incomplete utf-8 byte sequence from index '' @ show_nat i"

definition read_string :: "nat \<Rightarrow> string decoder" where
  "read_string len =
     bind_act (read_exact len) (\<lambda>bytes.
     lift_res (map_err (\<lambda>err. DecodeError (show_utf8_error err)) (from_utf8 bytes)))"

definition is_finished :: "byte_cursor \<Rightarrow> bool" where
  "is_finished c \<longleftrightarrow> cur_offset c = length (cur_input c)"

definition decode_attribute :: "attribute decoder" where
  "decode_attribute =
     bind_act read_u16 (\<lambda>key_len.
     bind_act (read_string key_len) (\<lambda>key.
     bind_act read_u16 (\<lambda>value_len.
     bind_act (read_string value_len) (\<lambda>val.
     ok_act \<lparr>attr_key = key, attr_value = val\<rparr>))))"

definition decode_body :: "telemetry_record decoder" where
  "decode_body =
     bind_act (read_exact 4) (\<lambda>magic.
     if magic \<noteq> RECORD_MAGIC then err_act (DecodeError ''record magic does not match'')
     else
       bind_act read_u8 (\<lambda>kind.
       bind_act (lift_res (signal_from_wire kind)) (\<lambda>sig.
       bind_act read_u128 (\<lambda>timestamp.
       bind_act read_u16 (\<lambda>tenant_len.
       bind_act (read_string tenant_len) (\<lambda>tenant.
       bind_act read_u16 (\<lambda>attribute_count.
       bind_act (repeat_act attribute_count decode_attribute) (\<lambda>attrs.
       bind_act read_u32 (\<lambda>body_len.
       bind_act (read_exact body_len) (\<lambda>body_bytes.
       bind_act (get_act is_finished) (\<lambda>finished.
       if \<not> finished then err_act (DecodeError ''record has trailing bytes'')
       else ok_act \<lparr>tenant_id = tenant, signal = sig, timestamp_unix_nanos = timestamp,
                    attributes = attrs, body = body_bytes\<rparr>)))))))))))"

definition decode :: "u8 list \<Rightarrow> telemetry_error + telemetry_record" where
  "decode input = fst (decode_body (cursor_new input))"

section \<open>Field codecs\<close>

text \<open>The bytes still to be read.\<close>

definition rest_of :: "byte_cursor \<Rightarrow> u8 list" where
  "rest_of c = drop (cur_offset c) (cur_input c)"

definition byte_cursor_ok :: "byte_cursor \<Rightarrow> bool" where
  "byte_cursor_ok c \<longleftrightarrow> cur_offset c \<le> length (cur_input c) \<and> length (cur_input c) \<le> u64_max"

lemma byte_cursor_new_ok: "length bs \<le> u64_max \<Longrightarrow> byte_cursor_ok (cursor_new bs)"
  by (simp add: byte_cursor_ok_def cursor_new_def)

lemma rest_of_new [simp]: "rest_of (cursor_new bs) = bs"
  by (simp add: rest_of_def cursor_new_def)

lemma is_finished_iff: "byte_cursor_ok c \<Longrightarrow> is_finished c \<longleftrightarrow> rest_of c = []"
  by (auto simp: is_finished_def rest_of_def byte_cursor_ok_def)

lemma read_exact_enough:
  assumes "byte_cursor_ok c" and "rest_of c = bs @ rest" and "length bs = n"
  shows "\<exists>d. read_exact n c = (Inr bs, d) \<and> byte_cursor_ok d \<and> rest_of d = rest"
proof -
  have le: "cur_offset c + n \<le> length (cur_input c)"
  proof -
    have "length (rest_of c) = n + length rest" using assms(2,3) by simp
    then have "length (cur_input c) - cur_offset c = n + length rest" by (simp add: rest_of_def)
    moreover have "cur_offset c \<le> length (cur_input c)" using assms(1) by (simp add: byte_cursor_ok_def)
    ultimately show ?thesis by linarith
  qed
  let ?d = "c\<lparr>cur_offset := cur_offset c + n\<rparr>"
  have "rest_of ?d = drop n (rest_of c)" by (simp add: rest_of_def add.commute)
  moreover have "byte_cursor_ok ?d" using assms(1) le by (simp add: byte_cursor_ok_def)
  moreover have "read_exact n c = (Inr (take n (rest_of c)), ?d)"
    using assms(1) le by (auto simp: read_exact_def rest_of_def byte_cursor_ok_def checked_add_u64_def)
  ultimately show ?thesis using assms(2,3) by simp
qed

lemma read_exact_short:
  assumes "byte_cursor_ok c" and "length (rest_of c) < n"
  shows "\<exists>e. read_exact n c = (Inl e, c)"
proof (cases "cur_offset c + n \<le> u64_max")
  case True
  with assms show ?thesis
    by (auto simp: read_exact_def rest_of_def byte_cursor_ok_def checked_add_u64_def)
next
  case False
  then show ?thesis by (auto simp: read_exact_def checked_add_u64_def)
qed

lemma read_exact_Inr:
  assumes "byte_cursor_ok c" and "read_exact n c = (Inr bs, d)"
  shows "length bs = n \<and> byte_cursor_ok d \<and> rest_of c = bs @ rest_of d"
proof (cases "n \<le> length (rest_of c)")
  case True
  have "rest_of c = take n (rest_of c) @ drop n (rest_of c)" by simp
  from read_exact_enough [OF assms(1) this] True assms(2) show ?thesis by auto
next
  case False
  with assms read_exact_short [of c n] show ?thesis by auto
qed

locale field_codec =
  fixes enc :: "'a \<Rightarrow> u8 list"
    and dec :: "'a decoder"
    and valid :: "'a \<Rightarrow> bool"
  assumes dec_enc: "byte_cursor_ok c \<Longrightarrow> valid x \<Longrightarrow> rest_of c = enc x @ rest \<Longrightarrow>
      \<exists>d. dec c = (Inr x, d) \<and> byte_cursor_ok d \<and> rest_of d = rest"
    and dec_sound: "byte_cursor_ok c \<Longrightarrow> dec c = (Inr x, d) \<Longrightarrow>
      valid x \<and> byte_cursor_ok d \<and> rest_of c = enc x @ rest_of d"
begin

lemma dec_next:
  assumes "byte_cursor_ok c" and "valid x" and "rest_of c = enc x @ rest"
  obtains d where "dec c = (Inr x, d)" and "byte_cursor_ok d" and "rest_of d = rest"
  using dec_enc [OF assms] by blast

text \<open>A counted sequence of fields is again a codec.\<close>

lemma repeat_enc:
  assumes "byte_cursor_ok c" and "list_all valid xs" and "rest_of c = concat (map enc xs) @ rest"
  shows "\<exists>d. repeat_act (length xs) dec c = (Inr xs, d) \<and> byte_cursor_ok d \<and> rest_of d = rest"
  using assms
proof (induction xs arbitrary: c)
  case Nil
  then show ?case by simp
next
  case (Cons x xs)
  have "rest_of c = enc x @ (concat (map enc xs) @ rest)" and "valid x" using Cons.prems by simp_all
  then obtain d where d: "dec c = (Inr x, d)" "byte_cursor_ok d" "rest_of d = concat (map enc xs) @ rest"
    using dec_next [OF Cons.prems(1)] by metis
  with Cons obtain d' where "repeat_act (length xs) dec d = (Inr xs, d')" "byte_cursor_ok d'" "rest_of d' = rest"
    by auto
  with d show ?case by (simp add: bind_act_step)
qed

lemma repeat_sound:
  assumes "byte_cursor_ok c" and "repeat_act n dec c = (Inr xs, d)"
  shows "list_all valid xs \<and> length xs = n \<and> byte_cursor_ok d \<and> rest_of c = concat (map enc xs) @ rest_of d"
  using assms
proof (induction n arbitrary: c xs)
  case 0
  then show ?case by simp
next
  case (Suc n)
  from Suc.prems(2) obtain x c1 ys where x: "dec c = (Inr x, c1)"
    and ys: "repeat_act n dec c1 = (Inr ys, d)" and xs: "xs = x # ys"
    by (auto simp: bind_act_Inr_iff)
  from dec_sound [OF Suc.prems(1) x] have c1: "valid x" "byte_cursor_ok c1" "rest_of c = enc x @ rest_of c1"
    by simp_all
  with Suc.IH [OF c1(2) ys] xs show ?case by simp
qed

end

subsection \<open>The fields of the record format\<close>

lemma length_4D: "length bs = 4 \<Longrightarrow> \<exists>a b c d. bs = [a, b, c, d]"
  by (auto simp: numeral_eq_Suc length_Suc_conv)

lemma length_2D: "length bs = 2 \<Longrightarrow> \<exists>a b. bs = [a, b]"
  by (auto simp: numeral_eq_Suc length_Suc_conv)

text \<open>A field of fixed width: the decoder is a function of the bytes read.\<close>

lemma fixed_width_codec:
  fixes f :: "u8 list \<Rightarrow> 'a"
  assumes len: "\<And>x. length (enc x) = k"
    and undo: "\<And>x. valid x \<Longrightarrow> f (enc x) = x"
    and ok: "\<And>bs. length bs = k \<Longrightarrow> valid (f bs) \<and> enc (f bs) = bs"
  shows "field_codec enc (bind_act (read_exact k) (\<lambda>bs. ok_act (f bs))) valid"
proof
  fix c :: byte_cursor and x rest
  assume "byte_cursor_ok c" and v: "valid x" and "rest_of c = enc x @ rest"
  then obtain d where "read_exact k c = (Inr (enc x), d)" "byte_cursor_ok d" "rest_of d = rest"
    using read_exact_enough [of c "enc x" rest k] len by blast
  with undo [OF v] show "\<exists>d. bind_act (read_exact k) (\<lambda>bs. ok_act (f bs)) c = (Inr x, d) \<and>
      byte_cursor_ok d \<and> rest_of d = rest"
    by (simp add: bind_act_step)
next
  fix c d :: byte_cursor and x
  assume c: "byte_cursor_ok c" and "bind_act (read_exact k) (\<lambda>bs. ok_act (f bs)) c = (Inr x, d)"
  then obtain bs where r: "read_exact k c = (Inr bs, d)" and x: "x = f bs"
    by (auto simp: bind_act_Inr_iff)
  from read_exact_Inr [OF c r] x ok [of bs]
  show "valid x \<and> byte_cursor_ok d \<and> rest_of c = enc x @ rest_of d" by auto
qed

interpretation u8_field: field_codec "\<lambda>b. [b]" read_u8 "\<lambda>_. True"
  unfolding read_u8_def
proof (rule fixed_width_codec)
  show "True \<and> [bs ! 0] = bs" if "length bs = 1" for bs :: "u8 list"
    using that by (auto simp: length_Suc_conv)
qed simp_all

text \<open>The multi-byte readers list the bytes they read one by one.\<close>

lemma read_exact_cong:
  assumes "\<And>bs. length bs = k \<Longrightarrow> f bs = g bs"
  shows "bind_act (read_exact k) f = bind_act (read_exact k) g"
proof (rule ext)
  fix c
  have "length bs = k" if "read_exact k c = (Inr bs, d)" for bs d
    using that by (auto simp: read_exact_def bind_act_def seq_act_def checked_add_u64_def ok_or_def
        split: if_splits option.splits)
  then show "bind_act (read_exact k) f c = bind_act (read_exact k) g c"
    using assms by (auto simp: bind_act_def split: prod.splits sum.splits)
qed

lemma read_u16_value: "read_u16 = bind_act (read_exact 2) (\<lambda>bs. ok_act (le_value bs))"
  unfolding read_u16_def by (rule read_exact_cong) (auto dest!: length_2D)

lemma read_u32_value: "read_u32 = bind_act (read_exact 4) (\<lambda>bs. ok_act (le_value bs))"
  unfolding read_u32_def
proof (rule read_exact_cong)
  fix bs :: "u8 list"
  assume "length bs = 4"
  then obtain a b c d where "bs = [a, b, c, d]" using length_4D by blast
  then show "(ok_act (le_value [bs ! 0, bs ! 1, bs ! 2, bs ! 3]) :: nat decoder) = ok_act (le_value bs)"
    by (simp add: numeral_2_eq_2 numeral_3_eq_3)
qed

interpretation u16_field: field_codec "le_bytes 2" read_u16 "\<lambda>n. n \<le> u16_max"
  unfolding read_u16_value
proof (rule fixed_width_codec)
  show "le_value (le_bytes 2 n) = n" if "n \<le> u16_max" for n
    using that by (intro le_value_le_bytes) simp
  show "le_value bs \<le> u16_max \<and> le_bytes 2 (le_value bs) = bs" if "length bs = 2" for bs
    using le_value_bound [of bs] that by (simp add: le_bytes_le_value)
qed simp

interpretation u32_field: field_codec "le_bytes 4" read_u32 "\<lambda>n. n \<le> u32_max"
  unfolding read_u32_value
proof (rule fixed_width_codec)
  show "le_value (le_bytes 4 n) = n" if "n \<le> u32_max" for n
    using that by (intro le_value_le_bytes) simp
  show "le_value bs \<le> u32_max \<and> le_bytes 4 (le_value bs) = bs" if "length bs = 4" for bs
    using le_value_bound [of bs] that by (simp add: le_bytes_le_value)
qed simp

lemma unat_u128: "unat (w :: 128 word) < 256 ^ 16"
proof -
  have "unat w < 2 ^ LENGTH(128)" by (rule unsigned_less)
  then show ?thesis by simp
qed

interpretation u128_field: field_codec "\<lambda>w. le_bytes 16 (unat w)" read_u128 "\<lambda>_. True"
  unfolding read_u128_def
proof (rule fixed_width_codec)
  show "of_nat (le_value (le_bytes 16 (unat w))) = w" for w :: "128 word"
    using le_value_le_bytes [OF unat_u128, of w] by simp
  show "True \<and> le_bytes 16 (unat (of_nat (le_value bs) :: 128 word)) = bs" if "length bs = 16"
    for bs :: "u8 list"
    using le_value_bound [of bs] that by (simp add: unat_of_nat le_bytes_le_value)
qed simp

text \<open>A string is its length in two bytes followed by its bytes.\<close>

definition enc_string :: "string \<Rightarrow> u8 list" where
  "enc_string s = le_bytes 2 (length s) @ as_bytes s"

definition dec_string :: "string decoder" where
  "dec_string = bind_act read_u16 read_string"

definition str_fits :: "string \<Rightarrow> bool" where
  "str_fits s \<longleftrightarrow> valid_str s \<and> length s \<le> u16_max"

interpretation string_field: field_codec enc_string dec_string str_fits
proof
  fix c :: byte_cursor and s rest
  assume c: "byte_cursor_ok c" and s: "str_fits s" and r: "rest_of c = enc_string s @ rest"
  have "rest_of c = le_bytes 2 (length s) @ (as_bytes s @ rest)" and "length s \<le> u16_max"
    using r s by (simp_all add: enc_string_def str_fits_def)
  then obtain d where d: "read_u16 c = (Inr (length s), d)" "byte_cursor_ok d" "rest_of d = as_bytes s @ rest"
    using u16_field.dec_next [OF c] by metis
  then obtain d' where "read_exact (length s) d = (Inr (as_bytes s), d')" "byte_cursor_ok d'" "rest_of d' = rest"
    using read_exact_enough [of d "as_bytes s" rest "length s"] by auto
  with d s show "\<exists>d. dec_string c = (Inr s, d) \<and> byte_cursor_ok d \<and> rest_of d = rest"
    by (simp add: dec_string_def read_string_def bind_act_step str_fits_def)
next
  fix c d :: byte_cursor and s
  assume c: "byte_cursor_ok c" and d: "dec_string c = (Inr s, d)"
  then obtain n c1 bs where n: "read_u16 c = (Inr n, c1)" and bs: "read_exact n c1 = (Inr bs, d)"
    and s: "from_utf8 bs = Inr s"
    by (auto simp: dec_string_def read_string_def bind_act_Inr_iff)
  from u16_field.dec_sound [OF c n] have c1: "n \<le> u16_max" "byte_cursor_ok c1" "rest_of c = le_bytes 2 n @ rest_of c1"
    by simp_all
  from read_exact_Inr [OF c1(2) bs] c1 from_utf8_valid [OF s]
  show "str_fits s \<and> byte_cursor_ok d \<and> rest_of c = enc_string s @ rest_of d"
    using length_as_bytes [of s] by (auto simp: str_fits_def enc_string_def)
qed

definition enc_attr :: "attribute \<Rightarrow> u8 list" where
  "enc_attr a = enc_string (attr_key a) @ enc_string (attr_value a)"

definition attr_fits :: "attribute \<Rightarrow> bool" where
  "attr_fits a \<longleftrightarrow> str_fits (attr_key a) \<and> str_fits (attr_value a)"

lemma bind_act_assoc: "bind_act (bind_act m f) g = bind_act m (\<lambda>x. bind_act (f x) g)"
  by (rule ext) (simp add: bind_act_def split: prod.splits sum.splits)

lemma decode_attribute_fields:
  "decode_attribute = bind_act dec_string (\<lambda>k. bind_act dec_string (\<lambda>v.
     ok_act \<lparr>attr_key = k, attr_value = v\<rparr>))"
  by (simp add: decode_attribute_def dec_string_def bind_act_assoc)

interpretation attr_field: field_codec enc_attr decode_attribute attr_fits
proof
  fix c :: byte_cursor and a rest
  assume c: "byte_cursor_ok c" and a: "attr_fits a" and r: "rest_of c = enc_attr a @ rest"
  then have k: "str_fits (attr_key a)" and v: "str_fits (attr_value a)"
    and r1: "rest_of c = enc_string (attr_key a) @ (enc_string (attr_value a) @ rest)"
    by (simp_all add: attr_fits_def enc_attr_def)
  obtain d where d: "dec_string c = (Inr (attr_key a), d)" "byte_cursor_ok d"
    "rest_of d = enc_string (attr_value a) @ rest"
    by (rule string_field.dec_next [OF c k r1])
  obtain d' where "dec_string d = (Inr (attr_value a), d')" "byte_cursor_ok d'" "rest_of d' = rest"
    by (rule string_field.dec_next [OF d(2) v d(3)])
  with d show "\<exists>d. decode_attribute c = (Inr a, d) \<and> byte_cursor_ok d \<and> rest_of d = rest"
    by (simp add: decode_attribute_fields bind_act_step)
next
  fix c d :: byte_cursor and a
  assume c: "byte_cursor_ok c" and "decode_attribute c = (Inr a, d)"
  then obtain k c1 v where k: "dec_string c = (Inr k, c1)" and v: "dec_string c1 = (Inr v, d)"
    and a: "a = \<lparr>attr_key = k, attr_value = v\<rparr>"
    by (auto simp: decode_attribute_fields bind_act_Inr_iff)
  from string_field.dec_sound [OF c k] have c1: "str_fits k" "byte_cursor_ok c1"
    "rest_of c = enc_string k @ rest_of c1" by simp_all
  from string_field.dec_sound [OF c1(2) v] c1 a
  show "attr_fits a \<and> byte_cursor_ok d \<and> rest_of c = enc_attr a @ rest_of d"
    by (simp add: attr_fits_def enc_attr_def)
qed

section \<open>The record codec\<close>

definition enc_record :: "telemetry_record \<Rightarrow> u8 list" where
  "enc_record r =
     RECORD_MAGIC @ [signal_to_wire (signal r)] @ le_bytes 16 (unat (timestamp_unix_nanos r)) @
     enc_string (tenant_id r) @ le_bytes 2 (length (attributes r)) @
     concat (map enc_attr (attributes r)) @ le_bytes 4 (length (body r)) @ body r"

text \<open>The size limits of the format.\<close>

definition rec_fits :: "telemetry_record \<Rightarrow> bool" where
  "rec_fits r \<longleftrightarrow>
     length (tenant_id r) \<le> u16_max \<and> length (attributes r) \<le> u16_max \<and>
     (\<forall>a \<in> set (attributes r). length (attr_key a) \<le> u16_max \<and> length (attr_value a) \<le> u16_max) \<and>
     length (body r) \<le> u32_max"

lemma validate_record_Inr:
  "validate_record m r = Inr u \<longleftrightarrow>
     \<not> blank (tenant_id r) \<and> length (body r) \<le> m \<and> (\<forall>a \<in> set (attributes r). \<not> blank (attr_key a))"
  by (auto simp: validate_record_def res_each_Inr_iff)

lemma write_string_Inr:
  "write_string out s = Inr out' \<longleftrightarrow> length s \<le> u16_max \<and> out' = out @ enc_string s"
  by (auto simp: write_string_def Let_def write_u16_def enc_string_def)

lemma write_attributes_Inr:
  "write_attributes out as = Inr out' \<longleftrightarrow>
     (\<forall>a \<in> set as. length (attr_key a) \<le> u16_max \<and> length (attr_value a) \<le> u16_max) \<and>
     out' = out @ concat (map enc_attr as)"
  by (induction as arbitrary: out) (auto simp: res_bind_Inr_iff write_string_Inr enc_attr_def)

lemma encode_Inr:
  "encode r = Inr bs \<longleftrightarrow>
     validate_record u32_max r = Inr () \<and> rec_fits r \<and> bs = enc_record r"
proof -
  have "encode r = Inr bs \<longleftrightarrow>
    validate_record u32_max r = Inr () \<and>
    length (tenant_id r) \<le> u16_max \<and> length (attributes r) \<le> u16_max \<and>
    length (body r) \<le> u32_max \<and>
    (\<exists>out. write_attributes
       (write_u16 (write_u16 ((RECORD_MAGIC @ [signal_to_wire (signal r)]) @
          le_bytes 16 (unat (timestamp_unix_nanos r))) (length (tenant_id r)) @
          as_bytes (tenant_id r)) (length (attributes r))) (attributes r) = Inr out \<and>
       bs = write_u32 out (length (body r)) @ body r)"
    by (auto simp: encode_def Let_def res_bind_Inr_iff)
  then show ?thesis
    by (auto simp: write_attributes_Inr rec_fits_def enc_record_def enc_string_def write_u16_def
        write_u32_def)
qed

lemma signal_wire_inverse [simp]: "signal_from_wire (signal_to_wire sg) = Inr sg"
  by (cases sg) (simp_all add: signal_from_wire_def)

lemma signal_from_wire_Inr: "signal_from_wire v = Inr sg \<Longrightarrow> v = signal_to_wire sg"
  by (auto simp: signal_from_wire_def split: if_splits)

lemma length_RECORD_MAGIC [simp]: "length RECORD_MAGIC = 4"
  by (simp add: RECORD_MAGIC_def)

lemma length_enc_string [simp]: "length (enc_string s) = 2 + length s"
  by (simp add: enc_string_def)

lemma length_enc_attrs:
  "\<forall>a \<in> set as. length (attr_key a) \<le> u16_max \<and> length (attr_value a) \<le> u16_max \<Longrightarrow>
   length (concat (map enc_attr as)) \<le> 131074 * length as"
  by (induction as) (auto simp: enc_attr_def)

text \<open>Every record that fits the format encodes to far less than the address space.\<close>

lemma length_enc_record:
  assumes "rec_fits r"
  shows "length (enc_record r) \<le> 12884967449"
proof -
  have "length (concat (map enc_attr (attributes r))) \<le> 131074 * length (attributes r)"
    using assms by (intro length_enc_attrs) (simp add: rec_fits_def)
  moreover have "length (attributes r) \<le> 65535" "length (tenant_id r) \<le> 65535"
    "length (body r) \<le> 4294967295"
    using assms by (simp_all add: rec_fits_def)
  moreover have "length (enc_record r) = 29 + length (tenant_id r) +
      length (concat (map enc_attr (attributes r))) + length (body r)"
    by (simp add: enc_record_def)
  ultimately show ?thesis by linarith
qed

text \<open>The decoder with its length-prefixed strings folded, cut before the body.\<close>

definition decode_tail :: "signal_kind \<Rightarrow> 128 word \<Rightarrow> string \<Rightarrow> attribute list \<Rightarrow> telemetry_record decoder" where
  "decode_tail sg ts t as =
     bind_act read_u32 (\<lambda>n. bind_act (read_exact n) (\<lambda>bs. bind_act (get_act is_finished) (\<lambda>finished.
       if \<not> finished then err_act (DecodeError ''record has trailing bytes'')
       else ok_act \<lparr>tenant_id = t, signal = sg, timestamp_unix_nanos = ts,
                    attributes = as, body = bs\<rparr>)))"

definition decode_head :: "(signal_kind \<times> 128 word \<times> string \<times> attribute list) decoder" where
  "decode_head =
     bind_act (read_exact 4) (\<lambda>magic.
     if magic \<noteq> RECORD_MAGIC then err_act (DecodeError ''record magic does not match'')
     else bind_act read_u8 (\<lambda>kind. bind_act (lift_res (signal_from_wire kind)) (\<lambda>sg.
       bind_act read_u128 (\<lambda>ts. bind_act dec_string (\<lambda>t. bind_act read_u16 (\<lambda>n.
       bind_act (repeat_act n decode_attribute) (\<lambda>as. ok_act (sg, ts, t, as))))))))"

lemma bind_act_if: "bind_act (if b then m else n) f = (if b then bind_act m f else bind_act n f)"
  by simp

lemma bind_err_act: "bind_act (err_act e) f = err_act e"
  by (rule ext) simp

lemma bind_ok_act: "bind_act (ok_act x) f = f x"
  by (rule ext) simp

lemma decode_body_split:
  "decode_body = bind_act decode_head (\<lambda>(sg, ts, t, as). decode_tail sg ts t as)"
  unfolding decode_body_def decode_head_def dec_string_def bind_act_assoc bind_act_if bind_err_act
    bind_ok_act decode_tail_def [abs_def] prod.case by (rule refl)

definition enc_head :: "telemetry_record \<Rightarrow> u8 list" where
  "enc_head r =
     RECORD_MAGIC @ [signal_to_wire (signal r)] @ le_bytes 16 (unat (timestamp_unix_nanos r)) @
     enc_string (tenant_id r) @ le_bytes 2 (length (attributes r)) @
     concat (map enc_attr (attributes r))"

lemma enc_record_split: "enc_record r = enc_head r @ le_bytes 4 (length (body r)) @ body r"
  by (simp add: enc_record_def enc_head_def)

lemma decode_head_enc:
  assumes c: "byte_cursor_ok c" and r: "rest_of c = enc_head r @ rest" and v: "valid_rec r" and fits: "rec_fits r"
  shows "\<exists>d. decode_head c = (Inr (signal r, timestamp_unix_nanos r, tenant_id r, attributes r), d) \<and>
    byte_cursor_ok d \<and> rest_of d = rest"
proof -
  let ?as = "attributes r"
  have t: "str_fits (tenant_id r)" and n: "length ?as \<le> u16_max" and as: "list_all attr_fits ?as"
    using v fits by (auto simp: valid_rec_def rec_fits_def str_fits_def list_all_iff valid_attr_def
        attr_fits_def)
  obtain c1 where c1: "read_exact 4 c = (Inr RECORD_MAGIC, c1)" "byte_cursor_ok c1"
    "rest_of c1 = [signal_to_wire (signal r)] @ le_bytes 16 (unat (timestamp_unix_nanos r)) @
       enc_string (tenant_id r) @ le_bytes 2 (length ?as) @ concat (map enc_attr ?as) @ rest"
    using read_exact_enough [OF c, of RECORD_MAGIC _ 4] r by (auto simp: enc_head_def)
  obtain c2 where c2: "read_u8 c1 = (Inr (signal_to_wire (signal r)), c2)" "byte_cursor_ok c2"
    "rest_of c2 = le_bytes 16 (unat (timestamp_unix_nanos r)) @
       enc_string (tenant_id r) @ le_bytes 2 (length ?as) @ concat (map enc_attr ?as) @ rest"
    by (rule u8_field.dec_next [OF c1(2) TrueI c1(3)])
  obtain c3 where c3: "read_u128 c2 = (Inr (timestamp_unix_nanos r), c3)" "byte_cursor_ok c3"
    "rest_of c3 = enc_string (tenant_id r) @ le_bytes 2 (length ?as) @ concat (map enc_attr ?as) @ rest"
    by (rule u128_field.dec_next [OF c2(2) TrueI c2(3)])
  obtain c4 where c4: "dec_string c3 = (Inr (tenant_id r), c4)" "byte_cursor_ok c4"
    "rest_of c4 = le_bytes 2 (length ?as) @ concat (map enc_attr ?as) @ rest"
    by (rule string_field.dec_next [OF c3(2) t c3(3)])
  obtain c5 where c5: "read_u16 c4 = (Inr (length ?as), c5)" "byte_cursor_ok c5"
    "rest_of c5 = concat (map enc_attr ?as) @ rest"
    by (rule u16_field.dec_next [OF c4(2) n c4(3)])
  obtain c6 where "repeat_act (length ?as) decode_attribute c5 = (Inr ?as, c6)" "byte_cursor_ok c6" "rest_of c6 = rest"
    using attr_field.repeat_enc [OF c5(2) as c5(3)] by blast
  with c1 c2 c3 c4 c5 show ?thesis by (simp add: decode_head_def bind_act_step)
qed

lemma decode_head_sound:
  assumes c: "byte_cursor_ok c" and h: "decode_head c = (Inr (sg, ts, t, as), d)"
  shows "byte_cursor_ok d \<and> str_fits t \<and> length as \<le> u16_max \<and> list_all attr_fits as \<and>
    rest_of c = RECORD_MAGIC @ [signal_to_wire sg] @ le_bytes 16 (unat ts) @ enc_string t @
      le_bytes 2 (length as) @ concat (map enc_attr as) @ rest_of d"
proof -
  from h obtain c1 b c2 c3 c4 n c5 where
    c1: "read_exact 4 c = (Inr RECORD_MAGIC, c1)" and c2: "read_u8 c1 = (Inr b, c2)"
    and sg: "signal_from_wire b = Inr sg"
    and c3: "read_u128 c2 = (Inr ts, c3)" and c4: "dec_string c3 = (Inr t, c4)"
    and c5: "read_u16 c4 = (Inr n, c5)" and c6: "repeat_act n decode_attribute c5 = (Inr as, d)"
    unfolding decode_head_def by (auto simp: bind_act_Inr_iff split: if_splits)
  note r1 = read_exact_Inr [OF c c1]
  note r2 = u8_field.dec_sound [OF r1 [THEN conjunct2, THEN conjunct1] c2]
  note r3 = u128_field.dec_sound [OF r2 [THEN conjunct2, THEN conjunct1] c3]
  note r4 = string_field.dec_sound [OF r3 [THEN conjunct2, THEN conjunct1] c4]
  note r5 = u16_field.dec_sound [OF r4 [THEN conjunct2, THEN conjunct1] c5]
  note r6 = attr_field.repeat_sound [OF r5 [THEN conjunct2, THEN conjunct1] c6]
  from r1 r2 r3 r4 r5 r6 signal_from_wire_Inr [OF sg] show ?thesis by simp
qed

text \<open>The encoding of a record followed by other bytes: accepted exactly when nothing follows.\<close>

lemma decode_enc_rest:
  assumes v: "valid_rec r" and fits: "rec_fits r" and len: "length (enc_record r @ x) \<le> u64_max"
  shows "decode (enc_record r @ x) =
    (if x = [] then Inr r else Inl (DecodeError ''record has trailing bytes''))"
proof -
  let ?c = "cursor_new (enc_record r @ x)"
  have c: "byte_cursor_ok ?c" by (rule byte_cursor_new_ok [OF len])
  obtain d where d: "decode_head ?c = (Inr (signal r, timestamp_unix_nanos r, tenant_id r, attributes r), d)"
    "byte_cursor_ok d" "rest_of d = le_bytes 4 (length (body r)) @ body r @ x"
    using decode_head_enc [OF c _ v fits] by (auto simp: enc_record_split)
  have n: "length (body r) \<le> u32_max" using fits by (simp add: rec_fits_def)
  obtain d2 where d2: "read_u32 d = (Inr (length (body r)), d2)" "byte_cursor_ok d2" "rest_of d2 = body r @ x"
    by (rule u32_field.dec_next [OF d(2) n d(3)])
  then obtain d3 where d3: "read_exact (length (body r)) d2 = (Inr (body r), d3)" "byte_cursor_ok d3" "rest_of d3 = x"
    using read_exact_enough [of d2 "body r" x "length (body r)"] by auto
  then have "is_finished d3 \<longleftrightarrow> x = []" by (simp add: is_finished_iff)
  with d d2 d3 show ?thesis
    by (simp add: decode_def decode_body_split decode_tail_def bind_act_step)
qed

lemma decode_enc_record:
  assumes "valid_rec r" and fits: "rec_fits r"
  shows "decode (enc_record r) = Inr r"
  using decode_enc_rest [OF assms, of "[]"] length_enc_record [OF fits] by simp

lemma decode_sound:
  assumes "length bs \<le> u64_max" and "decode bs = Inr r"
  shows "valid_rec r \<and> rec_fits r \<and> bs = enc_record r"
proof -
  let ?c = "cursor_new bs"
  have c: "byte_cursor_ok ?c" by (rule byte_cursor_new_ok [OF assms(1)])
  from assms(2) obtain d4 where "decode_body ?c = (Inr r, d4)"
    by (auto simp: decode_def prod_eq_iff)
  then obtain sg ts t as d n d2 b d3 where h: "decode_head ?c = (Inr (sg, ts, t, as), d)"
    and n: "read_u32 d = (Inr n, d2)" and b: "read_exact n d2 = (Inr b, d3)" and fin: "is_finished d3"
    and r: "r = \<lparr>tenant_id = t, signal = sg, timestamp_unix_nanos = ts, attributes = as, body = b\<rparr>"
    unfolding decode_body_split decode_tail_def
    by (auto simp: bind_act_Inr_iff split: if_splits)
  note hd = decode_head_sound [OF c h]
  note rn = u32_field.dec_sound [OF hd [THEN conjunct1] n]
  note rb = read_exact_Inr [OF rn [THEN conjunct2, THEN conjunct1] b]
  have "rest_of d3 = []" using rb fin is_finished_iff by blast
  with hd rn rb r show ?thesis
    by (auto simp: enc_record_def valid_rec_def rec_fits_def attr_fits_def str_fits_def valid_attr_def
        list_all_iff)
qed

section \<open>Properties\<close>

text \<open>Property C29 (record_roundtrip). What \<^verbatim>\<open>TelemetryRecord::encode\<close> returns for a record, \<^verbatim>\<open>decode\<close>
  turns back into the same record.\<close>

theorem record_roundtrip:
  assumes "valid_rec r" and "encode r = Inr bs"
  shows "decode bs = Inr r"
  using assms decode_enc_record by (simp add: encode_Inr)

theorem record_roundtrip_witness:
  "decode (as_bytes ''TFB1'' @ [3] @ le_bytes 16 7 @ [1, 0] @ as_bytes ''t'' @ [1, 0] @ [1, 0] @ as_bytes ''k'' @
       [0, 0] @ [2, 0, 0, 0, 9, 8]) =
   Inr \<lparr>tenant_id = ''t'', signal = Log, timestamp_unix_nanos = 7,
        attributes = [\<lparr>attr_key = ''k'', attr_value = []\<rparr>], body = [9, 8]\<rparr>"
  by (rule record_roundtrip) code_simp+

text \<open>Property C30 (decode_canonical). The decoder accepts one byte string per record only: what it accepts
  is the string that \<^verbatim>\<open>encode\<close> produces for the record it returns, when \<^verbatim>\<open>encode\<close> accepts that record.\<close>

theorem decode_canonical:
  assumes "length bs \<le> u64_max" and "decode bs = Inr r"
  shows "valid_rec r \<and>
    (encode r = Inr bs \<or> (\<exists>e. encode r = Inl e \<and> validate_record u32_max r = Inl e)) \<and>
    (\<forall>bs'. length bs' \<le> u64_max \<and> decode bs' = Inr r \<longrightarrow> bs' = bs)"
proof (intro conjI allI impI)
  from decode_sound [OF assms] have d: "valid_rec r" "rec_fits r" "bs = enc_record r" by auto
  show "valid_rec r" by (rule d)
  show "encode r = Inr bs \<or> (\<exists>e. encode r = Inl e \<and> validate_record u32_max r = Inl e)"
  proof (cases "validate_record u32_max r")
    case (Inl e)
    then show ?thesis by (simp add: encode_def)
  next
    case (Inr u)
    with d show ?thesis by (simp add: encode_Inr)
  qed
  show "bs' = bs" if "length bs' \<le> u64_max \<and> decode bs' = Inr r" for bs'
    using decode_sound [of bs' r] that d by simp
qed

theorem decode_canonical_witness:
  "valid_rec \<lparr>tenant_id = ''t'', signal = Trace, timestamp_unix_nanos = 1, attributes = [], body = []\<rparr>"
  by (rule decode_canonical [where bs =
        "as_bytes ''TFB1'' @ [1] @ le_bytes 16 1 @ [1, 0] @ as_bytes ''t'' @ [0, 0, 0, 0, 0, 0]",
        THEN conjunct1])
    code_simp+

text \<open>A stored record cannot be confused with a longer or a shorter one: with
  bytes appended it is rejected as having trailing bytes, and every proper prefix of it is rejected.\<close>

theorem decode_framing:
  assumes v: "valid_rec r" and e: "encode r = Inr (bs @ y)" and x: "x \<noteq> []" and y: "y \<noteq> []"
    and len: "length (bs @ y @ x) \<le> u64_max"
  shows "decode (bs @ y @ x) = Inl (DecodeError ''record has trailing bytes'') \<and> (\<exists>err. decode bs = Inl err)"
proof
  have r: "rec_fits r" "bs @ y = enc_record r" using e by (auto simp: encode_Inr)
  with decode_enc_rest [OF v r(1), of x] len x show "decode (bs @ y @ x) = Inl (DecodeError ''record has trailing bytes'')"
    by (metis append.assoc)
  show "\<exists>err. decode bs = Inl err"
  proof (cases "decode bs")
    case (Inr r')
    have "length bs \<le> u64_max" using len by simp
    from decode_sound [OF this Inr] have "valid_rec r'" "rec_fits r'" "bs = enc_record r'" by auto
    with decode_enc_rest [of r' y] y len have "decode (bs @ y) \<noteq> Inr r" by simp
    then show ?thesis using decode_enc_record [OF v r(1)] r(2) by simp
  qed simp
qed

theorem decode_framing_witness:
  "\<exists>err. decode (as_bytes ''TFB1'' @ [1] @ le_bytes 16 1 @ [1, 0] @ as_bytes ''t'' @ [0, 0, 0, 0, 0]) = Inl err"
  by (rule decode_framing [where y = "[0]" and x = "[0]" and
        r = "\<lparr>tenant_id = ''t'', signal = Trace, timestamp_unix_nanos = 1, attributes = [], body = []\<rparr>",
        THEN conjunct2])
    code_simp+

text \<open>\<^verbatim>\<open>encode\<close> succeeds exactly on the records whose tenant and attribute keys are
  not blank and whose fields fit their length prefixes; then it gives the layout of the wire format.\<close>

theorem encode_total:
  "(\<exists>bs. encode r = Inr bs) \<longleftrightarrow>
     \<not> blank (tenant_id r) \<and> (\<forall>a \<in> set (attributes r). \<not> blank (attr_key a)) \<and>
     length (tenant_id r) \<le> u16_max \<and> length (attributes r) \<le> u16_max \<and> length (body r) \<le> u32_max \<and>
     (\<forall>a \<in> set (attributes r). length (attr_key a) \<le> u16_max \<and> length (attr_value a) \<le> u16_max)"
  by (auto simp: encode_Inr validate_record_Inr rec_fits_def)

theorem encode_total_witness:
  "\<exists>bs. encode \<lparr>tenant_id = ''t'', signal = Trace, timestamp_unix_nanos = 1, attributes = [], body = []\<rparr> = Inr bs"
  unfolding encode_total by code_simp

end
