(* ===== verification/Pipeline_Config.thy ===== *)
theory Pipeline_Config
  imports Telemetry
begin

text \<open>
  Crate \<^verbatim>\<open>telemetry-core\<close>, modules \<^verbatim>\<open>config\<close> and \<^verbatim>\<open>routing\<close>: the pipeline configuration, its defaults,
  the validation that every configuration passes before it is used, and the router that resolves
  the exporters of a signal. The lemmas give the exact condition under which validation succeeds
  and connect it to the router: on a validated configuration a lookup can only fail because the
  signal has no route.
\<close>

section \<open>Configuration (config.rs)\<close>

record tls_config =
  tls_enabled :: bool
  ca_file :: "string option"
  cert_file :: "string option"
  key_file :: "string option"
  server_name :: "string option"
  require_client_auth :: bool

definition tls_default :: tls_config where
  "tls_default = \<lparr>tls_enabled = False, ca_file = None, cert_file = None, key_file = None,
     server_name = None, require_client_auth = False\<rparr>"

definition tls_disabled :: tls_config where
  "tls_disabled = tls_default"

definition tls_enabled_config :: tls_config where
  "tls_enabled_config = tls_default\<lparr>tls_enabled := True\<rparr>"

datatype receiver_protocol = ReceiverOtlpGrpc | ReceiverOtlpHttp

record receiver_config =
  rcv_name :: string
  rcv_protocol :: receiver_protocol
  rcv_endpoint :: string
  rcv_tls :: tls_config

datatype processor_kind = MemoryLimiter | Batch | Redact | TenantRateLimit

record processor_config =
  proc_name :: string
  proc_kind :: processor_kind
  proc_enabled :: bool

datatype exporter_protocol =
  OtlpGrpc | OtlpHttp | OtlpHttpJson | PrometheusRemoteWrite | Stdout | File

record retry_config =
  max_attempts :: usize
  timeout_ms :: u64
  initial_backoff_ms :: u64

definition retry_default :: retry_config where
  "retry_default = \<lparr>max_attempts = 3, timeout_ms = 30000, initial_backoff_ms = 100\<rparr>"

record exporter_config =
  exp_name :: string
  exp_protocol :: exporter_protocol
  exp_endpoint :: string
  exp_tls :: tls_config
  exp_retry :: retry_config

record route_config =
  route_signal :: signal_kind
  route_exporters :: "string list"

record tenant_limits =
  max_ingest_bytes_per_second :: u64
  max_queue_bytes :: u64
  max_record_bytes :: nat

definition limits_default :: tenant_limits where
  "limits_default =
     \<lparr>max_ingest_bytes_per_second = 64 * 1024 * 1024,
      max_queue_bytes = 10 * 1024 * 1024 * 1024,
      max_record_bytes = 4 * 1024 * 1024\<rparr>"

record pipeline_config =
  cfg_tenant_id :: string
  cfg_name :: string
  receivers :: "receiver_config list"
  processors :: "processor_config list"
  exporters :: "exporter_config list"
  routes :: "route_config list"
  limits :: tenant_limits

definition default_receivers :: "receiver_config list" where
  "default_receivers =
     [\<lparr>rcv_name = ''otlp-grpc'', rcv_protocol = ReceiverOtlpGrpc, rcv_endpoint = ''0.0.0.0:4317'',
       rcv_tls = tls_disabled\<rparr>,
      \<lparr>rcv_name = ''otlp-http'', rcv_protocol = ReceiverOtlpHttp, rcv_endpoint = ''0.0.0.0:4318'',
       rcv_tls = tls_disabled\<rparr>]"

definition default_processors :: "processor_config list" where
  "default_processors =
     [\<lparr>proc_name = ''memory-limiter'', proc_kind = MemoryLimiter, proc_enabled = True\<rparr>,
      \<lparr>proc_name = ''batch'', proc_kind = Batch, proc_enabled = True\<rparr>]"

definition default_config :: pipeline_config where
  "default_config =
     \<lparr>cfg_tenant_id = ''default'',
      cfg_name = ''default'',
      receivers = default_receivers,
      processors = default_processors,
      exporters =
        [\<lparr>exp_name = ''stdout'', exp_protocol = Stdout, exp_endpoint = ''stdout://local'',
          exp_tls = tls_disabled, exp_retry = retry_default\<rparr>],
      routes =
        [\<lparr>route_signal = Trace, route_exporters = [''stdout'']\<rparr>,
         \<lparr>route_signal = Metric, route_exporters = [''stdout'']\<rparr>,
         \<lparr>route_signal = Log, route_exporters = [''stdout'']\<rparr>],
      limits = limits_default\<rparr>"

section \<open>Validation\<close>

definition require_non_empty :: "string \<Rightarrow> string \<Rightarrow> pipeline_error + unit" where
  "require_non_empty field v =
     (if blank v then Inl (InvalidConfig (field @ '' must not be empty'')) else Inr ())"

fun unique_names_from :: "string set \<Rightarrow> string \<Rightarrow> string list \<Rightarrow> pipeline_error + unit" where
  "unique_names_from seen kind [] = Inr ()"
| "unique_names_from seen kind (name # names) =
     res_bind (require_non_empty kind name) (\<lambda>_.
     if name \<in> seen then Inl (InvalidConfig (''duplicate '' @ kind @ '' name: '' @ name))
     else unique_names_from (insert name seen) kind names)"

definition validate_unique_names :: "string \<Rightarrow> string list \<Rightarrow> pipeline_error + unit" where
  "validate_unique_names kind names = unique_names_from {} kind names"

definition validate_retry :: "exporter_config \<Rightarrow> pipeline_error + unit" where
  "validate_retry e =
     (if max_attempts (exp_retry e) = 0 then
        Inl (InvalidConfig
          (''exporter '' @ exp_name e @ '' retry.max_attempts must be greater than zero''))
      else if timeout_ms (exp_retry e) = 0 then
        Inl (InvalidConfig
          (''exporter '' @ exp_name e @ '' retry.timeout_ms must be greater than zero''))
      else if initial_backoff_ms (exp_retry e) = 0 then
        Inl (InvalidConfig
          (''exporter '' @ exp_name e @ '' retry.initial_backoff_ms must be greater than zero''))
      else Inr ())"

definition validate_route :: "string set \<Rightarrow> route_config \<Rightarrow> pipeline_error + unit" where
  "validate_route exporter_names route =
     (if route_exporters route = [] then
        Inl (InvalidConfig
          (''route for '' @ signal_as_str (route_signal route) @ '' has no exporters''))
      else res_each
        (\<lambda>e. if e \<notin> exporter_names then Inl (UnknownExporter e) else Inr ())
        (route_exporters route))"

definition validate_config :: "pipeline_config \<Rightarrow> pipeline_error + unit" where
  "validate_config c =
     res_bind (require_non_empty ''tenant_id'' (cfg_tenant_id c)) (\<lambda>_.
     res_bind (require_non_empty ''name'' (cfg_name c)) (\<lambda>_.
     if receivers c = [] then Inl (InvalidConfig ''at least one receiver is required'')
     else if exporters c = [] then Inl (InvalidConfig ''at least one exporter is required'')
     else if routes c = [] then Inl (InvalidConfig ''at least one route is required'')
     else if max_record_bytes (limits c) = 0 then
       Inl (InvalidConfig ''max_record_bytes must be greater than zero'')
     else if max_queue_bytes (limits c) = 0 then
       Inl (InvalidConfig ''max_queue_bytes must be greater than zero'')
     else if max_ingest_bytes_per_second (limits c) = 0 then
       Inl (InvalidConfig ''max_ingest_bytes_per_second must be greater than zero'')
     else
       res_bind (res_each validate_retry (exporters c)) (\<lambda>_.
       res_bind (validate_unique_names ''receiver'' (map rcv_name (receivers c))) (\<lambda>_.
       res_bind (validate_unique_names ''exporter'' (map exp_name (exporters c))) (\<lambda>_.
       res_bind (validate_unique_names ''processor'' (map proc_name (processors c))) (\<lambda>_.
       res_each (validate_route (set (map exp_name (exporters c)))) (routes c)))))))"

section \<open>Routing (routing.rs)\<close>

fun resolve_exporters ::
  "exporter_config list \<Rightarrow> string list \<Rightarrow> pipeline_error + exporter_config list" where
  "resolve_exporters es [] = Inr []"
| "resolve_exporters es (name # names) =
     res_bind (ok_or (UnknownExporter name) (find (\<lambda>e. exp_name e = name) es)) (\<lambda>e.
     res_bind (resolve_exporters es names) (\<lambda>rest. Inr (e # rest)))"

definition exporters_for :: "pipeline_config \<Rightarrow> signal_kind \<Rightarrow> pipeline_error + exporter_config list" where
  "exporters_for c sg =
     res_bind (ok_or (MissingRoute (signal_as_str sg)) (find (\<lambda>r. route_signal r = sg) (routes c)))
       (\<lambda>route. resolve_exporters (exporters c) (route_exporters route))"

section \<open>What validation guarantees\<close>

lemma require_non_empty_Inr [simp]: "require_non_empty f v = Inr u \<longleftrightarrow> \<not> blank v"
  by (simp add: require_non_empty_def)

lemma unique_names_from_Inr:
  "unique_names_from seen kind names = Inr u \<longleftrightarrow>
     (\<forall>n \<in> set names. \<not> blank n \<and> n \<notin> seen) \<and> distinct names"
  by (induction names arbitrary: seen) (auto simp: res_bind_Inr_iff)

lemma validate_unique_names_Inr:
  "validate_unique_names kind names = Inr u \<longleftrightarrow> (\<forall>n \<in> set names. \<not> blank n) \<and> distinct names"
  by (simp add: validate_unique_names_def unique_names_from_Inr)

lemma validate_retry_Inr:
  "validate_retry e = Inr u \<longleftrightarrow>
     0 < max_attempts (exp_retry e) \<and> 0 < timeout_ms (exp_retry e) \<and>
     0 < initial_backoff_ms (exp_retry e)"
  by (auto simp: validate_retry_def)

lemma validate_route_Inr:
  "validate_route names r = Inr u \<longleftrightarrow> route_exporters r \<noteq> [] \<and> set (route_exporters r) \<subseteq> names"
  by (auto simp: validate_route_def res_each_Inr_iff)

text \<open>The well-formed configurations.\<close>

definition config_ok :: "pipeline_config \<Rightarrow> bool" where
  "config_ok c \<longleftrightarrow>
     \<not> blank (cfg_tenant_id c) \<and> \<not> blank (cfg_name c) \<and>
     receivers c \<noteq> [] \<and> exporters c \<noteq> [] \<and> routes c \<noteq> [] \<and>
     0 < max_record_bytes (limits c) \<and> 0 < max_queue_bytes (limits c) \<and>
     0 < max_ingest_bytes_per_second (limits c) \<and>
     (\<forall>e \<in> set (exporters c). 0 < max_attempts (exp_retry e) \<and> 0 < timeout_ms (exp_retry e) \<and>
        0 < initial_backoff_ms (exp_retry e)) \<and>
     (\<forall>n \<in> set (map rcv_name (receivers c)). \<not> blank n) \<and> distinct (map rcv_name (receivers c)) \<and>
     (\<forall>n \<in> set (map exp_name (exporters c)). \<not> blank n) \<and> distinct (map exp_name (exporters c)) \<and>
     (\<forall>n \<in> set (map proc_name (processors c)). \<not> blank n) \<and> distinct (map proc_name (processors c)) \<and>
     (\<forall>r \<in> set (routes c). route_exporters r \<noteq> [] \<and>
        set (route_exporters r) \<subseteq> set (map exp_name (exporters c)))"

lemma validate_config_iff: "validate_config c = Inr u \<longleftrightarrow> config_ok c"
  unfolding validate_config_def config_ok_def
  by (auto simp: res_bind_Inr_iff res_each_Inr_iff validate_retry_Inr validate_unique_names_Inr
      validate_route_Inr simp del: set_map split: if_splits)

lemma find_name_unique:
  assumes "distinct (map f xs)" and "x \<in> set xs"
  shows "find (\<lambda>y. f y = f x) xs = Some x"
  using assms by (induction xs) (auto simp: image_iff)

lemma find_name_exists: "n \<in> set (map f xs) \<Longrightarrow> \<exists>x \<in> set xs. f x = n \<and> find (\<lambda>y. f y = n) xs = Some x"
  by (induction xs) auto

lemma resolve_exporters_Inr:
  "set names \<subseteq> set (map exp_name es) \<Longrightarrow>
   \<exists>xs. resolve_exporters es names = Inr xs \<and> map exp_name xs = names \<and> set xs \<subseteq> set es"
proof (induction names)
  case Nil
  then show ?case by simp
next
  case (Cons n names)
  from Cons.prems have "n \<in> set (map exp_name es)" by simp
  then obtain e where "e \<in> set es" "exp_name e = n" "find (\<lambda>y. exp_name y = n) es = Some e"
    using find_name_exists [of n exp_name es] by auto
  with Cons show ?case by fastforce
qed

lemma find_route_None: "find (\<lambda>r. route_signal r = sg) rs = None \<longleftrightarrow> sg \<notin> set (map route_signal rs)"
  by (auto simp: find_None_iff)

lemma exporters_for_ok:
  assumes c: "config_ok c" and sg: "sg \<in> set (map route_signal (routes c))"
  shows "\<exists>es. exporters_for c sg = Inr es \<and> es \<noteq> [] \<and> set es \<subseteq> set (exporters c)"
proof -
  obtain r where r: "find (\<lambda>r. route_signal r = sg) (routes c) = Some r" "r \<in> set (routes c)"
    using find_name_exists [OF sg] by blast
  then have "route_exporters r \<noteq> []" "set (route_exporters r) \<subseteq> set (map exp_name (exporters c))"
    using c by (auto simp: config_ok_def)
  moreover from resolve_exporters_Inr [OF this(2)] obtain es where
    "resolve_exporters (exporters c) (route_exporters r) = Inr es" "map exp_name es = route_exporters r"
    "set es \<subseteq> set (exporters c)" by blast
  ultimately show ?thesis using r by (auto simp: exporters_for_def)
qed

section \<open>Properties\<close>

text \<open>Property C36 (validate_config_exact). \<^verbatim>\<open>PipelineConfig::validate\<close> accepts exactly the well-formed
  configurations: names present and unique, positive limits and retry settings, routes that are not
  empty and name declared exporters only.\<close>

theorem validate_config_exact: "validate_config c = Inr () \<longleftrightarrow> config_ok c"
  by (rule validate_config_iff)

text \<open>After validation routing a signal fails for one reason only, that no
  route names the signal; otherwise it gives at least one declared exporter, and each of them may
  be tried at least once.\<close>

theorem validated_routing:
  assumes "validate_config c = Inr ()"
  shows "if sg \<in> set (map route_signal (routes c))
     then \<exists>es. exporters_for c sg = Inr es \<and> es \<noteq> [] \<and> set es \<subseteq> set (exporters c) \<and>
            (\<forall>e \<in> set es. 0 < max_attempts (exp_retry e))
     else exporters_for c sg = Inl (MissingRoute (signal_as_str sg))"
proof -
  have c: "config_ok c" using assms by (simp add: validate_config_iff)
  then have "\<forall>e \<in> set (exporters c). 0 < max_attempts (exp_retry e)" by (simp add: config_ok_def)
  moreover have "exporters_for c sg = Inl (MissingRoute (signal_as_str sg))"
    if "sg \<notin> set (map route_signal (routes c))"
    using that find_route_None [of sg "routes c"] by (simp add: exporters_for_def)
  ultimately show ?thesis using exporters_for_ok [OF c, of sg] by (simp del: set_map) blast
qed

theorem validated_routing_witness:
  "\<exists>es. exporters_for default_config Metric = Inr es \<and> es \<noteq> [] \<and> set es \<subseteq> set (exporters default_config) \<and>
     (\<forall>e \<in> set es. 0 < max_attempts (exp_retry e))"
proof -
  have "validate_config default_config = Inr ()" by code_simp
  moreover have "Metric \<in> set (map route_signal (routes default_config))" by code_simp
  ultimately show ?thesis using validated_routing [of default_config Metric] by (simp only: if_True)
qed

end
