(* ===== verification/Processors.thy ===== *)
theory Processors
  imports Pipeline_Config
begin

text \<open>
  The processor chain of \<^verbatim>\<open>crates/telemetry-processors/src/lib.rs\<close>: the per-tenant rate limiter, the
  record size limiter and the redaction of sensitive attributes, and the chain that runs them in
  the order of the configuration. Instants are nanoseconds of a monotonic clock; the instant each
  processor reads is an argument. \<^verbatim>\<open>Instant::duration_since\<close> is zero when the clock went back.
\<close>

section \<open>Data\<close>

datatype processing_error = InvalidProcessor string

fun show_processing_error :: "processing_error \<Rightarrow> string" where
  "show_processing_error (InvalidProcessor message) = ''invalid processor: '' @ message"

datatype process_decision = Emit telemetry_record | Dropped string

type_synonym instant = nat

record tenant_rate_window =
  started_at :: instant
  used_bytes :: u64

record tenant_rate_limit_processor =
  rl_name :: string
  max_bytes_per_second :: u64
  windows :: "string \<rightharpoonup> tenant_rate_window"

record memory_limiter_processor =
  ml_name :: string
  ml_max_record_bytes :: usize

record redact_processor =
  rd_name :: string
  sensitive_keys :: "string list"

text \<open>The trait objects of the chain.\<close>

datatype record_processor =
  RateLimitProc tenant_rate_limit_processor
| MemoryProc memory_limiter_processor
| RedactProc redact_processor

record processor_chain =
  chain_processors :: "record_processor list"
  dropped_records :: u64

section \<open>Processors\<close>

definition estimate_record_bytes :: "telemetry_record \<Rightarrow> usize" where
  "estimate_record_bytes r =
     length (tenant_id r) + length (body r) +
     (\<Sum>a\<leftarrow>attributes r. length (attr_key a) + length (attr_value a)) + 32"

definition one_second :: nat where "one_second = 1000000000"

definition rate_limit_new :: "string \<Rightarrow> u64 \<Rightarrow> tenant_rate_limit_processor" where
  "rate_limit_new name limit =
     \<lparr>rl_name = name, max_bytes_per_second = limit, windows = Map.empty\<rparr>"

text \<open>\<^verbatim>\<open>entry(tenant).and_modify(..).or_insert(..)\<close>: the window the record falls in.\<close>

definition current_window :: "instant \<Rightarrow> tenant_rate_window option \<Rightarrow> tenant_rate_window" where
  "current_window now w =
     (case w of
        None \<Rightarrow> \<lparr>started_at = now, used_bytes = 0\<rparr>
      | Some w \<Rightarrow>
          if now - started_at w \<ge> one_second then w\<lparr>started_at := now, used_bytes := 0\<rparr> else w)"

definition process_at ::
  "telemetry_record \<Rightarrow> instant \<Rightarrow>
   (tenant_rate_limit_processor, processing_error, process_decision) act" where
  "process_at r now p =
     (let estimated = estimate_record_bytes r;
          t = tenant_id r;
          window = current_window now (windows p t);
          limit = max_bytes_per_second p;
          p' = p\<lparr>windows := (windows p)(t \<mapsto> window)\<rparr> in
      if estimated > limit then
        (Inr (Dropped (''estimated record size '' @ show_nat estimated @
           '' exceeds tenant rate limit '' @ show_nat limit @ '' bytes/s'')), p')
      else if saturating_add_u64 (used_bytes window) estimated > limit then
        (Inr (Dropped (''tenant rate limit exceeded: used_bytes='' @ show_nat (used_bytes window) @
           '' record_bytes='' @ show_nat estimated @ '' max_bytes_per_second='' @ show_nat limit)), p')
      else
        (Inr (Emit r),
         p\<lparr>windows := (windows p)(t \<mapsto>
             window\<lparr>used_bytes := min limit (saturating_add_u64 (used_bytes window) estimated)\<rparr>)\<rparr>))"

definition memory_limiter_new :: "string \<Rightarrow> usize \<Rightarrow> memory_limiter_processor" where
  "memory_limiter_new name limit = \<lparr>ml_name = name, ml_max_record_bytes = limit\<rparr>"

definition memory_limiter_process ::
  "memory_limiter_processor \<Rightarrow> telemetry_record \<Rightarrow> processing_error + process_decision" where
  "memory_limiter_process p r =
     (let estimated = estimate_record_bytes r in
      if estimated > ml_max_record_bytes p then
        Inr (Dropped (''estimated record size '' @ show_nat estimated @ '' exceeds limit '' @
          show_nat (ml_max_record_bytes p)))
      else Inr (Emit r))"

definition redact_new :: "string \<Rightarrow> string list \<Rightarrow> redact_processor" where
  "redact_new name keys = \<lparr>rd_name = name, sensitive_keys = map to_ascii_lowercase keys\<rparr>"

definition is_sensitive :: "string list \<Rightarrow> string \<Rightarrow> bool" where
  "is_sensitive keys k =
     list_ex (\<lambda>s. to_ascii_lowercase k = s \<or> ends_with s (to_ascii_lowercase k)) keys"

definition redact_attribute :: "string list \<Rightarrow> attribute \<Rightarrow> attribute" where
  "redact_attribute keys a =
     (if is_sensitive keys (attr_key a) then a\<lparr>attr_value := ''[REDACTED]''\<rparr> else a)"

definition redact_process ::
  "redact_processor \<Rightarrow> telemetry_record \<Rightarrow> processing_error + process_decision" where
  "redact_process p r =
     Inr (Emit (r\<lparr>attributes := map (redact_attribute (sensitive_keys p)) (attributes r)\<rparr>))"

text \<open>Dynamic dispatch of \<^verbatim>\<open>RecordProcessor::name\<close> and \<^verbatim>\<open>RecordProcessor::process\<close>.\<close>

fun processor_name :: "record_processor \<Rightarrow> string" where
  "processor_name (RateLimitProc p) = rl_name p"
| "processor_name (MemoryProc p) = ml_name p"
| "processor_name (RedactProc p) = rd_name p"

fun processor_process ::
  "telemetry_record \<Rightarrow> instant \<Rightarrow> (record_processor, processing_error, process_decision) act" where
  "processor_process r now (RateLimitProc p) =
     (case process_at r now p of (d, p') \<Rightarrow> (d, RateLimitProc p'))"
| "processor_process r now (MemoryProc p) = (memory_limiter_process p r, MemoryProc p)"
| "processor_process r now (RedactProc p) = (redact_process p r, RedactProc p)"

section \<open>The chain\<close>

definition chain_push :: "record_processor \<Rightarrow> processor_chain \<Rightarrow> processor_chain" where
  "chain_push p c = c\<lparr>chain_processors := chain_processors c @ [p]\<rparr>"

definition default_sensitive_keys :: "string list" where
  "default_sensitive_keys =
     [''authorization'', ''http.request.header.authorization'', ''db.statement'', ''password'',
      ''secret'', ''token'']"

definition push_configured ::
  "tenant_limits \<Rightarrow> processor_config \<Rightarrow> processor_chain \<Rightarrow> processor_chain" where
  "push_configured lim p c =
     (case proc_kind p of
        MemoryLimiter \<Rightarrow>
          chain_push (MemoryProc (memory_limiter_new (proc_name p) (max_record_bytes lim))) c
      | Redact \<Rightarrow> chain_push (RedactProc (redact_new (proc_name p) default_sensitive_keys)) c
      | TenantRateLimit \<Rightarrow>
          chain_push (RateLimitProc
            (rate_limit_new (proc_name p) (max_ingest_bytes_per_second lim))) c
      | Batch \<Rightarrow> c)"

definition chain_from_config :: "pipeline_config \<Rightarrow> processor_chain" where
  "chain_from_config cfg =
     fold (push_configured (limits cfg)) (filter proc_enabled (processors cfg))
       \<lparr>chain_processors = [], dropped_records = 0\<rparr>"

text \<open>
  The loop of \<^verbatim>\<open>ProcessorChain::process\<close>. The i-th processor reads the clock as \<open>clock i\<close>; the result
  is the record after the last processor, or \<open>None\<close> when one of them dropped it.
\<close>

fun run_processors ::
  "(nat \<Rightarrow> instant) \<Rightarrow> telemetry_record \<Rightarrow>
   (record_processor list, processing_error, telemetry_record option) act" where
  "run_processors clock r [] = (Inr (Some r), [])"
| "run_processors clock r (p # ps) =
     (case processor_process r (clock 0) p of
        (Inl e, p') \<Rightarrow> (Inl e, p' # ps)
      | (Inr (Dropped reason), p') \<Rightarrow> (Inr None, p' # ps)
      | (Inr (Emit r'), p') \<Rightarrow>
          (case run_processors (\<lambda>i. clock (Suc i)) r' ps of (d, ps') \<Rightarrow> (d, p' # ps')))"

definition chain_process ::
  "(nat \<Rightarrow> instant) \<Rightarrow> telemetry_record \<Rightarrow>
   (processor_chain, processing_error, telemetry_record option) act" where
  "chain_process clock r c =
     (case run_processors clock r (chain_processors c) of
        (Inl e, ps) \<Rightarrow> (Inl e, c\<lparr>chain_processors := ps\<rparr>)
      | (Inr None, ps) \<Rightarrow>
          (Inr None,
           c\<lparr>chain_processors := ps, dropped_records := add_u64 (dropped_records c) 1\<rparr>)
      | (Inr (Some r'), ps) \<Rightarrow> (Inr (Some r'), c\<lparr>chain_processors := ps\<rparr>))"

section \<open>The rate limiter over a sequence of calls\<close>

text \<open>The calls of one limiter, oldest first, and the ones whose record it lets through.\<close>

type_synonym call = "instant \<times> telemetry_record"

fun rate_run :: "call list \<Rightarrow> tenant_rate_limit_processor \<Rightarrow> call list \<times> tenant_rate_limit_processor" where
  "rate_run [] p = ([], p)"
| "rate_run ((now, r) # xs) p =
     (case process_at r now p of
        (Inr (Emit r'), p') \<Rightarrow> (case rate_run xs p' of (es, q) \<Rightarrow> ((now, r') # es, q))
      | (_, p') \<Rightarrow> rate_run xs p')"

definition bytes_between :: "string \<Rightarrow> instant \<Rightarrow> instant \<Rightarrow> call list \<Rightarrow> nat" where
  "bytes_between t a b es =
     (\<Sum>(now, r)\<leftarrow>es. if tenant_id r = t \<and> a \<le> now \<and> now < b then estimate_record_bytes r else 0)"

lemma bytes_between_simps [simp]:
  "bytes_between t a b [] = 0"
  "bytes_between t a b ((now, r) # es) =
     (if tenant_id r = t \<and> a \<le> now \<and> now < b then estimate_record_bytes r else 0) + bytes_between t a b es"
  "bytes_between t a b (es @ fs) = bytes_between t a b es + bytes_between t a b fs"
  by (simp_all add: bytes_between_def)

definition admits :: "tenant_rate_limit_processor \<Rightarrow> instant \<Rightarrow> telemetry_record \<Rightarrow> bool" where
  "admits p now r \<longleftrightarrow>
     used_bytes (current_window now (windows p (tenant_id r))) + estimate_record_bytes r \<le> max_bytes_per_second p"

text \<open>Both size checks of \<^verbatim>\<open>process_at\<close> come down to the budget of the window.\<close>

lemma process_at_cases:
  assumes "max_bytes_per_second p < u64_max"
  shows "process_at r now p = (if admits p now r
     then (Inr (Emit r), p\<lparr>windows := (windows p)(tenant_id r \<mapsto>
            (current_window now (windows p (tenant_id r)))\<lparr>used_bytes :=
              used_bytes (current_window now (windows p (tenant_id r))) + estimate_record_bytes r\<rparr>)\<rparr>)
     else (fst (process_at r now p),
           p\<lparr>windows := (windows p)(tenant_id r \<mapsto> current_window now (windows p (tenant_id r)))\<rparr>))"
    and "\<not> admits p now r \<Longrightarrow> \<exists>reason. fst (process_at r now p) = Inr (Dropped reason)"
  using assms
  by (auto simp: process_at_def Let_def admits_def saturating_add_u64_def)

declare rate_run.simps(2) [simp del]

lemma rate_run_Cons:
  fixes now :: instant and r :: telemetry_record
  assumes "max_bytes_per_second p < u64_max"
  defines "w \<equiv> current_window now (windows p (tenant_id r))"
  shows "rate_run ((now, r) # xs) p =
    (if admits p now r
     then apfst ((#) (now, r)) (rate_run xs (p\<lparr>windows := (windows p)(tenant_id r \<mapsto>
            w\<lparr>used_bytes := used_bytes w + estimate_record_bytes r\<rparr>)\<rparr>))
     else rate_run xs (p\<lparr>windows := (windows p)(tenant_id r \<mapsto> w)\<rparr>))"
proof (cases "admits p now r")
  case True
  then show ?thesis using process_at_cases(1) [OF assms(1), of r now] by (simp add: w_def rate_run.simps(2) apfst_def map_prod_def)
next
  case False
  then obtain reason where "fst (process_at r now p) = Inr (Dropped reason)"
    using process_at_cases(2) [OF assms(1)] by blast
  with False process_at_cases(1) [OF assms(1), of r now] show ?thesis by (simp add: w_def rate_run.simps(2))
qed

text \<open>Budget of a tenant's window still open at time \<open>a\<close>, over the second that starts at \<open>a\<close>.\<close>

definition rate_cap :: "u64 \<Rightarrow> instant \<Rightarrow> tenant_rate_window option \<Rightarrow> nat" where
  "rate_cap L a w =
     (case w of
        None \<Rightarrow> L
      | Some w \<Rightarrow> if a \<le> started_at w then L - used_bytes w else (L - used_bytes w) + L)"

definition window_ok :: "u64 \<Rightarrow> instant \<Rightarrow> tenant_rate_window option \<Rightarrow> bool" where
  "window_ok L now w = (case w of None \<Rightarrow> True | Some w \<Rightarrow> used_bytes w \<le> L \<and> started_at w \<le> now)"

lemma current_window_ok:
  "window_ok L now w \<Longrightarrow> used_bytes (current_window now w) \<le> L \<and> started_at (current_window now w) \<le> now"
  by (auto simp: window_ok_def current_window_def split: option.splits)

lemma current_window_cap:
  assumes "window_ok L now w" and "a \<le> now" and "now < a + one_second"
  shows "rate_cap L a (Some (current_window now w)) \<le> rate_cap L a w"
  using assms by (auto simp: rate_cap_def current_window_def window_ok_def split: option.splits)

lemma bytes_between_none: "\<forall>x \<in> set xs. b \<le> fst x \<Longrightarrow> bytes_between t a b xs = 0"
  by (induction xs) auto

lemma process_at_Emit: "process_at r now p = (Inr (Emit r'), p') \<Longrightarrow> r' = r"
  by (auto simp: process_at_def Let_def split: if_splits)

lemma rate_run_subset: "set (fst (rate_run xs p)) \<subseteq> set xs"
proof (induction xs arbitrary: p)
  case Nil
  then show ?case by simp
next
  case (Cons x xs)
  obtain now r where x: "x = (now, r)" by (cases x)
  obtain d p' where d: "process_at r now p = (d, p')" by fastforce
  show ?case
    using Cons.IH [of p'] process_at_Emit [of r now p] d
    by (auto simp: x rate_run.simps(2) split: sum.splits process_decision.splits prod.splits)
qed

lemma rate_run_bound:
  assumes "max_bytes_per_second p = L" and "L < u64_max" and "sorted (map fst xs)"
    and "\<And>now r. (now, r) \<in> set xs \<Longrightarrow> a \<le> now"
    and "\<And>now r. (now, r) \<in> set xs \<Longrightarrow> window_ok L now (windows p t)"
  shows "bytes_between t a (a + one_second) (fst (rate_run xs p)) \<le> rate_cap L a (windows p t)"
  using assms
proof (induction xs arbitrary: p)
  case Nil
  then show ?case by simp
next
  case (Cons x xs)
  obtain now r where x: "x = (now, r)" by (cases x)
  let ?b = "a + one_second" and ?w = "current_window now (windows p (tenant_id r))"
  have later: "now \<le> n" if "(n, s) \<in> set xs" for n s using Cons.prems(3) that x by force
  show ?case
  proof (cases "now < ?b")
    case False
    have "\<forall>y \<in> set (x # xs). ?b \<le> fst y" using later False x by fastforce
    then have "\<forall>y \<in> set (fst (rate_run (x # xs) p)). ?b \<le> fst y"
      using rate_run_subset by blast
    then show ?thesis using bytes_between_none by (metis le0)
  next
    case True
    have wok: "window_ok L now (windows p t)" using Cons.prems(5) [of now r] x by simp
    let ?drop = "p\<lparr>windows := (windows p)(tenant_id r \<mapsto> ?w)\<rparr>"
    let ?keep = "p\<lparr>windows := (windows p)(tenant_id r \<mapsto> ?w\<lparr>used_bytes := used_bytes ?w + estimate_record_bytes r\<rparr>)\<rparr>"
    have IH: "bytes_between t a ?b (fst (rate_run xs q)) \<le> rate_cap L a (windows q t)"
      if "max_bytes_per_second q = L" "window_ok L now (windows q t)" for q
      using that Cons.prems(2,3,4) later x
      by (intro Cons.IH) (auto simp: window_ok_def split: option.splits dest: order_trans)
    note run = rate_run_Cons [of p, unfolded Cons.prems(1), OF Cons.prems(2), of now r xs]
    have cw: "used_bytes ?w \<le> L" "started_at ?w \<le> now" if "tenant_id r = t"
      using current_window_ok [OF wok] that by auto
    have cap: "rate_cap L a (Some ?w) \<le> rate_cap L a (windows p t)" if "tenant_id r = t"
      using current_window_cap [OF wok _ True] Cons.prems(4) [of now r] that x by simp
    show ?thesis
    proof (cases "admits p now r")
      case False
      have "window_ok L now (windows ?drop t)" using wok cw by (auto simp: window_ok_def)
      from IH [OF _ this] False run cap show ?thesis
        by (cases "tenant_id r = t") (auto simp: x Cons.prems(1))
    next
      case adm: True
      then have le: "used_bytes ?w + estimate_record_bytes r \<le> L" by (simp add: admits_def Cons.prems(1))
      then have "window_ok L now (windows ?keep t)" using wok cw by (auto simp: window_ok_def)
      from IH [OF _ this] have ih: "bytes_between t a ?b (fst (rate_run xs ?keep)) \<le> rate_cap L a (windows ?keep t)"
        using Cons.prems(1) by simp
      have first: "fst (rate_run (x # xs) p) = (now, r) # fst (rate_run xs ?keep)"
        using run adm by (simp add: x)
      show ?thesis
      proof (cases "tenant_id r = t")
        case False
        with ih first show ?thesis by simp
      next
        case same: True
        have "rate_cap L a (windows ?keep t) + estimate_record_bytes r \<le> rate_cap L a (Some ?w)"
          using le same by (simp add: rate_cap_def)
        with ih first same cap show ?thesis by simp
      qed
    qed
  qed
qed

lemma rate_run_append:
  "rate_run (xs @ ys) p = (case rate_run xs p of (es, q) \<Rightarrow> case rate_run ys q of (fs, q') \<Rightarrow> (es @ fs, q'))"
  by (induction xs p rule: rate_run.induct) (auto simp: rate_run.simps(2) split: prod.splits sum.splits process_decision.splits)

lemma rate_run_keeps:
  assumes "max_bytes_per_second p = L" and "L < u64_max"
    and "\<forall>x \<in> set xs. fst x \<le> n" and "window_ok L n (windows p t)"
  shows "max_bytes_per_second (snd (rate_run xs p)) = L \<and> window_ok L n (windows (snd (rate_run xs p)) t)"
  using assms
proof (induction xs arbitrary: p)
  case Nil
  then show ?case by simp
next
  case (Cons x xs)
  obtain now r where x: "x = (now, r)" by (cases x)
  let ?w = "current_window now (windows p (tenant_id r))"
  note run = rate_run_Cons [of p, unfolded Cons.prems(1), OF Cons.prems(2), of now r xs]
  have w: "window_ok L n (Some ?w)" if "tenant_id r = t"
    using Cons.prems(3,4) that x by (auto simp: window_ok_def current_window_def split: option.splits)
  show ?case
  proof (cases "admits p now r")
    case True
    then have le: "used_bytes ?w + estimate_record_bytes r \<le> L" by (simp add: admits_def Cons.prems(1))
    let ?q = "p\<lparr>windows := (windows p)(tenant_id r \<mapsto> ?w\<lparr>used_bytes := used_bytes ?w + estimate_record_bytes r\<rparr>)\<rparr>"
    have "window_ok L n (windows ?q t)"
      using le w Cons.prems(4) by (auto simp: window_ok_def)
    moreover have "snd (rate_run (x # xs) p) = snd (rate_run xs ?q)"
      using True run by (simp add: x)
    ultimately show ?thesis using Cons.IH [of ?q] Cons.prems by simp
  next
    case False
    let ?q = "p\<lparr>windows := (windows p)(tenant_id r \<mapsto> ?w)\<rparr>"
    have "window_ok L n (windows ?q t)" using w Cons.prems(4) by auto
    moreover have "rate_run (x # xs) p = rate_run xs ?q" using False run by (simp add: x)
    ultimately show ?thesis using Cons.IH [of ?q] Cons.prems by simp
  qed
qed

lemma rate_limit_second:
  assumes L: "L < u64_max" and sorted: "sorted (map fst xs)"
  shows "bytes_between t a (a + one_second) (fst (rate_run xs (rate_limit_new name L))) \<le> 2 * L"
proof -
  let ?p = "rate_limit_new name L"
  let ?early = "takeWhile (\<lambda>x. fst x < a) xs" and ?late = "dropWhile (\<lambda>x. fst x < a) xs"
  have p: "max_bytes_per_second ?p = L" "windows ?p t = None" by (simp_all add: rate_limit_new_def)
  obtain es q where es: "rate_run ?early ?p = (es, q)" by fastforce
  have "\<forall>x \<in> set ?early. fst x \<le> a" by (auto dest: set_takeWhileD)
  from rate_run_keeps [OF p(1) L this, of t] p(2) es
  have q: "max_bytes_per_second q = L" "window_ok L a (windows q t)" by (auto simp: window_ok_def)
  have "\<forall>x \<in> set es. fst x < a" using rate_run_subset [of ?early ?p] es set_takeWhileD by fastforce
  then have early: "bytes_between t a b es = 0" for b by (induction es) auto
  have srt: "sorted (map fst ?late)" using sorted by (metis sorted_append map_append takeWhile_dropWhile_id)
  have ge: "a \<le> now" if "(now, r) \<in> set ?late" for now r
  proof (cases ?late)
    case (Cons y ys)
    then have "a \<le> fst y" using hd_dropWhile [of "\<lambda>x. fst x < a" xs] by simp
    then show ?thesis using that srt Cons by force
  next
    case Nil
    with that show ?thesis by (metis empty_iff list.set(1))
  qed
  have "bytes_between t a (a + one_second) (fst (rate_run ?late q)) \<le> rate_cap L a (windows q t)"
    using ge q by (intro rate_run_bound [OF q(1) L srt]) (auto simp: window_ok_def split: option.splits dest: order_trans)
  also have "\<dots> \<le> 2 * L" by (auto simp: rate_cap_def split: option.splits)
  finally show ?thesis
    using early rate_run_append [of ?early ?late ?p] es by (simp split: prod.splits)
qed

text \<open>The calls of other tenants make no difference to a tenant.\<close>

definition of_tenant :: "string \<Rightarrow> call \<Rightarrow> bool" where
  "of_tenant t x \<longleftrightarrow> tenant_id (snd x) = t"

lemma rate_run_tenant:
  assumes "max_bytes_per_second p = max_bytes_per_second q" and "windows p t = windows q t"
    and "max_bytes_per_second p < u64_max"
  shows "filter (of_tenant t) (fst (rate_run xs p)) = fst (rate_run (filter (of_tenant t) xs) q) \<and>
    windows (snd (rate_run xs p)) t = windows (snd (rate_run (filter (of_tenant t) xs) q)) t"
  using assms
proof (induction xs arbitrary: p q)
  case Nil
  then show ?case by simp
next
  case (Cons x xs)
  obtain now r where x: "x = (now, r)" by (cases x)
  have q: "max_bytes_per_second q < u64_max" using Cons.prems by simp
  define w where "w = current_window now (windows p (tenant_id r))"
  let ?drop = "\<lambda>p. p\<lparr>windows := (windows p)(tenant_id r \<mapsto> w)\<rparr>"
  let ?keep = "\<lambda>p. p\<lparr>windows := (windows p)(tenant_id r \<mapsto> w\<lparr>used_bytes := used_bytes w + estimate_record_bytes r\<rparr>)\<rparr>"
  note run = rate_run_Cons [OF Cons.prems(3), of now r xs, folded w_def]
  show ?case
  proof (cases "tenant_id r = t")
    case True
    have adm: "admits q now r = admits p now r" using Cons.prems True by (simp add: admits_def)
    have w: "current_window now (windows q (tenant_id r)) = w" using Cons.prems True by (simp add: w_def)
    note runq = rate_run_Cons [OF q, of now r "filter (of_tenant t) xs", unfolded w]
    have ft: "filter (of_tenant t) (x # xs) = (now, r) # filter (of_tenant t) xs" and "of_tenant t (now, r)"
      using True by (simp_all add: x of_tenant_def)
    then show ?thesis
      using Cons.IH [of "?keep p" "?keep q"] Cons.IH [of "?drop p" "?drop q"] Cons.prems True
      by (cases "admits p now r") (simp_all add: ft runq run adm x)
  next
    case False
    then have "\<not> of_tenant t (now, r)" by (simp add: of_tenant_def)
    then show ?thesis
      using False Cons.IH [of "?keep p" q] Cons.IH [of "?drop p" q] Cons.prems
      by (cases "admits p now r") (simp_all add: run x)
  qed
qed

section \<open>Redaction and the chain\<close>

lemma redact_attribute_simps [simp]:
  "attr_key (redact_attribute keys a) = attr_key a"
  "redact_attribute keys (redact_attribute keys a) = redact_attribute keys a"
  by (simp_all add: redact_attribute_def)

text \<open>What no processor changes, and what it may change: values of attributes, to the marker.\<close>

definition censored :: "telemetry_record \<Rightarrow> telemetry_record \<Rightarrow> bool" where
  "censored r r' \<longleftrightarrow>
     tenant_id r' = tenant_id r \<and> signal r' = signal r \<and> body r' = body r \<and>
     timestamp_unix_nanos r' = timestamp_unix_nanos r \<and>
     list_all2 (\<lambda>a a'. attr_key a' = attr_key a \<and>
       (attr_value a' = attr_value a \<or> attr_value a' = ''[REDACTED]'')) (attributes r) (attributes r')"

lemma censored_refl [simp]: "censored r r"
  by (simp add: censored_def list_all2_refl)

lemma censored_trans: "censored r s \<Longrightarrow> censored s t \<Longrightarrow> censored r t"
  unfolding censored_def list_all2_conv_all_nth by (clarsimp, metis)

lemma redact_censored:
  "redact_process p r = Inr (Emit r') \<Longrightarrow> censored r r'"
  by (auto simp: redact_process_def censored_def list_all2_map2 redact_attribute_def
      intro!: list_all2_refl)

lemma processor_process_total: "\<exists>d. fst (processor_process r now p) = Inr d"
  by (cases p) (auto simp: process_at_def memory_limiter_process_def redact_process_def Let_def
      split: prod.splits)

lemma processor_process_censored:
  assumes "processor_process r now p = (Inr (Emit r'), p')"
  shows "censored r r'"
  using assms
  by (cases p) (auto simp: memory_limiter_process_def Let_def dest: process_at_Emit redact_censored
      split: prod.splits if_splits)

lemma run_processors_total: "\<exists>d. fst (run_processors clock r ps) = Inr d"
proof (induction ps arbitrary: clock r)
  case Nil
  then show ?case by simp
next
  case (Cons p ps)
  obtain d p' where d: "processor_process r (clock 0) p = (Inr d, p')"
    using processor_process_total [of r "clock 0" p] by (metis prod.collapse)
  show ?case
  proof (cases d)
    case (Emit r')
    obtain e qs where "run_processors (\<lambda>i. clock (Suc i)) r' ps = (Inr e, qs)"
      using Cons.IH by (metis prod.collapse)
    with d Emit show ?thesis by simp
  qed (use d in simp)
qed

lemma run_processors_censored:
  "run_processors clock r ps = (Inr (Some r'), ps') \<Longrightarrow> censored r r'"
proof (induction ps arbitrary: clock r ps')
  case Nil
  then show ?case by simp
next
  case (Cons p ps)
  then obtain r1 p1 ps1 where "processor_process r (clock 0) p = (Inr (Emit r1), p1)"
    "run_processors (\<lambda>i. clock (Suc i)) r1 ps = (Inr (Some r'), ps1)"
    by (auto split: prod.splits sum.splits process_decision.splits)
  with Cons.IH show ?case using processor_process_censored censored_trans by blast
qed

text \<open>What redaction means: the keys whose values are secret, whatever their case, and a record without those values.\<close>

definition secret_key :: "string \<Rightarrow> bool" where
  "secret_key key =
     list_ex (\<lambda>name. \<exists>front. to_ascii_lowercase key = front @ name)
       [''authorization'', ''db.statement'', ''password'', ''secret'', ''token'']"

definition without_secrets :: "telemetry_record \<Rightarrow> telemetry_record" where
  "without_secrets r = r\<lparr>attributes :=
     map (\<lambda>a. if secret_key (attr_key a) then a\<lparr>attr_value := ''[REDACTED]''\<rparr> else a) (attributes r)\<rparr>"

lemma is_sensitive_default: "is_sensitive (map to_ascii_lowercase default_sensitive_keys) key = secret_key key"
proof -
  have "map to_ascii_lowercase default_sensitive_keys = default_sensitive_keys" by code_simp
  then have "is_sensitive (map to_ascii_lowercase default_sensitive_keys) key \<longleftrightarrow>
      list_ex (\<lambda>name. \<exists>front. to_ascii_lowercase key = front @ name) default_sensitive_keys"
    by (auto simp: is_sensitive_def list_ex_iff ends_with_iff)
  moreover have "\<exists>f. k = f @ ''authorization''" if "k = front @ ''http.request.header.authorization''" for k front :: string
    using that by (intro exI [of _ "front @ ''http.request.header.''"]) simp
  ultimately show ?thesis by (auto simp: secret_key_def default_sensitive_keys_def)
qed

lemma redact_default:
  "sensitive_keys p = map to_ascii_lowercase default_sensitive_keys \<Longrightarrow> redact_process p r = Inr (Emit (without_secrets r))"
  by (simp add: redact_process_def without_secrets_def redact_attribute_def is_sensitive_default)

lemma without_secrets_idem: "without_secrets (without_secrets r) = without_secrets r"
  by (simp add: without_secrets_def comp_def cong: if_cong)

text \<open>The redacting processors of a chain; a call keeps them.\<close>

definition redactors :: "record_processor list \<Rightarrow> redact_processor list" where
  "redactors ps = concat (map (\<lambda>p. case p of RedactProc q \<Rightarrow> [q] | _ \<Rightarrow> []) ps)"

lemma redactors_simps [simp]: "redactors [] = []" "redactors (ps @ qs) = redactors ps @ redactors qs"
  "redactors (p # ps) = (case p of RedactProc q \<Rightarrow> [q] | _ \<Rightarrow> []) @ redactors ps"
  by (simp_all add: redactors_def)

lemma processor_process_redactor:
  "processor_process r now p = (d, p') \<Longrightarrow>
   (case p' of RedactProc q \<Rightarrow> [q] | _ \<Rightarrow> []) = (case p of RedactProc q \<Rightarrow> [q] | _ \<Rightarrow> [])"
  by (cases p) (auto split: prod.splits)

lemma run_processors_redactors: "run_processors clock r ps = (d, ps') \<Longrightarrow> redactors ps' = redactors ps"
proof (induction ps arbitrary: clock r d ps')
  case (Cons p ps)
  obtain d1 p1 where "processor_process r (clock 0) p = (d1, p1)" by fastforce
  with Cons processor_process_redactor [OF this] show ?case
    by (auto split: prod.splits sum.splits process_decision.splits)
qed simp

definition redacts :: "record_processor list \<Rightarrow> bool" where
  "redacts ps \<longleftrightarrow> redactors ps \<noteq> [] \<and> (\<forall>q \<in> set (redactors ps). sensitive_keys q = map to_ascii_lowercase default_sensitive_keys)"

lemma run_processors_redacts:
  assumes "run_processors clock r ps = (Inr (Some r'), ps')"
    and "\<forall>q \<in> set (redactors ps). sensitive_keys q = map to_ascii_lowercase default_sensitive_keys"
  shows "r' = (if redactors ps = [] then r else without_secrets r)"
  using assms
proof (induction ps arbitrary: clock r ps')
  case (Cons p ps)
  then obtain r1 p1 ps1 where p: "processor_process r (clock 0) p = (Inr (Emit r1), p1)"
    and rest: "run_processors (\<lambda>i. clock (Suc i)) r1 ps = (Inr (Some r'), ps1)"
    by (auto split: prod.splits sum.splits process_decision.splits)
  have "r1 = (case p of RedactProc q \<Rightarrow> without_secrets r | _ \<Rightarrow> r)"
    using p Cons.prems(2)
    by (cases p) (auto simp: memory_limiter_process_def Let_def redact_default dest: process_at_Emit split: prod.splits if_splits)
  with Cons.IH [OF rest] Cons.prems(2) show ?case by (cases p) (auto simp: without_secrets_idem)
qed simp

text \<open>A sequence of calls of the chain: what each returned.\<close>

fun chain_run ::
  "((nat \<Rightarrow> instant) \<times> telemetry_record) list \<Rightarrow> processor_chain \<Rightarrow>
   (processing_error + telemetry_record option) list \<times> processor_chain" where
  "chain_run [] c = ([], c)"
| "chain_run ((clock, r) # calls) c =
     (case chain_process clock r c of
        (out, c') \<Rightarrow> (case chain_run calls c' of (outs, c'') \<Rightarrow> (out # outs, c'')))"

lemma chain_process_redacts:
  assumes "redacts (chain_processors c)" and "chain_process clock r c = (out, c')"
  shows "redacts (chain_processors c') \<and> (out = Inr None \<or> out = Inr (Some (without_secrets r)))"
proof -
  obtain d ps where run: "run_processors clock r (chain_processors c) = (Inr d, ps)"
    using run_processors_total by (metis prod.collapse)
  then have "chain_processors c' = ps" "out = Inr d" using assms(2) by (auto simp: chain_process_def split: option.splits)
  moreover have "d = None \<or> d = Some (without_secrets r)"
    using run assms(1) run_processors_redacts [of clock r "chain_processors c" _ ps] by (cases d) (simp_all add: redacts_def)
  ultimately show ?thesis using assms(1) run_processors_redactors [OF run] by (auto simp: redacts_def)
qed

lemma chain_run_redacts:
  assumes "redacts (chain_processors c)"
  shows "list_all2 (\<lambda>(clock, r) out. out = Inr None \<or> out = Inr (Some (without_secrets r))) calls (fst (chain_run calls c))"
  using assms
proof (induction calls arbitrary: c)
  case (Cons call calls)
  obtain clock r where call: "call = (clock, r)" by (cases call)
  obtain out c' where p: "chain_process clock r c = (out, c')" by fastforce
  note k = chain_process_redacts [OF Cons.prems p]
  obtain outs c'' where "chain_run calls c' = (outs, c'')" by fastforce
  with Cons.IH [of c'] k show ?case by (simp add: call p)
qed simp

lemma push_configured_redactors:
  "redactors (chain_processors (push_configured lim p c)) =
     redactors (chain_processors c) @ (if proc_kind p = Redact then [redact_new (proc_name p) default_sensitive_keys] else [])"
  by (auto simp: push_configured_def chain_push_def split: processor_kind.splits)

lemma chain_from_config_redactors:
  "redactors (chain_processors (chain_from_config cfg)) =
     map (\<lambda>p. redact_new (proc_name p) default_sensitive_keys) (filter (\<lambda>p. proc_enabled p \<and> proc_kind p = Redact) (processors cfg))"
proof -
  have "redactors (chain_processors (fold (push_configured lim) ps c)) = redactors (chain_processors c) @
      map (\<lambda>p. redact_new (proc_name p) default_sensitive_keys) (filter (\<lambda>p. proc_kind p = Redact) ps)" for lim ps c
    by (induction ps arbitrary: c) (simp_all add: push_configured_redactors)
  then show ?thesis by (simp add: chain_from_config_def filter_filter conj_commute)
qed

lemma chain_from_config_redacts:
  "p \<in> set (processors cfg) \<Longrightarrow> proc_enabled p \<Longrightarrow> proc_kind p = Redact \<Longrightarrow> redacts (chain_processors (chain_from_config cfg))"
  by (auto simp: redacts_def chain_from_config_redactors redact_new_def filter_empty_conv)

section \<open>Properties\<close>

text \<open>Property C37 (rate_limit_any_second). Over any second, aligned with a window or not, the rate limiter lets
  through at most twice the configured bytes of a tenant, however many calls are made and whatever
  other tenants send.\<close>

theorem rate_limit_any_second:
  assumes "limit < u64_max" and "sorted (map fst calls)"
  shows "bytes_between t a (a + one_second) (fst (rate_run calls (rate_limit_new name limit))) \<le> 2 * limit"
  by (rule rate_limit_second [OF assms])

theorem rate_limit_any_second_witness:
  "bytes_between ''t'' 5 (5 + one_second) (fst (rate_run
     [(3, \<lparr>tenant_id = ''t'', signal = Log, timestamp_unix_nanos = 0, attributes = [], body = []\<rparr>)]
     (rate_limit_new ''r'' 100))) \<le> 2 * 100"
  by (rule rate_limit_any_second) simp_all

text \<open>Tenants do not influence each other: what the limiter lets through
  for a tenant is what it would let through if only that tenant's calls were made.\<close>

theorem rate_limit_isolation:
  assumes "limit < u64_max"
  shows "filter (of_tenant t) (fst (rate_run calls (rate_limit_new name limit))) =
     fst (rate_run (filter (of_tenant t) calls) (rate_limit_new name limit))"
  using rate_run_tenant [of "rate_limit_new name limit" "rate_limit_new name limit" t calls] assms
  by (simp add: rate_limit_new_def)

theorem rate_limit_isolation_witness:
  "filter (of_tenant ''t'') (fst (rate_run
     [(3, \<lparr>tenant_id = ''u'', signal = Log, timestamp_unix_nanos = 0, attributes = [], body = []\<rparr>),
      (4, \<lparr>tenant_id = ''t'', signal = Log, timestamp_unix_nanos = 0, attributes = [], body = []\<rparr>)]
     (rate_limit_new ''r'' 100))) =
   fst (rate_run (filter (of_tenant ''t'')
     [(3, \<lparr>tenant_id = ''u'', signal = Log, timestamp_unix_nanos = 0, attributes = [], body = []\<rparr>),
      (4, \<lparr>tenant_id = ''t'', signal = Log, timestamp_unix_nanos = 0, attributes = [], body = []\<rparr>)])
     (rate_limit_new ''r'' 100))"
  by (rule rate_limit_isolation) simp

text \<open>Property C38 (redaction_complete). When the configuration enables a redaction processor, then over any sequence of calls of
  the chain that is built from it, whatever other processors it has and whatever they remember, each call drops its record or emits it with
  exactly the secret values replaced by the marker: those under a key that, whatever its case, ends in \<^verbatim>\<open>authorization\<close>,
  \<^verbatim>\<open>db.statement\<close>, \<^verbatim>\<open>password\<close>, \<^verbatim>\<open>secret\<close> or \<^verbatim>\<open>token\<close>. No other attribute and no other part of the record changes.\<close>

theorem redaction_complete:
  assumes "p \<in> set (processors cfg)" and "proc_enabled p" and "proc_kind p = Redact"
  shows "list_all2 (\<lambda>(clock, r) out. out = Inr None \<or> out = Inr (Some (without_secrets r)))
    calls (fst (chain_run calls (chain_from_config cfg)))"
  by (rule chain_run_redacts [OF chain_from_config_redacts [OF assms]])

definition secret_record :: "string \<Rightarrow> string \<Rightarrow> telemetry_record" where
  "secret_record key val =
     \<lparr>tenant_id = ''t'', signal = Log, timestamp_unix_nanos = 0, attributes = [\<lparr>attr_key = key, attr_value = val\<rparr>], body = []\<rparr>"

definition secret_calls :: "((nat \<Rightarrow> instant) \<times> telemetry_record) list" where
  "secret_calls = [(\<lambda>_. 0, secret_record ''X-Token'' ''abc''), (\<lambda>_. 5, secret_record ''user.PASSWORD'' ''abc'')]"

definition redacting_config :: pipeline_config where
  "redacting_config = default_config\<lparr>processors := [\<lparr>proc_name = ''l'', proc_kind = TenantRateLimit, proc_enabled = True\<rparr>,
     \<lparr>proc_name = ''r'', proc_kind = Redact, proc_enabled = True\<rparr>]\<rparr>"

text \<open>The second of two records, after a rate limiter has dropped none, is redacted as the first.\<close>

theorem redaction_complete_witness:
  "fst (chain_run secret_calls (chain_from_config redacting_config)) =
     [Inr (Some (secret_record ''X-Token'' ''[REDACTED]'')), Inr (Some (secret_record ''user.PASSWORD'' ''[REDACTED]''))]"
proof -
  let ?outs = "fst (chain_run secret_calls (chain_from_config redacting_config))"
  have "map (\<lambda>out. out = Inr None) ?outs = [False, False]" by code_simp
  then obtain a b where ab: "?outs = [a, b]" "a \<noteq> Inr None" "b \<noteq> Inr None" by (auto simp: Cons_eq_map_conv map_eq_Cons_conv)
  have "is_sensitive (map to_ascii_lowercase default_sensitive_keys) ''X-Token''"
    "is_sensitive (map to_ascii_lowercase default_sensitive_keys) ''user.PASSWORD''" by code_simp+
  then have w: "without_secrets (secret_record ''X-Token'' v) = secret_record ''X-Token'' ''[REDACTED]''"
    "without_secrets (secret_record ''user.PASSWORD'' v) = secret_record ''user.PASSWORD'' ''[REDACTED]''" for v
    by (simp_all add: is_sensitive_default without_secrets_def secret_record_def)
  have "list_all2 (\<lambda>(clock, r) out. out = Inr None \<or> out = Inr (Some (without_secrets r))) secret_calls ?outs"
    by (rule redaction_complete [of "\<lparr>proc_name = ''r'', proc_kind = Redact, proc_enabled = True\<rparr>"])
      (simp_all add: redacting_config_def)
  then show ?thesis using ab by (simp add: secret_calls_def w)
qed

text \<open>The chain never fails: it emits a record, or it drops it and the counter of
  dropped records goes up by one.\<close>

theorem chain_outcome:
  "(\<exists>r' ps. chain_process clock r c = (Inr (Some r'), c\<lparr>chain_processors := ps\<rparr>) \<and> censored r r') \<or>
   (\<exists>ps. chain_process clock r c =
      (Inr None, c\<lparr>chain_processors := ps, dropped_records := add_u64 (dropped_records c) 1\<rparr>))"
proof -
  obtain d ps where run: "run_processors clock r (chain_processors c) = (Inr d, ps)"
    using run_processors_total by (metis prod.collapse)
  then show ?thesis
    by (cases d) (auto simp: chain_process_def dest: run_processors_censored)
qed

end
