(* ===== verification/Runtime.thy ===== *)
theory Runtime
  imports Queue_Properties Processors
begin

text \<open>
  The agent runtime of \<^verbatim>\<open>crates/telemetry-agent/src/runtime.rs\<close>: ingest with validation and quota, the
  exclusive flush, retries, grouping of a batch by exporter, reload of the configuration, metrics.

  An exporter is a trait object whose \<^verbatim>\<open>export\<close> talks to the network. It is a value of the type
  parameter \<open>'x\<close> here, with what one call of \<^verbatim>\<open>export\<close> does given as an argument: the outcome (a report,
  an error, or that the call did not end within the timeout) and the exporter afterwards. The map
  that \<^verbatim>\<open>build_exporters\<close> makes is an argument as well. Instants read by processors are arguments.
\<close>

section \<open>Data\<close>

record flush_report =
  drained_records :: usize
  exported_records :: usize
  report_dropped_records :: usize
  exported_bytes :: usize

definition default_flush_report :: flush_report where
  "default_flush_report =
     \<lparr>drained_records = 0, exported_records = 0, report_dropped_records = 0, exported_bytes = 0\<rparr>"

datatype runtime_error = QueueFull (full_queued_bytes: u64) (full_record_bytes: u64) (full_max_queue_bytes: u64)

fun show_runtime_error :: "runtime_error \<Rightarrow> string" where
  "show_runtime_error (QueueFull queued record_len limit) =
     ''queue is full: queued_bytes='' @ show_nat queued @ '' record_bytes='' @ show_nat record_len @
     '' max_queue_bytes='' @ show_nat limit"

record runtime_health =
  health_queued_bytes :: u64
  cursor_segment_id :: u64
  cursor_offset :: u64
  health_exports_paused :: bool

record runtime_metrics =
  ingested_records_total :: u64
  ingest_rejected_records_total :: u64
  flush_attempts_total :: u64
  flush_successes_total :: u64
  flush_failures_total :: u64
  drained_records_total :: u64
  exported_records_total :: u64
  dropped_records_total :: u64
  exported_bytes_total :: u64
  config_reloads_total :: u64
  config_reload_failures_total :: u64
  control_registrations_total :: u64
  control_registration_failures_total :: u64
  control_heartbeats_total :: u64
  control_heartbeat_failures_total :: u64
  control_config_fetches_total :: u64
  control_config_fetch_failures_total :: u64

definition default_metrics :: runtime_metrics where
  "default_metrics =
     \<lparr>ingested_records_total = 0, ingest_rejected_records_total = 0, flush_attempts_total = 0,
      flush_successes_total = 0, flush_failures_total = 0, drained_records_total = 0,
      exported_records_total = 0, dropped_records_total = 0, exported_bytes_total = 0,
      config_reloads_total = 0, config_reload_failures_total = 0,
      control_registrations_total = 0, control_registration_failures_total = 0,
      control_heartbeats_total = 0, control_heartbeat_failures_total = 0,
      control_config_fetches_total = 0, control_config_fetch_failures_total = 0\<rparr>"

text \<open>What crosses the boundary to the exporters.\<close>

record export_report =
  report_records :: usize
  report_bytes :: usize

datatype export_outcome = Exported export_report | ExportFailed string | TimedOut

type_synonym 'x exporter_map = "string \<rightharpoonup> 'x"
type_synonym 'x export_fn = "telemetry_record list \<Rightarrow> 'x \<Rightarrow> export_outcome \<times> 'x"
type_synonym 'x build_fn = "exporter_config list \<Rightarrow> string + 'x exporter_map"
type_synonym batch_clock = "nat \<Rightarrow> nat \<Rightarrow> instant"

record 'x agent_runtime =
  rt_config :: pipeline_config
  rt_queue :: disk_queue
  rt_processors :: processor_chain
  rt_exporters :: "'x exporter_map"
  metrics :: runtime_metrics
  exports_paused :: bool
  config_generation :: u64
  flush_in_progress :: bool

text \<open>The errors that \<^verbatim>\<open>Box<dyn Error>\<close> holds in this file.\<close>

datatype agent_error =
  PipelineErr pipeline_error
| TelemetryErr telemetry_error
| QueueErr disk_queue_error
| RuntimeErr runtime_error
| ExporterErr string

type_synonym ('x, 'a) rt_act = "('x agent_runtime, agent_error, 'a) act"
type_synonym ('x, 'a) flush_act = "('x agent_runtime, disk_queue_error, 'a) act"

definition on_queue :: "'a qact \<Rightarrow> ('x, 'a) flush_act" where
  "on_queue m = zoom_act rt_queue (\<lambda>q rt. rt\<lparr>rt_queue := q\<rparr>) m"

definition upd_metrics :: "(runtime_metrics \<Rightarrow> runtime_metrics) \<Rightarrow> 'x agent_runtime \<Rightarrow> 'x agent_runtime" where
  "upd_metrics f rt = rt\<lparr>metrics := f (metrics rt)\<rparr>"

section \<open>Open, ingest, health\<close>

definition runtime_open ::
  "'x build_fn \<Rightarrow> pipeline_config \<Rightarrow> disk_queue_options \<Rightarrow> (disk, agent_error, 'x agent_runtime) act" where
  "runtime_open build cfg opts =
     bind_act (lift_res (map_err PipelineErr (validate_config cfg))) (\<lambda>_.
     bind_act (map_err_act QueueErr (disk_queue_open opts)) (\<lambda>q.
     bind_act (lift_res (map_err ExporterErr (build (exporters cfg)))) (\<lambda>es.
     ok_act
       \<lparr>rt_config = cfg, rt_queue = q, rt_processors = chain_from_config cfg, rt_exporters = es,
        metrics = default_metrics, exports_paused = False, config_generation = 0,
        flush_in_progress = False\<rparr>)))"

definition ingest_inner :: "telemetry_record \<Rightarrow> ('x, unit) rt_act" where
  "ingest_inner r =
     bind_act (get_act rt_config) (\<lambda>cfg.
     bind_act (lift_res (map_err TelemetryErr (validate_record (max_record_bytes (limits cfg)) r))) (\<lambda>_.
     bind_act (lift_res (map_err TelemetryErr (encode r))) (\<lambda>encoded.
     bind_act (lift_res (map_err QueueErr (storage_bytes_for_payload (length encoded)))) (\<lambda>record_len.
     bind_act (get_act (\<lambda>rt. queued_bytes (rt_queue rt))) (\<lambda>queued.
     if saturating_add_u64 queued record_len > max_queue_bytes (limits cfg) then
       err_act (RuntimeErr (QueueFull queued record_len (max_queue_bytes (limits cfg))))
     else map_err_act QueueErr (on_queue (enqueue encoded)))))))"

definition ingest :: "telemetry_record \<Rightarrow> ('x, unit) rt_act" where
  "ingest r rt =
     (case ingest_inner r rt of
        (Inr u, rt') \<Rightarrow>
          (Inr u, upd_metrics (\<lambda>m. m\<lparr>ingested_records_total := add_u64 (ingested_records_total m) 1\<rparr>) rt')
      | (Inl e, rt') \<Rightarrow>
          (Inl e, upd_metrics (\<lambda>m.
             m\<lparr>ingest_rejected_records_total := add_u64 (ingest_rejected_records_total m) 1\<rparr>) rt'))"

definition health :: "'x agent_runtime \<Rightarrow> runtime_health" where
  "health rt =
     (case cursor_position (rt_queue rt) of (seg, off) \<Rightarrow>
        \<lparr>health_queued_bytes = queued_bytes (rt_queue rt), cursor_segment_id = seg,
         cursor_offset = off, health_exports_paused = exports_paused rt\<rparr>)"

definition record_control_registration :: "bool \<Rightarrow> 'x agent_runtime \<Rightarrow> 'x agent_runtime" where
  "record_control_registration success = upd_metrics (\<lambda>m.
     if success then m\<lparr>control_registrations_total := add_u64 (control_registrations_total m) 1\<rparr>
     else m\<lparr>control_registration_failures_total := add_u64 (control_registration_failures_total m) 1\<rparr>)"

definition record_control_heartbeat :: "bool \<Rightarrow> 'x agent_runtime \<Rightarrow> 'x agent_runtime" where
  "record_control_heartbeat success = upd_metrics (\<lambda>m.
     if success then m\<lparr>control_heartbeats_total := add_u64 (control_heartbeats_total m) 1\<rparr>
     else m\<lparr>control_heartbeat_failures_total := add_u64 (control_heartbeat_failures_total m) 1\<rparr>)"

definition record_control_config_fetch :: "bool \<Rightarrow> 'x agent_runtime \<Rightarrow> 'x agent_runtime" where
  "record_control_config_fetch success = upd_metrics (\<lambda>m.
     if success then m\<lparr>control_config_fetches_total := add_u64 (control_config_fetches_total m) 1\<rparr>
     else m\<lparr>control_config_fetch_failures_total := add_u64 (control_config_fetch_failures_total m) 1\<rparr>)"

definition pause_exports :: "'x agent_runtime \<Rightarrow> 'x agent_runtime" where
  "pause_exports rt = rt\<lparr>exports_paused := True\<rparr>"

definition resume_exports :: "'x agent_runtime \<Rightarrow> 'x agent_runtime" where
  "resume_exports rt = rt\<lparr>exports_paused := False\<rparr>"

definition reload_config_inner :: "'x build_fn \<Rightarrow> pipeline_config \<Rightarrow> ('x, unit) rt_act" where
  "reload_config_inner build cfg =
     bind_act (lift_res (map_err PipelineErr (validate_config cfg))) (\<lambda>_.
     bind_act (lift_res (map_err ExporterErr (build (exporters cfg)))) (\<lambda>es.
     mod_act (\<lambda>rt. rt\<lparr>rt_config := cfg, rt_processors := chain_from_config cfg, rt_exporters := es,
                     config_generation := add_u64 (config_generation rt) 1\<rparr>)))"

definition reload_config :: "'x build_fn \<Rightarrow> pipeline_config \<Rightarrow> ('x, unit) rt_act" where
  "reload_config build cfg rt =
     (case reload_config_inner build cfg rt of
        (Inr u, rt') \<Rightarrow>
          (Inr u, upd_metrics (\<lambda>m. m\<lparr>config_reloads_total := add_u64 (config_reloads_total m) 1\<rparr>) rt')
      | (Inl e, rt') \<Rightarrow>
          (Inl e, upd_metrics (\<lambda>m.
             m\<lparr>config_reload_failures_total := add_u64 (config_reload_failures_total m) 1\<rparr>) rt'))"

section \<open>Retries\<close>

text \<open>The pause before the next attempt, in milliseconds; \<^verbatim>\<open>checked_shl\<close> fails from 32 on.\<close>

definition retry_multiplier :: "usize \<Rightarrow> nat" where
  "retry_multiplier attempt =
     (let k = (attempt - 1) mod 4294967296 in if k < 32 then 2 ^ k else 1)"

definition sleep_before_retry :: "usize \<Rightarrow> retry_config \<Rightarrow> nat" where
  "sleep_before_retry attempt retry = initial_backoff_ms retry * retry_multiplier attempt"

function export_with_retry ::
  "'x export_fn \<Rightarrow> string \<Rightarrow> telemetry_record list \<Rightarrow> retry_config \<Rightarrow> usize \<Rightarrow> 'x \<Rightarrow>
   (disk_queue_error + export_report) \<times> nat list \<times> 'x" where
  "export_with_retry export name batch retry attempt x =
     (case export batch x of
        (Exported report, x') \<Rightarrow> (Inr report, [], x')
      | (ExportFailed err, x') \<Rightarrow>
          if attempt < max_attempts retry then
            (case export_with_retry export name batch retry (attempt + 1) x' of
               (r, sleeps, x'') \<Rightarrow> (r, sleep_before_retry attempt retry # sleeps, x''))
          else
            (Inl (Sink (''exporter '' @ name @ '' failed after '' @ show_nat attempt @
               '' attempts: '' @ err)), [], x')
      | (TimedOut, x') \<Rightarrow>
          if attempt < max_attempts retry then
            (case export_with_retry export name batch retry (attempt + 1) x' of
               (r, sleeps, x'') \<Rightarrow> (r, sleep_before_retry attempt retry # sleeps, x''))
          else
            (Inl (Sink (''exporter '' @ name @ '' timed out after '' @ show_nat attempt @
               '' attempts'')), [], x'))"
  by pat_completeness auto
termination
  by (relation "measure (\<lambda>(_, _, _, retry, attempt, _). max_attempts retry - attempt)") auto

declare export_with_retry.simps [simp del]

section \<open>Grouping and exporting\<close>

text \<open>\<^verbatim>\<open>BTreeMap<String, Vec<_>>\<close> with \<^verbatim>\<open>entry(k).or_default().push(v)\<close>: an association list in key order.\<close>

fun entry_push :: "string \<Rightarrow> 'v \<Rightarrow> (string \<times> 'v list) list \<Rightarrow> (string \<times> 'v list) list" where
  "entry_push k v [] = [(k, [v])]"
| "entry_push k v ((k', vs) # m) =
     (if k = k' then (k', vs @ [v]) # m
      else if k < k' then (k, [v]) # (k', vs) # m
      else (k', vs) # entry_push k v m)"

fun group_records ::
  "pipeline_config \<Rightarrow> telemetry_record list \<Rightarrow> (string \<times> telemetry_record list) list \<Rightarrow>
   disk_queue_error + (string \<times> telemetry_record list) list" where
  "group_records cfg [] grouped = Inr grouped"
| "group_records cfg (r # rs) grouped =
     res_bind (map_err (\<lambda>err. Sink (show_pipeline_error err)) (exporters_for cfg (signal r)))
       (\<lambda>destinations.
     group_records cfg rs
       (fold (\<lambda>destination. entry_push (exp_name destination) r) destinations grouped))"

definition retry_for :: "pipeline_config \<Rightarrow> string \<Rightarrow> retry_config" where
  "retry_for cfg name =
     (case find (\<lambda>e. exp_name e = name) (exporters cfg) of
        Some e \<Rightarrow> exp_retry e | None \<Rightarrow> retry_default)"

fun export_groups ::
  "'x export_fn \<Rightarrow> pipeline_config \<Rightarrow> (string \<times> telemetry_record list) list \<Rightarrow> flush_report \<Rightarrow>
   ('x exporter_map, disk_queue_error, flush_report) act" where
  "export_groups export cfg [] report es = (Inr report, es)"
| "export_groups export cfg ((name, records) # gs) report es =
     (case es name of
        None \<Rightarrow> (Inl (Sink (''exporter not initialized: '' @ name)), es)
      | Some x \<Rightarrow>
          (case export_with_retry export name records (retry_for cfg name) 1 x of
             (Inl e, _, x') \<Rightarrow> (Inl e, es(name \<mapsto> x'))
           | (Inr er, _, x') \<Rightarrow>
               export_groups export cfg gs
                 (report\<lparr>exported_records := add_u64 (exported_records report) (report_records er),
                         exported_bytes := add_u64 (exported_bytes report) (report_bytes er)\<rparr>)
                 (es(name \<mapsto> x'))))"

definition export_records ::
  "'x export_fn \<Rightarrow> pipeline_config \<Rightarrow> telemetry_record list \<Rightarrow>
   ('x exporter_map, disk_queue_error, flush_report) act" where
  "export_records export cfg records =
     bind_act (lift_res (group_records cfg records [])) (\<lambda>grouped.
       export_groups export cfg grouped default_flush_report)"

section \<open>The exclusive flush\<close>

fun process_payloads ::
  "batch_clock \<Rightarrow> u8 list list \<Rightarrow>
   (processor_chain, disk_queue_error, telemetry_record list \<times> usize) act" where
  "process_payloads clock [] = ok_act ([], 0)"
| "process_payloads clock (p # ps) =
     bind_act (lift_res (map_err (\<lambda>err. Sink (show_telemetry_error err)) (decode p))) (\<lambda>r.
     bind_act (map_err_act (\<lambda>err. Sink (show_processing_error err)) (chain_process (clock 0) r)) (\<lambda>d.
     bind_act (process_payloads (\<lambda>i. clock (Suc i)) ps) (\<lambda>(rs, n).
       ok_act (case d of Some r' \<Rightarrow> (r' # rs, n) | None \<Rightarrow> (rs, n + 1)))))"

definition record_flush_success :: "flush_report \<Rightarrow> 'x agent_runtime \<Rightarrow> 'x agent_runtime" where
  "record_flush_success report = upd_metrics (\<lambda>m.
     m\<lparr>flush_successes_total := add_u64 (flush_successes_total m) 1,
       drained_records_total := add_u64 (drained_records_total m) (drained_records report),
       exported_records_total := add_u64 (exported_records_total m) (exported_records report),
       dropped_records_total := add_u64 (dropped_records_total m) (report_dropped_records report),
       exported_bytes_total := add_u64 (exported_bytes_total m) (exported_bytes report)\<rparr>)"

definition record_flush_failure :: "'x agent_runtime \<Rightarrow> 'x agent_runtime" where
  "record_flush_failure = upd_metrics (\<lambda>m.
     m\<lparr>flush_failures_total := add_u64 (flush_failures_total m) 1\<rparr>)"

definition on_processors :: "(processor_chain, disk_queue_error, 'a) act \<Rightarrow> ('x, 'a) flush_act" where
  "on_processors m = zoom_act rt_processors (\<lambda>c rt. rt\<lparr>rt_processors := c\<rparr>) m"

definition on_exporters :: "('x exporter_map, disk_queue_error, 'a) act \<Rightarrow> ('x, 'a) flush_act" where
  "on_exporters m = zoom_act rt_exporters (\<lambda>es rt. rt\<lparr>rt_exporters := es\<rparr>) m"

definition flush_inner :: "'x export_fn \<Rightarrow> batch_clock \<Rightarrow> usize \<Rightarrow> ('x, flush_report) flush_act" where
  "flush_inner export clock max_items =
     bind_act (on_queue (read_batch max_items)) (\<lambda>batch.
     let report = default_flush_report\<lparr>drained_records := length (payloads batch)\<rparr> in
     if payloads batch = [] then seq_act (on_queue (commit_batch batch)) (ok_act report)
     else
       bind_act (on_processors (process_payloads clock (payloads batch))) (\<lambda>(records, dropped).
       bind_act (get_act rt_config) (\<lambda>cfg.
       bind_act (on_exporters (export_records export cfg records)) (\<lambda>er.
       seq_act (on_queue (commit_batch batch))
         (ok_act (report\<lparr>report_dropped_records := dropped,
            exported_records := add_u64 (exported_records report) (exported_records er),
            exported_bytes := add_u64 (exported_bytes report) (exported_bytes er)\<rparr>))))))"

definition flush_unpaused :: "'x export_fn \<Rightarrow> batch_clock \<Rightarrow> usize \<Rightarrow> ('x, flush_report) flush_act" where
  "flush_unpaused export clock max_items rt =
     (case flush_inner export clock max_items (upd_metrics (\<lambda>m.
              m\<lparr>flush_attempts_total := add_u64 (flush_attempts_total m) 1\<rparr>) rt) of
        (Inr report, rt') \<Rightarrow> (Inr report, record_flush_success report rt')
      | (Inl e, rt') \<Rightarrow> (Inl e, record_flush_failure rt'))"

definition flush :: "'x export_fn \<Rightarrow> batch_clock \<Rightarrow> usize \<Rightarrow> ('x, flush_report) flush_act" where
  "flush export clock max_items rt =
     (if exports_paused rt then (Inr default_flush_report, rt)
      else flush_unpaused export clock max_items rt)"

definition flush_to_stdout :: "'x export_fn \<Rightarrow> batch_clock \<Rightarrow> usize \<Rightarrow> ('x, usize) flush_act" where
  "flush_to_stdout export clock max_items =
     bind_act (flush export clock max_items) (\<lambda>report. ok_act (drained_records report))"

end
