(* ===== verification/Export_Delivery.thy ===== *)
theory Export_Delivery
  imports Runtime
begin

text \<open>
  What reaches the exporters in one flush: how a batch is grouped, how often and after which pauses
  an export is tried, and which batches each exporter has accepted in the end. Acceptance is
  observed by wrapping the exporters: \<open>logged export\<close> behaves as \<open>export\<close> and keeps the list of the
  batches for which \<open>export\<close> reported success.
\<close>

section \<open>Grouping\<close>

definition group_of :: "(string \<times> 'v list) list \<Rightarrow> string \<Rightarrow> 'v list" where
  "group_of m k = (case map_of m k of None \<Rightarrow> [] | Some vs \<Rightarrow> vs)"

text \<open>The invariant of the \<^verbatim>\<open>BTreeMap\<close>: keys strictly ascending; no group is empty.\<close>

definition keyed :: "(string \<times> 'v list) list \<Rightarrow> bool" where
  "keyed m \<longleftrightarrow> sorted_wrt (<) (map fst m) \<and> [] \<notin> set (map snd m)"

lemma keyed_simps [simp]:
  "keyed []"
  "keyed ((k, vs) # m) \<longleftrightarrow> (\<forall>k' \<in> set (map fst m). k < k') \<and> vs \<noteq> [] \<and> keyed m"
  by (auto simp: keyed_def)

lemma keyed_distinct: "keyed m \<Longrightarrow> distinct (map fst m)"
  by (simp add: keyed_def strict_sorted_iff)

lemma group_of_simps [simp]:
  "group_of [] j = []"
  "group_of ((k, vs) # m) j = (if j = k then vs else group_of m j)"
  by (simp_all add: group_of_def)

lemma group_of_absent: "k \<notin> fst ` set m \<Longrightarrow> group_of m k = []"
  by (induction m) auto

lemma entry_push_keys: "fst ` set (entry_push k v m) = insert k (fst ` set m)"
  by (induction k v m rule: entry_push.induct) auto

lemma entry_push_keyed: "keyed m \<Longrightarrow> keyed (entry_push k v m)"
  by (induction k v m rule: entry_push.induct) (auto simp: entry_push_keys intro: order.strict_trans)

lemma group_of_entry_push: "keyed m \<Longrightarrow>
    group_of (entry_push k v m) j = (if j = k then group_of m k @ [v] else group_of m j)"
proof (induction k v m rule: entry_push.induct)
  case (2 k v k' vs m)
  moreover have "group_of m k = []" if "k < k'"
    using 2(2) that by (intro group_of_absent) (auto dest: order.asym)
  ultimately show ?case by auto
qed simp

lemma keyed_member: "keyed m \<Longrightarrow> (k, vs) \<in> set m \<Longrightarrow> group_of m k = vs"
  using keyed_distinct [of m] by (simp add: group_of_def)

lemma keyed_in: "keyed m \<Longrightarrow> k \<in> fst ` set m \<longleftrightarrow> group_of m k \<noteq> []"
  using keyed_member [of m k] group_of_absent [of k m] by (force simp: keyed_def)

lemma fold_push:
  assumes "keyed m"
  shows "keyed (fold (\<lambda>d. entry_push (f d) v) ds m) \<and>
    group_of (fold (\<lambda>d. entry_push (f d) v) ds m) j = group_of m j @ replicate (count_list (map f ds) j) v"
  using assms by (induction ds arbitrary: m) (auto simp: entry_push_keyed group_of_entry_push replicate_app_Cons_same)

text \<open>The copies of a record, and of a batch, that an exporter is to receive.\<close>

definition copies :: "pipeline_config \<Rightarrow> string \<Rightarrow> telemetry_record \<Rightarrow> nat" where
  "copies cfg name r =
     (case find (\<lambda>route. route_signal route = signal r) (routes cfg) of
        None \<Rightarrow> 0 | Some route \<Rightarrow> count_list (route_exporters route) name)"

definition share :: "pipeline_config \<Rightarrow> string \<Rightarrow> telemetry_record list \<Rightarrow> telemetry_record list" where
  "share cfg name rs = concat (map (\<lambda>r. replicate (copies cfg name r) r) rs)"

lemma share_simps [simp]:
  "share cfg name [] = []"
  "share cfg name (r # rs) = replicate (copies cfg name r) r @ share cfg name rs"
  by (simp_all add: share_def)

lemma resolve_exporters_names: "resolve_exporters es names = Inr ds \<Longrightarrow> map exp_name ds = names"
  by (induction names arbitrary: ds) (auto simp: res_bind_Inr_iff find_Some_iff)

lemma exporters_for_copies: "exporters_for cfg (signal r) = Inr ds \<Longrightarrow>
    count_list (map exp_name ds) name = copies cfg name r"
  by (auto simp: exporters_for_def copies_def res_bind_Inr_iff dest!: resolve_exporters_names)

lemma group_records_exact:
  "group_records cfg rs m = Inr g \<Longrightarrow> keyed m \<Longrightarrow> keyed g \<and> group_of g name = group_of m name @ share cfg name rs"
proof (induction cfg rs m rule: group_records.induct)
  case (2 cfg r rs m)
  then obtain ds where ds: "exporters_for cfg (signal r) = Inr ds"
    "group_records cfg rs (fold (\<lambda>d. entry_push (exp_name d) r) ds m) = Inr g"
    by (auto simp: res_bind_Inr_iff map_err_Inr_iff)
  then show ?case
    using 2 fold_push [OF 2(3), of exp_name r ds name] exporters_for_copies [OF ds(1), of name]
    by (auto simp: map_err_Inr_iff)
qed simp

lemma group_records_Inl:
  "(\<exists>e. group_records cfg rs m = Inl e) \<longleftrightarrow> (\<exists>r \<in> set rs. \<exists>e. exporters_for cfg (signal r) = Inl e)"
proof (induction cfg rs m rule: group_records.induct)
  case (2 cfg r rs m)
  then show ?case by (cases "exporters_for cfg (signal r)") auto
qed simp

section \<open>Retries\<close>

text \<open>The exporter after \<open>k\<close> calls, and the outcome of call number \<open>k\<close>, counted from 0.\<close>

fun after_calls :: "'x export_fn \<Rightarrow> telemetry_record list \<Rightarrow> nat \<Rightarrow> 'x \<Rightarrow> 'x" where
  "after_calls export batch 0 x = x"
| "after_calls export batch (Suc k) x = after_calls export batch k (snd (export batch x))"

definition outcome :: "'x export_fn \<Rightarrow> telemetry_record list \<Rightarrow> nat \<Rightarrow> 'x \<Rightarrow> export_outcome" where
  "outcome export batch k x = fst (export batch (after_calls export batch k x))"

lemma outcome_simps [simp]:
  "outcome export batch 0 x = fst (export batch x)"
  "outcome export batch (Suc k) x = outcome export batch k (snd (export batch x))"
  by (simp_all add: outcome_def)

definition accepted :: "export_outcome \<Rightarrow> bool" where
  "accepted out = (case out of Exported _ \<Rightarrow> True | _ \<Rightarrow> False)"

lemma accepted_simps [simp]:
  "accepted (Exported rep)" "\<not> accepted (ExportFailed err)" "\<not> accepted TimedOut"
  by (simp_all add: accepted_def)

lemma all_calls_Suc: "(\<forall>k < Suc n. \<not> accepted (outcome export batch k x)) \<longleftrightarrow>
    \<not> accepted (fst (export batch x)) \<and> (\<forall>k < n. \<not> accepted (outcome export batch k (snd (export batch x))))"
  by (metis less_Suc_eq_0_disj outcome_simps)

text \<open>A call that is not the last one allowed and does not succeed is followed by a pause and the next.\<close>

lemma export_with_retry_more:
  assumes "\<not> accepted (fst (export batch x))" and "attempt < max_attempts retry"
  shows "export_with_retry export name batch retry attempt x =
    (case export_with_retry export name batch retry (attempt + 1) (snd (export batch x)) of
       (r, sleeps, x') \<Rightarrow> (r, sleep_before_retry attempt retry # sleeps, x'))"
  using assms by (subst export_with_retry.simps) (auto split: prod.splits export_outcome.splits)

lemma export_with_retry_last:
  assumes "\<not> accepted (fst (export batch x))" and "\<not> attempt < max_attempts retry"
  shows "\<exists>e. export_with_retry export name batch retry attempt x = (Inl e, [], snd (export batch x))"
  using assms by (subst export_with_retry.simps) (auto split: prod.splits export_outcome.splits)

lemma export_with_retry_ok:
  "fst (export batch x) = Exported rep \<Longrightarrow>
   export_with_retry export name batch retry attempt x = (Inr rep, [], snd (export batch x))"
  by (subst export_with_retry.simps) (auto split: prod.splits)

lemma export_with_retry_spec:
  assumes "export_with_retry export name batch retry attempt x = (r, sleeps, x')"
  shows "sleeps = map (\<lambda>k. sleep_before_retry k retry) [attempt ..< attempt + length sleeps] \<and>
    x' = after_calls export batch (Suc (length sleeps)) x \<and>
    (\<forall>k < length sleeps. \<not> accepted (outcome export batch k x)) \<and>
    (case r of
       Inr rep \<Rightarrow> outcome export batch (length sleeps) x = Exported rep \<and>
         (sleeps = [] \<or> attempt + length sleeps \<le> max_attempts retry)
     | Inl e \<Rightarrow> \<not> accepted (outcome export batch (length sleeps) x) \<and>
         attempt + length sleeps = max attempt (max_attempts retry))"
  using assms
proof (induction "max_attempts retry - attempt" arbitrary: attempt x r sleeps)
  case 0
  show ?case
  proof (cases "fst (export batch x)")
    case (Exported rep)
    then show ?thesis using 0 export_with_retry_ok [of export batch x rep, OF Exported] by auto
  qed (use 0 export_with_retry_last [of export batch x attempt retry name] in \<open>auto simp: max_def\<close>)
next
  case (Suc n)
  show ?case
  proof (cases "accepted (fst (export batch x))")
    case True
    then obtain rep where rep: "fst (export batch x) = Exported rep"
      by (auto simp: accepted_def split: export_outcome.splits)
    show ?thesis using Suc.prems export_with_retry_ok [of export batch x rep, OF rep] rep by auto
  next
    case False
    have less: "attempt < max_attempts retry" using Suc.hyps(2) by simp
    obtain ss where ss: "export_with_retry export name batch retry (attempt + 1) (snd (export batch x)) = (r, ss, x')"
      "sleeps = sleep_before_retry attempt retry # ss"
      using Suc.prems export_with_retry_more [of export batch x, OF False less, of name] by (auto split: prod.splits)
    have ih: "n = max_attempts retry - (attempt + 1)" using Suc.hyps(2) by simp
    note * = Suc.hyps(1) [OF ih ss(1)]
    have ups: "[attempt ..< attempt + Suc (length ss)] = attempt # [attempt + 1 ..< attempt + 1 + length ss]"
      by (simp add: upt_conv_Cons del: upt_Suc)
    have "sleeps = map (\<lambda>k. sleep_before_retry k retry) [attempt ..< attempt + length sleeps]"
      using conjunct1 [OF *] ups ss(2) by (metis length_Cons list.map(2))
    with * less False show ?thesis by (auto simp: ss(2) all_calls_Suc max_def split: sum.splits)
  qed
qed

section \<open>Which batches an exporter has accepted\<close>

definition logged :: "'x export_fn \<Rightarrow> ('x \<times> telemetry_record list list) export_fn" where
  "logged export batch = (\<lambda>(x, log).
     (fst (export batch x), snd (export batch x),
      if accepted (fst (export batch x)) then log @ [batch] else log))"

lemma logged_simps:
  "fst (logged export batch (x, log)) = fst (export batch x)"
  "snd (logged export batch (x, log)) =
     (snd (export batch x), if accepted (fst (export batch x)) then log @ [batch] else log)"
  by (simp_all add: logged_def)

lemma logged_after:
  "(\<forall>i < k. \<not> accepted (outcome export batch i x)) \<Longrightarrow>
   after_calls (logged export) batch k (x, log) = (after_calls export batch k x, log)"
  by (induction k arbitrary: x) (auto simp: logged_simps all_calls_Suc)

lemma logged_outcome:
  "(\<forall>i < k. \<not> accepted (outcome export batch i x)) \<Longrightarrow>
   outcome (logged export) batch k (x, log) = outcome export batch k x"
  by (simp add: outcome_def logged_after logged_simps)

lemma after_calls_last: "after_calls export batch (Suc k) x = snd (export batch (after_calls export batch k x))"
  by (induction k arbitrary: x) auto

text \<open>The wrapper is transparent, and one call of \<^verbatim>\<open>export_with_retry\<close> adds the batch exactly when it succeeds.\<close>

lemma logged_rejections:
  "(\<forall>i < k. \<not> accepted (outcome (logged export) batch i (x, log))) \<longleftrightarrow>
   (\<forall>i < k. \<not> accepted (outcome export batch i x))"
proof (induction k)
  case (Suc k)
  then show ?case using logged_outcome [of k export batch x log] by (auto simp: less_Suc_eq)
qed simp

lemma export_with_retry_logged:
  assumes "export_with_retry (logged export) name batch retry n (x, log) = (r, sleeps, y)"
  shows "snd y = (if is_ok r then log @ [batch] else log)"
proof -
  note * = export_with_retry_spec [OF assms]
  let ?k = "length sleeps"
  have rej: "\<forall>i < ?k. \<not> accepted (outcome export batch i x)" using * logged_rejections [of ?k export batch x log] by simp
  note lo = logged_outcome [OF rej, of log] and la = logged_after [OF rej, of log]
  have y: "y = snd (logged export batch (after_calls export batch ?k x, log))"
    using * la by (simp only: after_calls_last)
  have "is_ok r \<longleftrightarrow> accepted (outcome export batch ?k x)" using * lo by (cases r) auto
  then show ?thesis by (simp add: y logged_simps outcome_def)
qed

type_synonym 'x log_map = "('x \<times> telemetry_record list list) exporter_map"

definition accepted_by :: "'x log_map \<Rightarrow> string \<Rightarrow> telemetry_record list list" where
  "accepted_by es name = (case es name of None \<Rightarrow> [] | Some (_, log) \<Rightarrow> log)"

lemma accepted_by_upd:
  "accepted_by (es(name \<mapsto> (x, log))) = (accepted_by es)(name := log)"
  by (simp add: accepted_by_def fun_eq_iff)

lemma export_groups_logged:
  assumes "export_groups (logged export) cfg g report es = (r, es')" and "keyed g"
  shows "dom es' = dom es \<and>
    (\<forall>name. accepted_by es' name =
       accepted_by es name @ (if group_of g name = [] then [] else [group_of g name]) \<or>
       \<not> is_ok r \<and> accepted_by es' name = accepted_by es name)"
  using assms
proof (induction g arbitrary: report es)
  case Nil
  then show ?case by auto
next
  case (Cons kv gs)
  obtain name records where kv: "kv = (name, records)" by (cases kv)
  note 2 = Cons [unfolded kv]
  show ?case
  proof (cases "es name")
    case None
    with 2(2) show ?thesis by (auto simp: kv)
  next
    case (Some xl)
    obtain x log where xl: "xl = (x, log)" by (cases xl)
    obtain r1 sleeps y where e: "export_with_retry (logged export) name records (retry_for cfg name) 1 (x, log) = (r1, sleeps, y)"
      by (metis prod_cases3)
    obtain x1 log1 where y: "y = (x1, log1)" by (cases y)
    note log1 = export_with_retry_logged [OF e, unfolded y snd_conv]
    have acc: "accepted_by es name = log" using Some xl by (simp add: accepted_by_def)
    have dom1: "dom (es(name \<mapsto> y)) = dom es" using Some by auto
    have gn: "group_of gs name = []" "records \<noteq> []" "keyed gs"
      using 2(3) by (auto intro!: group_of_absent)
    show ?thesis
    proof (cases r1)
      case (Inl e1)
      then have "r = Inl e1" "es' = es(name \<mapsto> y)" using 2(2) Some xl e by auto
      moreover from this have "accepted_by es' = accepted_by es" using Inl log1 acc y by (auto simp: accepted_by_upd)
      moreover have "dom es' = dom es" using dom1 calculation(2) by simp
      ultimately show ?thesis by (simp del: fun_upd_apply)
    next
      case (Inr er)
      define rep where "rep = report\<lparr>exported_records := add_u64 (exported_records report) (report_records er),
                         exported_bytes := add_u64 (exported_bytes report) (report_bytes er)\<rparr>"
      have step: "export_groups (logged export) cfg gs rep (es(name \<mapsto> y)) = (r, es')"
        using 2(2) Some xl e Inr by (simp add: rep_def)
      have ih: "dom es' = dom (es(name \<mapsto> y)) \<and> (\<forall>j. accepted_by es' j =
          accepted_by (es(name \<mapsto> y)) j @ (if group_of gs j = [] then [] else [group_of gs j]) \<or>
          \<not> is_ok r \<and> accepted_by es' j = accepted_by (es(name \<mapsto> y)) j)"
        using 2(1) [OF step gn(3)] .
      have upd: "accepted_by (es(name \<mapsto> y)) = (accepted_by es)(name := accepted_by es name @ [records])"
        using log1 Inr acc y by (simp add: accepted_by_upd)
      have "accepted_by es' j = accepted_by es j @ (if group_of (kv # gs) j = [] then [] else [group_of (kv # gs) j]) \<or>
          \<not> is_ok r \<and> accepted_by es' j = accepted_by es j" for j
        using spec [OF conjunct2 [OF ih], of j] gn by (cases "j = name") (auto simp: upd kv)
      with ih dom1 show ?thesis by simp
    qed
  qed
qed

text \<open>What \<^verbatim>\<open>export_records\<close> leaves in the logs, whether it succeeds or fails part way.\<close>

definition handed_out :: "pipeline_config \<Rightarrow> telemetry_record list \<Rightarrow> string \<Rightarrow> telemetry_record list list" where
  "handed_out cfg rs name = (if share cfg name rs = [] then [] else [share cfg name rs])"

lemma export_records_logged:
  assumes "export_records (logged export) cfg rs es = (r, es')"
  shows "dom es' = dom es \<and>
    (\<forall>name. accepted_by es' name = accepted_by es name @ handed_out cfg rs name \<or>
       \<not> is_ok r \<and> accepted_by es' name = accepted_by es name)"
proof (cases "group_records cfg rs []")
  case (Inl e)
  then show ?thesis using assms by (auto simp: export_records_def)
next
  case (Inr g)
  then have g: "keyed g" "\<And>name. group_of g name = share cfg name rs"
    using group_records_exact [OF Inr] by simp_all
  have "export_groups (logged export) cfg g default_flush_report es = (r, es')"
    using assms Inr by (simp add: export_records_def)
  from export_groups_logged [OF this g(1)] show ?thesis unfolding g(2) handed_out_def .
qed

end
