(* ===== verification/Runtime_Facts.thy ===== *)
theory Runtime_Facts
  imports Export_Delivery
begin

text \<open>
  Facts about the runtime: what ingest and flush do to the queue, how a batch is grouped by exporter,
  how often and after which pauses an export is tried.
\<close>

section \<open>Ingest\<close>

lemma on_queue_step: "m (rt_queue rt) = (r, q) \<Longrightarrow> on_queue m rt = (r, rt\<lparr>rt_queue := q\<rparr>)"
  by (simp add: on_queue_def zoom_act_def)

lemma upd_metrics_simps [simp]:
  "rt_queue (upd_metrics f rt) = rt_queue rt" "rt_config (upd_metrics f rt) = rt_config rt"
  "rt_processors (upd_metrics f rt) = rt_processors rt" "rt_exporters (upd_metrics f rt) = rt_exporters rt"
  "metrics (upd_metrics f rt) = f (metrics rt)" "exports_paused (upd_metrics f rt) = exports_paused rt"
  "config_generation (upd_metrics f rt) = config_generation rt"
  "flush_in_progress (upd_metrics f rt) = flush_in_progress rt"
  by (simp_all add: upd_metrics_def)

text \<open>The conditions under which a record is accepted, and the payload it becomes.\<close>

definition admissible :: "pipeline_config \<Rightarrow> disk_queue \<Rightarrow> telemetry_record \<Rightarrow> u8 list \<Rightarrow> bool" where
  "admissible cfg q r bs \<longleftrightarrow>
     validate_record (max_record_bytes (limits cfg)) r = Inr () \<and> encode r = Inr bs \<and>
     length bs \<le> u32_max \<and> queued_bytes q + (8 + length bs) \<le> max_queue_bytes (limits cfg)"

lemma ingest_inner_cases:
  assumes q: "queue_ok (rt_queue rt)" and lim: "max_queue_bytes (limits (rt_config rt)) < u64_max"
  shows "(\<exists>bs. admissible (rt_config rt) (rt_queue rt) r bs \<and>
           ingest_inner r rt = map_err_act QueueErr (on_queue (enqueue bs)) rt) \<or>
         ((\<nexists>bs. admissible (rt_config rt) (rt_queue rt) r bs) \<and> (\<exists>e. ingest_inner r rt = (Inl e, rt)))"
proof -
  let ?cfg = "rt_config rt" and ?q = "rt_queue rt"
  show ?thesis
  proof (cases "validate_record (max_record_bytes (limits ?cfg)) r")
    case (Inl e)
    then show ?thesis by (auto simp: ingest_inner_def admissible_def)
  next
    case v: (Inr u)
    show ?thesis
    proof (cases "encode r")
      case (Inl e)
      with v show ?thesis by (auto simp: ingest_inner_def admissible_def)
    next
      case e: (Inr bs)
      show ?thesis
      proof (cases "length bs \<le> u32_max")
        case False
        with v e show ?thesis by (auto simp: ingest_inner_def admissible_def storage_bytes_for_payload_def)
      next
        case small: True
        have add: "saturating_add_u64 (queued_bytes ?q) (8 + length bs) > max_queue_bytes (limits ?cfg) \<longleftrightarrow>
            queued_bytes ?q + (8 + length bs) > max_queue_bytes (limits ?cfg)"
          by (rule saturating_add_u64_gt_iff [OF lim])
        show ?thesis
          using v e small add
          by (cases "queued_bytes ?q + (8 + length bs) > max_queue_bytes (limits ?cfg)")
            (auto simp: ingest_inner_def admissible_def storage_bytes_for_payload_def)
      qed
    qed
  qed
qed

text \<open>An admissible record finds room on disk, as long as the quota is one that the file system can hold.\<close>

lemma admissible_room:
  assumes "sound_queue q" and "Suc (active_segment_id q) < u64_max"
    and "max_queue_bytes (limits cfg) \<le> max_offset" and "admissible cfg q r bs"
  shows "queue_room bs q"
  using assms queue_okD(6) [OF sound_queueD(1) [OF assms(1)]]
  by (auto simp: queue_room_def has_room_def admissible_def fits_u32_def)

lemma enqueue_bytes:
  assumes "sound_queue q" and "queue_room bs q" and "enqueue bs q = (Inr (), q')"
  shows "queued_bytes q' = queued_bytes q + (8 + length bs)"
proof -
  have "has_room bs q" using assms(2) by (simp add: queue_room_def)
  then have "enqueue bs q = (Inr (), enqueued bs q)" "queued_bytes (enqueued bs q) = queued_bytes q + (8 + length bs)"
    using enqueue_ok [OF sound_queueD(1) [OF assms(1)]] enqueued_ok(5) [OF sound_queueD(1) [OF assms(1)]] by auto
  then show ?thesis using assms(3) by simp
qed

section \<open>Processing a batch\<close>

lemma chain_process_total:
  "\<exists>d c'. chain_process clock r c = (Inr d, c') \<and> (\<forall>r'. d = Some r' \<longrightarrow> censored r r')"
proof -
  obtain d ps where run: "run_processors clock r (chain_processors c) = (Inr d, ps)"
    using run_processors_total by (metis prod.collapse)
  then show ?thesis
    by (cases d) (auto simp: chain_process_def dest: run_processors_censored)
qed

lemma process_payloads_Cons:
  "decode p = Inr r \<Longrightarrow> chain_process (clock 0) r c = (Inr d, c') \<Longrightarrow>
   process_payloads clock (p # ps) c =
     bind_act (process_payloads (\<lambda>i. clock (Suc i)) ps) (\<lambda>(rs, n).
       ok_act (case d of Some r' \<Rightarrow> (r' # rs, n) | None \<Rightarrow> (rs, n + 1))) c'"
  by (simp add: bind_act_def map_err_act_def)

text \<open>With payloads that decode, processing always succeeds; every record is passed on or counted.\<close>

lemma process_payloads_total:
  "\<forall>p \<in> set ps. \<exists>r. decode p = Inr r \<Longrightarrow>
   \<exists>rs n c'. process_payloads clock ps c = (Inr (rs, n), c') \<and> length rs + n = length ps \<and>
     (\<forall>r' \<in> set rs. \<exists>p \<in> set ps. \<exists>r. decode p = Inr r \<and> censored r r')"
proof (induction ps arbitrary: clock c)
  case (Cons p ps)
  then obtain r where r: "decode p = Inr r" by auto
  obtain d c1 where d: "chain_process (clock 0) r c = (Inr d, c1)" "\<forall>r'. d = Some r' \<longrightarrow> censored r r'"
    using chain_process_total by blast
  obtain rs n c' where ih: "process_payloads (\<lambda>i. clock (Suc i)) ps c1 = (Inr (rs, n), c')" "length rs + n = length ps"
    "\<forall>r' \<in> set rs. \<exists>p \<in> set ps. \<exists>r. decode p = Inr r \<and> censored r r'" using Cons by force
  show ?case
    using ih d r unfolding process_payloads_Cons [where clock = clock, OF r d(1)] by (cases d) (auto simp: bind_act_def)
qed simp

lemma process_payloads_length:
  assumes "process_payloads clock ps c = (Inr (rs, n), c')"
  shows "length rs + n = length ps"
proof -
  have "\<forall>p \<in> set ps. \<exists>r. decode p = Inr r"
    using assms
  proof (induction ps arbitrary: clock c rs n c')
    case (Cons p ps)
    then show ?case by (fastforce simp: bind_act_Inr_iff map_err_Inr_iff)
  qed simp
  from process_payloads_total [OF this, of clock c] assms show ?thesis by auto
qed

section \<open>The exclusive flush\<close>

lemma on_queue_same: "m (rt_queue rt) = (r, rt_queue rt) \<Longrightarrow> on_queue m rt = (r, rt)"
  by (simp add: on_queue_step)

lemma export_records_Nil: "export_records export cfg [] es = (Inr default_flush_report, es)"
  by (simp add: export_records_def)

definition after_export :: "processor_chain \<Rightarrow> 'x exporter_map \<Rightarrow> 'x agent_runtime \<Rightarrow> 'x agent_runtime" where
  "after_export c es rt = rt\<lparr>rt_processors := c, rt_exporters := es\<rparr>"

lemma after_export_simps [simp]:
  "rt_queue (after_export c es rt) = rt_queue rt" "rt_config (after_export c es rt) = rt_config rt"
  "rt_processors (after_export c es rt) = c" "rt_exporters (after_export c es rt) = es"
  "metrics (after_export c es rt) = metrics rt" "exports_paused (after_export c es rt) = exports_paused rt"
  by (simp_all add: after_export_def)

lemma after_export_same: "after_export (rt_processors rt) (rt_exporters rt) rt = rt"
  by (simp add: after_export_def)

text \<open>
  On a sound queue a flush is determined by what the processors and the exporters do with the next
  \<open>n\<close> payloads; only when both succeed does the queue change, and then by exactly those payloads.
\<close>

lemma flush_inner_eq:
  fixes n :: usize and rt :: "'x agent_runtime"
  assumes s: "sound_queue (rt_queue rt)"
  defines "ps \<equiv> take n (pending (rt_queue rt))"
  shows "case process_payloads clock ps (rt_processors rt) of
      (Inl e, c') \<Rightarrow> flush_inner export clock n rt = (Inl e, after_export c' (rt_exporters rt) rt)
    | (Inr (rs, d), c') \<Rightarrow>
        (case export_records export (rt_config rt) rs (rt_exporters rt) of
           (Inl e, es') \<Rightarrow> flush_inner export clock n rt = (Inl e, after_export c' es' rt)
         | (Inr er, es') \<Rightarrow> \<exists>q'. sound_queue q' \<and> pending q' = drop n (pending (rt_queue rt)) \<and>
             flush_inner export clock n rt =
               (Inr \<lparr>drained_records = length ps, exported_records = add_u64 0 (exported_records er),
                     report_dropped_records = d, exported_bytes = add_u64 0 (exported_bytes er)\<rparr>,
                (after_export c' es' rt)\<lparr>rt_queue := q'\<rparr>))"
proof -
  obtain b where b: "read_batch n (rt_queue rt) = (Inr b, rt_queue rt)" "batch_held b (rt_queue rt)" "payloads b = ps"
    using sound_read [OF s, of n] by (auto simp: ps_def)
  obtain q' where q': "commit_batch b (rt_queue rt) = (Inr (length (payloads b)), q')" "sound_queue q'"
    "pending (rt_queue rt) = payloads b @ pending q'" using sound_commit [OF s b(2)] by blast
  have pq: "pending q' = drop n (pending (rt_queue rt))"
    using q'(3) unfolding b(3) ps_def by (metis append_take_drop_id same_append_eq)
  have read: "on_queue (read_batch n) rt = (Inr b, rt)" by (rule on_queue_same) (rule b(1))
  show ?thesis
  proof (cases "ps = []")
    case True
    then have "flush_inner export clock n rt = (Inr (default_flush_report\<lparr>drained_records := 0\<rparr>), rt\<lparr>rt_queue := q'\<rparr>)"
      using on_queue_step [where m = "commit_batch b" and rt = rt, OF q'(1)]
      by (simp add: flush_inner_def read b(3) Let_def seq_act_def bind_act_def)
    then show ?thesis
      using True q'(2) pq
      by (auto simp: export_records_Nil after_export_same default_flush_report_def add_u64_def intro!: exI [of _ q'])
  next
    case False
    obtain r1 c' where pr: "process_payloads clock ps (rt_processors rt) = (r1, c')" by (cases "process_payloads clock ps (rt_processors rt)")
    have pr': "on_processors (process_payloads clock ps) rt = (r1, rt\<lparr>rt_processors := c'\<rparr>)"
      by (simp add: on_processors_def zoom_act_def pr)
    show ?thesis
    proof (cases r1)
      case (Inl e)
      then show ?thesis
        using False pr pr' by (simp add: flush_inner_def read b(3) Let_def bind_act_def after_export_def)
    next
      case (Inr rd)
      obtain rs d where rd: "rd = (rs, d)" by (cases rd)
      obtain r2 es' where ex: "export_records export (rt_config rt) rs (rt_exporters rt) = (r2, es')"
        by (cases "export_records export (rt_config rt) rs (rt_exporters rt)")
      have ex': "on_exporters (export_records export (rt_config rt) rs) (rt\<lparr>rt_processors := c'\<rparr>) =
          (r2, after_export c' es' rt)"
        by (simp add: on_exporters_def zoom_act_def ex after_export_def)
      have cm: "on_queue (commit_batch b) (after_export c' es' rt) = (Inr (length ps), (after_export c' es' rt)\<lparr>rt_queue := q'\<rparr>)"
        by (rule on_queue_step) (simp add: q'(1) b(3))
      show ?thesis
        using False Inr rd pr pr' ex ex' cm q'(2) pq
        by (cases r2) (auto simp: flush_inner_def read b(3) Let_def bind_act_def seq_act_def default_flush_report_def)
    qed
  qed
qed

end
