(* ===== verification/Shared_Flush.thy ===== *)
theory Shared_Flush
  imports Runtime_Facts
begin

text \<open>
  The flush of a runtime behind a mutex (\<^verbatim>\<open>flush_shared\<close> and \<^verbatim>\<open>flush_for_shutdown_shared\<close> of
  \<^verbatim>\<open>runtime.rs\<close>). The lock is held while a batch is prepared and again while it is committed, not while
  it is exported; meanwhile other tasks ingest, reload, pause, or flush. Each section under the lock
  is one definition here, and \<open>shared_step\<close> interleaves them.
\<close>

section \<open>The sections under the lock\<close>

record 'x prepared_flush =
  pf_batch :: pending_batch
  pf_report :: flush_report
  pf_config :: pipeline_config
  pf_exporters :: "'x exporter_map"
  pf_generation :: u64
  pf_records :: "telemetry_record list"

datatype 'x prepared_flush_state = EmptyFlush flush_report | ReadyFlush "'x prepared_flush"

text \<open>\<^verbatim>\<open>std::mem::take\<close> leaves an empty map of exporters behind.\<close>

definition take_exporters :: "('x, 'x exporter_map) flush_act" where
  "take_exporters rt = (Inr (rt_exporters rt), rt\<lparr>rt_exporters := Map.empty\<rparr>)"

definition prepare_flush_work :: "batch_clock \<Rightarrow> usize \<Rightarrow> ('x, 'x prepared_flush_state) flush_act" where
  "prepare_flush_work clock max_items =
     bind_act (on_queue (read_batch max_items)) (\<lambda>batch.
     let report = default_flush_report\<lparr>drained_records := length (payloads batch)\<rparr> in
     if payloads batch = [] then seq_act (on_queue (commit_batch batch)) (ok_act (EmptyFlush report))
     else
       bind_act (on_processors (process_payloads clock (payloads batch))) (\<lambda>(records, dropped).
       bind_act (get_act rt_config) (\<lambda>cfg.
       bind_act take_exporters (\<lambda>es.
       bind_act (get_act config_generation) (\<lambda>generation.
       ok_act (ReadyFlush
         \<lparr>pf_batch = batch, pf_report = report\<lparr>report_dropped_records := dropped\<rparr>, pf_config = cfg,
          pf_exporters = es, pf_generation = generation, pf_records = records\<rparr>))))))"

text \<open>
  One round of the loop of \<^verbatim>\<open>prepare_shared_flush\<close>: either it returns, or another flush is in progress
  and the task sleeps and tries again.
\<close>

datatype 'x prepare_round = Returned "disk_queue_error + 'x prepared_flush option" | TryAgain

definition prepare_shared_flush ::
  "batch_clock \<Rightarrow> usize \<Rightarrow> bool \<Rightarrow> 'x agent_runtime \<Rightarrow> 'x prepare_round \<times> 'x agent_runtime" where
  "prepare_shared_flush clock max_items force_unpaused rt =
     (if exports_paused rt \<and> \<not> force_unpaused then (Returned (Inr None), rt)
      else if flush_in_progress rt then (TryAgain, rt)
      else
        (case prepare_flush_work clock max_items (upd_metrics (\<lambda>m.
                 m\<lparr>flush_attempts_total := add_u64 (flush_attempts_total m) 1\<rparr>) rt) of
           (Inr (EmptyFlush report), rt') \<Rightarrow> (Returned (Inr None), record_flush_success report rt')
         | (Inr (ReadyFlush prepared), rt') \<Rightarrow> (Returned (Inr (Some prepared)), rt'\<lparr>flush_in_progress := True\<rparr>)
         | (Inl err, rt') \<Rightarrow> (Returned (Inl err), record_flush_failure rt')))"

text \<open>The end of \<^verbatim>\<open>flush_shared_inner\<close>, with the result of \<^verbatim>\<open>export_records\<close> and the exporters after it.\<close>

definition finish_shared_flush ::
  "'x prepared_flush \<Rightarrow> disk_queue_error + flush_report \<Rightarrow> 'x exporter_map \<Rightarrow> ('x, flush_report) flush_act" where
  "finish_shared_flush pf export_result es rt =
     (let rt1 = (if config_generation rt = pf_generation pf then rt\<lparr>rt_exporters := es\<rparr> else rt);
          rt2 = rt1\<lparr>flush_in_progress := False\<rparr> in
      case export_result of
        Inr er \<Rightarrow>
          let report = (pf_report pf)\<lparr>exported_records := add_u64 (exported_records (pf_report pf)) (exported_records er),
                                      exported_bytes := add_u64 (exported_bytes (pf_report pf)) (exported_bytes er)\<rparr> in
          (case on_queue (commit_batch (pf_batch pf)) rt2 of
             (Inr _, rt3) \<Rightarrow> (Inr report, record_flush_success report rt3)
           | (Inl err, rt3) \<Rightarrow> (Inl err, record_flush_failure rt3))
      | Inl err \<Rightarrow> (Inl err, record_flush_failure rt2))"

section \<open>Uninterrupted\<close>

text \<open>
  \<^verbatim>\<open>flush_shared_inner\<close> with no other task in between; \<open>None\<close> when the flag of another flush is set, for then
  the loop waits for that flush.
\<close>

definition flush_shared_inner ::
  "'x export_fn \<Rightarrow> batch_clock \<Rightarrow> usize \<Rightarrow> bool \<Rightarrow> 'x agent_runtime \<Rightarrow>
   ((disk_queue_error + flush_report) \<times> 'x agent_runtime) option" where
  "flush_shared_inner export clock max_items force_unpaused rt =
     (case prepare_shared_flush clock max_items force_unpaused rt of
        (TryAgain, _) \<Rightarrow> None
      | (Returned (Inl err), rt1) \<Rightarrow> Some (Inl err, rt1)
      | (Returned (Inr None), rt1) \<Rightarrow> Some (Inr default_flush_report, rt1)
      | (Returned (Inr (Some pf)), rt1) \<Rightarrow>
          (case export_records export (pf_config pf) (pf_records pf) (pf_exporters pf) of
             (export_result, es) \<Rightarrow> Some (finish_shared_flush pf export_result es rt1)))"

definition flush_shared ::
  "'x export_fn \<Rightarrow> batch_clock \<Rightarrow> usize \<Rightarrow> 'x agent_runtime \<Rightarrow>
   ((disk_queue_error + flush_report) \<times> 'x agent_runtime) option" where
  "flush_shared export clock max_items = flush_shared_inner export clock max_items False"

definition flush_for_shutdown_shared ::
  "'x export_fn \<Rightarrow> batch_clock \<Rightarrow> usize \<Rightarrow> 'x agent_runtime \<Rightarrow>
   ((disk_queue_error + flush_report) \<times> 'x agent_runtime) option" where
  "flush_for_shutdown_shared export clock max_items = flush_shared_inner export clock max_items True"

definition flush_for_shutdown :: "'x export_fn \<Rightarrow> batch_clock \<Rightarrow> usize \<Rightarrow> ('x, flush_report) flush_act" where
  "flush_for_shutdown export clock max_items rt =
     (let was_paused = exports_paused rt in
      case flush_unpaused export clock max_items (rt\<lparr>exports_paused := False\<rparr>) of
        (result, rt') \<Rightarrow> (result, rt'\<lparr>exports_paused := was_paused\<rparr>))"

section \<open>Tasks\<close>

text \<open>
  A flush task waits for its turn, exports, or has returned. A world is the runtime behind the lock,
  the tasks, and an account of the payloads that were accepted and of those that were committed.
\<close>

datatype 'x flush_task =
  Waiting usize bool
| Exporting "'x prepared_flush"
| Finished "disk_queue_error + flush_report"

record 'x world =
  runtime :: "'x agent_runtime"
  tasks :: "nat \<Rightarrow> 'x flush_task option"
  taken_in :: "u8 list list"
  committed :: "u8 list list"

text \<open>
  The steps. Each is one section under the lock; an export itself happens between the two sections of
  its task. The guards on \<open>ingest\<close> and \<open>reload\<close> bound counters only: segment identifiers and generations
  stay below the end of their range, and the quota below the largest file offset.
\<close>

inductive shared_step :: "'x build_fn \<Rightarrow> 'x export_fn \<Rightarrow> 'x world \<Rightarrow> 'x world \<Rightarrow> bool" for build export where
  spawn: "tasks w i = None \<Longrightarrow>
    shared_step build export w (w\<lparr>tasks := (tasks w)(i \<mapsto> Waiting n force)\<rparr>)"
| busy: "tasks w i = Some (Waiting n force) \<Longrightarrow> prepare_shared_flush clock n force (runtime w) = (TryAgain, rt') \<Longrightarrow>
    shared_step build export w (w\<lparr>runtime := rt'\<rparr>)"
| prepare: "tasks w i = Some (Waiting n force) \<Longrightarrow>
    prepare_shared_flush clock n force (runtime w) = (Returned (Inr (Some pf)), rt') \<Longrightarrow>
    shared_step build export w (w\<lparr>runtime := rt', tasks := (tasks w)(i \<mapsto> Exporting pf)\<rparr>)"
| nothing: "tasks w i = Some (Waiting n force) \<Longrightarrow>
    prepare_shared_flush clock n force (runtime w) = (Returned (Inr None), rt') \<Longrightarrow>
    shared_step build export w (w\<lparr>runtime := rt', tasks := (tasks w)(i \<mapsto> Finished (Inr default_flush_report))\<rparr>)"
| give_up: "tasks w i = Some (Waiting n force) \<Longrightarrow>
    prepare_shared_flush clock n force (runtime w) = (Returned (Inl err), rt') \<Longrightarrow>
    shared_step build export w (w\<lparr>runtime := rt', tasks := (tasks w)(i \<mapsto> Finished (Inl err))\<rparr>)"
| finish: "tasks w i = Some (Exporting pf) \<Longrightarrow>
    export_records export (pf_config pf) (pf_records pf) (pf_exporters pf) = (result, es) \<Longrightarrow>
    finish_shared_flush pf result es (runtime w) = (out, rt') \<Longrightarrow>
    shared_step build export w
      (w\<lparr>runtime := rt', tasks := (tasks w)(i \<mapsto> Finished out),
         committed := committed w @ (if is_ok out then payloads (pf_batch pf) else [])\<rparr>)"
| ingest: "Suc (active_segment_id (rt_queue (runtime w))) < u64_max \<Longrightarrow> ingest r (runtime w) = (res, rt') \<Longrightarrow>
    shared_step build export w
      (w\<lparr>runtime := rt', taken_in := taken_in w @ (case (res, encode r) of (Inr _, Inr bs) \<Rightarrow> [bs] | _ \<Rightarrow> [])\<rparr>)"
| reload: "config_generation (runtime w) < u64_max \<Longrightarrow> max_queue_bytes (limits cfg) \<le> max_offset \<Longrightarrow>
    reload_config build cfg (runtime w) = (res, rt') \<Longrightarrow>
    shared_step build export w (w\<lparr>runtime := rt'\<rparr>)"
| pause: "shared_step build export w (w\<lparr>runtime := pause_exports (runtime w)\<rparr>)"
| resume: "shared_step build export w (w\<lparr>runtime := resume_exports (runtime w)\<rparr>)"

section \<open>Alone, a shared flush is the exclusive one\<close>

lemma on_queue_eq: "on_queue m rt = (case m (rt_queue rt) of (r, q) \<Rightarrow> (r, rt\<lparr>rt_queue := q\<rparr>))"
  by (simp add: on_queue_def zoom_act_def)

lemma on_processors_eq: "on_processors m rt = (case m (rt_processors rt) of (r, c) \<Rightarrow> (r, rt\<lparr>rt_processors := c\<rparr>))"
  by (simp add: on_processors_def zoom_act_def)

lemma on_exporters_eq: "on_exporters m rt = (case m (rt_exporters rt) of (r, es) \<Rightarrow> (r, rt\<lparr>rt_exporters := es\<rparr>))"
  by (simp add: on_exporters_def zoom_act_def)

lemmas section_simps = on_queue_eq on_processors_eq on_exporters_eq bind_act_def seq_act_def Let_def take_exporters_def

lemma shared_alone_unpaused:
  assumes idle: "\<not> flush_in_progress rt" and go: "\<not> exports_paused rt \<or> force"
  shows "flush_shared_inner export clock n force rt = Some (flush_unpaused export clock n rt)"
proof -
  let ?rt = "upd_metrics (\<lambda>m. m\<lparr>flush_attempts_total := add_u64 (flush_attempts_total m) 1\<rparr>) rt"
  obtain rb q1 where rb: "read_batch n (rt_queue rt) = (rb, q1)" by (cases "read_batch n (rt_queue rt)")
  show ?thesis
  proof (cases rb)
    case (Inl e)
    then show ?thesis
      using idle go rb
      by (simp add: flush_shared_inner_def prepare_shared_flush_def prepare_flush_work_def flush_unpaused_def flush_inner_def section_simps)
  next
    case b: (Inr b)
    obtain rc q2 where rc: "commit_batch b q1 = (rc, q2)" by (cases "commit_batch b q1")
    obtain rp c1 where rp: "process_payloads clock (payloads b) (rt_processors rt) = (rp, c1)"
      by (cases "process_payloads clock (payloads b) (rt_processors rt)")
    show ?thesis
    proof (cases "payloads b = []")
      case True
      then show ?thesis
        using idle go rb b rc
        by (cases rc) (auto simp: flush_shared_inner_def prepare_shared_flush_def prepare_flush_work_def
            flush_unpaused_def flush_inner_def section_simps default_flush_report_def)
    next
      case False
      show ?thesis
      proof (cases rp)
        case (Inl e)
        then show ?thesis
          using idle go rb b False rp
          by (simp add: flush_shared_inner_def prepare_shared_flush_def prepare_flush_work_def flush_unpaused_def flush_inner_def section_simps)
      next
        case (Inr rd)
        obtain rs d where rd: "rd = (rs, d)" by (cases rd)
        obtain re es where re: "export_records export (rt_config rt) rs (rt_exporters rt) = (re, es)"
          by (cases "export_records export (rt_config rt) rs (rt_exporters rt)")
        show ?thesis
          using idle go rb b False rp Inr rd re rc
          by (cases re; cases rc) (simp_all add: flush_shared_inner_def prepare_shared_flush_def prepare_flush_work_def
              flush_unpaused_def flush_inner_def finish_shared_flush_def section_simps
              record_flush_success_def record_flush_failure_def default_flush_report_def upd_metrics_def)
      qed
    qed
  qed
qed

lemma flush_unpaused_paused_frame:
  "flush_unpaused export clock n (rt\<lparr>exports_paused := p\<rparr>) =
     (case flush_unpaused export clock n rt of (r, rt') \<Rightarrow> (r, rt'\<lparr>exports_paused := p\<rparr>))"
proof -
  obtain rb q1 where rb: "read_batch n (rt_queue rt) = (rb, q1)" by (cases "read_batch n (rt_queue rt)")
  show ?thesis
  proof (cases rb)
    case (Inl e)
    with rb show ?thesis by (simp add: flush_unpaused_def flush_inner_def section_simps record_flush_failure_def upd_metrics_def)
  next
    case b: (Inr b)
    obtain rc q2 where rc: "commit_batch b q1 = (rc, q2)" by (cases "commit_batch b q1")
    obtain rp c1 where rp: "process_payloads clock (payloads b) (rt_processors rt) = (rp, c1)"
      by (cases "process_payloads clock (payloads b) (rt_processors rt)")
    show ?thesis
    proof (cases "payloads b = [] \<or> (\<exists>e. rp = Inl e)")
      case True
      then show ?thesis using rb b rc rp
        by (cases rc) (auto simp: flush_unpaused_def flush_inner_def section_simps record_flush_failure_def
            record_flush_success_def upd_metrics_def)
    next
      case False
      then obtain rs d where rd: "rp = Inr (rs, d)" by (cases rp) auto
      obtain re es where re: "export_records export (rt_config rt) rs (rt_exporters rt) = (re, es)"
        by (cases "export_records export (rt_config rt) rs (rt_exporters rt)")
      show ?thesis
        using rb b rc rp rd re False
        by (cases re; cases rc) (simp_all add: flush_unpaused_def flush_inner_def section_simps record_flush_failure_def
            record_flush_success_def upd_metrics_def)
    qed
  qed
qed

section \<open>The invariant of the interleaving\<close>

lemma export_groups_dom: "export_groups export cfg g report es = (r, es') \<Longrightarrow> dom es' = dom es"
proof (induction g arbitrary: report es)
  case (Cons kv gs)
  obtain name records where kv: "kv = (name, records)" by (cases kv)
  show ?case
  proof (cases "es name")
    case None
    then show ?thesis using Cons.prems by (simp add: kv)
  next
    case (Some x)
    then have upd: "dom (es(name \<mapsto> y)) = dom es" for y by auto
    obtain r1 sleeps y where e: "export_with_retry export name records (retry_for cfg name) 1 x = (r1, sleeps, y)"
      by (metis prod_cases3)
    show ?thesis
    proof (cases r1)
      case (Inl e1)
      then have "es' = es(name \<mapsto> y)" using Cons.prems Some e by (simp add: kv)
      then show ?thesis by (simp only: upd)
    next
      case (Inr er)
      then have "dom es' = dom (es(name \<mapsto> y))"
        using Cons.prems Some e by (intro Cons.IH) (simp add: kv del: fun_upd_apply)
      then show ?thesis by (simp only: upd)
    qed
  qed
qed simp

lemma export_records_dom: "export_records export cfg rs es = (r, es') \<Longrightarrow> dom es' = dom es"
  using export_groups_dom [of export cfg _ default_flush_report es r es']
  by (cases "group_records cfg rs []") (simp_all add: export_records_def)

definition exporter_names :: "pipeline_config \<Rightarrow> string set" where
  "exporter_names cfg = set (map exp_name (exporters cfg))"

text \<open>What a task that is exporting owns: a batch it may commit, and the exporters, unless a reload has
  made new ones in the meantime.\<close>

definition task_ok :: "'x agent_runtime \<Rightarrow> 'x prepared_flush \<Rightarrow> bool" where
  "task_ok rt pf \<longleftrightarrow> batch_held (pf_batch pf) (rt_queue rt) \<and> pf_generation pf \<le> config_generation rt \<and>
     (if pf_generation pf = config_generation rt
      then pf_config pf = rt_config rt \<and> dom (pf_exporters pf) = exporter_names (rt_config rt)
      else dom (rt_exporters rt) = exporter_names (rt_config rt))"

definition one_exporting :: "(nat \<Rightarrow> 'x flush_task option) \<Rightarrow> bool" where
  "one_exporting ts \<longleftrightarrow> (\<forall>i j pf pf'. ts i = Some (Exporting pf) \<and> ts j = Some (Exporting pf') \<longrightarrow> i = j)"

definition runtime_ok :: "'x agent_runtime \<Rightarrow> bool" where
  "runtime_ok rt \<longleftrightarrow> sound_queue (rt_queue rt) \<and> max_queue_bytes (limits (rt_config rt)) \<le> max_offset \<and>
     (\<not> flush_in_progress rt \<longrightarrow> dom (rt_exporters rt) = exporter_names (rt_config rt))"

definition world_ok :: "u8 list list \<Rightarrow> 'x world \<Rightarrow> bool" where
  "world_ok start w \<longleftrightarrow> runtime_ok (runtime w) \<and>
     start @ taken_in w = committed w @ pending (rt_queue (runtime w)) \<and>
     (flush_in_progress (runtime w) \<longleftrightarrow> (\<exists>i pf. tasks w i = Some (Exporting pf))) \<and> one_exporting (tasks w) \<and>
     (\<forall>i pf. tasks w i = Some (Exporting pf) \<longrightarrow> task_ok (runtime w) pf)"

definition idle_world :: "'x agent_runtime \<Rightarrow> 'x world" where
  "idle_world rt = \<lparr>runtime = rt, tasks = Map.empty, taken_in = [], committed = []\<rparr>"

text \<open>Replacing the state of a task that does not export by another such state.\<close>

lemma exporting_upd:
  assumes "\<forall>pf. ts i \<noteq> Some (Exporting pf)" and "\<forall>pf. t \<noteq> Exporting pf"
  shows "(ts(i \<mapsto> t)) j = Some (Exporting pf) \<longleftrightarrow> ts j = Some (Exporting pf)"
  using assms by auto

lemma one_exporting_upd:
  assumes "\<forall>pf. ts i \<noteq> Some (Exporting pf)" and "\<forall>pf. t \<noteq> Exporting pf"
  shows "one_exporting (ts(i \<mapsto> t)) \<longleftrightarrow> one_exporting ts"
  unfolding one_exporting_def exporting_upd [of ts i t, OF assms] ..

lemma prepare_cases:
  assumes s: "sound_queue (rt_queue rt)"
    and p: "prepare_shared_flush clock n force rt = (out, rt')"
  shows "(out = TryAgain \<or> out = Returned (Inr None)) \<and> rt' = rt \<or>
    (\<not> flush_in_progress rt \<and> \<not> flush_in_progress rt' \<and> (\<forall>pf. out \<noteq> Returned (Inr (Some pf))) \<and> out \<noteq> TryAgain \<and>
       sound_queue (rt_queue rt') \<and> pending (rt_queue rt') = pending (rt_queue rt) \<and>
       rt_config rt' = rt_config rt \<and> rt_exporters rt' = rt_exporters rt \<and> config_generation rt' = config_generation rt) \<or>
    (\<exists>pf. out = Returned (Inr (Some pf)) \<and> \<not> flush_in_progress rt \<and> flush_in_progress rt' \<and> rt_queue rt' = rt_queue rt \<and>
       rt_config rt' = rt_config rt \<and> config_generation rt' = config_generation rt \<and>
       batch_held (pf_batch pf) (rt_queue rt) \<and> payloads (pf_batch pf) = take n (pending (rt_queue rt)) \<and>
       pf_config pf = rt_config rt \<and> pf_exporters pf = rt_exporters rt \<and> pf_generation pf = config_generation rt)"
proof -
  obtain b where b: "read_batch n (rt_queue rt) = (Inr b, rt_queue rt)" "batch_held b (rt_queue rt)"
    "payloads b = take n (pending (rt_queue rt))" using sound_read [OF s] by blast
  obtain q' where q': "commit_batch b (rt_queue rt) = (Inr (length (payloads b)), q')" "sound_queue q'"
    "pending (rt_queue rt) = payloads b @ pending q'" using sound_commit [OF s b(2)] by blast
  obtain rp c1 where rp: "process_payloads clock (payloads b) (rt_processors rt) = (rp, c1)"
    by (cases "process_payloads clock (payloads b) (rt_processors rt)")
  consider "exports_paused rt \<and> \<not> force \<or> flush_in_progress rt" | "\<not> (exports_paused rt \<and> \<not> force)" "\<not> flush_in_progress rt" by blast
  then show ?thesis
  proof cases
    case 1
    then have "rt' = rt" "out = TryAgain \<or> out = Returned (Inr None)"
      using p unfolding prepare_shared_flush_def by (metis Pair_inject)+
    then show ?thesis by simp
  next
    case 2
    show ?thesis
    proof (cases "payloads b = []")
      case True
      with 2 b(1) q'(1) have "\<exists>m. prepare_shared_flush clock n force rt = (Returned (Inr None), rt\<lparr>rt_queue := q', metrics := m\<rparr>)"
        by (auto simp: prepare_shared_flush_def prepare_flush_work_def section_simps record_flush_success_def upd_metrics_def)
      then have "out = Returned (Inr None)" "\<exists>m. rt' = rt\<lparr>rt_queue := q', metrics := m\<rparr>" using p by auto
      then show ?thesis using 2 q' True by (intro disjI2 disjI1) auto
    next
      case False
      show ?thesis
      proof (cases rp)
        case (Inl e)
        with False 2 b(1) rp have "\<exists>m. prepare_shared_flush clock n force rt = (Returned (Inl e), rt\<lparr>rt_processors := c1, metrics := m\<rparr>)"
          by (auto simp: prepare_shared_flush_def prepare_flush_work_def section_simps record_flush_failure_def upd_metrics_def)
        then have "out = Returned (Inl e)" "\<exists>m. rt' = rt\<lparr>rt_processors := c1, metrics := m\<rparr>" using p by auto
        then show ?thesis using 2 s by (intro disjI2 disjI1) auto
      next
        case (Inr rd)
        with False 2 b(1) rp have "\<exists>pf m. prepare_shared_flush clock n force rt =
            (Returned (Inr (Some pf)), rt\<lparr>metrics := m, rt_processors := c1, rt_exporters := Map.empty, flush_in_progress := True\<rparr>) \<and>
            pf_batch pf = b \<and> pf_config pf = rt_config rt \<and> pf_exporters pf = rt_exporters rt \<and> pf_generation pf = config_generation rt"
          by (cases rd) (auto simp: prepare_shared_flush_def prepare_flush_work_def section_simps upd_metrics_def)
        then obtain pf m where "out = Returned (Inr (Some pf))"
          "rt' = rt\<lparr>metrics := m, rt_processors := c1, rt_exporters := Map.empty, flush_in_progress := True\<rparr>"
          "pf_batch pf = b" "pf_config pf = rt_config rt" "pf_exporters pf = rt_exporters rt" "pf_generation pf = config_generation rt"
          using p by auto
        then show ?thesis using 2 b by (intro disjI2 exI [of _ pf]) simp
      qed
    qed
  qed
qed

lemma finish_cases:
  assumes s: "sound_queue (rt_queue rt)" and h: "batch_held (pf_batch pf) (rt_queue rt)"
    and f: "finish_shared_flush pf result es rt = (out, rt')"
  shows "sound_queue (rt_queue rt') \<and> is_ok out = is_ok result \<and> \<not> flush_in_progress rt' \<and> rt_config rt' = rt_config rt \<and>
    config_generation rt' = config_generation rt \<and>
    pending (rt_queue rt) = (if is_ok out then payloads (pf_batch pf) else []) @ pending (rt_queue rt') \<and>
    rt_exporters rt' = (if config_generation rt = pf_generation pf then es else rt_exporters rt)"
proof -
  obtain q' where q': "commit_batch (pf_batch pf) (rt_queue rt) = (Inr (length (payloads (pf_batch pf))), q')" "sound_queue q'"
    "pending (rt_queue rt) = payloads (pf_batch pf) @ pending q'" using sound_commit [OF s h] by blast
  then show ?thesis
    using f s by (cases result; cases "config_generation rt = pf_generation pf") (auto simp: finish_shared_flush_def section_simps record_flush_failure_def record_flush_success_def)
qed

lemma ingest_cases:
  assumes s: "sound_queue (rt_queue rt)" and lim: "max_queue_bytes (limits (rt_config rt)) \<le> max_offset"
    and room: "Suc (active_segment_id (rt_queue rt)) < u64_max" and i: "ingest r rt = (res, rt')"
  shows "rt_config rt' = rt_config rt \<and> rt_exporters rt' = rt_exporters rt \<and> config_generation rt' = config_generation rt \<and>
    flush_in_progress rt' = flush_in_progress rt \<and> sound_queue (rt_queue rt') \<and>
    pending (rt_queue rt') = pending (rt_queue rt) @ (case (res, encode r) of (Inr _, Inr bs) \<Rightarrow> [bs] | _ \<Rightarrow> []) \<and>
    (\<forall>b. batch_held b (rt_queue rt) \<longrightarrow> batch_held b (rt_queue rt'))"
proof -
  have "max_queue_bytes (limits (rt_config rt)) < u64_max" using lim by simp
  from ingest_inner_cases [OF sound_queueD(1) [OF s] this, of r] show ?thesis
  proof (elim disjE exE conjE)
    fix bs assume adm: "admissible (rt_config rt) (rt_queue rt) r bs"
      and eq: "ingest_inner r rt = map_err_act QueueErr (on_queue (enqueue bs)) rt"
    obtain q' where q': "enqueue bs (rt_queue rt) = (Inr (), q')" "sound_queue q'" "pending q' = pending (rt_queue rt) @ [bs]"
      "\<forall>b. batch_held b (rt_queue rt) \<longrightarrow> batch_held b q'"
      using sound_enqueue [OF s admissible_room [OF s room lim adm]] by blast
    then show ?thesis using i eq adm by (auto simp: ingest_def map_err_act_def on_queue_eq admissible_def)
  next
    fix e assume "ingest_inner r rt = (Inl e, rt)"
    then show ?thesis using i s by (auto simp: ingest_def)
  qed
qed

lemma reload_cases:
  assumes "reload_config build cfg rt = (res, rt')"
  shows "rt_queue rt' = rt_queue rt \<and> flush_in_progress rt' = flush_in_progress rt \<and>
    (rt_config rt' = rt_config rt \<and> rt_exporters rt' = rt_exporters rt \<and> config_generation rt' = config_generation rt \<or>
     rt_config rt' = cfg \<and> build (exporters cfg) = Inr (rt_exporters rt') \<and>
     config_generation rt' = add_u64 (config_generation rt) 1)"
  using assms by (cases "validate_config cfg"; cases "build (exporters cfg)") (auto simp: reload_config_def reload_config_inner_def)

lemma world_okD:
  assumes "world_ok start w"
  shows "runtime_ok (runtime w)" "start @ taken_in w = committed w @ pending (rt_queue (runtime w))"
    "flush_in_progress (runtime w) \<longleftrightarrow> (\<exists>i pf. tasks w i = Some (Exporting pf))" "one_exporting (tasks w)"
    "tasks w i = Some (Exporting pf) \<Longrightarrow> task_ok (runtime w) pf"
    "sound_queue (rt_queue (runtime w))" "max_queue_bytes (limits (rt_config (runtime w))) \<le> max_offset"
  using assms by (auto simp: world_ok_def runtime_ok_def)

lemma world_ok_spawn: "world_ok start w \<Longrightarrow> tasks w i = None \<Longrightarrow> world_ok start (w\<lparr>tasks := (tasks w)(i \<mapsto> Waiting n force)\<rparr>)"
  by (simp add: world_ok_def exporting_upd one_exporting_upd del: fun_upd_apply)

lemma world_ok_leave:
  assumes w: "world_ok start w" and i: "tasks w i = Some (Waiting n force)" and t: "\<forall>pf. t \<noteq> Exporting pf"
    and p: "prepare_shared_flush clock n force (runtime w) = (out, rt')" and none: "\<forall>pf. out \<noteq> Returned (Inr (Some pf))"
  shows "world_ok start (w\<lparr>runtime := rt', tasks := (tasks w)(i \<mapsto> t)\<rparr>)"
proof -
  note d = world_okD [OF w]
  have i': "\<forall>pf. tasks w i \<noteq> Some (Exporting pf)" using i by simp
  note same = exporting_upd [of "tasks w" i t, OF i' t] one_exporting_upd [of "tasks w" i t, OF i' t]
  have "rt' = runtime w \<or> \<not> flush_in_progress (runtime w) \<and> \<not> flush_in_progress rt' \<and> sound_queue (rt_queue rt') \<and>
      pending (rt_queue rt') = pending (rt_queue (runtime w)) \<and> rt_config rt' = rt_config (runtime w) \<and>
      rt_exporters rt' = rt_exporters (runtime w)"
    using prepare_cases [OF d(6) p] none by blast
  then show ?thesis
    using w by (elim disjE conjE) (simp_all add: world_ok_def runtime_ok_def same del: fun_upd_apply)
qed

lemma world_ok_prepare:
  assumes w: "world_ok start w" and i: "tasks w i = Some (Waiting n force)"
    and p: "prepare_shared_flush clock n force (runtime w) = (Returned (Inr (Some pf)), rt')"
  shows "world_ok start (w\<lparr>runtime := rt', tasks := (tasks w)(i \<mapsto> Exporting pf)\<rparr>)"
proof -
  note d = world_okD [OF w]
  have c: "\<not> flush_in_progress (runtime w)" "flush_in_progress rt'" "rt_queue rt' = rt_queue (runtime w)"
    "rt_config rt' = rt_config (runtime w)" "config_generation rt' = config_generation (runtime w)"
    "batch_held (pf_batch pf) (rt_queue (runtime w))" "pf_config pf = rt_config (runtime w)"
    "pf_exporters pf = rt_exporters (runtime w)" "pf_generation pf = config_generation (runtime w)"
    using prepare_cases [OF d(6) p] by auto
  then have idle: "tasks w j \<noteq> Some (Exporting pf')" for j pf' using d(3) by auto
  have "task_ok rt' pf" using c d(1) by (simp add: task_ok_def runtime_ok_def)
  then show ?thesis
    using w c idle by (auto simp: world_ok_def runtime_ok_def one_exporting_def)
qed

lemma world_ok_finish:
  assumes w: "world_ok start w" and i: "tasks w i = Some (Exporting pf)"
    and e: "export_records export (pf_config pf) (pf_records pf) (pf_exporters pf) = (result, es)"
    and f: "finish_shared_flush pf result es (runtime w) = (out, rt')"
  shows "world_ok start (w\<lparr>runtime := rt', tasks := (tasks w)(i \<mapsto> Finished out),
         committed := committed w @ (if is_ok out then payloads (pf_batch pf) else [])\<rparr>)"
proof -
  note d = world_okD [OF w]
  have t: "task_ok (runtime w) pf" using d(5) [OF i] .
  then have h: "batch_held (pf_batch pf) (rt_queue (runtime w))" by (simp add: task_ok_def)
  note c = finish_cases [OF d(6) h f]
  have only: "((tasks w)(i \<mapsto> Finished out)) j \<noteq> Some (Exporting pf')" for j pf'
    using d(4) i by (auto simp: one_exporting_def)
  have "dom (rt_exporters rt') = exporter_names (rt_config rt')"
    using c t export_records_dom [OF e] by (auto simp: task_ok_def split: if_splits)
  then show ?thesis using c d only by (simp add: world_ok_def runtime_ok_def one_exporting_def del: fun_upd_apply)
qed

lemma world_ok_ingest:
  assumes w: "world_ok start w" and room: "Suc (active_segment_id (rt_queue (runtime w))) < u64_max"
    and i: "ingest r (runtime w) = (res, rt')"
  shows "world_ok start (w\<lparr>runtime := rt', taken_in := taken_in w @ (case (res, encode r) of (Inr _, Inr bs) \<Rightarrow> [bs] | _ \<Rightarrow> [])\<rparr>)"
proof -
  note d = world_okD [OF w]
  note c = ingest_cases [OF d(6,7) room i]
  show ?thesis using w c by (simp add: world_ok_def runtime_ok_def task_ok_def)
qed

text \<open>The exporters that a reload builds are those of the configuration.\<close>

definition builds_all :: "'x build_fn \<Rightarrow> bool" where
  "builds_all build \<longleftrightarrow> (\<forall>cs es. build cs = Inr es \<longrightarrow> dom es = set (map exp_name cs))"

lemma world_ok_reload:
  assumes b: "builds_all build" and w: "world_ok start w" and g: "config_generation (runtime w) < u64_max"
    and lim: "max_queue_bytes (limits cfg) \<le> max_offset" and r: "reload_config build cfg (runtime w) = (res, rt')"
  shows "world_ok start (w\<lparr>runtime := rt'\<rparr>)"
proof -
  note d = world_okD [OF w]
  note c = reload_cases [OF r]
  show ?thesis
  proof (cases "rt_config rt' = rt_config (runtime w) \<and> rt_exporters rt' = rt_exporters (runtime w) \<and>
      config_generation rt' = config_generation (runtime w)")
    case True
    then show ?thesis using w c by (simp add: world_ok_def runtime_ok_def task_ok_def)
  next
    case False
    then have n: "rt_config rt' = cfg" "build (exporters cfg) = Inr (rt_exporters rt')"
      "config_generation rt' = add_u64 (config_generation (runtime w)) 1" using c by auto
    have gen: "config_generation rt' = Suc (config_generation (runtime w))" using n(3) g by (simp add: add_u64_fits)
    have dm: "dom (rt_exporters rt') = exporter_names cfg" using b n(2) by (auto simp: builds_all_def exporter_names_def)
    have "task_ok rt' pf" if "task_ok (runtime w) pf" for pf
      using that gen dm n(1) c by (auto simp: task_ok_def)
    then show ?thesis using w c n(1) dm lim d(5) by (auto simp: world_ok_def runtime_ok_def)
  qed
qed

lemma shared_step_ok:
  assumes "shared_step build export w w'" and "builds_all build" and "world_ok start w"
  shows "world_ok start w'"
  using assms
proof (induction rule: shared_step.induct)
  case (spawn w i n force)
  then show ?case by (simp add: world_ok_spawn)
next
  case (busy w i n force clock rt')
  have "(tasks w)(i \<mapsto> Waiting n force) = tasks w" using busy(1) by (rule fun_upd_idem)
  then show ?case using world_ok_leave [OF busy(4,1) _ busy(2), of "Waiting n force"] by simp
next
  case (prepare w i n force clock pf rt')
  then show ?case by (intro world_ok_prepare)
next
  case (nothing w i n force clock rt')
  then show ?case by (intro world_ok_leave) auto
next
  case (give_up w i n force clock err rt')
  then show ?case by (intro world_ok_leave) auto
next
  case (finish w i pf result es out rt')
  then show ?case by (intro world_ok_finish)
next
  case (ingest w r res rt')
  then show ?case by (intro world_ok_ingest)
next
  case (reload w cfg res rt')
  then show ?case by (intro world_ok_reload)
next
  case (pause w)
  then show ?case by (simp add: world_ok_def runtime_ok_def task_ok_def pause_exports_def)
next
  case (resume w)
  then show ?case by (simp add: world_ok_def runtime_ok_def task_ok_def resume_exports_def)
qed

lemma shared_run_ok:
  "(shared_step build export)\<^sup>*\<^sup>* w w' \<Longrightarrow> builds_all build \<Longrightarrow> world_ok start w \<Longrightarrow> world_ok start w'"
  by (induction rule: rtranclp_induct) (auto intro: shared_step_ok)

lemma idle_world_ok:
  "runtime_ok rt \<Longrightarrow> \<not> flush_in_progress rt \<Longrightarrow> world_ok (pending (rt_queue rt)) (idle_world rt)"
  by (simp add: world_ok_def idle_world_def one_exporting_def)

end
