(* ===== verification/Runtime_Properties.thy ===== *)
theory Runtime_Properties
  imports Runtime_Facts
begin

text \<open>
  The properties of the agent runtime with exclusive access: ingest, flush, delivery to the
  exporters, retries, progress and reload.
\<close>

section \<open>Progress\<close>

lemma retry_for_valid:
  assumes "config_ok cfg"
  shows "0 < max_attempts (retry_for cfg name)"
proof (cases "find (\<lambda>e. exp_name e = name) (exporters cfg)")
  case None
  then show ?thesis by (simp add: retry_for_def retry_default_def)
next
  case (Some e)
  then have "e \<in> set (exporters cfg)" by (auto simp: find_Some_iff)
  with Some assms show ?thesis by (simp add: retry_for_def config_ok_def)
qed

lemma export_with_retry_responsive:
  assumes "k < max_attempts retry" and "accepted (outcome export batch k x)"
  shows "\<exists>rep sleeps x'. export_with_retry export name batch retry 1 x = (Inr rep, sleeps, x')"
proof -
  obtain r sleeps x' where e: "export_with_retry export name batch retry 1 x = (r, sleeps, x')"
    by (metis prod_cases3)
  note * = export_with_retry_spec [OF e]
  show ?thesis
  proof (cases r)
    case (Inl err)
    with * have "1 + length sleeps = max 1 (max_attempts retry)" "\<not> accepted (outcome export batch (length sleeps) x)"
      "\<forall>k < length sleeps. \<not> accepted (outcome export batch k x)" by simp_all
    moreover from this(1) have "k < length sleeps \<or> k = length sleeps" using assms(1) by linarith
    ultimately show ?thesis using assms(2) by blast
  qed (use e in blast)
qed

text \<open>An exporter is responsive when it accepts a batch within the attempts its policy allows.\<close>

definition responsive :: "'x export_fn \<Rightarrow> pipeline_config \<Rightarrow> string \<Rightarrow> 'x \<Rightarrow> bool" where
  "responsive export cfg name x \<longleftrightarrow>
     (\<forall>batch. \<exists>k < max_attempts (retry_for cfg name). accepted (outcome export batch k x))"

lemma export_groups_progress:
  "distinct (map fst g) \<Longrightarrow> \<forall>name \<in> set (map fst g). \<exists>x. es name = Some x \<and> responsive export cfg name x \<Longrightarrow>
   \<exists>rep es'. export_groups export cfg g report es = (Inr rep, es')"
proof (induction g arbitrary: report es)
  case (Cons kv g)
  obtain name records where kv: "kv = (name, records)" by (cases kv)
  obtain x where x: "es name = Some x" "responsive export cfg name x" using Cons.prems(2) by (auto simp: kv)
  then obtain rep sleeps x' where e: "export_with_retry export name records (retry_for cfg name) 1 x = (Inr rep, sleeps, x')"
    using export_with_retry_responsive [of _ "retry_for cfg name" export records x name] unfolding responsive_def by blast
  let ?es = "es(name \<mapsto> x')"
  have "\<forall>j \<in> set (map fst g). \<exists>x. ?es j = Some x \<and> responsive export cfg j x"
    using Cons.prems by (auto simp: kv rev_image_eqI)
  moreover have "distinct (map fst g)" using Cons.prems(1) by simp
  ultimately have "\<exists>rep' es'. export_groups export cfg g (report\<lparr>exported_records := add_u64 (exported_records report) (report_records rep),
      exported_bytes := add_u64 (exported_bytes report) (report_bytes rep)\<rparr>) ?es = (Inr rep', es')"
    by (intro Cons.IH)
  then show ?case using x(1) e by (simp add: kv del: fun_upd_apply One_nat_def)
qed simp

lemma exporters_for_names:
  assumes "config_ok cfg" and "exporters_for cfg sg = Inr ds"
  shows "set ds \<subseteq> set (exporters cfg)"
proof (cases "sg \<in> set (map route_signal (routes cfg))")
  case True
  then show ?thesis using exporters_for_ok [OF assms(1) True] assms(2) by auto
next
  case False
  then show ?thesis using assms(2) find_route_None [of sg "routes cfg"] by (simp add: exporters_for_def)
qed

lemma group_names:
  "config_ok cfg \<Longrightarrow> group_records cfg rs m = Inr g \<Longrightarrow>
   set (map fst m) \<subseteq> set (map exp_name (exporters cfg)) \<Longrightarrow> set (map fst g) \<subseteq> set (map exp_name (exporters cfg))"
proof (induction cfg rs m rule: group_records.induct)
  case (2 cfg r rs m)
  then obtain ds where ds: "exporters_for cfg (signal r) = Inr ds"
    "group_records cfg rs (fold (\<lambda>d. entry_push (exp_name d) r) ds m) = Inr g"
    by (auto simp: res_bind_Inr_iff map_err_Inr_iff)
  have keys: "fst ` set (fold (\<lambda>d. entry_push (exp_name d) r) es m) = exp_name ` set es \<union> fst ` set m" for es m
    by (induction es arbitrary: m) (auto simp: entry_push_keys)
  have "set (map fst (fold (\<lambda>d. entry_push (exp_name d) r) ds m)) \<subseteq> set (map exp_name (exporters cfg))"
    unfolding set_map keys using exporters_for_names [OF 2(2) ds(1)] 2(4) by auto
  then show ?case using 2(1) [of ds] 2(2) ds by simp
qed simp

lemma export_records_progress:
  assumes c: "config_ok cfg" and routed: "\<forall>r \<in> set rs. signal r \<in> set (map route_signal (routes cfg))"
    and ready: "\<forall>e \<in> set (exporters cfg). \<exists>x. es (exp_name e) = Some x \<and> responsive export cfg (exp_name e) x"
  shows "\<exists>rep es'. export_records export cfg rs es = (Inr rep, es')"
proof -
  have "\<nexists>e. group_records cfg rs [] = Inl e"
    using exporters_for_ok [OF c] routed unfolding group_records_Inl by (metis sum.distinct(1))
  then obtain g where g: "group_records cfg rs [] = Inr g" by (cases "group_records cfg rs []") auto
  have "keyed g" using group_records_exact [OF g] by simp
  moreover have "set (map fst g) \<subseteq> set (map exp_name (exporters cfg))" using group_names [OF c g] by simp
  ultimately have "\<exists>rep es'. export_groups export cfg g default_flush_report es = (Inr rep, es')"
    using ready by (intro export_groups_progress keyed_distinct) (auto simp: subset_iff)
  then show ?thesis by (simp add: export_records_def g)
qed

section \<open>A record that no route takes\<close>

lemma process_payloads_unfiltered:
  "chain_processors c = [] \<Longrightarrow> chain_processors (snd (process_payloads clock ps c)) = [] \<and>
   (\<forall>rs n. fst (process_payloads clock ps c) = Inr (rs, n) \<longrightarrow> map decode ps = map Inr rs)"
proof (induction ps arbitrary: clock c)
  case (Cons p ps)
  show ?case
  proof (cases "decode p")
    case (Inl e)
    then show ?thesis using Cons.prems by simp
  next
    case (Inr r)
    have "chain_process (clock 0) r c = (Inr (Some r), c)" using Cons.prems by (simp add: chain_process_def)
    from process_payloads_Cons [where clock = clock and ps = ps, OF Inr this] show ?thesis
      using Cons.IH [of c "\<lambda>i. clock (Suc i)"] Cons.prems Inr
      by (cases "process_payloads (\<lambda>i. clock (Suc i)) ps c") (auto simp: bind_act_def split: sum.splits)
  qed
qed simp

lemma export_records_unrouted:
  assumes "r \<in> set rs" and "signal r \<notin> set (map route_signal (routes cfg))"
  shows "\<exists>e. export_records export cfg rs es = (Inl e, es)"
proof -
  have "exporters_for cfg (signal r) = Inl (MissingRoute (signal_as_str (signal r)))"
    using assms(2) find_route_None [of "signal r" "routes cfg"] by (simp add: exporters_for_def)
  then obtain e where "group_records cfg rs [] = Inl e" using group_records_Inl assms(1) by blast
  then show ?thesis by (simp add: export_records_def)
qed

fun flush_rounds :: "'x export_fn \<Rightarrow> usize \<Rightarrow> batch_clock list \<Rightarrow> 'x agent_runtime \<Rightarrow> 'x agent_runtime" where
  "flush_rounds export n [] rt = rt"
| "flush_rounds export n (clock # clocks) rt = flush_rounds export n clocks (snd (flush export clock n rt))"

lemma flush_unrouted:
  assumes s: "sound_queue (rt_queue rt)" and p: "pending (rt_queue rt) = p # rest" and r: "decode p = Inr r"
    and sg: "signal r \<notin> set (map route_signal (routes (rt_config rt)))"
    and chain: "chain_processors (rt_processors rt) = []" and n: "0 < n" and run: "flush export clock n rt = (res, rt')"
  shows "rt_queue rt' = rt_queue rt \<and> rt_config rt' = rt_config rt \<and> chain_processors (rt_processors rt') = [] \<and>
    (\<not> exports_paused rt \<longrightarrow> \<not> is_ok res)"
proof (cases "exports_paused rt")
  case True
  then show ?thesis using run chain by (auto simp: flush_def)
next
  case False
  let ?rt = "upd_metrics (\<lambda>m. m\<lparr>flush_attempts_total := add_u64 (flush_attempts_total m) 1\<rparr>) rt"
  let ?ps = "take n (pending (rt_queue rt))"
  have s': "sound_queue (rt_queue ?rt)" using s by simp
  note eq = flush_inner_eq [OF s', where n = n and clock = clock and export = export, unfolded upd_metrics_simps]
  obtain r1 c' where pr: "process_payloads clock ?ps (rt_processors rt) = (r1, c')"
    by (cases "process_payloads clock ?ps (rt_processors rt)")
  note un = process_payloads_unfiltered [OF chain, of clock ?ps, unfolded pr fst_conv snd_conv]
  have "\<exists>e es'. flush_inner export clock n ?rt = (Inl e, after_export c' es' ?rt)"
  proof (cases r1)
    case (Inl e)
    then show ?thesis using eq pr by auto
  next
    case (Inr rd)
    obtain rs d where rd: "rd = (rs, d)" by (cases rd)
    have "map decode ?ps = map Inr rs" using un Inr rd by simp
    then have "r \<in> set rs" using p r n by (cases rs; cases n) auto
    from export_records_unrouted [OF this sg, of export "rt_exporters rt"] obtain e where
      "export_records export (rt_config rt) rs (rt_exporters rt) = (Inl e, rt_exporters rt)" by blast
    then show ?thesis using eq pr Inr rd by auto
  qed
  then show ?thesis
    using run False un by (auto simp: flush_def flush_unpaused_def record_flush_failure_def)
qed

section \<open>A sample runtime\<close>

text \<open>The runtime as \<^verbatim>\<open>open\<close> makes it, a record, the queue that holds it, and three exporters: one that accepts
  every batch, one that accepts the third call, one that never does.\<close>

definition opened :: "'x exporter_map \<Rightarrow> pipeline_config \<Rightarrow> disk_queue \<Rightarrow> 'x agent_runtime" where
  "opened es cfg q =
     \<lparr>rt_config = cfg, rt_queue = q, rt_processors = chain_from_config cfg, rt_exporters = es,
      metrics = default_metrics, exports_paused = False, config_generation = 0, flush_in_progress = False\<rparr>"

lemma opened_simps [simp]:
  "rt_config (opened es cfg q) = cfg" "rt_queue (opened es cfg q) = q" "rt_exporters (opened es cfg q) = es"
  "\<not> exports_paused (opened es cfg q)" "rt_processors (opened es cfg q) = chain_from_config cfg"
  "flush_in_progress (opened es cfg q) = False" "config_generation (opened es cfg q) = 0"
  "(opened es cfg q)\<lparr>rt_queue := q'\<rparr> = opened es cfg q'"
  by (simp_all add: opened_def)

definition sample_log :: telemetry_record where
  "sample_log = record_new 7 ''acme'' Log [104, 105]"

definition sample_payload :: "u8 list" where
  "sample_payload = enc_record sample_log"

definition sample_queue :: disk_queue where
  "sample_queue = snd (enqueue sample_payload (fresh_queue default_disk_queue_options))"

lemma sample_encode: "encode sample_log = Inr sample_payload" "decode sample_payload = Inr sample_log"
  "length sample_payload = 35"
  by code_simp+

lemma sample_queue:
  "sound_queue sample_queue" "pending sample_queue = [sample_payload]"
proof -
  have "queue_room sample_payload (fresh_queue default_disk_queue_options)"
    by (rule fresh_room) (simp add: sample_encode)
  from sound_enqueue [OF fresh_sound this] show "sound_queue sample_queue" "pending sample_queue = [sample_payload]"
    using fresh_queue_ok(2) by (auto simp: sample_queue_def)
qed

definition steady :: "unit export_fn" where
  "steady batch x = (Exported \<lparr>report_records = length batch, report_bytes = 0\<rparr>, ())"

definition flaky :: "nat export_fn" where
  "flaky batch k =
     (if k < 2 then ExportFailed ''503'' else Exported \<lparr>report_records = length batch, report_bytes = 0\<rparr>, Suc k)"

section \<open>Ingesting\<close>

lemma enqueue_active:
  assumes "sound_queue q" and "queue_room bs q" and "enqueue bs q = (Inr (), q')"
  shows "active_segment_id q' \<le> Suc (active_segment_id q)"
proof -
  have "enqueue bs q = (Inr (), enqueued bs q)"
    using enqueue_ok [OF sound_queueD(1) [OF assms(1)]] assms(2) by (simp add: queue_room_def)
  then show ?thesis using assms(3) by (auto simp: enqueued_def appended_def rotated_def)
qed

lemma ingest_accepts:
  assumes "sound_queue (rt_queue rt)" and "Suc (active_segment_id (rt_queue rt)) < u64_max"
    and "max_queue_bytes (limits (rt_config rt)) \<le> max_offset"
  shows "if \<exists>bs. admissible (rt_config rt) (rt_queue rt) r bs
    then \<exists>bs q'. encode r = Inr bs \<and> sound_queue q' \<and> pending q' = pending (rt_queue rt) @ [bs] \<and>
      queued_bytes q' \<le> max_queue_bytes (limits (rt_config rt)) \<and> active_segment_id q' \<le> Suc (active_segment_id (rt_queue rt)) \<and>
      ingest r rt = (Inr (), upd_metrics (\<lambda>m. m\<lparr>ingested_records_total := add_u64 (ingested_records_total m) 1\<rparr>)
        (rt\<lparr>rt_queue := q'\<rparr>))
    else \<exists>e. ingest r rt = (Inl e, upd_metrics (\<lambda>m.
        m\<lparr>ingest_rejected_records_total := add_u64 (ingest_rejected_records_total m) 1\<rparr>) rt)"
proof -
  have lim: "max_queue_bytes (limits (rt_config rt)) < u64_max" using assms(3) by simp
  note cases = ingest_inner_cases [OF sound_queueD(1) [OF assms(1)] lim, of r]
  show ?thesis
  proof (cases "\<exists>bs. admissible (rt_config rt) (rt_queue rt) r bs")
    case True
    then obtain bs where bs: "admissible (rt_config rt) (rt_queue rt) r bs"
      "ingest_inner r rt = map_err_act QueueErr (on_queue (enqueue bs)) rt" using cases by blast
    note room = admissible_room [OF assms bs(1)]
    obtain q' where q': "enqueue bs (rt_queue rt) = (Inr (), q')" "sound_queue q'" "pending q' = pending (rt_queue rt) @ [bs]"
      using sound_enqueue [OF assms(1) room] by blast
    have "ingest_inner r rt = (Inr (), rt\<lparr>rt_queue := q'\<rparr>)"
      using bs(2) on_queue_step [where m = "enqueue bs" and rt = rt, OF q'(1)] by (simp add: map_err_act_def)
    then show ?thesis
      using True q' bs(1) enqueue_bytes [OF assms(1) room q'(1)] enqueue_active [OF assms(1) room q'(1)] by (auto simp: ingest_def admissible_def)
  next
    case False
    then show ?thesis using cases by (auto simp: ingest_def)
  qed
qed

section \<open>Properties\<close>

text \<open>Property C34 (ingest_exact). \<^verbatim>\<open>ingest\<close> accepts exactly the records that validate, encode and fit the quota. An
  accepted record is the last payload of the queue, the queue stays within the quota and the counter
  of ingested records goes up; a refused one changes nothing but the counter of refused records.\<close>

theorem ingest_exact:
  assumes "sound_queue (rt_queue rt)" and "Suc (active_segment_id (rt_queue rt)) < u64_max"
    and "max_queue_bytes (limits (rt_config rt)) \<le> max_offset"
  shows "if \<exists>bs. admissible (rt_config rt) (rt_queue rt) r bs
    then \<exists>bs q'. encode r = Inr bs \<and> sound_queue q' \<and> pending q' = pending (rt_queue rt) @ [bs] \<and>
      queued_bytes q' \<le> max_queue_bytes (limits (rt_config rt)) \<and>
      ingest r rt = (Inr (), upd_metrics (\<lambda>m. m\<lparr>ingested_records_total := add_u64 (ingested_records_total m) 1\<rparr>)
        (rt\<lparr>rt_queue := q'\<rparr>))
    else \<exists>e. ingest r rt = (Inl e, upd_metrics (\<lambda>m.
        m\<lparr>ingest_rejected_records_total := add_u64 (ingest_rejected_records_total m) 1\<rparr>) rt)"
  using ingest_accepts [OF assms, of r]
  by (cases "\<exists>bs. admissible (rt_config rt) (rt_queue rt) r bs") (simp_all only: if_True if_False, blast)

theorem ingest_exact_witness:
  "\<exists>q'. pending q' = [sample_payload] \<and> queued_bytes q' \<le> max_queue_bytes limits_default \<and>
     ingest sample_log (opened Map.empty default_config (fresh_queue default_disk_queue_options)) =
       (Inr (), upd_metrics (\<lambda>m. m\<lparr>ingested_records_total := add_u64 (ingested_records_total m) 1\<rparr>)
         (opened Map.empty default_config q' :: unit agent_runtime))"
proof -
  let ?q = "fresh_queue default_disk_queue_options"
  let ?rt = "opened Map.empty default_config ?q :: unit agent_runtime"
  have adm: "admissible default_config ?q sample_log sample_payload" by code_simp
  have l: "limits default_config = limits_default" by (simp add: default_config_def)
  have "sound_queue (rt_queue ?rt)" "Suc (active_segment_id (rt_queue ?rt)) < u64_max"
    "max_queue_bytes (limits (rt_config ?rt)) \<le> max_offset"
    using fresh_sound by (simp_all add: l) (simp_all add: fresh_queue_def limits_default_def)
  note ok = ingest_exact [OF this, of sample_log]
  have "\<exists>bs. admissible (rt_config ?rt) (rt_queue ?rt) sample_log bs" using adm by auto
  from ok [unfolded if_P [OF this]] show ?thesis
    using fresh_queue_ok(2) sample_encode(1) by (auto simp: l simp del: One_nat_def)
qed

lemma flush_unpaused_exact:
  fixes rt :: "('x \<times> telemetry_record list list) agent_runtime"
  assumes "sound_queue (rt_queue rt)" and "flush_unpaused (logged export) clock n rt = (res, rt')"
  shows "case res of
      Inr report \<Rightarrow> sound_queue (rt_queue rt') \<and> pending (rt_queue rt') = drop n (pending (rt_queue rt)) \<and>
        drained_records report = length (take n (pending (rt_queue rt))) \<and>
        (\<exists>rs c'. process_payloads clock (take n (pending (rt_queue rt))) (rt_processors rt) =
             (Inr (rs, report_dropped_records report), c') \<and>
           length rs + report_dropped_records report = drained_records report \<and>
           (\<forall>name. accepted_by (rt_exporters rt') name =
              accepted_by (rt_exporters rt) name @ handed_out (rt_config rt) rs name))
    | Inl e \<Rightarrow> rt_queue rt' = rt_queue rt \<and>
        (\<exists>rs. \<forall>name. accepted_by (rt_exporters rt') name = accepted_by (rt_exporters rt) name \<or>
           accepted_by (rt_exporters rt') name = accepted_by (rt_exporters rt) name @ handed_out (rt_config rt) rs name)"
proof -
  let ?rt = "upd_metrics (\<lambda>m. m\<lparr>flush_attempts_total := add_u64 (flush_attempts_total m) 1\<rparr>) rt"
  let ?ps = "take n (pending (rt_queue rt))"
  have s: "sound_queue (rt_queue ?rt)" using assms(1) by simp
  note eq = flush_inner_eq [OF s, where n = n and clock = clock and export = "logged export", unfolded upd_metrics_simps]
  obtain r2 rt2 where fi: "flush_inner (logged export) clock n ?rt = (r2, rt2)" by (cases "flush_inner (logged export) clock n ?rt")
  have r: "res = r2" "rt_queue rt' = rt_queue rt2" "rt_exporters rt' = rt_exporters rt2"
    using assms(2) fi by (auto simp: flush_unpaused_def record_flush_success_def record_flush_failure_def split: sum.splits)
  obtain r1 c' where pr: "process_payloads clock ?ps (rt_processors rt) = (r1, c')" by (cases "process_payloads clock ?ps (rt_processors rt)")
  show ?thesis
  proof (cases r1)
    case (Inl e)
    then have "res = Inl e" "rt_queue rt' = rt_queue rt" "rt_exporters rt' = rt_exporters rt"
      using eq fi pr r by auto
    then show ?thesis by simp
  next
    case (Inr rd)
    obtain rs d where rd: "rd = (rs, d)" by (cases rd)
    obtain r3 es' where ex: "export_records (logged export) (rt_config rt) rs (rt_exporters rt) = (r3, es')"
      by (cases "export_records (logged export) (rt_config rt) rs (rt_exporters rt)")
    note log = conjunct2 [OF export_records_logged [OF ex]]
    have len: "length rs + d = length ?ps" using pr Inr rd by (auto dest: process_payloads_length)
    show ?thesis
    proof (cases r3)
      case (Inl e)
      then have "rt_queue rt' = rt_queue rt" "rt_exporters rt' = es'" "res = Inl e"
        using eq fi pr Inr rd ex r by auto
      then show ?thesis using log by auto
    next
      case ok: (Inr er)
      then obtain q' where q': "sound_queue q'" "pending q' = drop n (pending (rt_queue rt))" "rt_queue rt' = q'" "rt_exporters rt' = es'"
        "res = Inr \<lparr>drained_records = length ?ps, exported_records = add_u64 0 (exported_records er),
                     report_dropped_records = d, exported_bytes = add_u64 0 (exported_bytes er)\<rparr>"
        using eq fi pr Inr rd ex r by auto
      then show ?thesis using log ok pr Inr rd len by simp
    qed
  qed
qed

text \<open>Property C8 (flush_exact). A flush either delivers or changes nothing in the queue. When it succeeds, exactly
  the next \<open>n\<close> payloads are gone, each of them was passed on or counted as dropped, and every exporter
  has accepted one more batch: the records routed to it, in order. When it fails, the queue is as it
  was, and an exporter has accepted its share or nothing.\<close>

theorem flush_exact:
  fixes rt :: "('x \<times> telemetry_record list list) agent_runtime"
  assumes "sound_queue (rt_queue rt)" and "\<not> exports_paused rt" and "flush (logged export) clock n rt = (res, rt')"
  shows "case res of
      Inr report \<Rightarrow> sound_queue (rt_queue rt') \<and> pending (rt_queue rt') = drop n (pending (rt_queue rt)) \<and>
        drained_records report = length (take n (pending (rt_queue rt))) \<and>
        (\<exists>rs c'. process_payloads clock (take n (pending (rt_queue rt))) (rt_processors rt) =
             (Inr (rs, report_dropped_records report), c') \<and>
           length rs + report_dropped_records report = drained_records report \<and>
           (\<forall>name. accepted_by (rt_exporters rt') name =
              accepted_by (rt_exporters rt) name @ handed_out (rt_config rt) rs name))
    | Inl e \<Rightarrow> rt_queue rt' = rt_queue rt \<and>
        (\<exists>rs. \<forall>name. accepted_by (rt_exporters rt') name = accepted_by (rt_exporters rt) name \<or>
           accepted_by (rt_exporters rt') name = accepted_by (rt_exporters rt) name @ handed_out (rt_config rt) rs name)"
  using flush_unpaused_exact [OF assms(1)] assms(2,3) by (simp add: flush_def)

theorem flush_exact_witness:
  "\<exists>report rt'. flush (logged steady) (\<lambda>_ _. 0) 5 (opened [''stdout'' \<mapsto> ((), [])] default_config sample_queue) = (Inr report, rt') \<and>
     pending (rt_queue rt') = [] \<and> drained_records report = 1 \<and> accepted_by (rt_exporters rt') ''stdout'' = [[sample_log]]"
proof -
  let ?rt = "opened [''stdout'' \<mapsto> ((), [])] default_config sample_queue"
  obtain res rt' where f: "flush (logged steady) (\<lambda>_ _. 0) 5 ?rt = (res, rt')" by (cases "flush (logged steady) (\<lambda>_ _. 0) 5 ?rt")
  have "is_ok (fst (flush (logged steady) (\<lambda>_ _. 0) 5 ?rt))" by code_simp
  then obtain report where res: "res = Inr report" using f by (auto simp: is_ok_iff)
  have "fst (process_payloads (\<lambda>_ _. 0) [sample_payload] (chain_from_config default_config)) = Inr ([sample_log], 0)"
    by code_simp
  then obtain c' where p: "process_payloads (\<lambda>_ _. 0) [sample_payload] (chain_from_config default_config) = (Inr ([sample_log], 0), c')"
    by (metis prod.collapse)
  have h: "handed_out default_config [sample_log] ''stdout'' = [[sample_log]]" by code_simp
  show ?thesis
    using flush_exact [where rt = ?rt, OF _ _ f] res f p h sample_queue by (auto simp: accepted_by_def)
qed

text \<open>Property C9 (flush_progress). Under a validated configuration, when the next payloads decode to records whose
  signals are routed and every exporter is there and accepts a batch within its attempts, a flush
  succeeds and takes the next \<open>n\<close> payloads off the queue.\<close>

theorem flush_progress:
  assumes "sound_queue (rt_queue rt)" and "\<not> exports_paused rt" and "validate_config (rt_config rt) = Inr ()"
    and "\<forall>p \<in> set (take n (pending (rt_queue rt))). \<exists>r. decode p = Inr r \<and> signal r \<in> set (map route_signal (routes (rt_config rt)))"
    and "\<forall>e \<in> set (exporters (rt_config rt)). \<exists>x. rt_exporters rt (exp_name e) = Some x \<and>
           responsive export (rt_config rt) (exp_name e) x"
  shows "\<exists>report rt'. flush export clock n rt = (Inr report, rt') \<and>
    pending (rt_queue rt') = drop n (pending (rt_queue rt)) \<and>
    flush_successes_total (metrics rt') = add_u64 (flush_successes_total (metrics rt)) 1"
proof -
  let ?rt = "upd_metrics (\<lambda>m. m\<lparr>flush_attempts_total := add_u64 (flush_attempts_total m) 1\<rparr>) rt"
  let ?ps = "take n (pending (rt_queue rt))"
  have s: "sound_queue (rt_queue ?rt)" using assms(1) by simp
  have c: "config_ok (rt_config rt)" using assms(3) by (simp add: validate_config_iff)
  obtain rs d c' where pr: "process_payloads clock ?ps (rt_processors rt) = (Inr (rs, d), c')"
    "\<forall>r' \<in> set rs. \<exists>p \<in> set ?ps. \<exists>r. decode p = Inr r \<and> censored r r'"
    using process_payloads_total [of ?ps clock "rt_processors rt"] assms(4) by blast
  have "\<forall>r \<in> set rs. signal r \<in> set (map route_signal (routes (rt_config rt)))"
    using pr(2) assms(4) by (fastforce simp: censored_def)
  then obtain er es' where ex: "export_records export (rt_config rt) rs (rt_exporters rt) = (Inr er, es')"
    using export_records_progress [OF c _ assms(5)] by blast
  obtain q' where q': "pending q' = drop n (pending (rt_queue rt))" and
    fi: "flush_inner export clock n ?rt = (Inr \<lparr>drained_records = length ?ps, exported_records = add_u64 0 (exported_records er),
            report_dropped_records = d, exported_bytes = add_u64 0 (exported_bytes er)\<rparr>,
          (after_export c' es' ?rt)\<lparr>rt_queue := q'\<rparr>)"
    using flush_inner_eq [OF s, where n = n and clock = clock and export = export] pr(1) ex by auto
  show ?thesis
    using assms(2) q' by (simp add: flush_def flush_unpaused_def fi record_flush_success_def del: One_nat_def)
qed

theorem flush_progress_witness:
  "\<exists>report rt'. flush steady (\<lambda>_ _. 0) 5 (opened [''stdout'' \<mapsto> ()] default_config sample_queue) = (Inr report, rt') \<and>
     pending (rt_queue rt') = []"
proof -
  have "responsive steady default_config ''stdout'' ()"
    unfolding responsive_def by (intro allI exI [of _ 0]) (simp add: steady_def retry_for_def default_config_def retry_default_def)
  moreover have "validate_config default_config = Inr ()" by code_simp
  ultimately show ?thesis
    using flush_progress [where rt = "opened [''stdout'' \<mapsto> ()] default_config sample_queue" and n = 5
        and export = steady and clock = "\<lambda>_ _. 0"] sample_queue sample_encode(2)
    by (auto simp: default_config_def sample_log_def record_new_def)
qed

text \<open>Property C33 (retry_exact). One export is tried until it succeeds or the attempts of its policy are used up: the
  result is that of the first successful call, all calls before it failed or timed out, there are at
  most \<^verbatim>\<open>max_attempts\<close> calls, and the pauses between them are those of the back-off, in order.\<close>

theorem retry_exact:
  assumes "1 \<le> max_attempts retry" and "export_with_retry export name batch retry 1 x = (r, sleeps, x')"
  shows "length sleeps < max_attempts retry \<and>
    sleeps = map (\<lambda>k. sleep_before_retry k retry) [1 ..< 1 + length sleeps] \<and>
    x' = after_calls export batch (Suc (length sleeps)) x \<and>
    (\<forall>k < length sleeps. \<not> accepted (outcome export batch k x)) \<and>
    (case r of Inr rep \<Rightarrow> outcome export batch (length sleeps) x = Exported rep
     | Inl e \<Rightarrow> \<forall>k < max_attempts retry. \<not> accepted (outcome export batch k x))"
proof -
  note * = export_with_retry_spec [OF assms(2)]
  show ?thesis
  proof (cases r)
    case (Inl e)
    with * assms(1) have len: "max_attempts retry = Suc (length sleeps)" and
      "\<not> accepted (outcome export batch (length sleeps) x)" by auto
    with * have "\<forall>k < max_attempts retry. \<not> accepted (outcome export batch k x)" by (auto simp: less_Suc_eq)
    with * Inl len show ?thesis by simp
  next
    case (Inr rep)
    with * assms(1) have "length sleeps < max_attempts retry" by (cases sleeps) auto
    with * Inr show ?thesis by simp
  qed
qed

theorem retry_exact_witness:
  "export_with_retry flaky ''up'' [] retry_default 1 0 = (Inr \<lparr>report_records = 0, report_bytes = 0\<rparr>, [100, 200], 3) \<and>
   [100, 200] = map (\<lambda>k. sleep_before_retry k retry_default) [1 ..< 1 + length [100, 200 :: nat]] \<and>
   \<not> accepted (outcome flaky [] 0 0) \<and> \<not> accepted (outcome flaky [] 1 0)"
proof -
  have e: "export_with_retry flaky ''up'' [] retry_default 1 0 = (Inr \<lparr>report_records = 0, report_bytes = 0\<rparr>, [100, 200], 3)"
    by code_simp
  have "1 \<le> max_attempts retry_default" by code_simp
  note * = retry_exact [OF this e]
  then have f: "\<not> accepted (outcome flaky [] k 0)" if "k < length [100, 200 :: nat]" for k using that by blast
  show ?thesis using * e f [of 0] f [of 1] by simp
qed

text \<open>A batch is split by exporter without loss: the groups are in the order of the
  exporter names, and each holds, in the order of the batch, every record as many times as the route
  of its signal names the exporter.\<close>

theorem grouping_exact:
  assumes "group_records cfg rs [] = Inr g"
  shows "sorted_wrt (<) (map fst g) \<and> (\<forall>name. group_of g name = share cfg name rs) \<and>
    (\<forall>name. name \<in> set (map fst g) \<longleftrightarrow> share cfg name rs \<noteq> [])"
  using group_records_exact [OF assms] keyed_in [of g] by (simp add: keyed_def)

theorem grouping_exact_witness:
  "\<exists>g. group_records default_config [sample_log, sample_log] [] = Inr g \<and> group_of g ''stdout'' = [sample_log, sample_log]"
proof -
  have e: "group_records default_config [sample_log, sample_log] [] = Inr [(''stdout'', [sample_log, sample_log])]" by code_simp
  have s: "share default_config ''stdout'' [sample_log, sample_log] = [sample_log, sample_log]" by code_simp
  show ?thesis using grouping_exact [OF e] s e by metis
qed

text \<open>A reload replaces the configuration, the processors, the exporters and the
  generation together, or, when validation or the construction of the exporters fails, none of them;
  the queue is never touched, and a validated configuration stays one.\<close>

theorem reload_atomic:
  assumes "validate_config (rt_config rt) = Inr ()" and "reload_config build cfg rt = (res, rt')"
  shows "rt_queue rt' = rt_queue rt \<and> validate_config (rt_config rt') = Inr () \<and> flush_in_progress rt' = flush_in_progress rt \<and>
    (case res of
       Inr _ \<Rightarrow> rt_config rt' = cfg \<and> rt_processors rt' = chain_from_config cfg \<and>
         build (exporters cfg) = Inr (rt_exporters rt') \<and> config_generation rt' = add_u64 (config_generation rt) 1
     | Inl e \<Rightarrow> rt_config rt' = rt_config rt \<and> rt_processors rt' = rt_processors rt \<and>
         rt_exporters rt' = rt_exporters rt \<and> config_generation rt' = config_generation rt \<and>
         (validate_config cfg \<noteq> Inr () \<or> \<not> is_ok (build (exporters cfg))))"
  using assms
  by (cases "validate_config cfg"; cases "build (exporters cfg)")
    (auto simp: reload_config_def reload_config_inner_def)

theorem reload_atomic_witness:
  "\<exists>rt'. reload_config (\<lambda>_. Inl ''no TLS'') default_config
       (opened Map.empty default_config sample_queue :: unit agent_runtime) = (Inl (ExporterErr ''no TLS''), rt') \<and>
     rt_queue rt' = sample_queue \<and> config_generation rt' = 0"
proof -
  let ?rt = "opened Map.empty default_config sample_queue :: unit agent_runtime"
  obtain res rt' where f: "reload_config (\<lambda>_. Inl ''no TLS'') default_config ?rt = (res, rt')"
    by (cases "reload_config (\<lambda>_. Inl ''no TLS'') default_config ?rt")
  have v: "validate_config default_config = Inr ()" by code_simp
  then have "res = Inl (ExporterErr ''no TLS'')" using f by (simp add: reload_config_def reload_config_inner_def)
  then show ?thesis using reload_atomic [where rt = ?rt, OF _ f] v f by simp
qed

definition trace_only :: pipeline_config where
  "trace_only = default_config\<lparr>processors := [], routes := [\<lparr>route_signal = Trace, route_exporters = [''stdout'']\<rparr>]\<rparr>"

definition small_quota :: pipeline_config where
  "small_quota = default_config\<lparr>limits := limits_default\<lparr>max_queue_bytes := 60\<rparr>\<rparr>"

text \<open>Ingest does not ask whether the signal of a record has a route, and a validated
  configuration need not have one for each signal. Once such a record is at the head of the queue and
  no processor drops it, no number of flushes takes anything off the queue.\<close>

theorem unrouted_record_blocks:
  assumes "sound_queue (rt_queue rt)" and "pending (rt_queue rt) = p # rest" and "decode p = Inr r"
    and "signal r \<notin> set (map route_signal (routes (rt_config rt)))"
    and "chain_processors (rt_processors rt) = []" and "0 < n"
  shows "rt_queue (flush_rounds export n clocks rt) = rt_queue rt"
  using assms
proof (induction clocks arbitrary: rt)
  case (Cons clock clocks)
  obtain res rt' where "flush export clock n rt = (res, rt')" by (cases "flush export clock n rt")
  with flush_unrouted [OF Cons.prems this] Cons.IH [of rt'] Cons.prems show ?case by simp
qed simp

theorem unrouted_record_blocks_witness:
  "validate_config trace_only = Inr () \<and>
   pending (rt_queue (flush_rounds steady 100 [\<lambda>_ _. 0, \<lambda>_ _. 1] (opened [''stdout'' \<mapsto> ()] trace_only sample_queue))) = [sample_payload]"
proof -
  have "validate_config trace_only = Inr ()" by code_simp
  moreover have "chain_processors (chain_from_config trace_only) = []" by code_simp
  moreover have "signal sample_log \<notin> set (map route_signal (routes trace_only))" by code_simp
  ultimately show ?thesis
    using unrouted_record_blocks [where rt = "opened [''stdout'' \<mapsto> ()] trace_only sample_queue" and p = sample_payload and rest = "[]"
        and r = sample_log and n = 100 and export = steady and clocks = "[\<lambda>_ _. 0, \<lambda>_ _. 1]"]
      sample_queue sample_encode(2) by (simp del: flush_rounds.simps One_nat_def)
qed

text \<open>The quota counts the bytes of the segment files, also those of records already
  delivered: with a quota below the segment size a drained queue goes on refusing records, and
  flushing does not help.\<close>

theorem quota_counts_consumed:
  "let rt = opened [''stdout'' \<mapsto> ()] small_quota sample_queue;
       rt1 = snd (flush steady (\<lambda>_ _. 0) 10 rt);
       rt2 = snd (ingest sample_log rt1);
       rt3 = snd (flush steady (\<lambda>_ _. 0) 10 rt2)
   in validate_config small_quota = Inr () \<and> pending (rt_queue rt1) = [] \<and>
      fst (ingest sample_log rt1) = Inl (RuntimeErr (QueueFull 43 43 60)) \<and>
      is_ok (fst (flush steady (\<lambda>_ _. 0) 10 rt2)) \<and>
      fst (ingest sample_log rt3) = Inl (RuntimeErr (QueueFull 43 43 60))"
  by code_simp

end
