(* ===== verification/Shared_Properties.thy ===== *)
theory Shared_Properties
  imports Shared_Flush Runtime_Properties
begin

text \<open>The properties of the shared flush: alone it is the exclusive flush, and under every interleaving with
  ingest, reload, pause and other flushes it loses and duplicates nothing.\<close>

text \<open>With no other flush in progress and no task in between, \<^verbatim>\<open>flush_shared\<close> returns and
  does what \<^verbatim>\<open>flush\<close> does, and \<^verbatim>\<open>flush_for_shutdown_shared\<close> what \<^verbatim>\<open>flush_for_shutdown\<close> does: same result, same
  queue, exporters, processors and metrics.\<close>

theorem shared_is_exclusive:
  assumes "\<not> flush_in_progress rt"
  shows "flush_shared export clock n rt = Some (flush export clock n rt) \<and>
    flush_for_shutdown_shared export clock n rt = Some (flush_for_shutdown export clock n rt)"
proof
  show "flush_shared export clock n rt = Some (flush export clock n rt)"
  proof (cases "exports_paused rt")
    case True
    then show ?thesis by (simp add: flush_shared_def flush_def flush_shared_inner_def prepare_shared_flush_def)
  next
    case False
    then show ?thesis using shared_alone_unpaused [OF assms, where force = False] by (simp add: flush_shared_def flush_def)
  qed
  obtain r rt' where f: "flush_unpaused export clock n rt = (r, rt')" by (cases "flush_unpaused export clock n rt")
  have "rt' = rt'\<lparr>exports_paused := exports_paused rt\<rparr>"
    using flush_unpaused_paused_frame [where export = export and clock = clock and n = n and rt = rt and p = "exports_paused rt"] f by simp
  then have "flush_for_shutdown export clock n rt = (r, rt')"
    using flush_unpaused_paused_frame [where export = export and clock = clock and n = n and rt = rt and p = False] f by (simp add: flush_for_shutdown_def Let_def)
  then show "flush_for_shutdown_shared export clock n rt = Some (flush_for_shutdown export clock n rt)"
    using shared_alone_unpaused [OF assms, where force = True] f by (simp add: flush_for_shutdown_shared_def)
qed

theorem shared_is_exclusive_witness:
  "flush_shared steady (\<lambda>_ _. 0) 5 (opened [''stdout'' \<mapsto> ()] default_config sample_queue) =
     Some (flush steady (\<lambda>_ _. 0) 5 (opened [''stdout'' \<mapsto> ()] default_config sample_queue))"
  using shared_is_exclusive [of "opened [''stdout'' \<mapsto> ()] default_config sample_queue" steady "\<lambda>_ _. 0" 5] by simp

text \<open>Property C4 (shared_flush_exact). Under every interleaving of flush tasks with ingest, reload, pause and resume: what was
  queued at the start followed by what was accepted since is what was committed followed by what is
  queued now; the queue stays sound; at most one task exports at a time, namely when the flag is set.\<close>

theorem shared_flush_exact:
  assumes "runtime_ok rt" and "\<not> flush_in_progress rt" and "builds_all build"
    and "(shared_step build export)\<^sup>*\<^sup>* (idle_world rt) w"
  shows "pending (rt_queue rt) @ taken_in w = committed w @ pending (rt_queue (runtime w)) \<and>
    sound_queue (rt_queue (runtime w)) \<and> one_exporting (tasks w) \<and>
    (flush_in_progress (runtime w) \<longleftrightarrow> (\<exists>i pf. tasks w i = Some (Exporting pf)))"
  using shared_run_ok [OF assms(4,3) idle_world_ok [OF assms(1,2)]] by (simp add: world_ok_def runtime_ok_def)

section \<open>Whose exporters\<close>

text \<open>An exporter after any number of calls, and the exporters that were built for a configuration and may have been called since.\<close>

definition called :: "'x export_fn \<Rightarrow> 'x \<Rightarrow> 'x \<Rightarrow> bool" where
  "called export = (\<lambda>x y. \<exists>batch. y = snd (export batch x))\<^sup>*\<^sup>*"

definition exporters_of :: "'x build_fn \<Rightarrow> 'x export_fn \<Rightarrow> pipeline_config \<Rightarrow> 'x exporter_map \<Rightarrow> bool" where
  "exporters_of build export cfg es \<longleftrightarrow>
     (\<exists>built. build (exporters cfg) = Inr built \<and> (\<forall>name. rel_option (called export) (built name) (es name)))"

lemma called_refl [simp]: "called export x x"
  by (simp add: called_def)

lemma called_trans: "called export x y \<Longrightarrow> called export y z \<Longrightarrow> called export x z"
  unfolding called_def by (rule rtranclp_trans)

lemma called_after: "called export x (after_calls export batch n x)"
proof (induction n arbitrary: x)
  case (Suc n)
  have "called export x (snd (export batch x))" unfolding called_def by (rule r_into_rtranclp) blast
  with Suc [of "snd (export batch x)"] show ?case by (simp add: called_trans)
qed simp

lemma called_map_refl: "rel_option (called export) x x"
  by (cases x) simp_all

lemma called_map_trans: "rel_option (called export) x y \<Longrightarrow> rel_option (called export) y z \<Longrightarrow> rel_option (called export) x z"
  by (cases x; cases y; cases z) (auto intro: called_trans)

lemma export_groups_called: "export_groups export cfg g report es = (r, es') \<Longrightarrow> rel_option (called export) (es name) (es' name)"
proof (induction g arbitrary: report es)
  case Nil
  then show ?case by (simp add: called_map_refl)
next
  case (Cons kv gs)
  obtain key records where kv: "kv = (key, records)" by (cases kv)
  show ?case
  proof (cases "es key")
    case None
    then show ?thesis using Cons.prems by (auto simp: kv called_map_refl)
  next
    case (Some x)
    obtain r1 sleeps y where e: "export_with_retry export key records (retry_for cfg key) 1 x = (r1, sleeps, y)"
      by (metis prod_cases3)
    have "called export x y" using export_with_retry_spec [OF e] called_after by metis
    then have upd: "rel_option (called export) (es name) ((es(key \<mapsto> y)) name)" using Some by (simp add: called_map_refl)
    show ?thesis
    proof (cases r1)
      case (Inl e1)
      then show ?thesis using Cons.prems Some e upd by (auto simp: kv)
    next
      case (Inr er)
      then have "rel_option (called export) ((es(key \<mapsto> y)) name) (es' name)"
        using Cons.prems Some e by (intro Cons.IH) (simp add: kv del: fun_upd_apply)
      with upd show ?thesis by (rule called_map_trans)
    qed
  qed
qed

lemma export_records_called: "export_records export cfg rs es = (r, es') \<Longrightarrow> rel_option (called export) (es name) (es' name)"
  using export_groups_called [of export cfg _ default_flush_report es r es']
  by (cases "group_records cfg rs []") (auto simp: export_records_def called_map_refl)

lemma exporters_of_called:
  "exporters_of build export cfg es \<Longrightarrow> export_records export cfg' rs es = (r, es') \<Longrightarrow> exporters_of build export cfg es'"
  unfolding exporters_of_def using export_records_called called_map_trans by meson

lemma exporters_of_built: "build (exporters cfg) = Inr es \<Longrightarrow> exporters_of build export cfg es"
  by (simp add: exporters_of_def called_map_refl)

text \<open>Where the exporters of the current configuration are: in the runtime, or with the one task that exports with them.\<close>

definition holds_exporters :: "'x build_fn \<Rightarrow> 'x export_fn \<Rightarrow> 'x world \<Rightarrow> bool" where
  "holds_exporters build export w \<longleftrightarrow>
     (if \<exists>i pf. tasks w i = Some (Exporting pf) \<and> pf_generation pf = config_generation (runtime w)
      then \<forall>i pf. tasks w i = Some (Exporting pf) \<longrightarrow> exporters_of build export (rt_config (runtime w)) (pf_exporters pf)
      else exporters_of build export (rt_config (runtime w)) (rt_exporters (runtime w)))"

lemma holds_exporters_frame:
  assumes "holds_exporters build export w" and "\<And>i pf. tasks w' i = Some (Exporting pf) \<longleftrightarrow> tasks w i = Some (Exporting pf)"
    and "rt_config (runtime w') = rt_config (runtime w)" and "config_generation (runtime w') = config_generation (runtime w)"
    and "rt_exporters (runtime w') = rt_exporters (runtime w)"
  shows "holds_exporters build export w'"
  using assms by (simp add: holds_exporters_def)

lemma holds_exporters_step:
  assumes "shared_step build export w w'" and "world_ok start w" and "holds_exporters build export w"
  shows "holds_exporters build export w'"
  using assms
proof (induction rule: shared_step.induct)
  case (spawn w i n force)
  then show ?case by (intro holds_exporters_frame [OF spawn(3)]) auto
next
  case (busy w i n force clock rt')
  from prepare_cases [OF world_okD(6) [OF busy(3)] busy(2)] have "rt' = runtime w" by auto
  then show ?case using busy(4) by simp
next
  case (prepare w i n force clock pf rt')
  have c: "\<not> flush_in_progress (runtime w)" "rt_config rt' = rt_config (runtime w)" "config_generation rt' = config_generation (runtime w)"
    "pf_exporters pf = rt_exporters (runtime w)" "pf_generation pf = config_generation (runtime w)"
    using prepare_cases [OF world_okD(6) [OF prepare(3)] prepare(2)] by auto
  then have idle: "tasks w j \<noteq> Some (Exporting pf')" for j pf' using world_okD(3) [OF prepare(3)] by auto
  then have "exporters_of build export (rt_config (runtime w)) (rt_exporters (runtime w))" using prepare(4) by (simp add: holds_exporters_def)
  then show ?case using c idle by (auto simp: holds_exporters_def)
next
  case (nothing w i n force clock rt')
  then have "rt_config rt' = rt_config (runtime w) \<and> config_generation rt' = config_generation (runtime w) \<and> rt_exporters rt' = rt_exporters (runtime w)"
    using prepare_cases [OF world_okD(6) [OF nothing.prems(1)] nothing.hyps(2)] by auto
  then show ?case using nothing.hyps(1) by (intro holds_exporters_frame [OF nothing.prems(2)]) auto
next
  case (give_up w i n force clock err rt')
  then have "rt_config rt' = rt_config (runtime w) \<and> config_generation rt' = config_generation (runtime w) \<and> rt_exporters rt' = rt_exporters (runtime w)"
    using prepare_cases [OF world_okD(6) [OF give_up(3)] give_up(2)] by auto
  then show ?case using give_up(1) by (intro holds_exporters_frame [OF give_up(4)]) auto
next
  case (finish w i pf result es out rt')
  note d = world_okD [OF finish(4)]
  have "batch_held (pf_batch pf) (rt_queue (runtime w))" using d(5) [OF finish(1)] by (simp add: task_ok_def)
  note c = finish_cases [OF d(6) this finish(3)]
  have same: "tasks w j = Some (Exporting pf') \<Longrightarrow> j = i \<and> pf' = pf" for j pf' using d(4) finish(1) by (fastforce simp: one_exporting_def)
  have "exporters_of build export (rt_config (runtime w)) (rt_exporters rt')"
  proof (cases "pf_generation pf = config_generation (runtime w)")
    case True
    then have "exporters_of build export (rt_config (runtime w)) (pf_exporters pf)"
      using finish(1,5) unfolding holds_exporters_def by (metis (mono_tags, lifting))
    then show ?thesis using exporters_of_called [OF _ finish(2)] c True by simp
  next
    case False
    then have "\<not> (\<exists>i pf. tasks w i = Some (Exporting pf) \<and> pf_generation pf = config_generation (runtime w))" using same by blast
    then have "exporters_of build export (rt_config (runtime w)) (rt_exporters (runtime w))"
      using finish(5) unfolding holds_exporters_def by (simp only: if_False)
    then show ?thesis using c False by simp
  qed
  moreover have "((tasks w)(i \<mapsto> Finished out)) j \<noteq> Some (Exporting pf')" for j pf' using same by auto
  ultimately show ?case using c by (simp add: holds_exporters_def)
next
  case (ingest w r res rt')
  from ingest_cases [OF world_okD(6,7) [OF ingest(3)] ingest(1,2)] show ?case by (intro holds_exporters_frame [OF ingest(4)]) simp_all
next
  case (reload w cfg res rt')
  from reload_cases [OF reload(3)] consider
    "rt_config rt' = rt_config (runtime w)" "rt_exporters rt' = rt_exporters (runtime w)" "config_generation rt' = config_generation (runtime w)"
  | "rt_config rt' = cfg" "build (exporters cfg) = Inr (rt_exporters rt')" "config_generation rt' = add_u64 (config_generation (runtime w)) 1"
    by blast
  then show ?case
  proof cases
    case 1
    then show ?thesis by (intro holds_exporters_frame [OF reload(5)]) simp_all
  next
    case 2
    have "config_generation rt' = Suc (config_generation (runtime w))" using 2(3) reload(1) by (simp add: add_u64_fits)
    then have "pf_generation pf \<noteq> config_generation rt'" if "tasks w i = Some (Exporting pf)" for i pf
      using world_okD(5) [OF reload(4) that] by (auto simp: task_ok_def)
    moreover have "exporters_of build export cfg (rt_exporters rt')" by (rule exporters_of_built) (rule 2(2))
    ultimately show ?thesis using 2(1) by (auto simp: holds_exporters_def)
  qed
next
  case (pause w)
  then show ?case by (intro holds_exporters_frame [OF pause(2)]) (simp_all add: pause_exports_def)
next
  case (resume w)
  then show ?case by (intro holds_exporters_frame [OF resume(2)]) (simp_all add: resume_exports_def)
qed

lemma holds_exporters_run:
  assumes "(shared_step build export)\<^sup>*\<^sup>* w w'" and "builds_all build" and "world_ok start w" and "holds_exporters build export w"
  shows "holds_exporters build export w'"
  using assms(1)
proof (induction rule: rtranclp_induct)
  case (step u v)
  then show ?case using holds_exporters_step [OF step.hyps(2) shared_run_ok [OF step.hyps(1) assms(2,3)]] by simp
qed (rule assms(4))

text \<open>
  Property C31 (reload_during_flush). Start with exporters that were built for the configuration of the runtime. Under every interleaving of
  flushes with reloads, ingest, pause and resume: whenever no flush is in progress, the runtime holds exporters that were built for its
  current configuration and have been called at most since; so a flush that finishes after a reload does not put the exporters of
  an earlier configuration back. While a task exports, it has the current configuration and exporters built for that one if it prepared in the current generation;
  if it prepared in an earlier one, the runtime already has those of the current configuration.
\<close>

theorem reload_during_flush:
  assumes "runtime_ok rt" and "\<not> flush_in_progress rt" and "builds_all build" and "exporters_of build export (rt_config rt) (rt_exporters rt)"
    and "(shared_step build export)\<^sup>*\<^sup>* (idle_world rt) w"
  shows "(\<not> flush_in_progress (runtime w) \<longrightarrow> exporters_of build export (rt_config (runtime w)) (rt_exporters (runtime w))) \<and>
    (\<forall>i pf. tasks w i = Some (Exporting pf) \<longrightarrow>
       (if pf_generation pf = config_generation (runtime w)
        then pf_config pf = rt_config (runtime w) \<and> exporters_of build export (rt_config (runtime w)) (pf_exporters pf)
        else exporters_of build export (rt_config (runtime w)) (rt_exporters (runtime w))))"
proof -
  have w0: "world_ok (pending (rt_queue rt)) (idle_world rt)" "holds_exporters build export (idle_world rt)"
    using idle_world_ok [OF assms(1,2)] assms(4) by (simp_all add: holds_exporters_def idle_world_def)
  note w = shared_run_ok [OF assms(5,3) w0(1)] and h = holds_exporters_run [OF assms(5,3) w0]
  note d = world_okD [OF w]
  have "exporters_of build export (rt_config (runtime w)) (rt_exporters (runtime w))" if "\<not> flush_in_progress (runtime w)"
    using h d(3) that unfolding holds_exporters_def by (simp split: if_splits)
  moreover have "pf_config pf = rt_config (runtime w) \<and> exporters_of build export (rt_config (runtime w)) (pf_exporters pf)"
    if "tasks w i = Some (Exporting pf)" "pf_generation pf = config_generation (runtime w)" for i pf
    using h d(5) [OF that(1)] that unfolding holds_exporters_def task_ok_def by (metis (mono_tags, lifting))
  moreover have "exporters_of build export (rt_config (runtime w)) (rt_exporters (runtime w))"
    if "tasks w i = Some (Exporting pf)" "pf_generation pf \<noteq> config_generation (runtime w)" for i pf
  proof -
    have "\<not> (\<exists>i pf. tasks w i = Some (Exporting pf) \<and> pf_generation pf = config_generation (runtime w))"
      using d(4) that unfolding one_exporting_def by (metis flush_task.inject(2) option.inject)
    then show ?thesis using h unfolding holds_exporters_def by (simp only: if_False)
  qed
  ultimately show ?thesis by auto
qed

section \<open>A sample run\<close>

definition build_units :: "unit build_fn" where
  "build_units cs = Inr (\<lambda>n. if n \<in> set (map exp_name cs) then Some () else None)"

lemma build_units_all: "builds_all build_units"
  by (auto simp: builds_all_def build_units_def split: if_splits)

abbreviation sample_runtime :: "unit agent_runtime" where
  "sample_runtime \<equiv> opened [''stdout'' \<mapsto> ()] default_config sample_queue"

lemma sample_runtime_ok: "runtime_ok sample_runtime"
  using sample_queue(1) by (simp add: runtime_ok_def exporter_names_def default_config_def limits_default_def)

text \<open>A flush task prepares its batch; before it finishes, the same configuration is loaded again.\<close>

lemma sample_run:
  "\<exists>w pf. (shared_step build_units steady)\<^sup>*\<^sup>* (idle_world sample_runtime) w \<and> tasks w 0 = Some (Exporting pf) \<and>
     pf_generation pf \<noteq> config_generation (runtime w)"
proof -
  let ?S = "shared_step build_units steady"
  define w0 where "w0 = idle_world sample_runtime"
  define w1 where "w1 = w0\<lparr>tasks := (tasks w0)(0 \<mapsto> Waiting 5 False)\<rparr>"
  have s1: "?S w0 w1" unfolding w1_def by (rule shared_step.spawn) (simp add: idle_world_def w0_def)
  have w1: "runtime w1 = sample_runtime" "tasks w1 0 = Some (Waiting 5 False)" by (simp_all add: w1_def w0_def idle_world_def)
  let ?p = "prepare_shared_flush (\<lambda>_ _. 0) 5 False sample_runtime"
  have "case fst ?p of Returned (Inr (Some pf)) \<Rightarrow> pf_generation pf = 0 \<and> config_generation (snd ?p) = 0 | _ \<Rightarrow> False" by code_simp
  then obtain pf rt1 where p: "?p = (Returned (Inr (Some pf)), rt1)" "pf_generation pf = 0" "config_generation rt1 = 0"
    by (cases ?p) (auto split: prepare_round.splits sum.splits option.splits)
  define w2 where "w2 = w1\<lparr>runtime := rt1, tasks := (tasks w1)(0 \<mapsto> Exporting pf)\<rparr>"
  have s2: "?S w1 w2" unfolding w2_def by (rule shared_step.prepare [OF w1(2)]) (simp only: w1(1), rule p(1))
  have w2: "runtime w2 = rt1" "tasks w2 0 = Some (Exporting pf)" by (simp_all add: w2_def)
  have v: "validate_config default_config = Inr ()" by code_simp
  obtain rt2 where r: "reload_config build_units default_config rt1 = (Inr (), rt2)" "config_generation rt2 = 1"
    using v p(3) by (auto simp: reload_config_def reload_config_inner_def build_units_def add_u64_def)
  have s3: "?S w2 (w2\<lparr>runtime := rt2\<rparr>)"
    by (rule shared_step.reload [OF _ _ r(1) [folded w2(1)]]) (simp_all add: w2(1) p(3), simp add: default_config_def limits_default_def)
  have "?S\<^sup>*\<^sup>* w0 (w2\<lparr>runtime := rt2\<rparr>)" by (rule rtranclp.rtrancl_into_rtrancl [OF rtranclp.rtrancl_into_rtrancl [OF r_into_rtranclp [where r = ?S, OF s1] s2] s3])
  then show ?thesis using p(2) r(2) w2 w0_def by (intro exI [of _ "w2\<lparr>runtime := rt2\<rparr>"] exI [of _ pf]) simp
qed

theorem shared_flush_exact_witness:
  "\<exists>w :: unit world. [sample_payload] @ taken_in w = committed w @ pending (rt_queue (runtime w)) \<and> flush_in_progress (runtime w)"
proof -
  obtain w pf where "(shared_step build_units steady)\<^sup>*\<^sup>* (idle_world sample_runtime) w" "tasks w 0 = Some (Exporting pf)"
    using sample_run by blast
  with shared_flush_exact [OF sample_runtime_ok _ build_units_all this(1)] sample_queue(2) show ?thesis by auto
qed

theorem reload_during_flush_witness:
  "\<exists>w :: unit world. flush_in_progress (runtime w) \<and> exporters_of build_units steady (rt_config (runtime w)) (rt_exporters (runtime w))"
proof -
  obtain w pf where w: "(shared_step build_units steady)\<^sup>*\<^sup>* (idle_world sample_runtime) w" "tasks w 0 = Some (Exporting pf)"
    "pf_generation pf \<noteq> config_generation (runtime w)" using sample_run by blast
  have "flush_in_progress (runtime w)"
    using shared_run_ok [OF w(1) build_units_all idle_world_ok [OF sample_runtime_ok]] w(2) by (auto simp: world_ok_def)
  moreover have built: "build_units (exporters (rt_config sample_runtime)) = Inr (rt_exporters sample_runtime)"
    by (auto simp: build_units_def default_config_def fun_eq_iff)
  have "exporters_of build_units steady (rt_config sample_runtime) (rt_exporters sample_runtime)"
    by (rule exporters_of_built) (rule built)
  from reload_during_flush [OF sample_runtime_ok _ build_units_all this w(1)] w(2,3)
  have "exporters_of build_units steady (rt_config (runtime w)) (rt_exporters (runtime w))" by fastforce
  ultimately show ?thesis by blast
qed

end
