(* ===== verification/Config_File.thy ===== *)
theory Config_File
  imports Pipeline_Config
begin

text \<open>
  The configuration file of the agent (\<^verbatim>\<open>crates/telemetry-agent/src/config_file.rs\<close>): the records that the
  YAML text is read into, and their translation to a validated pipeline configuration. Reading the
  YAML text is the work of \<^verbatim>\<open>serde_yaml\<close> and an argument of \<open>parse_pipeline_config\<close>. A \<^verbatim>\<open>BTreeMap\<close> is the list of
  its entries in key order. Errors are the messages of the boxed errors.
\<close>

section \<open>The file\<close>

datatype file_tls_config =
  TlsSwitch bool
| TlsDetailed (ftls_enabled: "bool option") (ftls_ca_file: "string option") (ftls_cert_file: "string option")
    (ftls_key_file: "string option") (ftls_server_name: "string option") (ftls_require_client_auth: "bool option")

record file_receiver_config =
  frc_protocol :: string
  frc_endpoint :: string
  frc_tls :: "file_tls_config option"

record file_processor_config =
  fpr_enabled :: "bool option"

record file_exporter_retry_config =
  fre_max_attempts :: "usize option"
  fre_timeout_ms :: "u64 option"
  fre_initial_backoff_ms :: "u64 option"

record file_exporter_config =
  fex_protocol :: string
  fex_endpoint :: string
  fex_tls :: "file_tls_config option"
  fex_retry :: "file_exporter_retry_config option"

record file_route_config =
  fro_exporters :: "string list"

record file_tenant_limits =
  fli_max_ingest_bytes_per_second :: "u64 option"
  fli_max_queue_bytes :: "u64 option"
  fli_max_record_bytes :: "nat option"

type_synonym 'v btree_map = "(string \<times> 'v) list"

record file_pipeline_config =
  fpc_tenant :: string
  fpc_pipeline :: "string option"
  fpc_receivers :: "file_receiver_config btree_map"
  fpc_processors :: "file_processor_config btree_map option"
  fpc_exporters :: "file_exporter_config btree_map"
  fpc_routes :: "file_route_config btree_map"
  fpc_limits :: "file_tenant_limits option"

section \<open>Tokens\<close>

definition unwrap_or :: "'a option \<Rightarrow> 'a \<Rightarrow> 'a" where
  "unwrap_or x d = (case x of None \<Rightarrow> d | Some y \<Rightarrow> y)"

definition normalize_token :: "string \<Rightarrow> string" where
  "normalize_token s =
     map (\<lambda>c. if c = CHR ''_'' then CHR ''-'' else c) (to_ascii_lowercase (trim s))"

definition parse_receiver_protocol :: "string \<Rightarrow> string + receiver_protocol" where
  "parse_receiver_protocol s =
     (let t = normalize_token s in
      if t = ''otlp-grpc'' then Inr ReceiverOtlpGrpc
      else if t = ''otlp-http'' then Inr ReceiverOtlpHttp
      else Inl (''unknown receiver protocol: '' @ s))"

definition parse_processor_kind :: "string \<Rightarrow> string + processor_kind" where
  "parse_processor_kind s =
     (let t = normalize_token s in
      if t = ''memory-limiter'' then Inr MemoryLimiter
      else if t = ''batch'' then Inr Batch
      else if t = ''redact'' then Inr Redact
      else if t = ''tenant-rate-limit'' then Inr TenantRateLimit
      else Inl (''unknown processor kind: '' @ s))"

definition parse_exporter_protocol :: "string \<Rightarrow> string + exporter_protocol" where
  "parse_exporter_protocol s =
     (let t = normalize_token s in
      if t = ''otlp-grpc'' then Inr OtlpGrpc
      else if t = ''otlp-http'' then Inr OtlpHttp
      else if t = ''otlp-http-json'' then Inr OtlpHttpJson
      else if t = ''prometheus-remote-write'' then Inr PrometheusRemoteWrite
      else if t = ''stdout'' then Inr Stdout
      else if t = ''file'' then Inr File
      else Inl (''unknown exporter protocol: '' @ s))"

definition parse_signal :: "string \<Rightarrow> string + signal_kind" where
  "parse_signal s = ok_or (''unknown route signal: '' @ s) (signal_from_token (normalize_token s))"

section \<open>Translation\<close>

fun into_tls_config :: "file_tls_config \<Rightarrow> tls_config" where
  "into_tls_config (TlsSwitch e) = tls_default\<lparr>tls_enabled := e\<rparr>"
| "into_tls_config (TlsDetailed e ca cert key name auth) =
     \<lparr>tls_enabled = unwrap_or e True, ca_file = ca, cert_file = cert, key_file = key,
      server_name = name, require_client_auth = unwrap_or auth False\<rparr>"

definition tls_or_disabled :: "file_tls_config option \<Rightarrow> tls_config" where
  "tls_or_disabled t = (case t of None \<Rightarrow> tls_disabled | Some f \<Rightarrow> into_tls_config f)"

definition into_retry_config :: "file_exporter_retry_config \<Rightarrow> retry_config" where
  "into_retry_config f =
     \<lparr>max_attempts = unwrap_or (fre_max_attempts f) (max_attempts retry_default),
      timeout_ms = unwrap_or (fre_timeout_ms f) (timeout_ms retry_default),
      initial_backoff_ms = unwrap_or (fre_initial_backoff_ms f) (initial_backoff_ms retry_default)\<rparr>"

definition into_receiver_config :: "string \<times> file_receiver_config \<Rightarrow> string + receiver_config" where
  "into_receiver_config = (\<lambda>(name, f).
     res_bind (parse_receiver_protocol (frc_protocol f)) (\<lambda>protocol.
     Inr \<lparr>rcv_name = name, rcv_protocol = protocol, rcv_endpoint = frc_endpoint f,
          rcv_tls = tls_or_disabled (frc_tls f)\<rparr>))"

definition into_processor_config :: "string \<times> file_processor_config \<Rightarrow> string + processor_config" where
  "into_processor_config = (\<lambda>(name, f).
     res_bind (parse_processor_kind name) (\<lambda>kind.
     Inr \<lparr>proc_name = name, proc_kind = kind, proc_enabled = unwrap_or (fpr_enabled f) True\<rparr>))"

definition into_exporter_config :: "string \<times> file_exporter_config \<Rightarrow> string + exporter_config" where
  "into_exporter_config = (\<lambda>(name, f).
     res_bind (parse_exporter_protocol (fex_protocol f)) (\<lambda>protocol.
     Inr \<lparr>exp_name = name, exp_protocol = protocol, exp_endpoint = fex_endpoint f,
          exp_tls = tls_or_disabled (fex_tls f),
          exp_retry = (case fex_retry f of None \<Rightarrow> retry_default | Some r \<Rightarrow> into_retry_config r)\<rparr>))"

definition into_route_config :: "string \<times> file_route_config \<Rightarrow> string + route_config" where
  "into_route_config = (\<lambda>(sg, f).
     res_bind (parse_signal sg) (\<lambda>s. Inr \<lparr>route_signal = s, route_exporters = fro_exporters f\<rparr>))"

definition into_tenant_limits :: "file_tenant_limits \<Rightarrow> tenant_limits" where
  "into_tenant_limits f =
     \<lparr>max_ingest_bytes_per_second =
        unwrap_or (fli_max_ingest_bytes_per_second f) (max_ingest_bytes_per_second limits_default),
      max_queue_bytes = unwrap_or (fli_max_queue_bytes f) (max_queue_bytes limits_default),
      max_record_bytes = unwrap_or (fli_max_record_bytes f) (max_record_bytes limits_default)\<rparr>"

definition into_pipeline_config :: "file_pipeline_config \<Rightarrow> string + pipeline_config" where
  "into_pipeline_config f =
     res_bind (res_map into_receiver_config (fpc_receivers f)) (\<lambda>rs.
     res_bind (res_map into_processor_config (unwrap_or (fpc_processors f) [])) (\<lambda>ps.
     res_bind (res_map into_exporter_config (fpc_exporters f)) (\<lambda>es.
     res_bind (res_map into_route_config (fpc_routes f)) (\<lambda>routes.
     let cfg = \<lparr>cfg_tenant_id = fpc_tenant f, cfg_name = unwrap_or (fpc_pipeline f) ''default'',
                receivers = rs, processors = ps, exporters = es, routes = routes,
                limits = (case fpc_limits f of None \<Rightarrow> limits_default | Some l \<Rightarrow> into_tenant_limits l)\<rparr>;
         cfg = (if processors cfg = [] then cfg\<lparr>processors := processors default_config\<rparr> else cfg)
     in res_bind (map_err show_pipeline_error (validate_config cfg)) (\<lambda>_. Inr cfg)))))"

definition parse_pipeline_config ::
  "(string \<Rightarrow> string + file_pipeline_config) \<Rightarrow> string \<Rightarrow> string + pipeline_config" where
  "parse_pipeline_config from_yaml content = res_bind (from_yaml content) into_pipeline_config"

definition load_pipeline_config ::
  "(string \<Rightarrow> string + string) \<Rightarrow> (string \<Rightarrow> string + file_pipeline_config) \<Rightarrow> string \<Rightarrow> string + pipeline_config" where
  "load_pipeline_config read_to_string from_yaml path =
     res_bind (read_to_string path) (parse_pipeline_config from_yaml)"

section \<open>What is accepted\<close>

lemma unwrap_or_simps [simp]: "unwrap_or None d = d" "unwrap_or (Some x) d = x"
  by (simp_all add: unwrap_or_def)

text \<open>
  What a file means, without the parsers of the code: each name with the value it stands for. A name may be written in
  upper or lower case, with underscores for hyphens, and in white space.
\<close>

definition receiver_names :: "(string \<times> receiver_protocol) list" where
  "receiver_names = [(''otlp-grpc'', ReceiverOtlpGrpc), (''otlp-http'', ReceiverOtlpHttp)]"

definition processor_names :: "(string \<times> processor_kind) list" where
  "processor_names =
     [(''batch'', Batch), (''memory-limiter'', MemoryLimiter), (''redact'', Redact), (''tenant-rate-limit'', TenantRateLimit)]"

definition exporter_protocol_names :: "(string \<times> exporter_protocol) list" where
  "exporter_protocol_names =
     [(''file'', File), (''otlp-grpc'', OtlpGrpc), (''otlp-http'', OtlpHttp), (''otlp-http-json'', OtlpHttpJson),
      (''prometheus-remote-write'', PrometheusRemoteWrite), (''stdout'', Stdout)]"

definition signal_names :: "(string \<times> signal_kind) list" where
  "signal_names =
     [(''log'', Log), (''logs'', Log), (''metric'', Metric), (''metrics'', Metric), (''trace'', Trace), (''traces'', Trace)]"

definition same_letter :: "char \<Rightarrow> char \<Rightarrow> bool" where
  "same_letter c d \<longleftrightarrow> c = d \<or> c = CHR ''_'' \<and> d = CHR ''-'' \<or>
     (of_char c :: nat) \<in> {65 .. 90} \<and> of_char d = (of_char c :: nat) + 32"

definition spells :: "string \<Rightarrow> (string \<times> 'v) list \<Rightarrow> 'v \<Rightarrow> bool" where
  "spells s names v = list_ex (\<lambda>(name, v'). list_all2 same_letter (trim s) name \<and> v = v') names"

definition given_or :: "'v option \<Rightarrow> 'v \<Rightarrow> 'v \<Rightarrow> bool" where
  "given_or x d v \<longleftrightarrow> x = Some v \<or> x = None \<and> v = d"

fun tls_meant :: "file_tls_config option \<Rightarrow> tls_config \<Rightarrow> bool" where
  "tls_meant None c \<longleftrightarrow> c = \<lparr>tls_enabled = False, ca_file = None, cert_file = None, key_file = None, server_name = None, require_client_auth = False\<rparr>"
| "tls_meant (Some (TlsSwitch on)) c \<longleftrightarrow>
     c = \<lparr>tls_enabled = on, ca_file = None, cert_file = None, key_file = None, server_name = None, require_client_auth = False\<rparr>"
| "tls_meant (Some (TlsDetailed on ca cert key name auth)) c \<longleftrightarrow>
     tls_enabled c = (on \<noteq> Some False) \<and> ca_file c = ca \<and> cert_file c = cert \<and> key_file c = key \<and> server_name c = name \<and>
     require_client_auth c = (auth = Some True)"

fun retry_meant :: "file_exporter_retry_config option \<Rightarrow> retry_config \<Rightarrow> bool" where
  "retry_meant None r \<longleftrightarrow> r = \<lparr>max_attempts = 3, timeout_ms = 30000, initial_backoff_ms = 100\<rparr>"
| "retry_meant (Some f) r \<longleftrightarrow>
     given_or (fre_max_attempts f) 3 (max_attempts r) \<and> given_or (fre_timeout_ms f) 30000 (timeout_ms r) \<and>
     given_or (fre_initial_backoff_ms f) 100 (initial_backoff_ms r)"

text \<open>64 MiB in a second, 10 GiB in the queue and 4 MiB in a record, unless the file says otherwise.\<close>

fun limits_meant :: "file_tenant_limits option \<Rightarrow> tenant_limits \<Rightarrow> bool" where
  "limits_meant None l \<longleftrightarrow>
     l = \<lparr>max_ingest_bytes_per_second = 67108864, max_queue_bytes = 10737418240, max_record_bytes = 4194304\<rparr>"
| "limits_meant (Some f) l \<longleftrightarrow>
     given_or (fli_max_ingest_bytes_per_second f) 67108864 (max_ingest_bytes_per_second l) \<and>
     given_or (fli_max_queue_bytes f) 10737418240 (max_queue_bytes l) \<and> given_or (fli_max_record_bytes f) 4194304 (max_record_bytes l)"

definition receiver_meant :: "string \<times> file_receiver_config \<Rightarrow> receiver_config \<Rightarrow> bool" where
  "receiver_meant = (\<lambda>(name, f) r. rcv_name r = name \<and> spells (frc_protocol f) receiver_names (rcv_protocol r) \<and>
     rcv_endpoint r = frc_endpoint f \<and> tls_meant (frc_tls f) (rcv_tls r))"

definition processor_meant :: "string \<times> file_processor_config \<Rightarrow> processor_config \<Rightarrow> bool" where
  "processor_meant = (\<lambda>(name, f) p. proc_name p = name \<and> spells name processor_names (proc_kind p) \<and> proc_enabled p = (fpr_enabled f \<noteq> Some False))"

definition exporter_meant :: "string \<times> file_exporter_config \<Rightarrow> exporter_config \<Rightarrow> bool" where
  "exporter_meant = (\<lambda>(name, f) e. exp_name e = name \<and> spells (fex_protocol f) exporter_protocol_names (exp_protocol e) \<and>
     exp_endpoint e = fex_endpoint f \<and> tls_meant (fex_tls f) (exp_tls e) \<and> retry_meant (fex_retry f) (exp_retry e))"

definition route_meant :: "string \<times> file_route_config \<Rightarrow> route_config \<Rightarrow> bool" where
  "route_meant = (\<lambda>(key, f) r. spells key signal_names (route_signal r) \<and> route_exporters r = fro_exporters f)"

definition processors_meant :: "file_processor_config btree_map option \<Rightarrow> processor_config list \<Rightarrow> bool" where
  "processors_meant f ps =
     (case f of
        Some (p # rest) \<Rightarrow> list_all2 processor_meant (p # rest) ps
      | _ \<Rightarrow> ps = [\<lparr>proc_name = ''memory-limiter'', proc_kind = MemoryLimiter, proc_enabled = True\<rparr>,
                   \<lparr>proc_name = ''batch'', proc_kind = Batch, proc_enabled = True\<rparr>])"

definition describes :: "file_pipeline_config \<Rightarrow> pipeline_config \<Rightarrow> bool" where
  "describes f c \<longleftrightarrow>
     cfg_tenant_id c = fpc_tenant f \<and> given_or (fpc_pipeline f) ''default'' (cfg_name c) \<and>
     list_all2 receiver_meant (fpc_receivers f) (receivers c) \<and> processors_meant (fpc_processors f) (processors c) \<and>
     list_all2 exporter_meant (fpc_exporters f) (exporters c) \<and> list_all2 route_meant (fpc_routes f) (routes c) \<and>
     limits_meant (fpc_limits f) (limits c)"

section \<open>The translation is that meaning\<close>

text \<open>A name in lower case and without underscores.\<close>

definition plain_name :: "string \<Rightarrow> bool" where
  "plain_name = list_all (\<lambda>c. ascii_lower_char c = c \<and> c \<noteq> CHR ''_'')"

lemma same_letter_iff:
  assumes "ascii_lower_char d = d" and "d \<noteq> CHR ''_''"
  shows "(if ascii_lower_char c = CHR ''_'' then CHR ''-'' else ascii_lower_char c) = d \<longleftrightarrow> same_letter c d"
proof (cases "65 \<le> (of_char c :: nat) \<and> (of_char c :: nat) \<le> 90")
  case True
  then have l: "ascii_lower_char c = char_of ((of_char c :: nat) + 32)" "of_char (char_of ((of_char c :: nat) + 32)) = (of_char c :: nat) + 32"
    by (simp_all add: ascii_lower_char_def of_char_of)
  have u: "(of_char CHR ''_'' :: nat) = 95" by simp
  have "ascii_lower_char c \<noteq> CHR ''_''"
  proof
    assume "ascii_lower_char c = CHR ''_''"
    then have "(of_char c :: nat) + 32 = 95" using l u by metis
    then show False using True by simp
  qed
  moreover have "c \<noteq> d" using assms(1) l by (metis add_cancel_right_right zero_neq_numeral)
  moreover have "c \<noteq> CHR ''_''" using True by auto
  moreover have "ascii_lower_char c = d \<longleftrightarrow> of_char d = (of_char c :: nat) + 32"
    using l by (metis char_of_char)
  ultimately show ?thesis using True by (auto simp: same_letter_def)
next
  case False
  then have "ascii_lower_char c = c" by (auto simp: ascii_lower_char_def Let_def)
  with False assms(2) show ?thesis by (auto simp: same_letter_def)
qed

lemma normalize_token_iff:
  assumes "plain_name name"
  shows "normalize_token s = name \<longleftrightarrow> list_all2 same_letter (trim s) name"
proof -
  have "normalize_token s = name \<longleftrightarrow>
      list_all2 (\<lambda>c d. (if ascii_lower_char c = CHR ''_'' then CHR ''-'' else ascii_lower_char c) = d) (trim s) name"
    by (simp add: normalize_token_def to_ascii_lowercase_def comp_def list_all2_map1 flip: list.rel_eq)
  also have "\<dots> \<longleftrightarrow> list_all2 same_letter (trim s) name"
    using assms by (intro list.rel_cong) (auto simp: plain_name_def list_all_iff same_letter_iff)
  finally show ?thesis .
qed

lemma spells_iff:
  "list_all (plain_name \<circ> fst) names \<Longrightarrow> spells s names v \<longleftrightarrow> (normalize_token s, v) \<in> set names"
  by (induction names) (auto simp: spells_def simp flip: normalize_token_iff)

lemma plain_names:
  "list_all (plain_name \<circ> fst) receiver_names" "list_all (plain_name \<circ> fst) processor_names"
  "list_all (plain_name \<circ> fst) exporter_protocol_names" "list_all (plain_name \<circ> fst) signal_names"
  by code_simp+

lemma parsers_spell:
  "parse_receiver_protocol s = Inr rp \<longleftrightarrow> spells s receiver_names rp"
  "parse_processor_kind s = Inr pk \<longleftrightarrow> spells s processor_names pk"
  "parse_exporter_protocol s = Inr ep \<longleftrightarrow> spells s exporter_protocol_names ep"
  "parse_signal s = Inr sg \<longleftrightarrow> spells s signal_names sg"
  unfolding spells_iff [OF plain_names(1)] spells_iff [OF plain_names(2)] spells_iff [OF plain_names(3)] spells_iff [OF plain_names(4)]
  by (auto simp: parse_receiver_protocol_def parse_processor_kind_def parse_exporter_protocol_def parse_signal_def
      Let_def ok_or_def signal_from_token_def receiver_names_def processor_names_def exporter_protocol_names_def signal_names_def
      split: option.splits if_splits)

lemma given_or_iff: "given_or x d v \<longleftrightarrow> unwrap_or x d = v"
  by (cases x) (auto simp: given_or_def)

lemma tls_meant_iff: "tls_meant t c \<longleftrightarrow> tls_or_disabled t = c"
  by (cases "(t, c)" rule: tls_meant.cases) (auto simp: tls_or_disabled_def tls_disabled_def tls_default_def unwrap_or_def split: option.splits)

lemma retry_meant_iff: "retry_meant x r \<longleftrightarrow> (case x of None \<Rightarrow> retry_default | Some f \<Rightarrow> into_retry_config f) = r"
  by (cases x) (auto simp: retry_default_def into_retry_config_def given_or_iff)

lemma limits_meant_iff: "limits_meant x l \<longleftrightarrow> (case x of None \<Rightarrow> limits_default | Some f \<Rightarrow> into_tenant_limits f) = l"
  by (cases x) (auto simp: limits_default_def into_tenant_limits_def given_or_iff)

lemma parts_meant:
  "into_receiver_config kr = Inr r \<longleftrightarrow> receiver_meant kr r" "into_processor_config kp = Inr p \<longleftrightarrow> processor_meant kp p"
  "into_exporter_config ke = Inr e \<longleftrightarrow> exporter_meant ke e" "into_route_config ko = Inr ro \<longleftrightarrow> route_meant ko ro"
proof -
  have enabled: "unwrap_or x True = b \<longleftrightarrow> b = (x \<noteq> Some False)" for x b by (cases x) auto
  show "into_receiver_config kr = Inr r \<longleftrightarrow> receiver_meant kr r"
    by (cases kr, cases r) (auto simp: into_receiver_config_def receiver_meant_def res_bind_Inr_iff parsers_spell tls_meant_iff)
  show "into_processor_config kp = Inr p \<longleftrightarrow> processor_meant kp p"
    by (cases kp, cases p) (auto simp: into_processor_config_def processor_meant_def res_bind_Inr_iff parsers_spell enabled)
  show "into_exporter_config ke = Inr e \<longleftrightarrow> exporter_meant ke e"
    by (cases ke, cases e) (auto simp: into_exporter_config_def exporter_meant_def res_bind_Inr_iff parsers_spell tls_meant_iff retry_meant_iff)
  show "into_route_config ko = Inr ro \<longleftrightarrow> route_meant ko ro"
    by (cases ko, cases ro) (auto simp: into_route_config_def route_meant_def res_bind_Inr_iff parsers_spell)
qed

lemma processors_meant_iff:
  "processors_meant f ps \<longleftrightarrow>
     (\<exists>ps'. list_all2 processor_meant (unwrap_or f []) ps' \<and> ps = (if ps' = [] then processors default_config else ps'))"
  by (cases f; cases "unwrap_or f []") (auto simp: processors_meant_def default_config_def default_processors_def list_all2_Cons1)

text \<open>A file with one exporter, and with two keys that name the same signal.\<close>

definition sample_file :: "file_route_config btree_map \<Rightarrow> file_pipeline_config" where
  "sample_file ros =
     \<lparr>fpc_tenant = ''acme'', fpc_pipeline = None,
      fpc_receivers = [(''in'', \<lparr>frc_protocol = ''OTLP_HTTP'', frc_endpoint = ''0.0.0.0:4318'', frc_tls = None\<rparr>)],
      fpc_processors = None,
      fpc_exporters =
        [(''archive'', \<lparr>fex_protocol = ''file'', fex_endpoint = ''out'', fex_tls = None, fex_retry = None\<rparr>),
         (''stdout'', \<lparr>fex_protocol = '' Stdout '', fex_endpoint = ''stdout://local'', fex_tls = Some (TlsSwitch False),
            fex_retry = Some \<lparr>fre_max_attempts = Some 5, fre_timeout_ms = None, fre_initial_backoff_ms = None\<rparr>\<rparr>)],
      fpc_routes = ros, fpc_limits = None\<rparr>"

section \<open>Properties\<close>

text \<open>Property C39 (file_config_accepts). A configuration file gives exactly the configuration that it describes, if that one is valid, and no other.
  Its receivers, processors, exporters and routes appear in order under their names, with the protocol, kind or signal that the file spells out
  (a name that is none of the known ones gives no configuration), with the endpoints, TLS and retry settings of the file, and with the fixed
  defaults where the file has none: pipeline \<^verbatim>\<open>default\<close>, processors \<^verbatim>\<open>memory-limiter\<close> and \<^verbatim>\<open>batch\<close>, TLS off, three attempts within 30
  seconds, and the limits for a tenant.\<close>

theorem file_config_accepts: "into_pipeline_config f = Inr c \<longleftrightarrow> describes f c \<and> config_ok c"
proof -
  let ?cfg = "\<lambda>rs ps es ros. \<lparr>cfg_tenant_id = fpc_tenant f, cfg_name = unwrap_or (fpc_pipeline f) ''default'', receivers = rs,
     processors = (if ps = [] then processors default_config else ps), exporters = es, routes = ros,
     limits = (case fpc_limits f of None \<Rightarrow> limits_default | Some l \<Rightarrow> into_tenant_limits l)\<rparr>"
  have "into_pipeline_config f =
      res_bind (res_map into_receiver_config (fpc_receivers f)) (\<lambda>rs.
      res_bind (res_map into_processor_config (unwrap_or (fpc_processors f) [])) (\<lambda>ps.
      res_bind (res_map into_exporter_config (fpc_exporters f)) (\<lambda>es.
      res_bind (res_map into_route_config (fpc_routes f)) (\<lambda>ros.
      res_bind (map_err show_pipeline_error (validate_config (?cfg rs ps es ros))) (\<lambda>_. Inr (?cfg rs ps es ros))))))"
    unfolding into_pipeline_config_def Let_def by (intro arg_cong2 [where f = res_bind] refl ext) simp_all
  then have "into_pipeline_config f = Inr c \<longleftrightarrow>
      (\<exists>rs. list_all2 receiver_meant (fpc_receivers f) rs \<and> (\<exists>ps. list_all2 processor_meant (unwrap_or (fpc_processors f) []) ps \<and>
        (\<exists>es. list_all2 exporter_meant (fpc_exporters f) es \<and> (\<exists>ros. list_all2 route_meant (fpc_routes f) ros \<and>
          config_ok (?cfg rs ps es ros) \<and> ?cfg rs ps es ros = c))))"
    by (simp only: res_bind_Inr_iff res_map_Inr_iff parts_meant map_err_Inr_iff validate_config_iff sum.inject) simp
  also have "\<dots> \<longleftrightarrow> describes f c \<and> config_ok c"
    unfolding describes_def given_or_iff processors_meant_iff limits_meant_iff by (cases c) (auto split del: if_split)
  finally show ?thesis .
qed

text \<open>Two keys of \<^verbatim>\<open>routes\<close> may name the same signal: such a file is accepted, and only the
  exporters under the first key in key order ever receive that signal.\<close>

theorem duplicate_route_ignored:
  "\<exists>c es. into_pipeline_config
        (sample_file [(''trace'', \<lparr>fro_exporters = [''stdout'']\<rparr>), (''traces'', \<lparr>fro_exporters = [''archive'']\<rparr>)]) = Inr c \<and>
     validate_config c = Inr () \<and> exporters_for c Trace = Inr es \<and> map exp_name es = [''stdout'']"
proof -
  let ?f = "sample_file [(''trace'', \<lparr>fro_exporters = [''stdout'']\<rparr>), (''traces'', \<lparr>fro_exporters = [''archive'']\<rparr>)]"
  have "case into_pipeline_config ?f of Inl e \<Rightarrow> False | Inr c \<Rightarrow> validate_config c = Inr () \<and>
      (case exporters_for c Trace of Inl e \<Rightarrow> False | Inr es \<Rightarrow> map exp_name es = [''stdout''])" by code_simp
  then show ?thesis by (auto split: sum.splits)
qed

end
