(* ===== verification/Sha_Standard.thy ===== *)
theory Sha_Standard
  imports Fabric_Prelude
begin

text \<open>
  SHA-256 as FIPS 180-4 writes it, HMAC as FIPS 198-1 writes it, and hexadecimal text. Nothing here
  comes from the sources: the constants are computed from the primes they are defined by, and every
  function of the standard has a definition of its own. The control client is compared with it in
  \<^verbatim>\<open>Config_Signature\<close>.
\<close>

unbundle bit_operations_syntax

section \<open>Constants\<close>

definition prime_number :: "nat \<Rightarrow> bool" where
  "prime_number p \<longleftrightarrow> 2 \<le> p \<and> (\<forall>d \<in> {2 ..< p}. \<not> d dvd p)"

text \<open>The first thirty-two bits of the fractional part of the \<open>k\<close>-th root of \<open>p\<close>: the integer part
  of that root times \<open>2 ^ 32\<close>, reduced to thirty-two bits.\<close>

definition root_fraction :: "nat \<Rightarrow> nat \<Rightarrow> u32" where
  "root_fraction k p = of_nat (GREATEST r. r ^ k \<le> p * (2 ^ 32) ^ k)"

text \<open>The sixty-four primes up to 311: their cube roots give the round constants, the square roots
  of the first eight the initial hash value.\<close>

definition sha_primes :: "nat list" where
  "sha_primes = filter prime_number [2 ..< 312]"

definition K256 :: "nat \<Rightarrow> u32" where
  "K256 t = root_fraction 3 (sha_primes ! t)"

definition H256 :: "nat \<Rightarrow> u32" where
  "H256 i = root_fraction 2 (sha_primes ! i)"

section \<open>Functions on words\<close>

definition Ch :: "u32 \<Rightarrow> u32 \<Rightarrow> u32 \<Rightarrow> u32" where
  "Ch x y z = (x AND y) XOR (NOT x AND z)"

definition Maj :: "u32 \<Rightarrow> u32 \<Rightarrow> u32 \<Rightarrow> u32" where
  "Maj x y z = (x AND y) XOR (x AND z) XOR (y AND z)"

definition Sigma0 :: "u32 \<Rightarrow> u32" where
  "Sigma0 x = word_rotr 2 x XOR word_rotr 13 x XOR word_rotr 22 x"

definition Sigma1 :: "u32 \<Rightarrow> u32" where
  "Sigma1 x = word_rotr 6 x XOR word_rotr 11 x XOR word_rotr 25 x"

definition sigma0 :: "u32 \<Rightarrow> u32" where
  "sigma0 x = word_rotr 7 x XOR word_rotr 18 x XOR drop_bit 3 x"

definition sigma1 :: "u32 \<Rightarrow> u32" where
  "sigma1 x = word_rotr 17 x XOR word_rotr 19 x XOR drop_bit 10 x"

section \<open>Messages\<close>

text \<open>The bytes of a number, most significant first.\<close>

primrec be_octets :: "nat \<Rightarrow> nat \<Rightarrow> u8 list" where
  "be_octets 0 n = []"
| "be_octets (Suc k) n = be_octets k (n div 256) @ [of_nat n]"

text \<open>A one bit, the least number of zero bytes that leaves room for the length, the length in bits.\<close>

definition padded :: "u8 list \<Rightarrow> u8 list" where
  "padded m = m @ [0x80] @ replicate (LEAST k. (length m + 1 + k) mod 64 = 56) 0 @ be_octets 8 (8 * length m)"

text \<open>Word \<open>j\<close> of block \<open>i\<close> of the padded message.\<close>

definition message_word :: "u8 list \<Rightarrow> nat \<Rightarrow> nat \<Rightarrow> u32" where
  "message_word p i j =
     (let octet = (\<lambda>k. ucast (p ! (64 * i + 4 * j + k)))
      in push_bit 24 (octet 0) OR push_bit 16 (octet 1) OR push_bit 8 (octet 2) OR octet 3)"

text \<open>The message schedule of a block of sixteen words.\<close>

function schedule :: "(nat \<Rightarrow> u32) \<Rightarrow> nat \<Rightarrow> u32" where
  "schedule M t =
     (if t < 16 then M t
      else sigma1 (schedule M (t - 2)) + schedule M (t - 7) + sigma0 (schedule M (t - 15)) + schedule M (t - 16))"
  by pat_completeness auto
termination
  by (relation "measure snd") auto

declare schedule.simps [simp del]

section \<open>The hash\<close>

text \<open>The eight working variables are a function of their index: 0 is \<open>a\<close>, 7 is \<open>h\<close>.\<close>

definition sha_round :: "u32 \<Rightarrow> u32 \<Rightarrow> (nat \<Rightarrow> u32) \<Rightarrow> nat \<Rightarrow> u32" where
  "sha_round k w v =
     (let T1 = v 7 + Sigma1 (v 4) + Ch (v 4) (v 5) (v 6) + k + w;
          T2 = Sigma0 (v 0) + Maj (v 0) (v 1) (v 2)
      in (\<lambda>i. if i = 0 then T1 + T2 else if i = 4 then v 3 + T1 else v (i - 1)))"

text \<open>The working variables after \<open>t\<close> rounds.\<close>

primrec sha_rounds :: "(nat \<Rightarrow> u32) \<Rightarrow> (nat \<Rightarrow> u32) \<Rightarrow> nat \<Rightarrow> nat \<Rightarrow> u32" where
  "sha_rounds M H 0 = H"
| "sha_rounds M H (Suc t) = sha_round (K256 t) (schedule M t) (sha_rounds M H t)"

text \<open>The hash value after \<open>n\<close> blocks.\<close>

primrec sha_hash :: "u8 list \<Rightarrow> nat \<Rightarrow> nat \<Rightarrow> u32" where
  "sha_hash p 0 = H256"
| "sha_hash p (Suc n) = (\<lambda>i. sha_rounds (message_word p n) (sha_hash p n) 64 i + sha_hash p n i)"

definition sha256_standard :: "u8 list \<Rightarrow> u8 list" where
  "sha256_standard m =
     (let p = padded m in concat (map (\<lambda>i. be_octets 4 (unat (sha_hash p (length p div 64) i))) [0 ..< 8]))"

text \<open>HMAC over that hash, whose block is sixty-four bytes.\<close>

definition hmac_standard :: "u8 list \<Rightarrow> u8 list \<Rightarrow> u8 list" where
  "hmac_standard key m =
     (let k0 = (if length key \<le> 64 then key else sha256_standard key);
          k = k0 @ replicate (64 - length k0) 0
      in sha256_standard (map (\<lambda>x. x XOR 0x5c) k @ sha256_standard (map (\<lambda>x. x XOR 0x36) k @ m)))"

text \<open>Two digits for each byte: the digits from 0 to 9, then the letters from a.\<close>

definition nibble_char :: "nat \<Rightarrow> char" where
  "nibble_char n = char_of (if n < 10 then 48 + n else 87 + n)"

definition hex_text :: "u8 list \<Rightarrow> string" where
  "hex_text bs = concat (map (\<lambda>b. [nibble_char (unat b div 16), nibble_char (unat b mod 16)]) bs)"

section \<open>Computing the constants\<close>

lemma root_fraction_eq:
  assumes "r ^ k \<le> p * (2 ^ 32) ^ k" and "p * (2 ^ 32) ^ k < Suc r ^ k"
  shows "root_fraction k p = of_nat r"
proof -
  have "y \<le> r" if "y ^ k \<le> p * (2 ^ 32) ^ k" for y
  proof -
    have "y ^ k < Suc r ^ k" using that assms(2) by simp
    then show ?thesis using power_less_imp_less_base [of y k "Suc r"] by simp
  qed
  with assms(1) have "(GREATEST r. r ^ k \<le> p * (2 ^ 32) ^ k) = r" by (intro Greatest_equality)
  then show ?thesis by (simp add: root_fraction_def)
qed

text \<open>Each prime with the integer part of its root times \<open>2 ^ 32\<close>, which the lemmas below check.\<close>

definition cube_roots :: "(nat \<times> nat) list" where
  "cube_roots =
     [(2, 5411319704), (3, 6194414737), (5, 7344290767), (7, 8215976869), (11, 9551921755), (13, 10098905585),
      (17, 11043570340), (19, 11460697813), (23, 12214315672), (29, 13195500289), (31, 13492127166), (37, 14311783875),
      (41, 14809980276), (43, 15046980094), (47, 15499789991), (53, 16133124468), (59, 16720292289), (61, 16907126662),
      (67, 17444216262), (71, 17784676812), (73, 17950125167), (79, 18429019306), (83, 18734950876), (89, 19175934170),
      (97, 19734090066), (101, 20001703533), (103, 20132865992), (107, 20390182855), (109, 20516441075), (113, 20764397895),
      (127, 21588763473), (131, 21813078375), (137, 22141143685), (139, 22248366392), (149, 22769593852), (151, 22871018771),
      (157, 23170020180), (163, 23461497531), (167, 23651862830), (173, 23931792517), (179, 24205322401), (181, 24295138891),
      (191, 24734567280), (193, 24820601251), (197, 24990902297), (199, 25075189284), (211, 25569408389), (223, 26045227120),
      (227, 26200031510), (229, 26276752392), (233, 26428864332), (239, 26653801653), (241, 26727943347), (251, 27092625994),
      (257, 27306805839), (263, 27517677555), (269, 27725365998), (271, 27793908591), (277, 27997534228), (281, 28131656200),
      (283, 28198240250), (293, 28526537963), (307, 28973835255), (311, 29099129074)]"

definition square_roots :: "(nat \<times> nat) list" where
  "square_roots =
     [(2, 6074000999), (3, 7439101573), (5, 9603838834), (7, 11363415354), (11, 14244795007), (13, 15485724812),
      (17, 17708603819), (19, 18721328409)]"

text \<open>Below \<open>18 ^ 2\<close> a composite number has a divisor of at most 17.\<close>

definition small_primes :: "nat list" where
  "small_primes = [2, 3, 5, 7, 11, 13, 17]"

definition sieved :: "nat \<Rightarrow> bool" where
  "sieved p \<longleftrightarrow> 2 \<le> p \<and> list_all (\<lambda>d. p mod d = 0 \<longrightarrow> d = p) small_primes"

lemma sievedD: "sieved p \<Longrightarrow> d \<in> set small_primes \<Longrightarrow> d dvd p \<Longrightarrow> d = p"
  by (simp add: sieved_def list_all_iff dvd_eq_mod_eq_0)

lemma small_divisor:
  assumes "2 \<le> d" and "d < 18"
  shows "\<exists>c \<in> set small_primes. c dvd d"
proof -
  have "list_all (\<lambda>d. list_ex (\<lambda>c. d mod c = 0) small_primes) [2 ..< 18]" by code_simp
  then have "\<forall>d \<in> {2 ..< 18}. \<exists>c \<in> set small_primes. c dvd d"
    unfolding list_all_iff list_ex_iff set_upt dvd_eq_mod_eq_0 .
  with assms show ?thesis by (meson atLeastLessThan_iff)
qed

lemma prime_sieved:
  assumes "p < 324"
  shows "prime_number p \<longleftrightarrow> sieved p"
proof
  assume p: "prime_number p"
  have "d = p" if "d \<in> set small_primes" "p mod d = 0" for d
  proof -
    have "d dvd p" "2 \<le> d" "0 < p" using that p by (auto simp: dvd_eq_mod_eq_0 prime_number_def small_primes_def)
    moreover from this have "d \<le> p" by (simp add: dvd_imp_le)
    ultimately show ?thesis using p by (fastforce simp: prime_number_def)
  qed
  then show "sieved p" using p by (auto simp: sieved_def prime_number_def list_all_iff)
next
  assume p: "sieved p"
  have "\<not> d dvd p" if d: "2 \<le> d" "d < p" for d
  proof
    assume "d dvd p"
    then obtain e where e: "p = d * e" ..
    define c where "c = min d e"
    have "2 \<le> e" using d e by (cases e; cases "e = 1") auto
    moreover have "c < 18"
    proof (rule ccontr)
      assume "\<not> c < 18"
      then have "18 * 18 \<le> d * e" by (intro mult_le_mono) (simp_all add: c_def)
      then show False using assms e by simp
    qed
    moreover have "c = d \<or> c = e" by (simp add: c_def min_def)
    moreover have "d dvd p" "e dvd p" "e < p" using d e by simp_all
    ultimately have c: "2 \<le> c" "c < 18" "c dvd p" "c < p" using d by blast+
    from small_divisor [OF c(1,2)] obtain b where b: "b \<in> set small_primes" "b dvd c" by blast
    then have "b \<le> c" "b dvd p" using c by (auto intro: dvd_imp_le dvd_trans)
    with sievedD [OF p b(1)] c(4) show False by simp
  qed
  then show "prime_number p" using p by (auto simp: prime_number_def sieved_def)
qed

lemma sha_primes_eq: "sha_primes = map fst cube_roots" "take 8 sha_primes = map fst square_roots"
proof -
  have "sha_primes = filter sieved [2 ..< 312]" unfolding sha_primes_def
    by (rule filter_cong [OF refl], rule prime_sieved, simp only: set_upt atLeastLessThan_iff) simp
  moreover have "filter sieved [2 ..< 312] = map fst cube_roots"
    by (simp add: sieved_def small_primes_def cube_roots_def)
  ultimately show "sha_primes = map fst cube_roots" by simp
  moreover have "take 8 (map fst cube_roots) = map fst square_roots" by (simp add: cube_roots_def square_roots_def)
  ultimately show "take 8 sha_primes = map fst square_roots" by (simp only:)
qed

lemma root_tables:
  "list_all (\<lambda>(p, r). r ^ 3 \<le> p * (2 ^ 32) ^ 3 \<and> p * (2 ^ 32) ^ 3 < Suc r ^ 3) cube_roots"
  "list_all (\<lambda>(p, r). r ^ 2 \<le> p * (2 ^ 32) ^ 2 \<and> p * (2 ^ 32) ^ 2 < Suc r ^ 2) square_roots"
  by code_simp+

lemma map_roots:
  assumes "list_all (\<lambda>(p, r). r ^ k \<le> p * (2 ^ 32) ^ k \<and> p * (2 ^ 32) ^ k < Suc r ^ k) prs"
  shows "map (root_fraction k) (map fst prs) = map (\<lambda>(p, r). of_nat r) prs"
  using assms by (induction prs) (auto simp: root_fraction_eq)

lemma K256_table: "map K256 [0 ..< 64] = map (\<lambda>(p, r). of_nat r) cube_roots"
proof -
  have "length sha_primes = 64" by (simp add: sha_primes_eq cube_roots_def)
  then have "map K256 [0 ..< 64] = map (root_fraction 3) sha_primes"
    using map_nth [of sha_primes] by (simp add: K256_def [abs_def] del: upt_Suc flip: map_map [unfolded comp_def])
  also have "\<dots> = map (\<lambda>(p, r). of_nat r) cube_roots" using map_roots [OF root_tables(1)] by (simp add: sha_primes_eq(1))
  finally show ?thesis .
qed

lemma H256_table: "map H256 [0 ..< 8] = map (\<lambda>(p, r). of_nat r) square_roots"
proof -
  have "length sha_primes = 64" by (simp add: sha_primes_eq cube_roots_def)
  then have "map ((!) sha_primes) [0 ..< 8] = take 8 sha_primes"
    by (intro nth_equalityI) (simp_all del: upt_Suc)
  then have "map H256 [0 ..< 8] = map (root_fraction 2) (take 8 sha_primes)"
    by (metis (no_types, lifting) H256_def map_map comp_def map_cong)
  also have "\<dots> = map (\<lambda>(p, r). of_nat r) square_roots" using map_roots [OF root_tables(2)] by (simp add: sha_primes_eq(2))
  finally show ?thesis .
qed

end
