(* ===== verification/Config_Signature.thy ===== *)
theory Config_Signature
  imports Fabric_Text Sha_Standard
begin

text \<open>
  The hash functions of the control client (\<^verbatim>\<open>crates/telemetry-agent/src/control_client.rs\<close>): SHA-256, HMAC,
  their hexadecimal text, and the comparison of signatures. All of them are proved equal to the functions of the
  published standards in \<^verbatim>\<open>Sha_Standard\<close>, which share no definition with the code.
\<close>

unbundle bit_operations_syntax

section \<open>SHA-256\<close>

definition u32_to_be_bytes :: "u32 \<Rightarrow> u8 list" where
  "u32_to_be_bytes w = rev (le_bytes 4 (unat w))"

definition u32_from_be_bytes :: "u8 list \<Rightarrow> u32" where
  "u32_from_be_bytes bs = of_nat (le_value (rev bs))"

definition u64_to_be_bytes :: "u64 \<Rightarrow> u8 list" where
  "u64_to_be_bytes n = rev (le_bytes 8 n)"

definition rotate_right :: "nat \<Rightarrow> u32 \<Rightarrow> u32" where
  "rotate_right n w = (if n mod 32 = 0 then w else drop_bit (n mod 32) w OR push_bit (32 - n mod 32) w)"

text \<open>The round constants, one list per line of the table in the source.\<close>

definition SHA256_K :: "u32 list" where
  "SHA256_K = concat
     [[0x428a2f98, 0x71374491, 0xb5c0fbcf, 0xe9b5dba5, 0x3956c25b, 0x59f111f1, 0x923f82a4, 0xab1c5ed5],
      [0xd807aa98, 0x12835b01, 0x243185be, 0x550c7dc3, 0x72be5d74, 0x80deb1fe, 0x9bdc06a7, 0xc19bf174],
      [0xe49b69c1, 0xefbe4786, 0x0fc19dc6, 0x240ca1cc, 0x2de92c6f, 0x4a7484aa, 0x5cb0a9dc, 0x76f988da],
      [0x983e5152, 0xa831c66d, 0xb00327c8, 0xbf597fc7, 0xc6e00bf3, 0xd5a79147, 0x06ca6351, 0x14292967],
      [0x27b70a85, 0x2e1b2138, 0x4d2c6dfc, 0x53380d13, 0x650a7354, 0x766a0abb, 0x81c2c92e, 0x92722c85],
      [0xa2bfe8a1, 0xa81a664b, 0xc24b8b70, 0xc76c51a3, 0xd192e819, 0xd6990624, 0xf40e3585, 0x106aa070],
      [0x19a4c116, 0x1e376c08, 0x2748774c, 0x34b0bcb5, 0x391c0cb3, 0x4ed8aa4a, 0x5b9cca4f, 0x682e6ff3],
      [0x748f82ee, 0x78a5636f, 0x84c87814, 0x8cc70208, 0x90befffa, 0xa4506ceb, 0xbef9a3f7, 0xc67178f2]]"

definition initial_state :: "u32 list" where
  "initial_state =
     [0x6a09e667, 0xbb67ae85, 0x3c6ef372, 0xa54ff53a, 0x510e527f, 0x9b05688c, 0x1f83d9ab, 0x5be0cd19]"

text \<open>The loop that appends zeros.\<close>

function push_zeros :: "u8 list \<Rightarrow> u8 list" where
  "push_zeros message = (if length message mod 64 \<noteq> 56 then push_zeros (message @ [0]) else message)"
  by pat_completeness auto
termination
  by (relation "measure (\<lambda>m. if length m mod 64 \<le> 56 then 56 - length m mod 64 else 120 - length m mod 64)")
    (auto simp: mod_Suc)

declare push_zeros.simps [simp del]

definition pad_message :: "u8 list \<Rightarrow> u8 list" where
  "pad_message input =
     (let bit_len = (length input * 8) mod 2 ^ 64 in
      push_zeros (input @ [0x80]) @ u64_to_be_bytes bit_len)"

function chunks_exact :: "nat \<Rightarrow> 'a list \<Rightarrow> 'a list list" where
  "chunks_exact n xs = (if n = 0 \<or> length xs < n then [] else take n xs # chunks_exact n (drop n xs))"
  by pat_completeness auto
termination
  by (relation "measure (\<lambda>(n, xs). length xs)") auto

declare chunks_exact.simps [simp del]

definition load_words :: "u8 list \<Rightarrow> u32 list" where
  "load_words chunk =
     fold (\<lambda>index words. words[index := u32_from_be_bytes
        [chunk ! (index * 4), chunk ! (index * 4 + 1), chunk ! (index * 4 + 2), chunk ! (index * 4 + 3)]])
       [0 ..< 16] (replicate 64 0)"

definition extend_words :: "u32 list \<Rightarrow> u32 list" where
  "extend_words words =
     fold (\<lambda>index words.
       let s0 = rotate_right 7 (words ! (index - 15)) XOR rotate_right 18 (words ! (index - 15)) XOR drop_bit 3 (words ! (index - 15));
           s1 = rotate_right 17 (words ! (index - 2)) XOR rotate_right 19 (words ! (index - 2)) XOR drop_bit 10 (words ! (index - 2))
       in words[index := words ! (index - 16) + s0 + words ! (index - 7) + s1])
       [16 ..< 64] words"

type_synonym working = "u32 \<times> u32 \<times> u32 \<times> u32 \<times> u32 \<times> u32 \<times> u32 \<times> u32"

definition compress_round :: "u32 \<Rightarrow> u32 \<Rightarrow> working \<Rightarrow> working" where
  "compress_round k w = (\<lambda>(a, b, c, d, e, f, g, h).
     let s1 = rotate_right 6 e XOR rotate_right 11 e XOR rotate_right 25 e;
         ch = (e AND f) XOR (NOT e AND g);
         temp1 = h + s1 + ch + k + w;
         s0 = rotate_right 2 a XOR rotate_right 13 a XOR rotate_right 22 a;
         maj = (a AND b) XOR (a AND c) XOR (b AND c);
         temp2 = s0 + maj
     in (temp1 + temp2, a, b, c, d + temp1, e, f, g))"

definition working_of :: "u32 list \<Rightarrow> working" where
  "working_of st = (st ! 0, st ! 1, st ! 2, st ! 3, st ! 4, st ! 5, st ! 6, st ! 7)"

definition add_working :: "u32 list \<Rightarrow> working \<Rightarrow> u32 list" where
  "add_working st = (\<lambda>(a, b, c, d, e, f, g, h).
     [st ! 0 + a, st ! 1 + b, st ! 2 + c, st ! 3 + d, st ! 4 + e, st ! 5 + f, st ! 6 + g, st ! 7 + h])"

definition process_chunk :: "u8 list \<Rightarrow> u32 list \<Rightarrow> u32 list" where
  "process_chunk chunk st =
     (let words = extend_words (load_words chunk) in
      add_working st (fold (\<lambda>index. compress_round (SHA256_K ! index) (words ! index)) [0 ..< 64] (working_of st)))"

definition sha256_digest :: "u8 list \<Rightarrow> u8 list" where
  "sha256_digest input =
     concat (map u32_to_be_bytes (fold process_chunk (chunks_exact 64 (pad_message input)) initial_state))"

definition hex_digit :: "u8 \<Rightarrow> char" where
  "hex_digit n = ''0123456789abcdef'' ! unat n"

definition hex_lower :: "u8 list \<Rightarrow> string" where
  "hex_lower bytes = concat (map (\<lambda>byte. [hex_digit (drop_bit 4 byte), hex_digit (byte AND 0x0f)]) bytes)"

definition sha256_hex :: "u8 list \<Rightarrow> string" where
  "sha256_hex input = hex_lower (sha256_digest input)"

section \<open>HMAC and comparison\<close>

definition key_block_of :: "u8 list \<Rightarrow> u8 list" where
  "key_block_of key =
     (let k = (if length key > 64 then sha256_digest key else key) in k @ replicate (64 - length k) 0)"

definition hmac_sha256_hex :: "u8 list \<Rightarrow> u8 list \<Rightarrow> string" where
  "hmac_sha256_hex key message =
     (let key_block = key_block_of key;
          inner_pad = map (\<lambda>k. 0x36 XOR k) key_block;
          outer_pad = map (\<lambda>k. 0x5c XOR k) key_block;
          inner_hash = sha256_digest (inner_pad @ message)
      in hex_lower (sha256_digest (outer_pad @ inner_hash)))"

definition constant_time_equal :: "u8 list \<Rightarrow> u8 list \<Rightarrow> bool" where
  "constant_time_equal left right =
     (if length left \<noteq> length right then False
      else fold (\<lambda>(l, r) acc. acc OR (l XOR r)) (zip left right) 0 = 0)"

section \<open>The code computes the standard\<close>

text \<open>Constants, rotations and bytes.\<close>

lemma SHA256_K_eq: "SHA256_K = map K256 [0 ..< 64]"
  unfolding K256_table by (simp add: SHA256_K_def cube_roots_def)

lemma initial_state_eq: "initial_state = map H256 [0 ..< 8]"
  unfolding H256_table by (simp add: initial_state_def square_roots_def)

lemma rotate_right_eq: "rotate_right n w = word_rotr n w"
proof (rule bit_word_eqI)
  fix i assume "i < LENGTH(32)"
  then have i: "i < 32" by simp
  define m where "m = n mod 32"
  have m: "m < 32" by (simp add: m_def)
  have "(i + n) mod 32 = (i + m) mod 32" by (simp add: m_def mod_add_right_eq)
  also have "\<dots> = (if i + m < 32 then i + m else i + m - 32)" using i m by (auto simp: mod_if)
  finally have "(i + n) mod 32 = (if i + m < 32 then i + m else i + m - 32)" .
  moreover have "bit w j \<Longrightarrow> j < 32" for j using bit_imp_le_length [of w j] by simp
  ultimately show "bit (rotate_right n w) i \<longleftrightarrow> bit (word_rotr n w) i"
    using i m by (auto simp: rotate_right_def bit_word_rotr_iff bit_or_iff bit_drop_bit_eq bit_push_bit_iff add.commute
        simp flip: m_def split: if_splits)
qed

lemma be_octets_le: "be_octets k n = rev (le_bytes k n)"
proof (induction k arbitrary: n)
  case (Suc k)
  have "(of_nat (n mod 256) :: u8) = of_nat n" by (rule word_of_nat_eq_iff [THEN iffD2]) (simp add: take_bit_eq_mod)
  with Suc show ?case by simp
qed simp

lemma le_bytes_mod: "le_bytes k (n mod 256 ^ k) = le_bytes k n"
proof (induction k arbitrary: n)
  case (Suc k)
  have "n mod 256 ^ Suc k div 256 = (n div 256) mod 256 ^ k" by (simp add: mod_mult2_eq)
  then show ?case by (simp add: Suc mod_mod_cancel)
qed simp

lemma u64_to_be_bytes_eq: "u64_to_be_bytes (n mod 2 ^ 64) = be_octets 8 n"
  using le_bytes_mod [of 8 n] by (simp add: u64_to_be_bytes_def be_octets_le)

text \<open>The bytes of a word do not overlap.\<close>

lemma u32_from_be_bytes_eq:
  "u32_from_be_bytes [a, b, c, d] = push_bit 24 (ucast a) OR push_bit 16 (ucast b) OR push_bit 8 (ucast c) OR ucast d"
proof -
  have u8: "bit x i \<Longrightarrow> i < 8" for x :: u8 and i using bit_imp_le_length [of x i] by simp
  have 1: "push_bit 8 (ucast c) OR ucast d = push_bit 8 (ucast c) + (ucast d :: u32)"
    by (rule disjunctive_add [symmetric]) (auto simp: bit_push_bit_iff bit_ucast_iff dest: u8)
  have 2: "push_bit 16 (ucast b) OR (push_bit 8 (ucast c) OR ucast d) = push_bit 16 (ucast b) + (push_bit 8 (ucast c) OR ucast d :: u32)"
    by (rule disjunctive_add [symmetric]) (auto simp: bit_push_bit_iff bit_ucast_iff bit_or_iff dest: u8)
  have 3: "push_bit 24 (ucast a) OR (push_bit 16 (ucast b) OR (push_bit 8 (ucast c) OR ucast d)) =
      push_bit 24 (ucast a) + (push_bit 16 (ucast b) OR (push_bit 8 (ucast c) OR ucast d) :: u32)"
    by (rule disjunctive_add [symmetric]) (auto simp: bit_push_bit_iff bit_ucast_iff bit_or_iff dest: u8)
  have u: "(ucast x :: u32) = of_nat (unat x)" for x :: u8 by simp
  show ?thesis unfolding 3 unfolding 2 unfolding 1 unfolding u
    by (simp add: u32_from_be_bytes_def push_bit_eq_mult algebra_simps del: of_nat_unat)
qed

lemma push_zeros_eq: "push_zeros m = m @ replicate (LEAST k. (length m + k) mod 64 = 56) 0"
proof (induction m rule: push_zeros.induct)
  case (1 m)
  let ?P = "\<lambda>k. (length m + k) mod 64 = 56"
  show ?case
  proof (cases "length m mod 64 = 56")
    case True
    then have "(LEAST k. ?P k) = 0" by (intro Least_equality) auto
    with True show ?thesis by (simp add: push_zeros.simps)
  next
    case False
    have "\<exists>k. ?P k"
    proof -
      have "(length m + (120 - length m mod 64)) mod 64 = (length m mod 64 + (120 - length m mod 64)) mod 64"
        by (simp only: mod_add_left_eq)
      also have "length m mod 64 + (120 - length m mod 64) = 120"
        by (rule le_add_diff_inverse) (rule order.trans [OF less_imp_le [OF mod_less_divisor]], simp_all)
      finally show ?thesis by (intro exI [of _ "120 - length m mod 64"]) simp
    qed
    then obtain k where k: "?P k" ..
    have "(LEAST k. ?P k) = Suc (LEAST k. ?P (Suc k))" using k False by (intro Least_Suc) simp_all
    then show ?thesis
      using False 1 by (subst push_zeros.simps) simp
  qed
qed

lemma pad_message_eq: "pad_message m = padded m"
  using u64_to_be_bytes_eq [of "8 * length m"]
  by (simp add: pad_message_def padded_def Let_def push_zeros_eq mult.commute)

lemma fold_update_length: "length (fold (\<lambda>i ws. ws[i := f i ws]) is ws) = length ws"
  by (induction "is" arbitrary: ws) simp_all

lemma load_words_nth:
  assumes "n \<le> 16" and "i < n"
  shows "fold (\<lambda>i ws. ws[i := f i]) [0 ..< n] (replicate 64 (0 :: u32)) ! i = f i"
  using assms
proof (induction n)
  case (Suc n)
  have "length (fold (\<lambda>i ws. ws[i := f i]) [0 ..< n] (replicate 64 (0 :: u32))) = 64"
    using fold_update_length [of "\<lambda>i _. f i"] by simp
  with Suc show ?case by (auto simp: nth_list_update less_Suc_eq)
qed simp

lemma load_words_block:
  assumes "64 * Suc i \<le> length p"
  shows "length (load_words (take 64 (drop (64 * i) p))) = 64 \<and>
    (\<forall>j < 16. load_words (take 64 (drop (64 * i) p)) ! j = message_word p i j)"
proof -
  let ?c = "take 64 (drop (64 * i) p)"
  let ?f = "\<lambda>j. u32_from_be_bytes [?c ! (j * 4), ?c ! (j * 4 + 1), ?c ! (j * 4 + 2), ?c ! (j * 4 + 3)]"
  have "length (load_words ?c) = 64" using fold_update_length [of "\<lambda>i _. ?f i"] by (simp add: load_words_def)
  moreover have "load_words ?c ! j = message_word p i j" if j: "j < 16" for j
  proof -
    have "?c ! (j * 4 + k) = p ! (64 * i + 4 * j + k)" if "k < 4" for k using j that assms by (simp add: algebra_simps)
    from this [of 0] this [of 1] this [of 2] this [of 3] have "?f j = message_word p i j"
      by (simp add: u32_from_be_bytes_eq message_word_def)
    then show ?thesis using load_words_nth [of 16 j ?f] j by (simp add: load_words_def del: upt_Suc)
  qed
  ultimately show ?thesis by blast
qed

lemma extend_words_schedule:
  assumes "length ws = 64" and "\<forall>i < 16. ws ! i = M i" and "t < 64"
  shows "extend_words ws ! t = schedule M t"
proof -
  let ?step = "\<lambda>i w. w[i := w ! (i - 16) + sigma0 (w ! (i - 15)) + w ! (i - 7) + sigma1 (w ! (i - 2))]"
  have step: "extend_words ws = fold ?step [16 ..< 64] ws"
    unfolding extend_words_def sigma0_def sigma1_def Let_def rotate_right_eq ..
  have "length (fold ?step [16 ..< n] ws) = 64 \<and> (\<forall>t < n. fold ?step [16 ..< n] ws ! t = schedule M t)"
    if "16 \<le> n" "n \<le> 64" for n
    using that
  proof (induction n rule: dec_induct)
    case base
    then show ?case using assms by (simp add: schedule.simps)
  next
    case (step n)
    let ?w = "fold ?step [16 ..< n] ws"
    have w: "length ?w = 64" "\<forall>t < n. ?w ! t = schedule M t" using step by simp_all
    have "?w ! (n - 16) + sigma0 (?w ! (n - 15)) + ?w ! (n - 7) + sigma1 (?w ! (n - 2)) = schedule M n"
      using w(2) step(1) by (subst schedule.simps) (simp add: ac_simps)
    moreover have "fold ?step [16 ..< Suc n] ws = ?step n ?w" using step(1) by (simp add: upt_Suc_append)
    ultimately show ?case using w step by (auto simp: nth_list_update less_Suc_eq simp del: upt_Suc)
  qed
  moreover have "(16 :: nat) \<le> 64" "(64 :: nat) \<le> 64" by simp_all
  ultimately show ?thesis using assms(3) unfolding step by blast
qed

text \<open>The eight variables of the code and of the standard.\<close>

definition variables :: "(nat \<Rightarrow> u32) \<Rightarrow> working" where
  "variables v = (v 0, v 1, v 2, v 3, v 4, v 5, v 6, v 7)"

lemma compress_round_eq: "compress_round k w (variables v) = variables (sha_round k w v)"
  by (simp add: compress_round_def variables_def sha_round_def Let_def rotate_right_eq Sigma0_def Sigma1_def Ch_def Maj_def)

lemma compress_rounds_eq:
  assumes "n \<le> 64" and "\<forall>t < n. ws ! t = schedule M t"
  shows "fold (\<lambda>t. compress_round (SHA256_K ! t) (ws ! t)) [0 ..< n] (variables H) = variables (sha_rounds M H n)"
  using assms
proof (induction n)
  case (Suc n)
  have "SHA256_K ! n = K256 n" using Suc.prems(1) by (simp add: SHA256_K_eq del: upt_Suc)
  with Suc show ?case by (simp add: compress_round_eq)
qed simp

lemma eight: "[0 ..< 8] = [0, 1, 2, 3, 4, 5, 6, 7 :: nat]"
  by (simp add: upt_rec)

lemma process_chunk_eq:
  assumes "64 * Suc i \<le> length p"
  shows "process_chunk (take 64 (drop (64 * i) p)) (map H [0 ..< 8]) =
    map (\<lambda>j. sha_rounds (message_word p i) H 64 j + H j) [0 ..< 8]"
proof -
  let ?c = "take 64 (drop (64 * i) p)"
  have "\<forall>t < 64. extend_words (load_words ?c) ! t = schedule (message_word p i) t"
    using extend_words_schedule [of "load_words ?c" "message_word p i"] load_words_block [OF assms] by blast
  from compress_rounds_eq [OF order.refl this, of H] show ?thesis
    by (simp add: process_chunk_def Let_def eight working_of_def add_working_def variables_def add.commute del: upt_Suc)
qed

lemma chunks_exact_eq: "chunks_exact 64 p = map (\<lambda>i. take 64 (drop (64 * i) p)) [0 ..< length p div 64]"
proof (induction "64 :: nat" p rule: chunks_exact.induct)
  case (1 p)
  show ?case
  proof (cases "length p < 64")
    case True
    then show ?thesis by (simp add: chunks_exact.simps [of 64 p])
  next
    case False
    then have "length p div 64 = Suc ((length p - 64) div 64)" by (simp add: le_div_geq)
    then have "[0 ..< length p div 64] = 0 # map Suc [0 ..< (length p - 64) div 64]" by (simp add: upt_conv_Cons map_Suc_upt del: upt_Suc)
    with False 1 show ?thesis by (simp add: chunks_exact.simps [of 64 p] comp_def add.commute del: upt_Suc)
  qed
qed

lemma process_chunks_eq:
  "64 * n \<le> length p \<Longrightarrow>
   fold process_chunk (map (\<lambda>i. take 64 (drop (64 * i) p)) [0 ..< n]) initial_state = map (sha_hash p n) [0 ..< 8]"
proof (induction n)
  case 0
  then show ?case by (simp add: initial_state_eq del: upt_Suc)
next
  case (Suc n)
  have "fold process_chunk (map (\<lambda>i. take 64 (drop (64 * i) p)) [0 ..< Suc n]) initial_state =
      process_chunk (take 64 (drop (64 * n) p)) (map (sha_hash p n) [0 ..< 8])" using Suc by simp
  then show ?case using process_chunk_eq [of n p "sha_hash p n"] Suc.prems by (simp only: sha_hash.simps)
qed

section \<open>Text and comparison\<close>

lemma fold_or_zero:
  "fold (\<lambda>(l, r) acc. acc OR (l XOR r)) ps acc = 0 \<longleftrightarrow> acc = (0 :: u8) \<and> (\<forall>(l, r) \<in> set ps. l = r)"
proof (induction ps arbitrary: acc)
  case (Cons p ps)
  have "x OR (y XOR z) = 0 \<longleftrightarrow> x = 0 \<and> y = z" for x y z :: u8
    by (auto simp: bit_eq_iff bit_or_iff bit_xor_iff)
  with Cons show ?case by (cases p) auto
qed simp

lemma constant_time_equal_iff: "constant_time_equal l r \<longleftrightarrow> l = r"
  by (auto simp: constant_time_equal_def fold_or_zero list_eq_iff_zip_eq)

lemma sha256_digest_eq: "sha256_digest m = sha256_standard m"
proof -
  let ?p = "padded m"
  have "64 * (length ?p div 64) \<le> length ?p" by simp
  from process_chunks_eq [OF this] show ?thesis
    by (simp add: sha256_digest_def sha256_standard_def Let_def pad_message_eq chunks_exact_eq u32_to_be_bytes_def be_octets_le comp_def
        del: upt_Suc)
qed

lemma hmac_sha256_eq: "hmac_sha256_hex key m = hex_lower (hmac_standard key m)"
  by (simp add: hmac_sha256_hex_def hmac_standard_def key_block_of_def sha256_digest_eq Let_def xor.commute not_le)

lemma hex_digit_eq: "unat d < 16 \<Longrightarrow> hex_digit d = nibble_char (unat d)"
proof -
  have "list_all (\<lambda>n. ''0123456789abcdef'' ! n = nibble_char n) [0 ..< 16]" by code_simp
  then show "unat d < 16 \<Longrightarrow> hex_digit d = nibble_char (unat d)" by (simp add: list_all_iff hex_digit_def del: upt_Suc)
qed

lemma hex_lower_eq: "hex_lower bs = hex_text bs"
proof -
  have "hex_digit (drop_bit 4 b) = nibble_char (unat b div 16)" "hex_digit (b AND 0x0f) = nibble_char (unat b mod 16)" for b :: u8
  proof -
    have u: "unat (drop_bit 4 b) = unat b div 16" by (simp add: drop_bit_eq_div unat_div)
    have "unat b < 256" by (rule unat_u8)
    with u hex_digit_eq [of "drop_bit 4 b"] show "hex_digit (drop_bit 4 b) = nibble_char (unat b div 16)" by simp
    have "b AND 0x0f = b mod 16" using take_bit_eq_mask [of 4 b] take_bit_eq_mod [of 4 b] by (simp add: mask_eq_exp_minus_1)
    then have "unat (b AND 0x0f) = unat b mod 16" by (simp add: unat_mod)
    with hex_digit_eq [of "b AND 0x0f"] show "hex_digit (b AND 0x0f) = nibble_char (unat b mod 16)" by simp
  qed
  then show ?thesis by (simp add: hex_lower_def hex_text_def)
qed

section \<open>Properties\<close>

text \<open>Property C32 (sha256_reference). On every input the SHA-256 of the control client, with its tables, its padding loop and its in-place
  message schedule, is the function of FIPS 180-4: round constants and initial value are the bits of the cube and square roots of the first
  primes, and the rounds are those of the standard. Its hexadecimal text has the two digits of each byte, and its HMAC is the one of
  FIPS 198-1 over that hash. (Beyond the length of \<open>2 ^ 64\<close> bits, where the standard ends, both reduce the length modulo \<open>2 ^ 64\<close>.)\<close>

theorem sha256_reference:
  "sha256_digest m = sha256_standard m \<and> sha256_hex m = hex_text (sha256_standard m) \<and>
   hmac_sha256_hex key m = hex_text (hmac_standard key m)"
  by (simp add: sha256_digest_eq sha256_hex_def hmac_sha256_eq hex_lower_eq)

end
