(* ===== verification/Http_Text.thy ===== *)
theory Http_Text
  imports Fabric_Text
begin

text \<open>
  Text handling that the HTTP parts of the agent share: splitting at a separator, the first line,
  replacing characters, and the escaping of JSON strings, with a reader of JSON strings.
\<close>

section \<open>Splitting\<close>

abbreviation CR :: char where "CR \<equiv> CHR 0x0D"
abbreviation LF :: char where "LF \<equiv> CHR 0x0A"
abbreviation crlf :: string where "crlf \<equiv> [CR, LF]"

text \<open>\<^verbatim>\<open>str::split_once\<close>: at the first occurrence.\<close>

fun split_once :: "string \<Rightarrow> string \<Rightarrow> (string \<times> string) option" where
  "split_once sep [] = (if sep = [] then Some ([], []) else None)"
| "split_once sep (c # s) =
     (case strip_prefix sep (c # s) of
        Some rest \<Rightarrow> Some ([], rest)
      | None \<Rightarrow> map_option (\<lambda>(a, b). (c # a, b)) (split_once sep s))"

text \<open>\<^verbatim>\<open>str::rsplit_once\<close> with one character: at the last occurrence.\<close>

definition rsplit_once :: "char \<Rightarrow> string \<Rightarrow> (string \<times> string) option" where
  "rsplit_once c s =
     (if c \<in> set s
      then Some (rev (tl (dropWhile (\<lambda>x. x \<noteq> c) (rev s))), rev (takeWhile (\<lambda>x. x \<noteq> c) (rev s)))
      else None)"

text \<open>\<^verbatim>\<open>str::lines().next()\<close>: a line ends with a line feed, with a carriage return before it or not.\<close>

definition first_line :: "string \<Rightarrow> string option" where
  "first_line s =
     (if s = [] then None
      else
        let l = takeWhile (\<lambda>c. c \<noteq> LF) s in
        Some (if LF \<in> set s \<and> l \<noteq> [] \<and> last l = CR then butlast l else l))"

definition replace_char :: "char \<Rightarrow> string \<Rightarrow> string \<Rightarrow> string" where
  "replace_char c r s = concat (map (\<lambda>x. if x = c then r else [x]) s)"

lemma split_once_append:
  assumes "sep = c # cs" and "\<forall>i < length a. \<not> starts_with sep (drop i (a @ sep @ b))"
  shows "split_once sep (a @ sep @ b) = Some (a, b)"
  using assms(2)
proof (induction a)
  case Nil
  have "strip_prefix (c # cs) (c # cs @ b) = Some b" by simp
  then show ?case by (simp only: assms(1) append_Nil append_Cons split_once.simps option.case)
next
  case (Cons x a)
  have "strip_prefix sep ((x # a) @ sep @ b) = None"
    using Cons.prems by (auto simp: strip_prefix_def dest: spec [of _ 0])
  moreover have "split_once sep (a @ sep @ b) = Some (a, b)"
    using Cons.prems by (intro Cons.IH) (auto dest: spec [of _ "Suc _"])
  ultimately show ?case by simp
qed

lemma split_once_colon: "CHR '':'' \<notin> set name \<Longrightarrow> split_once '':'' (name @ CHR '':'' # v) = Some (name, v)"
  by (induction name) (auto simp: strip_prefix_def starts_with_def split: option.splits)

lemma rsplit_once_append: "c \<notin> set b \<Longrightarrow> rsplit_once c (a @ c # b) = Some (a, b)"
  by (simp add: rsplit_once_def takeWhile_append dropWhile_append)

section \<open>JSON strings\<close>

text \<open>\<^verbatim>\<open>json_escape\<close> is a sequence of replacements; in one pass it is \<open>escape_char\<close> on each character.\<close>

definition json_escape :: "string \<Rightarrow> string" where
  "json_escape s =
     replace_char (CHR 0x09) [CHR 0x5C, CHR ''t'']
       (replace_char CR [CHR 0x5C, CHR ''r'']
         (replace_char LF [CHR 0x5C, CHR ''n'']
           (replace_char (CHR 0x22) [CHR 0x5C, CHR 0x22]
             (replace_char (CHR 0x5C) [CHR 0x5C, CHR 0x5C] s))))"

text \<open>The one of the health endpoint leaves tabs alone.\<close>

definition health_json_escape :: "string \<Rightarrow> string" where
  "health_json_escape s =
     replace_char CR [CHR 0x5C, CHR ''r'']
       (replace_char LF [CHR 0x5C, CHR ''n'']
         (replace_char (CHR 0x22) [CHR 0x5C, CHR 0x22]
           (replace_char (CHR 0x5C) [CHR 0x5C, CHR 0x5C] s)))"

definition escape_char :: "char \<Rightarrow> string" where
  "escape_char c =
     (if c = CHR 0x5C then [CHR 0x5C, CHR 0x5C]
      else if c = CHR 0x22 then [CHR 0x5C, CHR 0x22]
      else if c = LF then [CHR 0x5C, CHR ''n'']
      else if c = CR then [CHR 0x5C, CHR ''r'']
      else if c = CHR 0x09 then [CHR 0x5C, CHR ''t'']
      else [c])"

text \<open>A reader of the rest of a JSON string, up to the closing quote.\<close>

definition unescape :: "char \<Rightarrow> char option" where
  "unescape c =
     (if c = CHR 0x5C \<or> c = CHR 0x22 \<or> c = CHR ''/'' then Some c
      else if c = CHR ''n'' then Some LF
      else if c = CHR ''r'' then Some CR
      else if c = CHR ''t'' then Some (CHR 0x09)
      else None)"

fun read_json_string :: "string \<Rightarrow> (string \<times> string) option" where
  "read_json_string [] = None"
| "read_json_string (c # s) =
     (if c = CHR 0x22 then Some ([], s)
      else if c = CHR 0x5C then
        (case s of
           [] \<Rightarrow> None
         | e # s' \<Rightarrow>
             (case unescape e of
                None \<Rightarrow> None
              | Some x \<Rightarrow> map_option (\<lambda>(a, b). (x # a, b)) (read_json_string s')))
      else map_option (\<lambda>(a, b). (c # a, b)) (read_json_string s))"

lemma replace_char_concat: "replace_char c r (concat xss) = concat (map (replace_char c r) xss)"
  by (induction xss) (simp_all add: replace_char_def)

lemma json_escape_chars: "json_escape s = concat (map escape_char s)"
proof -
  have "json_escape s = concat (map (\<lambda>x. json_escape [x]) s)"
    by (induction s) (simp_all add: json_escape_def replace_char_def)
  moreover have "json_escape [x] = escape_char x" for x
    by (simp add: json_escape_def replace_char_def escape_char_def)
  ultimately show ?thesis by simp
qed

lemma read_json_escape: "read_json_string (json_escape s @ CHR 0x22 # rest) = Some (s, rest)"
  by (induction s) (simp_all add: json_escape_chars escape_char_def unescape_def)

end
