(* ===== verification/Control_Client.thy ===== *)
theory Control_Client
  imports Config_File Config_Signature Http_Text
begin

text \<open>
  The client of the control plane (\<^verbatim>\<open>crates/telemetry-agent/src/control_client.rs\<close>): requests, responses, and
  the check of a configuration update. The network is an argument, the value tree and the parser of
  \<^verbatim>\<open>serde_yaml\<close> are an argument (\<open>'v value_api\<close>), and so is the reader of pipeline files. Errors are the
  messages of the boxed errors.
\<close>

section \<open>Data\<close>

datatype http_scheme = Http | Https

record http_endpoint =
  ep_scheme :: http_scheme
  ep_host :: string
  ep_port :: nat

record control_client_security =
  auth_token :: "string option"
  sec_tls :: tls_config
  config_signing_key :: "string option"

record control_client =
  cc_endpoint :: http_endpoint
  cc_agent_id :: string
  cc_tenant_id :: string
  cc_hostname :: string
  cc_version :: string
  cc_security :: control_client_security

record register_response =
  accepted_registration :: bool
  latest_config_version :: u64
  register_message :: string

datatype control_command_kind = ReloadConfig | DrainAndRestart | PauseExports | ResumeExports | UnknownCommand

datatype control_command_status = PendingCommand | Delivered | Succeeded | FailedCommand | UnknownStatus

record control_command =
  command_id :: string
  command_kind :: control_command_kind
  command_reason :: string
  command_status :: control_command_status

record config_update =
  update_version :: u64
  update_pipeline_config :: string
  update_checksum :: string
  update_signature :: "string option"

record heartbeat_stats =
  hb_config_version :: u64
  hb_queue_depth_bytes :: u64
  hb_ingest_bytes_per_second :: u64

text \<open>What is used of the value tree of \<^verbatim>\<open>serde_yaml\<close>; \<open>mapping_get\<close> is \<open>None\<close> when the value is no mapping.\<close>

record 'v value_api =
  yaml_from_str :: "string \<Rightarrow> string + 'v"
  mapping_get :: "'v \<Rightarrow> (string \<Rightarrow> 'v option) option"
  as_str :: "'v \<Rightarrow> string option"
  as_bool :: "'v \<Rightarrow> bool option"
  as_u64 :: "'v \<Rightarrow> u64 option"
  as_sequence :: "'v \<Rightarrow> 'v list option"
  is_null :: "'v \<Rightarrow> bool"

text \<open>The network: connecting fails, or gives a stream to which the request is written and from which the
  whole answer is read.\<close>

type_synonym network = "http_endpoint \<Rightarrow> tls_config \<Rightarrow> string + (u8 list \<Rightarrow> string + u8 list)"

section \<open>Endpoint and requests\<close>

definition parse_http_endpoint :: "string \<Rightarrow> string + http_endpoint" where
  "parse_http_endpoint given =
     (let endpoint = trim given in
      res_bind
        (case strip_prefix ''https://'' endpoint of
           Some rest \<Rightarrow> Inr (Https, rest)
         | None \<Rightarrow>
             (case strip_prefix ''http://'' endpoint of
                Some rest \<Rightarrow> Inr (Http, rest)
              | None \<Rightarrow> Inl ''control endpoint must use http:// or https://'')) (\<lambda>(scheme, without_scheme).
      if CHR ''/'' \<in> set without_scheme then Inl ''control endpoint path prefixes are not supported yet''
      else
        let default_port = (case scheme of Http \<Rightarrow> 80 | Https \<Rightarrow> 443) in
        res_bind
          (case rsplit_once CHR '':'' without_scheme of
             Some (host, port) \<Rightarrow> res_bind (map_err show_parse_int_error (parse_uint u16_max port)) (\<lambda>p. Inr (host, p))
           | None \<Rightarrow> Inr (without_scheme, default_port)) (\<lambda>(host, port).
        if blank host then Inl ''control endpoint host must not be empty''
        else Inr \<lparr>ep_scheme = scheme, ep_host = host, ep_port = port\<rparr>)))"

definition new_with_security ::
  "string \<Rightarrow> string \<Rightarrow> string \<Rightarrow> string \<Rightarrow> string \<Rightarrow> control_client_security \<Rightarrow> string + control_client" where
  "new_with_security endpoint agent tenant hostname version security =
     res_bind (parse_http_endpoint endpoint) (\<lambda>ep.
     Inr \<lparr>cc_endpoint = ep, cc_agent_id = agent, cc_tenant_id = tenant, cc_hostname = hostname,
          cc_version = version, cc_security = security\<rparr>)"

definition render_post_request :: "control_client \<Rightarrow> string \<Rightarrow> string \<Rightarrow> string + string" where
  "render_post_request cl path body_text =
     (let request = ''POST '' @ path @ '' HTTP/1.1'' @ crlf @ ''Host: '' @ ep_host (cc_endpoint cl) @ '':'' @
            show_nat (ep_port (cc_endpoint cl)) @ crlf @ ''Content-Type: application/json'' @ crlf @
            ''Content-Length: '' @ show_nat (length body_text) @ crlf in
      res_bind
        (case auth_token (cc_security cl) of
           Some token \<Rightarrow>
             if CR \<in> set token \<or> LF \<in> set token then Inl ''control auth token must not contain newline characters''
             else Inr (request @ ''Authorization: Bearer '' @ token @ crlf)
         | None \<Rightarrow> Inr request) (\<lambda>request.
      Inr (request @ ''Connection: close'' @ crlf @ crlf)))"

definition parse_http_json_response :: "'v value_api \<Rightarrow> string \<Rightarrow> string + 'v" where
  "parse_http_json_response api response =
     res_bind (ok_or ''control endpoint returned an invalid HTTP response'' (split_once (crlf @ crlf) response)) (\<lambda>(head, body_text).
     res_bind (ok_or ''control endpoint returned an empty HTTP response'' (first_line head)) (\<lambda>status_line.
     res_bind (ok_or ''missing HTTP status code''
         (let parts = split_whitespace status_line in if 1 < length parts then Some (parts ! 1) else None)) (\<lambda>code.
     res_bind (map_err show_parse_int_error (parse_uint u16_max code)) (\<lambda>status_code.
     if \<not> (200 \<le> status_code \<and> status_code < 300) then
       Inl (''control endpoint returned HTTP '' @ show_nat status_code @ '': '' @ body_text)
     else yaml_from_str api body_text))))"

definition post_json :: "network \<Rightarrow> 'v value_api \<Rightarrow> control_client \<Rightarrow> string \<Rightarrow> string \<Rightarrow> string + 'v" where
  "post_json net api cl path body_text =
     res_bind (render_post_request cl path body_text) (\<lambda>request.
     res_bind (map_err (\<lambda>err. ''failed to connect to control endpoint '' @ ep_host (cc_endpoint cl) @ '':'' @
         show_nat (ep_port (cc_endpoint cl)) @ '': '' @ err) (net (cc_endpoint cl) (sec_tls (cc_security cl)))) (\<lambda>stream.
     res_bind (stream (as_bytes request @ as_bytes body_text)) (\<lambda>bytes.
     res_bind (map_err show_utf8_error (from_utf8 bytes)) (\<lambda>response.
     parse_http_json_response api response))))"

section \<open>Responses\<close>

definition get_field :: "'v value_api \<Rightarrow> 'v \<Rightarrow> string \<Rightarrow> string + 'v" where
  "get_field api v key =
     res_bind (ok_or ''expected JSON object'' (mapping_get api v)) (\<lambda>get.
     ok_or (''missing field in control response: '' @ key) (get key))"

definition get_string :: "'v value_api \<Rightarrow> 'v \<Rightarrow> string \<Rightarrow> string + string" where
  "get_string api v key =
     res_bind (get_field api v key) (\<lambda>x. ok_or (''field must be a string: '' @ key) (as_str api x))"

definition get_optional_string :: "'v value_api \<Rightarrow> 'v \<Rightarrow> string \<Rightarrow> string option" where
  "get_optional_string api v key =
     (case get_field api v key of Inl _ \<Rightarrow> None | Inr x \<Rightarrow> as_str api x)"

definition get_bool :: "'v value_api \<Rightarrow> 'v \<Rightarrow> string \<Rightarrow> string + bool" where
  "get_bool api v key =
     res_bind (get_field api v key) (\<lambda>x. ok_or (''field must be a boolean: '' @ key) (as_bool api x))"

definition get_u64 :: "'v value_api \<Rightarrow> 'v \<Rightarrow> string \<Rightarrow> string + u64" where
  "get_u64 api v key =
     res_bind (get_field api v key) (\<lambda>x. ok_or (''field must be an unsigned integer: '' @ key) (as_u64 api x))"

definition parse_register_response :: "'v value_api \<Rightarrow> 'v \<Rightarrow> string + register_response" where
  "parse_register_response api v =
     res_bind (get_field api v ''agent'') (\<lambda>agent.
     res_bind (get_bool api agent ''accepted'') (\<lambda>ok.
     res_bind (get_u64 api agent ''config_version'') (\<lambda>ver.
     res_bind (get_string api agent ''message'') (\<lambda>msg.
     Inr \<lparr>accepted_registration = ok, latest_config_version = ver, register_message = msg\<rparr>))))"

definition parse_command_kind :: "string \<Rightarrow> control_command_kind" where
  "parse_command_kind s =
     (if s = ''reload_config'' then ReloadConfig
      else if s = ''drain_and_restart'' then DrainAndRestart
      else if s = ''pause_exports'' then PauseExports
      else if s = ''resume_exports'' then ResumeExports
      else UnknownCommand)"

definition parse_command_status :: "string \<Rightarrow> control_command_status" where
  "parse_command_status s =
     (if s = ''pending'' then PendingCommand
      else if s = ''delivered'' then Delivered
      else if s = ''succeeded'' then Succeeded
      else if s = ''failed'' then FailedCommand
      else UnknownStatus)"

definition parse_command :: "'v value_api \<Rightarrow> 'v \<Rightarrow> string + control_command" where
  "parse_command api v =
     res_bind (get_string api v ''command_id'') (\<lambda>cid.
     res_bind (get_string api v ''kind'') (\<lambda>kind.
     res_bind (get_string api v ''reason'') (\<lambda>reason.
     Inr \<lparr>command_id = cid, command_kind = parse_command_kind kind, command_reason = reason,
          command_status =
            (case get_optional_string api v ''status'' of
               None \<Rightarrow> UnknownStatus | Some s \<Rightarrow> parse_command_status s)\<rparr>)))"

definition parse_commands_response :: "'v value_api \<Rightarrow> 'v \<Rightarrow> string + control_command list" where
  "parse_commands_response api v =
     res_bind (get_field api v ''commands'') (\<lambda>x.
     res_bind (ok_or ''commands must be an array'' (as_sequence api x)) (\<lambda>xs.
     res_map (parse_command api) xs))"

definition parse_config_update_response :: "'v value_api \<Rightarrow> 'v \<Rightarrow> string + config_update option" where
  "parse_config_update_response api v =
     res_bind (get_field api v ''update'') (\<lambda>u.
     if is_null api u then Inr None
     else
       res_bind (get_u64 api u ''version'') (\<lambda>ver.
       res_bind (get_string api u ''pipeline_config'') (\<lambda>cfg.
       res_bind (get_string api u ''checksum'') (\<lambda>sum.
       Inr (Some \<lparr>update_version = ver, update_pipeline_config = cfg, update_checksum = sum,
                  update_signature = get_optional_string api u ''signature''\<rparr>)))))"

section \<open>Calls\<close>

definition quoted :: "string \<Rightarrow> string" where
  "quoted s = [CHR 0x22] @ s @ [CHR 0x22]"

definition json_field :: "string \<Rightarrow> string \<Rightarrow> string" where
  "json_field key s = quoted key @ '':'' @ quoted (json_escape s)"

definition json_bool :: "bool \<Rightarrow> string" where
  "json_bool b = (if b then ''true'' else ''false'')"

definition register_body :: "control_client \<Rightarrow> string" where
  "register_body cl =
     ''{'' @ json_field ''agent_id'' (cc_agent_id cl) @ '','' @ json_field ''tenant_id'' (cc_tenant_id cl) @ '','' @
     json_field ''hostname'' (cc_hostname cl) @ '','' @ json_field ''version'' (cc_version cl) @ ''}''"

definition register :: "network \<Rightarrow> 'v value_api \<Rightarrow> control_client \<Rightarrow> string + register_response" where
  "register net api cl =
     res_bind (post_json net api cl ''/v1/agents/register'' (register_body cl)) (parse_register_response api)"

definition heartbeat_body :: "control_client \<Rightarrow> heartbeat_stats \<Rightarrow> string" where
  "heartbeat_body cl stats =
     ''{'' @ json_field ''agent_id'' (cc_agent_id cl) @ '','' @ json_field ''tenant_id'' (cc_tenant_id cl) @ '','' @
     quoted ''config_version'' @ '':'' @ show_nat (hb_config_version stats) @ '','' @
     quoted ''queue_depth_bytes'' @ '':'' @ show_nat (hb_queue_depth_bytes stats) @ '','' @
     quoted ''ingest_bytes_per_second'' @ '':'' @ show_nat (hb_ingest_bytes_per_second stats) @ ''}''"

definition heartbeat :: "network \<Rightarrow> 'v value_api \<Rightarrow> control_client \<Rightarrow> heartbeat_stats \<Rightarrow> string + control_command list" where
  "heartbeat net api cl stats =
     res_bind (post_json net api cl ''/v1/agents/heartbeat'' (heartbeat_body cl stats)) (parse_commands_response api)"

definition config_update_body :: "control_client \<Rightarrow> u64 \<Rightarrow> string" where
  "config_update_body cl current =
     ''{'' @ json_field ''agent_id'' (cc_agent_id cl) @ '','' @ json_field ''tenant_id'' (cc_tenant_id cl) @ '','' @
     quoted ''current_version'' @ '':'' @ show_nat current @ ''}''"

definition fetch_config_update :: "network \<Rightarrow> 'v value_api \<Rightarrow> control_client \<Rightarrow> u64 \<Rightarrow> string + config_update option" where
  "fetch_config_update net api cl current =
     res_bind (post_json net api cl ''/v1/agents/config'' (config_update_body cl current)) (parse_config_update_response api)"

definition ack_body :: "control_client \<Rightarrow> string \<Rightarrow> bool \<Rightarrow> string option \<Rightarrow> string" where
  "ack_body cl cid success err =
     ''{'' @ json_field ''agent_id'' (cc_agent_id cl) @ '','' @ json_field ''tenant_id'' (cc_tenant_id cl) @ '','' @
     json_field ''command_id'' cid @ '','' @ quoted ''success'' @ '':'' @ json_bool success @
     (case err of Some e \<Rightarrow> '','' @ json_field ''error'' e | None \<Rightarrow> []) @ ''}''"

definition ack_command ::
  "network \<Rightarrow> 'v value_api \<Rightarrow> control_client \<Rightarrow> string \<Rightarrow> bool \<Rightarrow> string option \<Rightarrow> string + unit" where
  "ack_command net api cl cid success err =
     res_bind (post_json net api cl ''/v1/agents/commands/ack'' (ack_body cl cid success err)) (\<lambda>_. Inr ())"

section \<open>Configuration updates\<close>

definition validate_config_signature :: "config_update \<Rightarrow> string option \<Rightarrow> string + unit" where
  "validate_config_signature upd signing_key =
     (case signing_key of
        None \<Rightarrow> Inr ()
      | Some key \<Rightarrow>
          if blank key then Inr ()
          else
            res_bind (ok_or ''control config signature is required when a signing key is configured''
                (update_signature upd)) (\<lambda>signature.
            let expected = trim (unwrap_or (strip_prefix ''hmac-sha256='' signature) signature);
                actual = hmac_sha256_hex (as_bytes key) (as_bytes (update_pipeline_config upd)) in
            if \<not> constant_time_equal (as_bytes expected) (as_bytes actual)
            then Inl ''control config signature mismatch''
            else Inr ()))"

definition validate_config_update ::
  "(string \<Rightarrow> string + file_pipeline_config) \<Rightarrow> config_update \<Rightarrow> string option \<Rightarrow> string + pipeline_config" where
  "validate_config_update from_yaml upd signing_key =
     (let actual = sha256_hex (as_bytes (update_pipeline_config upd)) in
      if \<not> eq_ignore_ascii_case actual (update_checksum upd) then
        Inl (''control config checksum mismatch: expected='' @ update_checksum upd @ '' actual='' @ actual)
      else
        res_bind (validate_config_signature upd signing_key) (\<lambda>_.
        parse_pipeline_config from_yaml (update_pipeline_config upd)))"

definition client_validate_config_update ::
  "(string \<Rightarrow> string + file_pipeline_config) \<Rightarrow> control_client \<Rightarrow> config_update \<Rightarrow> string + pipeline_config" where
  "client_validate_config_update from_yaml cl upd =
     validate_config_update from_yaml upd (config_signing_key (cc_security cl))"

end
