(* ===== verification/Agent_Args.thy ===== *)
theory Agent_Args
  imports Control_Client Runtime_Facts
begin

text \<open>
  How the agent process starts (\<^verbatim>\<open>crates/telemetry-agent/src/main.rs\<close>): the command line, the pipeline
  configuration that results, the choice of the receiver, and \<^verbatim>\<open>run\<close> up to the point where it serves.
  The environment is a function from variable names to values; reading a file, \<^verbatim>\<open>serde_yaml\<close>, the
  construction of exporters, their calls and the clocks are arguments. Boxed errors are their messages.
\<close>

section \<open>The command line\<close>

record args =
  arg_tenant_id :: "string option"
  arg_config_path :: "string option"
  arg_queue_dir :: string
  arg_otlp_grpc :: "string option"
  arg_otlp_http :: "string option"
  arg_otlp_export_endpoint :: "string option"
  arg_health_listen :: "string option"
  arg_control_endpoint :: "string option"
  arg_agent_id :: "string option"
  arg_control_auth_token :: "string option"
  arg_control_ca_file :: "string option"
  arg_control_cert_file :: "string option"
  arg_control_key_file :: "string option"
  arg_control_server_name :: "string option"
  arg_control_config_signing_key :: "string option"
  arg_flush_batch_size :: usize
  arg_flush_interval_ms :: u64
  arg_control_heartbeat_interval_ms :: u64
  arg_shutdown_drain_timeout_ms :: u64
  arg_check_config :: bool
  arg_self_test :: bool
  arg_help :: bool

type_synonym environment = "string \<Rightarrow> string option"

definition initial_args :: "environment \<Rightarrow> args" where
  "initial_args env =
     \<lparr>arg_tenant_id = None, arg_config_path = None, arg_queue_dir = ''.telemetry-fabric/queue'',
      arg_otlp_grpc = None, arg_otlp_http = None, arg_otlp_export_endpoint = None,
      arg_health_listen = None, arg_control_endpoint = None, arg_agent_id = None,
      arg_control_auth_token = env ''TELEMETRY_FABRIC_CONTROL_AUTH_TOKEN'',
      arg_control_ca_file = env ''TELEMETRY_FABRIC_CONTROL_CA_FILE'',
      arg_control_cert_file = env ''TELEMETRY_FABRIC_CONTROL_CERT_FILE'',
      arg_control_key_file = env ''TELEMETRY_FABRIC_CONTROL_KEY_FILE'',
      arg_control_server_name = env ''TELEMETRY_FABRIC_CONTROL_SERVER_NAME'',
      arg_control_config_signing_key = env ''TELEMETRY_FABRIC_CONTROL_CONFIG_SIGNING_KEY'',
      arg_flush_batch_size = 128, arg_flush_interval_ms = 1000,
      arg_control_heartbeat_interval_ms = 5000, arg_shutdown_drain_timeout_ms = 30000,
      arg_check_config = False, arg_self_test = False, arg_help = False\<rparr>"

definition parse_positive_usize :: "string \<Rightarrow> string + usize" where
  "parse_positive_usize s =
     res_bind (map_err show_parse_int_error (parse_uint u64_max s)) (\<lambda>parsed.
     if parsed = 0 then Inl ''value must be greater than zero'' else Inr parsed)"

definition parse_positive_u64 :: "string \<Rightarrow> string + u64" where
  "parse_positive_u64 s =
     res_bind (map_err show_parse_int_error (parse_uint u64_max s)) (\<lambda>parsed.
     if parsed = 0 then Inl ''value must be greater than zero'' else Inr parsed)"

text \<open>The arms of the \<^verbatim>\<open>match\<close> that take a value, with what each does with it, and those that do not.\<close>

definition value_flags :: "(string \<times> (string \<Rightarrow> args \<Rightarrow> string + args)) list" where
  "value_flags =
     [(''--tenant'', \<lambda>v a. Inr (a\<lparr>arg_tenant_id := Some v\<rparr>)),
      (''--config'', \<lambda>v a. Inr (a\<lparr>arg_config_path := Some v\<rparr>)),
      (''--queue-dir'', \<lambda>v a. Inr (a\<lparr>arg_queue_dir := v\<rparr>)),
      (''--otlp-grpc'', \<lambda>v a. Inr (a\<lparr>arg_otlp_grpc := Some v\<rparr>)),
      (''--otlp-http'', \<lambda>v a. Inr (a\<lparr>arg_otlp_http := Some v\<rparr>)),
      (''--otlp-export-endpoint'', \<lambda>v a. Inr (a\<lparr>arg_otlp_export_endpoint := Some v\<rparr>)),
      (''--health-listen'', \<lambda>v a. Inr (a\<lparr>arg_health_listen := Some v\<rparr>)),
      (''--control-endpoint'', \<lambda>v a. Inr (a\<lparr>arg_control_endpoint := Some v\<rparr>)),
      (''--agent-id'', \<lambda>v a. Inr (a\<lparr>arg_agent_id := Some v\<rparr>)),
      (''--control-auth-token'', \<lambda>v a. Inr (a\<lparr>arg_control_auth_token := Some v\<rparr>)),
      (''--control-ca-file'', \<lambda>v a. Inr (a\<lparr>arg_control_ca_file := Some v\<rparr>)),
      (''--control-cert-file'', \<lambda>v a. Inr (a\<lparr>arg_control_cert_file := Some v\<rparr>)),
      (''--control-key-file'', \<lambda>v a. Inr (a\<lparr>arg_control_key_file := Some v\<rparr>)),
      (''--control-server-name'', \<lambda>v a. Inr (a\<lparr>arg_control_server_name := Some v\<rparr>)),
      (''--control-config-signing-key'', \<lambda>v a. Inr (a\<lparr>arg_control_config_signing_key := Some v\<rparr>)),
      (''--flush-batch-size'', \<lambda>v a.
         res_bind (parse_positive_usize v) (\<lambda>n. Inr (a\<lparr>arg_flush_batch_size := n\<rparr>))),
      (''--flush-interval-ms'', \<lambda>v a.
         res_bind (parse_positive_u64 v) (\<lambda>n. Inr (a\<lparr>arg_flush_interval_ms := n\<rparr>))),
      (''--control-heartbeat-interval-ms'', \<lambda>v a.
         res_bind (parse_positive_u64 v) (\<lambda>n. Inr (a\<lparr>arg_control_heartbeat_interval_ms := n\<rparr>))),
      (''--shutdown-drain-timeout-ms'', \<lambda>v a.
         res_bind (parse_positive_u64 v) (\<lambda>n. Inr (a\<lparr>arg_shutdown_drain_timeout_ms := n\<rparr>)))]"

definition switch_flags :: "(string \<times> (args \<Rightarrow> args)) list" where
  "switch_flags =
     [(''--self-test'', \<lambda>a. a\<lparr>arg_self_test := True\<rparr>),
      (''--check-config'', \<lambda>a. a\<lparr>arg_check_config := True\<rparr>),
      (''--help'', \<lambda>a. a\<lparr>arg_help := True\<rparr>),
      (''-h'', \<lambda>a. a\<lparr>arg_help := True\<rparr>)]"

definition next_value :: "string list \<Rightarrow> string \<Rightarrow> string + string \<times> string list" where
  "next_value values flag =
     (case values of [] \<Rightarrow> Inl (''missing value for '' @ flag) | v # rest \<Rightarrow> Inr (v, rest))"

function parse_values :: "string list \<Rightarrow> args \<Rightarrow> string + args" where
  "parse_values [] a = Inr a"
| "parse_values (flag # values) a =
     (case map_of value_flags flag of
        Some store \<Rightarrow>
          (case next_value values flag of
             Inl e \<Rightarrow> Inl e
           | Inr (v, rest) \<Rightarrow> (case store v a of Inl e \<Rightarrow> Inl e | Inr a' \<Rightarrow> parse_values rest a'))
      | None \<Rightarrow>
          (case map_of switch_flags flag of
             Some f \<Rightarrow> parse_values values (f a)
           | None \<Rightarrow> Inl (''unknown argument: '' @ flag)))"
  by pat_completeness auto
termination
  by (relation "measure (\<lambda>(vs, _). length vs)") (auto simp: next_value_def split: list.splits)

definition parse_args :: "environment \<Rightarrow> string list \<Rightarrow> string + args" where
  "parse_args env values =
     res_bind (parse_values values (initial_args env)) (\<lambda>a.
     let receiver_modes = length (filter (\<lambda>enabled. enabled) [arg_otlp_grpc a \<noteq> None, arg_otlp_http a \<noteq> None]) in
     if receiver_modes > 1 then Inl ''choose only one receiver mode for this agent process'' else Inr a)"

section \<open>From arguments to the pipeline\<close>

definition upstream_exporters :: "string \<Rightarrow> exporter_config list" where
  "upstream_exporters endpoint =
     [\<lparr>exp_name = ''otlp-upstream'', exp_protocol = OtlpGrpc, exp_endpoint = endpoint,
       exp_tls = (if starts_with ''https://'' endpoint then tls_enabled_config else tls_disabled),
       exp_retry = retry_default\<rparr>,
      \<lparr>exp_name = ''stdout'', exp_protocol = Stdout, exp_endpoint = ''stdout://local'',
       exp_tls = tls_disabled, exp_retry = retry_default\<rparr>]"

definition upstream_routes :: "route_config list" where
  "upstream_routes =
     [\<lparr>route_signal = Trace, route_exporters = [''otlp-upstream'']\<rparr>,
      \<lparr>route_signal = Metric, route_exporters = [''otlp-upstream'']\<rparr>,
      \<lparr>route_signal = Log, route_exporters = [''otlp-upstream'']\<rparr>]"

definition build_pipeline_config ::
  "(string \<Rightarrow> string + string) \<Rightarrow> (string \<Rightarrow> string + file_pipeline_config) \<Rightarrow> args \<Rightarrow> string + pipeline_config" where
  "build_pipeline_config read_to_string from_yaml a =
     res_bind (case arg_config_path a of
                 Some path \<Rightarrow> load_pipeline_config read_to_string from_yaml path
               | None \<Rightarrow> Inr default_config) (\<lambda>cfg.
     let cfg = (case arg_tenant_id a of Some t \<Rightarrow> cfg\<lparr>cfg_tenant_id := t\<rparr> | None \<Rightarrow> cfg);
         cfg = (case arg_otlp_export_endpoint a of
                  Some endpoint \<Rightarrow> cfg\<lparr>exporters := upstream_exporters endpoint, routes := upstream_routes\<rparr>
                | None \<Rightarrow> cfg);
         cfg = (if arg_config_path a = None \<and> arg_tenant_id a \<noteq> None
                then cfg\<lparr>cfg_tenant_id := unwrap_or (arg_tenant_id a) ''default''\<rparr> else cfg)
     in res_bind (map_err show_pipeline_error (validate_config cfg)) (\<lambda>_. Inr cfg))"

definition security_of_args :: "args \<Rightarrow> control_client_security" where
  "security_of_args a =
     \<lparr>auth_token = arg_control_auth_token a,
      sec_tls =
        \<lparr>tls_enabled = unwrap_or (map_option (starts_with ''https://'') (arg_control_endpoint a)) False,
         ca_file = arg_control_ca_file a, cert_file = arg_control_cert_file a, key_file = arg_control_key_file a,
         server_name = arg_control_server_name a, require_client_auth = False\<rparr>,
      config_signing_key = arg_control_config_signing_key a\<rparr>"

definition default_hostname :: "environment \<Rightarrow> string" where
  "default_hostname env =
     (case env ''HOSTNAME'' of Some h \<Rightarrow> h | None \<Rightarrow> unwrap_or (env ''COMPUTERNAME'') ''unknown-host'')"

definition default_agent_id :: "environment \<Rightarrow> string" where
  "default_agent_id env = ''telemetry-agent-'' @ default_hostname env"

datatype receiver_mode = ServeOtlpGrpc string | ServeOtlpHttp string tls_config

definition choose_receiver_mode :: "args \<Rightarrow> 'x agent_runtime \<Rightarrow> string + receiver_mode option" where
  "choose_receiver_mode a rt =
     (case arg_otlp_grpc a of
        Some bind \<Rightarrow> Inr (Some (ServeOtlpGrpc bind))
      | None \<Rightarrow>
     (case arg_otlp_http a of
        Some bind \<Rightarrow> Inr (Some (ServeOtlpHttp bind tls_disabled))
      | None \<Rightarrow>
     if arg_config_path a = None then Inr None
     else
       (case find (\<lambda>r. rcv_protocol r = ReceiverOtlpGrpc) (receivers (rt_config rt)) of
          Some r \<Rightarrow> Inr (Some (ServeOtlpGrpc (rcv_endpoint r)))
        | None \<Rightarrow>
       (case find (\<lambda>r. rcv_protocol r = ReceiverOtlpHttp) (receivers (rt_config rt)) of
          Some r \<Rightarrow> Inr (Some (ServeOtlpHttp (rcv_endpoint r) (rcv_tls r)))
        | None \<Rightarrow> Inl ''config has no supported receiver; supported receivers are otlp_grpc and otlp_http''))))"

section \<open>\<open>run\<close>\<close>

text \<open>
  What \<^verbatim>\<open>run\<close> comes to: the help text, the line that says the configuration is valid, the self test, a last
  flush when there is nothing to receive, or serving. \<open>start\<close> holds what is running then: the runtime, the
  address of the health server, the client of the control worker, the receiver.
\<close>

record 'x agent_start =
  start_runtime :: "'x agent_runtime"
  start_health :: "string option"
  start_control :: "control_client option"

datatype 'x run_outcome =
  HelpPrinted
| ConfigValid string
| SelfTested "'x agent_runtime"
| FlushedOnce "'x agent_start"
| Serving receiver_mode "'x agent_start"

fun show_agent_error :: "(io_error \<Rightarrow> string) \<Rightarrow> agent_error \<Rightarrow> string" where
  "show_agent_error show_io (PipelineErr e) = show_pipeline_error e"
| "show_agent_error show_io (TelemetryErr e) = show_telemetry_error e"
| "show_agent_error show_io (QueueErr e) = show_disk_queue_error show_io e"
| "show_agent_error show_io (RuntimeErr e) = show_runtime_error e"
| "show_agent_error show_io (ExporterErr e) = e"

definition config_valid_line :: "pipeline_config \<Rightarrow> string" where
  "config_valid_line cfg =
     ''pipeline config valid: tenant='' @ cfg_tenant_id cfg @ '' pipeline='' @ cfg_name cfg @
     '' receivers='' @ show_nat (length (receivers cfg)) @ '' exporters='' @ show_nat (length (exporters cfg)) @
     '' routes='' @ show_nat (length (routes cfg))"

definition self_test_record :: "128 word \<Rightarrow> 'x agent_runtime \<Rightarrow> telemetry_record" where
  "self_test_record now rt =
     with_attribute ''service.name'' ''telemetry-agent''
       (record_new now (cfg_tenant_id (rt_config rt)) Trace (as_bytes ''agent self-test record''))"

definition self_test ::
  "(io_error \<Rightarrow> string) \<Rightarrow> 'x export_fn \<Rightarrow> batch_clock \<Rightarrow> 128 word \<Rightarrow> ('x agent_runtime, string, unit) act" where
  "self_test show_io export clock now rt =
     seq_act (map_err_act (show_agent_error show_io) (ingest (self_test_record now rt)))
     (seq_act (map_err_act (show_disk_queue_error show_io) (flush_to_stdout export clock 64)) (ok_act ())) rt"

definition connect_control :: "environment \<Rightarrow> string \<Rightarrow> args \<Rightarrow> 'x agent_runtime \<Rightarrow> string + control_client option" where
  "connect_control env version a rt =
     (case arg_control_endpoint a of
        None \<Rightarrow> Inr None
      | Some endpoint \<Rightarrow>
          res_bind (new_with_security endpoint
              (case arg_agent_id a of Some i \<Rightarrow> i | None \<Rightarrow> default_agent_id env)
              (cfg_tenant_id (rt_config rt)) (default_hostname env) version (security_of_args a)) (\<lambda>client.
          Inr (Some client)))"

text \<open>The outside of the process: environment, version, file reading, \<^verbatim>\<open>serde_yaml\<close>, messages of I/O errors,
  exporters, clocks.\<close>

record 'x surroundings =
  env_vars :: environment
  pkg_version :: string
  file_text :: "string \<Rightarrow> string + string"
  yaml_config :: "string \<Rightarrow> string + file_pipeline_config"
  io_text :: "io_error \<Rightarrow> string"
  exporter_factory :: "'x build_fn"
  export_call :: "'x export_fn"
  start_clock :: batch_clock
  wall_clock :: "128 word"

text \<open>The part after \<^verbatim>\<open>AgentRuntime::open\<close>; the workers that it spawns take their turns later.\<close>

definition run_opened ::
  "'x surroundings \<Rightarrow> args \<Rightarrow> ('x agent_runtime, string, 'x agent_runtime \<Rightarrow> 'x run_outcome) act" where
  "run_opened s a rt =
     (if arg_self_test a then
        seq_act (self_test (io_text s) (export_call s) (start_clock s) (wall_clock s)) (ok_act SelfTested) rt
      else
        bind_act (lift_res (connect_control (env_vars s) (pkg_version s) a rt)) (\<lambda>client.
        bind_act (lift_res (choose_receiver_mode a rt)) (\<lambda>mode.
        let started = (\<lambda>rt'. \<lparr>start_runtime = rt', start_health = arg_health_listen a, start_control = client\<rparr>) in
        case mode of
          Some m \<Rightarrow> ok_act (\<lambda>rt'. Serving m (started rt'))
        | None \<Rightarrow>
            seq_act (map_err_act (show_disk_queue_error (io_text s))
                (flush_to_stdout (export_call s) (start_clock s) 1024)) (ok_act (\<lambda>rt'. FlushedOnce (started rt'))))) rt)"

definition run :: "'x surroundings \<Rightarrow> string list \<Rightarrow> (disk, string, 'x run_outcome) act" where
  "run s values d =
     bind_act (lift_res (parse_args (env_vars s) values)) (\<lambda>a.
     if arg_help a then ok_act HelpPrinted
     else
       bind_act (lift_res (build_pipeline_config (file_text s) (yaml_config s) a)) (\<lambda>cfg.
       bind_act (lift_res (map_err show_pipeline_error (validate_config cfg))) (\<lambda>_.
       if arg_check_config a then ok_act (ConfigValid (config_valid_line cfg))
       else
         bind_act (map_err_act (show_agent_error (io_text s)) (runtime_open (exporter_factory s) cfg default_disk_queue_options)) (\<lambda>rt d'.
         case run_opened s a rt of
           (Inl e, rt') \<Rightarrow> (Inl e, dir (rt_queue rt'))
         | (Inr result, rt') \<Rightarrow> (Inr (result rt'), dir (rt_queue rt')))))) d"

section \<open>What the command line can say\<close>

text \<open>The arguments the rest of the process may rely on, and what the environment fixes unless a flag overrides it.\<close>

definition in_range :: "nat \<Rightarrow> bool" where
  "in_range n \<longleftrightarrow> 0 < n \<and> n \<le> u64_max"

definition args_ok :: "args \<Rightarrow> bool" where
  "args_ok a \<longleftrightarrow> in_range (arg_flush_batch_size a) \<and> in_range (arg_flush_interval_ms a) \<and>
     in_range (arg_control_heartbeat_interval_ms a) \<and> in_range (arg_shutdown_drain_timeout_ms a) \<and>
     (arg_otlp_grpc a = None \<or> arg_otlp_http a = None)"

definition from_env :: "environment \<Rightarrow> args \<Rightarrow> bool" where
  "from_env env a \<longleftrightarrow>
     (arg_control_auth_token a = None \<longrightarrow> env ''TELEMETRY_FABRIC_CONTROL_AUTH_TOKEN'' = None) \<and>
     (arg_control_ca_file a = None \<longrightarrow> env ''TELEMETRY_FABRIC_CONTROL_CA_FILE'' = None) \<and>
     (arg_control_cert_file a = None \<longrightarrow> env ''TELEMETRY_FABRIC_CONTROL_CERT_FILE'' = None) \<and>
     (arg_control_key_file a = None \<longrightarrow> env ''TELEMETRY_FABRIC_CONTROL_KEY_FILE'' = None) \<and>
     (arg_control_server_name a = None \<longrightarrow> env ''TELEMETRY_FABRIC_CONTROL_SERVER_NAME'' = None) \<and>
     (arg_control_config_signing_key a = None \<longrightarrow> env ''TELEMETRY_FABRIC_CONTROL_CONFIG_SIGNING_KEY'' = None)"

definition numbers_ok :: "args \<Rightarrow> bool" where
  "numbers_ok a \<longleftrightarrow> in_range (arg_flush_batch_size a) \<and> in_range (arg_flush_interval_ms a) \<and>
     in_range (arg_control_heartbeat_interval_ms a) \<and> in_range (arg_shutdown_drain_timeout_ms a)"

lemma parse_positive_iff:
  "parse_positive_usize s = Inr n \<longleftrightarrow> parse_uint u64_max s = Inr n \<and> 0 < n"
  "parse_positive_u64 s = Inr n \<longleftrightarrow> parse_uint u64_max s = Inr n \<and> 0 < n"
  by (cases "parse_uint u64_max s"; auto simp: parse_positive_usize_def parse_positive_u64_def)+

lemma parse_positive_range:
  "parse_positive_usize s = Inr n \<Longrightarrow> in_range n" "parse_positive_u64 s = Inr n \<Longrightarrow> in_range n"
  by (auto simp: parse_positive_iff in_range_def dest: parse_uint_bound)

definition keeps_args :: "environment \<Rightarrow> args \<Rightarrow> args \<Rightarrow> bool" where
  "keeps_args env a a' \<longleftrightarrow> (numbers_ok a \<and> from_env env a \<longrightarrow> numbers_ok a' \<and> from_env env a')"

lemma keeps_args_plain:
  "keeps_args env a (a\<lparr>arg_tenant_id := o1\<rparr>)" "keeps_args env a (a\<lparr>arg_config_path := o1\<rparr>)"
  "keeps_args env a (a\<lparr>arg_queue_dir := s\<rparr>)" "keeps_args env a (a\<lparr>arg_otlp_grpc := o1\<rparr>)"
  "keeps_args env a (a\<lparr>arg_otlp_http := o1\<rparr>)" "keeps_args env a (a\<lparr>arg_otlp_export_endpoint := o1\<rparr>)"
  "keeps_args env a (a\<lparr>arg_health_listen := o1\<rparr>)" "keeps_args env a (a\<lparr>arg_control_endpoint := o1\<rparr>)"
  "keeps_args env a (a\<lparr>arg_agent_id := o1\<rparr>)" "keeps_args env a (a\<lparr>arg_self_test := b\<rparr>)"
  "keeps_args env a (a\<lparr>arg_check_config := b\<rparr>)" "keeps_args env a (a\<lparr>arg_help := b\<rparr>)"
  by (simp_all add: keeps_args_def numbers_ok_def from_env_def)

lemma keeps_args_control:
  "keeps_args env a (a\<lparr>arg_control_auth_token := Some s\<rparr>)" "keeps_args env a (a\<lparr>arg_control_ca_file := Some s\<rparr>)"
  "keeps_args env a (a\<lparr>arg_control_cert_file := Some s\<rparr>)" "keeps_args env a (a\<lparr>arg_control_key_file := Some s\<rparr>)"
  "keeps_args env a (a\<lparr>arg_control_server_name := Some s\<rparr>)" "keeps_args env a (a\<lparr>arg_control_config_signing_key := Some s\<rparr>)"
  by (simp_all add: keeps_args_def numbers_ok_def from_env_def)

lemma keeps_args_number:
  assumes "in_range n"
  shows "keeps_args env a (a\<lparr>arg_flush_batch_size := n\<rparr>)" "keeps_args env a (a\<lparr>arg_flush_interval_ms := n\<rparr>)"
    "keeps_args env a (a\<lparr>arg_control_heartbeat_interval_ms := n\<rparr>)" "keeps_args env a (a\<lparr>arg_shutdown_drain_timeout_ms := n\<rparr>)"
  using assms by (simp_all add: keeps_args_def numbers_ok_def from_env_def)

lemma value_flags_keep: "list_all (\<lambda>p. \<forall>v a a'. snd p v a = Inr a' \<longrightarrow> keeps_args env a a') value_flags"
  unfolding value_flags_def list.pred_inject snd_conv
  by (intro conjI) (auto simp: keeps_args_plain keeps_args_control keeps_args_number res_bind_Inr_iff dest!: parse_positive_range)

lemma switch_flags_keep: "list_all (\<lambda>p. \<forall>a. keeps_args env a (snd p a)) switch_flags"
  by (simp add: switch_flags_def keeps_args_plain)

lemma value_flag_keeps: "map_of value_flags flag = Some store \<Longrightarrow> store v a = Inr a' \<Longrightarrow> keeps_args env a a'"
  using value_flags_keep [of env] by (fastforce simp: list_all_iff dest: map_of_SomeD)

lemma switch_flag_keeps: "map_of switch_flags flag = Some f \<Longrightarrow> keeps_args env a (f a)"
  using switch_flags_keep [of env] by (fastforce simp: list_all_iff dest: map_of_SomeD)

lemma parse_values_keeps:
  "parse_values vs a = Inr a' \<Longrightarrow> numbers_ok a \<Longrightarrow> from_env env a \<Longrightarrow> numbers_ok a' \<and> from_env env a'"
proof (induction vs a rule: parse_values.induct)
  case (2 flag vs a)
  show ?case
  proof (cases "map_of value_flags flag")
    case (Some store)
    then obtain v rest a1 where "next_value vs flag = Inr (v, rest)" "store v a = Inr a1" "parse_values rest a1 = Inr a'"
      using "2.prems"(1) by (auto split: sum.splits prod.splits)
    with "2.IH"(2) [OF Some, of "(v, rest)" v rest a1] "2.prems" value_flag_keeps [OF Some, of v a a1 env] show ?thesis
      by (simp add: keeps_args_def)
  next
    case None
    then obtain f where f: "map_of switch_flags flag = Some f" "parse_values vs (f a) = Inr a'"
      using "2.prems"(1) by (auto split: option.splits)
    with "2.IH"(1) [OF None f(1)] "2.prems" switch_flag_keeps [OF f(1), of env a] show ?thesis by (simp add: keeps_args_def)
  qed
qed simp

text \<open>A command line for given arguments.\<close>

definition show_opt :: "string \<Rightarrow> string option \<Rightarrow> string list" where
  "show_opt flag v = (case v of None \<Rightarrow> [] | Some s \<Rightarrow> [flag, s])"

definition show_switch :: "string \<Rightarrow> bool \<Rightarrow> string list" where
  "show_switch flag b = (if b then [flag] else [])"

definition show_args :: "args \<Rightarrow> string list" where
  "show_args a =
     show_opt ''--tenant'' (arg_tenant_id a) @ show_opt ''--config'' (arg_config_path a) @
     show_opt ''--queue-dir'' (Some (arg_queue_dir a)) @ show_opt ''--otlp-grpc'' (arg_otlp_grpc a) @
     show_opt ''--otlp-http'' (arg_otlp_http a) @ show_opt ''--otlp-export-endpoint'' (arg_otlp_export_endpoint a) @
     show_opt ''--health-listen'' (arg_health_listen a) @ show_opt ''--control-endpoint'' (arg_control_endpoint a) @
     show_opt ''--agent-id'' (arg_agent_id a) @ show_opt ''--control-auth-token'' (arg_control_auth_token a) @
     show_opt ''--control-ca-file'' (arg_control_ca_file a) @ show_opt ''--control-cert-file'' (arg_control_cert_file a) @
     show_opt ''--control-key-file'' (arg_control_key_file a) @ show_opt ''--control-server-name'' (arg_control_server_name a) @
     show_opt ''--control-config-signing-key'' (arg_control_config_signing_key a) @
     show_opt ''--flush-batch-size'' (Some (show_nat (arg_flush_batch_size a))) @
     show_opt ''--flush-interval-ms'' (Some (show_nat (arg_flush_interval_ms a))) @
     show_opt ''--control-heartbeat-interval-ms'' (Some (show_nat (arg_control_heartbeat_interval_ms a))) @
     show_opt ''--shutdown-drain-timeout-ms'' (Some (show_nat (arg_shutdown_drain_timeout_ms a))) @
     show_switch ''--self-test'' (arg_self_test a) @ show_switch ''--check-config'' (arg_check_config a) @
     show_switch ''--help'' (arg_help a)"

lemma parse_opt:
  assumes "map_of value_flags flag = Some store"
  shows "parse_values (show_opt flag v @ rest) a =
    (case v of None \<Rightarrow> parse_values rest a | Some s \<Rightarrow> res_bind (store s a) (parse_values rest))"
  using assms by (auto simp: show_opt_def next_value_def res_bind_def split: option.splits sum.splits)

lemma parse_switch:
  assumes "map_of value_flags flag = None" and "map_of switch_flags flag = Some f"
  shows "parse_values (show_switch flag b @ rest) a = parse_values rest (if b then f a else a)"
  using assms by (simp add: show_switch_def)

lemma parse_positive_show: "in_range n \<Longrightarrow> parse_positive_usize (show_nat n) = Inr n \<and> parse_positive_u64 (show_nat n) = Inr n"
  by (simp add: parse_positive_iff in_range_def)

lemma value_flag_of:
  "map_of value_flags ''--tenant'' = Some (\<lambda>v a. Inr (a\<lparr>arg_tenant_id := Some v\<rparr>))"
  "map_of value_flags ''--config'' = Some (\<lambda>v a. Inr (a\<lparr>arg_config_path := Some v\<rparr>))"
  "map_of value_flags ''--queue-dir'' = Some (\<lambda>v a. Inr (a\<lparr>arg_queue_dir := v\<rparr>))"
  "map_of value_flags ''--otlp-grpc'' = Some (\<lambda>v a. Inr (a\<lparr>arg_otlp_grpc := Some v\<rparr>))"
  "map_of value_flags ''--otlp-http'' = Some (\<lambda>v a. Inr (a\<lparr>arg_otlp_http := Some v\<rparr>))"
  "map_of value_flags ''--otlp-export-endpoint'' = Some (\<lambda>v a. Inr (a\<lparr>arg_otlp_export_endpoint := Some v\<rparr>))"
  "map_of value_flags ''--health-listen'' = Some (\<lambda>v a. Inr (a\<lparr>arg_health_listen := Some v\<rparr>))"
  "map_of value_flags ''--control-endpoint'' = Some (\<lambda>v a. Inr (a\<lparr>arg_control_endpoint := Some v\<rparr>))"
  "map_of value_flags ''--agent-id'' = Some (\<lambda>v a. Inr (a\<lparr>arg_agent_id := Some v\<rparr>))"
  "map_of value_flags ''--control-auth-token'' = Some (\<lambda>v a. Inr (a\<lparr>arg_control_auth_token := Some v\<rparr>))"
  "map_of value_flags ''--control-ca-file'' = Some (\<lambda>v a. Inr (a\<lparr>arg_control_ca_file := Some v\<rparr>))"
  "map_of value_flags ''--control-cert-file'' = Some (\<lambda>v a. Inr (a\<lparr>arg_control_cert_file := Some v\<rparr>))"
  "map_of value_flags ''--control-key-file'' = Some (\<lambda>v a. Inr (a\<lparr>arg_control_key_file := Some v\<rparr>))"
  "map_of value_flags ''--control-server-name'' = Some (\<lambda>v a. Inr (a\<lparr>arg_control_server_name := Some v\<rparr>))"
  "map_of value_flags ''--control-config-signing-key'' = Some (\<lambda>v a. Inr (a\<lparr>arg_control_config_signing_key := Some v\<rparr>))"
  "map_of value_flags ''--flush-batch-size'' =
     Some (\<lambda>v a. res_bind (parse_positive_usize v) (\<lambda>n. Inr (a\<lparr>arg_flush_batch_size := n\<rparr>)))"
  "map_of value_flags ''--flush-interval-ms'' =
     Some (\<lambda>v a. res_bind (parse_positive_u64 v) (\<lambda>n. Inr (a\<lparr>arg_flush_interval_ms := n\<rparr>)))"
  "map_of value_flags ''--control-heartbeat-interval-ms'' =
     Some (\<lambda>v a. res_bind (parse_positive_u64 v) (\<lambda>n. Inr (a\<lparr>arg_control_heartbeat_interval_ms := n\<rparr>)))"
  "map_of value_flags ''--shutdown-drain-timeout-ms'' =
     Some (\<lambda>v a. res_bind (parse_positive_u64 v) (\<lambda>n. Inr (a\<lparr>arg_shutdown_drain_timeout_ms := n\<rparr>)))"
  by (simp_all add: value_flags_def)

lemma switch_flag_of:
  "map_of value_flags ''--self-test'' = None" "map_of switch_flags ''--self-test'' = Some (\<lambda>a. a\<lparr>arg_self_test := True\<rparr>)"
  "map_of value_flags ''--check-config'' = None" "map_of switch_flags ''--check-config'' = Some (\<lambda>a. a\<lparr>arg_check_config := True\<rparr>)"
  "map_of value_flags ''--help'' = None" "map_of switch_flags ''--help'' = Some (\<lambda>a. a\<lparr>arg_help := True\<rparr>)"
  by (simp_all add: value_flags_def switch_flags_def)

text \<open>Giving an option leaves it with the value wanted, whether it is given or inherited.\<close>

lemma parse_opt_set:
  assumes "map_of value_flags flag = Some (\<lambda>v a. Inr (upd (\<lambda>_. Some v) a))" and "v = None \<Longrightarrow> upd (\<lambda>_. None) a = a"
  shows "parse_values (show_opt flag v @ rest) a = parse_values rest (upd (\<lambda>_. v) a)"
  using assms by (simp add: parse_opt [OF assms(1)] split: option.splits)

lemma parse_number_set:
  assumes "map_of value_flags flag = Some (\<lambda>v a. res_bind (p v) (\<lambda>n. Inr (upd (\<lambda>_. n) a)))" and "p (show_nat n) = Inr n"
  shows "parse_values (show_opt flag (Some (show_nat n)) @ rest) a = parse_values rest (upd (\<lambda>_. n) a)"
  using assms by (simp add: parse_opt [OF assms(1)])

lemma show_args_front:
  assumes "numbers_ok a" and "from_env env a"
  shows "parse_values (show_args a) (initial_args env) = Inr a"
proof -
  have n: "parse_positive_usize (show_nat (arg_flush_batch_size a)) = Inr (arg_flush_batch_size a)"
    "parse_positive_u64 (show_nat (arg_flush_interval_ms a)) = Inr (arg_flush_interval_ms a)"
    "parse_positive_u64 (show_nat (arg_control_heartbeat_interval_ms a)) = Inr (arg_control_heartbeat_interval_ms a)"
    "parse_positive_u64 (show_nat (arg_shutdown_drain_timeout_ms a)) = Inr (arg_shutdown_drain_timeout_ms a)"
    using assms(1) parse_positive_show by (auto simp: numbers_ok_def)
  have sw: "parse_values (show_switch ''--help'' (arg_help a)) b = Inr (if arg_help a then b\<lparr>arg_help := True\<rparr> else b)" for b
    using parse_switch [OF switch_flag_of(5,6), of "arg_help a" "[]" b] by simp
  note opt = value_flag_of(1,2,4-15) [THEN parse_opt_set]
  show ?thesis
    using assms(2)
    by (simp add: show_args_def opt parse_opt [OF value_flag_of(3)] value_flag_of(16-19) [THEN parse_number_set] n
        parse_switch [OF switch_flag_of(1,2)] parse_switch [OF switch_flag_of(3,4)] sw initial_args_def from_env_def)
qed

text \<open>Property C16 (args_exact). The arguments that some command line gives are exactly the well-formed ones: sizes and
  intervals are positive and within range, at most one receiver is asked for, and a setting of the
  environment can be replaced by a flag but not removed. So whatever the process needs can be said on
  the command line, and nothing else gets past the parser.\<close>

theorem args_exact: "(\<exists>values. parse_args env values = Inr a) \<longleftrightarrow> args_ok a \<and> from_env env a"
proof
  assume "\<exists>values. parse_args env values = Inr a"
  then obtain vs where "parse_values vs (initial_args env) = Inr a" and "arg_otlp_grpc a = None \<or> arg_otlp_http a = None"
    by (auto simp: parse_args_def res_bind_Inr_iff Let_def split: if_splits)
  moreover have "numbers_ok (initial_args env)" "from_env env (initial_args env)"
    by (simp_all add: initial_args_def numbers_ok_def from_env_def in_range_def)
  ultimately show "args_ok a \<and> from_env env a"
    using parse_values_keeps [of vs "initial_args env" a env] by (simp add: args_ok_def numbers_ok_def)
next
  assume ok: "args_ok a \<and> from_env env a"
  then have "parse_values (show_args a) (initial_args env) = Inr a"
    by (intro show_args_front) (simp_all add: args_ok_def numbers_ok_def)
  then have "parse_args env (show_args a) = Inr a" using ok by (auto simp: parse_args_def Let_def args_ok_def)
  then show "\<exists>values. parse_args env values = Inr a" by blast
qed

end
