(* ===== verification/Agent_Startup.thy ===== *)
theory Agent_Startup
  imports Agent_Args Shared_Flush
begin

text \<open>
  What holds when the process starts to serve: a valid pipeline, a receiver that the command line or the
  configuration asked for, and a runtime in the state from which the shared flush is proved correct.
\<close>

section \<open>The pipeline that the arguments give\<close>

lemma default_config_valid: "config_ok default_config"
  unfolding validate_config_iff [symmetric] by code_simp

lemma load_valid: "load_pipeline_config rd from_yaml path = Inr cfg \<Longrightarrow> config_ok cfg"
  by (auto simp: load_pipeline_config_def parse_pipeline_config_def res_bind_Inr_iff into_pipeline_config_def Let_def
      validate_config_iff split: if_splits)

lemma upstream_names:
  "map exp_name (upstream_exporters endpoint) = [''otlp-upstream'', ''stdout'']"
  "\<forall>e \<in> set (upstream_exporters endpoint). exp_retry e = retry_default"
  by (simp_all add: upstream_exporters_def)

lemma build_valid: "build_pipeline_config rd from_yaml a = Inr cfg \<Longrightarrow> validate_config cfg = Inr ()"
  by (auto simp: build_pipeline_config_def res_bind_Inr_iff Let_def)

text \<open>A valid pipeline has a receiver, and every receiver protocol is one that the process can serve.\<close>

lemma receiver_found:
  assumes "validate_config (rt_config rt) = Inr ()"
  shows "\<exists>m. choose_receiver_mode a rt = Inr m"
proof -
  obtain r where r: "r \<in> set (receivers (rt_config rt))"
    using assms by (cases "receivers (rt_config rt)") (auto simp: validate_config_iff config_ok_def)
  then have "find (\<lambda>r. rcv_protocol r = ReceiverOtlpHttp) (receivers (rt_config rt)) \<noteq> None"
    if "find (\<lambda>r. rcv_protocol r = ReceiverOtlpGrpc) (receivers (rt_config rt)) = None"
    using that by (cases "rcv_protocol r") (auto simp: find_None_iff)
  then show ?thesis by (auto simp: choose_receiver_mode_def split: option.splits)
qed

definition mode_of :: "args \<Rightarrow> pipeline_config \<Rightarrow> receiver_mode \<Rightarrow> bool" where
  "mode_of a cfg m \<longleftrightarrow>
     (case m of
        ServeOtlpGrpc bind \<Rightarrow> arg_otlp_grpc a = Some bind \<or> arg_otlp_grpc a = None \<and> arg_otlp_http a = None \<and>
          (\<exists>r \<in> set (receivers cfg). rcv_protocol r = ReceiverOtlpGrpc \<and> rcv_endpoint r = bind)
      | ServeOtlpHttp bind tls \<Rightarrow> arg_otlp_grpc a = None \<and>
          (arg_otlp_http a = Some bind \<and> tls = tls_disabled \<or> arg_otlp_http a = None \<and>
           (\<exists>r \<in> set (receivers cfg). rcv_protocol r = ReceiverOtlpHttp \<and> rcv_endpoint r = bind \<and> rcv_tls r = tls)))"

lemma find_SomeD: "find P xs = Some x \<Longrightarrow> x \<in> set xs \<and> P x"
  by (auto simp: find_Some_iff)

lemma choose_mode_of: "choose_receiver_mode a rt = Inr (Some m) \<Longrightarrow> mode_of a (rt_config rt) m"
  by (auto simp: choose_receiver_mode_def mode_of_def dest!: find_SomeD split: option.splits if_splits)

section \<open>Opening the runtime\<close>

lemma runtime_open_sound:
  assumes "sound_queue q" and "builds_all build" and "runtime_open build cfg opts (dir q) = (Inr rt, d)"
  shows "rt_config rt = cfg \<and> sound_queue (rt_queue rt) \<and> pending (rt_queue rt) = pending q \<and>
    dom (rt_exporters rt) = exporter_names cfg \<and> \<not> exports_paused rt \<and> \<not> flush_in_progress rt \<and>
    rt_processors rt = chain_from_config cfg \<and> metrics rt = default_metrics"
proof -
  obtain q' where q': "reopen opts q = Inr q'" "sound_queue q'" "pending q' = pending q"
    using sound_reopen [OF assms(1)] by blast
  obtain d1 where "disk_queue_open opts (dir q) = (Inr q', d1)"
    using q'(1) by (cases "disk_queue_open opts (dir q)") (simp add: reopen_def)
  then obtain es where "build (exporters cfg) = Inr es" and
    rt: "rt = \<lparr>rt_config = cfg, rt_queue = q', rt_processors = chain_from_config cfg, rt_exporters = es,
      metrics = default_metrics, exports_paused = False, config_generation = 0, flush_in_progress = False\<rparr>"
    using assms(3) by (auto simp: runtime_open_def bind_act_Inr_iff map_err_act_def lift_res_def ok_act_def)
  then have "dom es = exporter_names cfg" using assms(2) by (simp add: builds_all_def exporter_names_def)
  then show ?thesis using q'(2,3) by (simp add: rt)
qed

section \<open>Serving\<close>

lemma run_serving:
  assumes "run s values d = (Inr (Serving m st), d')"
  obtains a cfg rt d1 where "parse_args (env_vars s) values = Inr a"
    and "build_pipeline_config (file_text s) (yaml_config s) a = Inr cfg"
    and "runtime_open (exporter_factory s) cfg default_disk_queue_options d = (Inr rt, d1)"
    and "connect_control (env_vars s) (pkg_version s) a rt = Inr (start_control st)"
    and "choose_receiver_mode a rt = Inr (Some m)" and "start_runtime st = rt" and "start_health st = arg_health_listen a"
proof -
  obtain a where a: "parse_args (env_vars s) values = Inr a" "\<not> arg_help a"
    using assms by (cases "parse_args (env_vars s) values") (auto simp: run_def ok_act_def split: if_splits)
  then obtain cfg where cfg: "build_pipeline_config (file_text s) (yaml_config s) a = Inr cfg" "\<not> arg_check_config a"
    using assms build_valid
    by (cases "build_pipeline_config (file_text s) (yaml_config s) a") (auto simp: run_def ok_act_def split: if_splits)
  then obtain rt d1 where rt: "runtime_open (exporter_factory s) cfg default_disk_queue_options d = (Inr rt, d1)"
    using assms a build_valid [OF cfg(1)]
    by (cases "runtime_open (exporter_factory s) cfg default_disk_queue_options d"; cases "fst (runtime_open (exporter_factory s) cfg default_disk_queue_options d)")
      (auto simp: run_def bind_act_def map_err_act_def)
  then obtain result rt' where o: "run_opened s a rt = (Inr result, rt')" "result rt' = Serving m st"
    using assms a cfg build_valid [OF cfg(1)]
    by (cases "run_opened s a rt"; cases "fst (run_opened s a rt)") (auto simp: run_def bind_act_def map_err_act_def)
  have "\<not> arg_self_test a"
    using o by (auto simp: run_opened_def seq_act_Inr_iff ok_act_def)
  with o obtain c where "connect_control (env_vars s) (pkg_version s) a rt = Inr c" "choose_receiver_mode a rt = Inr (Some m)"
    "st = \<lparr>start_runtime = rt, start_health = arg_health_listen a, start_control = c\<rparr>"
    by (auto simp: run_opened_def bind_act_Inr_iff seq_act_Inr_iff lift_res_def ok_act_def Let_def split: option.splits)
  with that [OF a(1) cfg(1) rt] show thesis by simp
qed

text \<open>Property C14 (serving_start). When the process starts to serve on the directory of a sound queue, it runs the pipeline
  that its command line describes and that pipeline is valid; the receiver is the one asked for; the
  payloads queued by an earlier process are all there, in order; there is an exporter for each
  configured name; and no flush is in progress: the state from which the shared flush is proved exact.\<close>

theorem serving_start:
  assumes "sound_queue q" and "builds_all (exporter_factory s)" and "run s values (dir q) = (Inr (Serving m st), d)"
  shows "\<exists>a. parse_args (env_vars s) values = Inr a \<and>
      build_pipeline_config (file_text s) (yaml_config s) a = Inr (rt_config (start_runtime st)) \<and>
      config_ok (rt_config (start_runtime st)) \<and> mode_of a (rt_config (start_runtime st)) m \<and>
      sound_queue (rt_queue (start_runtime st)) \<and> pending (rt_queue (start_runtime st)) = pending q \<and>
      dom (rt_exporters (start_runtime st)) = exporter_names (rt_config (start_runtime st)) \<and>
      \<not> exports_paused (start_runtime st) \<and> \<not> flush_in_progress (start_runtime st) \<and>
      metrics (start_runtime st) = default_metrics"
proof -
  obtain a cfg rt d1 where r: "parse_args (env_vars s) values = Inr a"
    "build_pipeline_config (file_text s) (yaml_config s) a = Inr cfg"
    "runtime_open (exporter_factory s) cfg default_disk_queue_options (dir q) = (Inr rt, d1)"
    "choose_receiver_mode a rt = Inr (Some m)" "start_runtime st = rt"
    by (rule run_serving [OF assms(3)]) blast
  from runtime_open_sound [OF assms(1,2) r(3)] r build_valid [OF r(2)] choose_mode_of [OF r(4)]
  show ?thesis by (auto simp: validate_config_iff)
qed

definition unit_exporters :: "unit build_fn" where
  "unit_exporters cs = Inr (map_of (map (\<lambda>c. (exp_name c, ())) cs))"

definition sample_surroundings :: "unit surroundings" where
  "sample_surroundings =
     \<lparr>env_vars = (\<lambda>_. None), pkg_version = ''0.1.0'', file_text = (\<lambda>_. Inl ''not found''),
      yaml_config = (\<lambda>_. Inl ''not yaml''), io_text = (\<lambda>_. ''error''), exporter_factory = unit_exporters,
      export_call = (\<lambda>batch x. (Exported \<lparr>report_records = length batch, report_bytes = 0\<rparr>, x)),
      start_clock = (\<lambda>_ _. 0), wall_clock = 7\<rparr>"

lemma unit_builds_all: "builds_all unit_exporters"
  by (simp add: builds_all_def unit_exporters_def dom_map_of_conv_image_fst image_image)

definition serves_on :: "(string + 'x run_outcome) \<times> disk \<Rightarrow> receiver_mode \<Rightarrow> bool" where
  "serves_on r m = (case r of (Inr (Serving m' _), _) \<Rightarrow> m' = m | _ \<Rightarrow> False)"

lemma serves_onD: "serves_on r m \<Longrightarrow> \<exists>st d. r = (Inr (Serving m st), d)"
  by (auto simp: serves_on_def split: sum.splits prod.splits run_outcome.splits)

theorem serving_start_witness:
  "\<exists>st d. run sample_surroundings [''--otlp-grpc'', ''[::]:4317''] (dir (fresh_queue default_disk_queue_options)) =
       (Inr (Serving (ServeOtlpGrpc ''[::]:4317'') st), d) \<and>
     pending (rt_queue (start_runtime st)) = [] \<and> config_ok (rt_config (start_runtime st)) \<and>
     \<not> flush_in_progress (start_runtime st)"
proof -
  let ?q = "fresh_queue default_disk_queue_options"
  have "serves_on (run sample_surroundings [''--otlp-grpc'', ''[::]:4317''] (dir ?q)) (ServeOtlpGrpc ''[::]:4317'')"
    by code_simp
  then obtain st d where r: "run sample_surroundings [''--otlp-grpc'', ''[::]:4317''] (dir ?q) =
      (Inr (Serving (ServeOtlpGrpc ''[::]:4317'') st), d)" using serves_onD by blast
  have "sound_queue ?q" using fresh_queue_ok by (simp add: sound_queue_def fresh_queue_def)
  moreover have "builds_all (exporter_factory sample_surroundings)" using unit_builds_all by (simp add: sample_surroundings_def)
  ultimately show ?thesis using serving_start [OF _ _ r] fresh_queue_ok(2) r by auto
qed

end
