(* ===== verification/Runtime_Metrics.thy ===== *)
theory Runtime_Metrics
  imports Runtime
begin

text \<open>
  The Prometheus text that the agent serves under \<^verbatim>\<open>/metrics\<close> (\<^verbatim>\<open>runtime.rs\<close>), and a reader of that format that
  gets every counter back.
\<close>

section \<open>Writing\<close>

definition write_metric :: "string \<Rightarrow> string \<Rightarrow> string \<Rightarrow> string \<Rightarrow> u64 \<Rightarrow> string" where
  "write_metric output name help kind val =
     (let output = output @ ''# HELP '' @ name @ '' '' @ help @ ''\<newline>'';
          output = output @ ''# TYPE '' @ name @ '' '' @ kind @ ''\<newline>''
      in output @ name @ '' '' @ show_nat val @ ''\<newline>'')"

definition write_counter :: "string \<Rightarrow> string \<Rightarrow> string \<Rightarrow> u64 \<Rightarrow> string" where
  "write_counter output name help val = write_metric output name help ''counter'' val"

definition write_gauge :: "string \<Rightarrow> string \<Rightarrow> string \<Rightarrow> u64 \<Rightarrow> string" where
  "write_gauge output name help val = write_metric output name help ''gauge'' val"

definition format_prometheus_metrics :: "runtime_health \<Rightarrow> runtime_metrics \<Rightarrow> string" where
  "format_prometheus_metrics h m =
     (let output = [];
      output = write_gauge output ''telemetry_agent_queue_bytes''
        ''Current durable queue size in bytes.'' (health_queued_bytes h);
      output = write_gauge output ''telemetry_agent_queue_cursor_segment_id''
        ''Current durable queue cursor segment id.'' (cursor_segment_id h);
      output = write_gauge output ''telemetry_agent_queue_cursor_offset_bytes''
        ''Current durable queue cursor offset in bytes.'' (cursor_offset h);
      output = write_gauge output ''telemetry_agent_exports_paused''
        ''Whether exporter flushing is paused by the control plane.'' (if health_exports_paused h then 1 else 0);
      output = write_counter output ''telemetry_agent_ingested_records_total''
        ''Records accepted into the durable queue.'' (ingested_records_total m);
      output = write_counter output ''telemetry_agent_ingest_rejected_records_total''
        ''Records rejected before durable queue enqueue.'' (ingest_rejected_records_total m);
      output = write_counter output ''telemetry_agent_flush_attempts_total''
        ''Flush attempts started by the runtime.'' (flush_attempts_total m);
      output = write_counter output ''telemetry_agent_flush_successes_total''
        ''Flush attempts that completed successfully.'' (flush_successes_total m);
      output = write_counter output ''telemetry_agent_flush_failures_total''
        ''Flush attempts that failed before committing the queue cursor.'' (flush_failures_total m);
      output = write_counter output ''telemetry_agent_drained_records_total''
        ''Records drained from the durable queue.'' (drained_records_total m);
      output = write_counter output ''telemetry_agent_exported_records_total''
        ''Records exported successfully.'' (exported_records_total m);
      output = write_counter output ''telemetry_agent_dropped_records_total''
        ''Records dropped by processors.'' (dropped_records_total m);
      output = write_counter output ''telemetry_agent_exported_bytes_total''
        ''Approximate bytes exported successfully.'' (exported_bytes_total m);
      output = write_counter output ''telemetry_agent_config_reloads_total''
        ''Control-plane config reloads applied successfully.'' (config_reloads_total m);
      output = write_counter output ''telemetry_agent_config_reload_failures_total''
        ''Control-plane config reloads that failed validation or runtime application.'' (config_reload_failures_total m);
      output = write_counter output ''telemetry_agent_control_registrations_total''
        ''Successful control-plane registrations.'' (control_registrations_total m);
      output = write_counter output ''telemetry_agent_control_registration_failures_total''
        ''Failed control-plane registration attempts.'' (control_registration_failures_total m);
      output = write_counter output ''telemetry_agent_control_heartbeats_total''
        ''Successful control-plane heartbeat calls.'' (control_heartbeats_total m);
      output = write_counter output ''telemetry_agent_control_heartbeat_failures_total''
        ''Failed control-plane heartbeat calls.'' (control_heartbeat_failures_total m);
      output = write_counter output ''telemetry_agent_control_config_fetches_total''
        ''Successful control-plane config fetch calls.'' (control_config_fetches_total m);
      output = write_counter output ''telemetry_agent_control_config_fetch_failures_total''
        ''Failed control-plane config fetch calls.'' (control_config_fetch_failures_total m)
      in output)"

definition prometheus_metrics :: "'x agent_runtime \<Rightarrow> string" where
  "prometheus_metrics rt = format_prometheus_metrics (health rt) (metrics rt)"

section \<open>Reading\<close>

text \<open>A scraper: lines, without comments, as a name and a number.\<close>

function split_lines :: "string \<Rightarrow> string list" where
  "split_lines s =
     (case dropWhile (\<lambda>c. c \<noteq> CHR ''\<newline>'') s of
        [] \<Rightarrow> if s = [] then [] else [s]
      | _ # rest \<Rightarrow> takeWhile (\<lambda>c. c \<noteq> CHR ''\<newline>'') s # split_lines rest)"
  by pat_completeness auto
termination
  by (relation "measure length") (auto, metis length_Cons length_dropWhile_le less_eq_Suc_le)

declare split_lines.simps [simp del]

definition scrape_line :: "string \<Rightarrow> string \<times> u64 option" where
  "scrape_line l = (takeWhile (\<lambda>c. c \<noteq> CHR '' '') l, parse_u64 (tl (dropWhile (\<lambda>c. c \<noteq> CHR '' '') l)))"

definition scrape :: "string \<Rightarrow> (string \<times> u64 option) list" where
  "scrape s = map scrape_line (filter (\<lambda>l. l \<noteq> [] \<and> hd l \<noteq> CHR ''#'') (split_lines s))"

text \<open>The metrics of the agent: name, help text, kind and value.\<close>

type_synonym family = "string \<times> string \<times> string \<times> u64"

definition families :: "runtime_health \<Rightarrow> runtime_metrics \<Rightarrow> family list" where
  "families h m =
     [(''telemetry_agent_queue_bytes'', ''Current durable queue size in bytes.'', ''gauge'', (health_queued_bytes h)),
      (''telemetry_agent_queue_cursor_segment_id'', ''Current durable queue cursor segment id.'', ''gauge'', (cursor_segment_id h)),
      (''telemetry_agent_queue_cursor_offset_bytes'', ''Current durable queue cursor offset in bytes.'', ''gauge'', (cursor_offset h)),
      (''telemetry_agent_exports_paused'', ''Whether exporter flushing is paused by the control plane.'', ''gauge'', (if health_exports_paused h then 1 else 0)),
      (''telemetry_agent_ingested_records_total'', ''Records accepted into the durable queue.'', ''counter'', (ingested_records_total m)),
      (''telemetry_agent_ingest_rejected_records_total'', ''Records rejected before durable queue enqueue.'', ''counter'', (ingest_rejected_records_total m)),
      (''telemetry_agent_flush_attempts_total'', ''Flush attempts started by the runtime.'', ''counter'', (flush_attempts_total m)),
      (''telemetry_agent_flush_successes_total'', ''Flush attempts that completed successfully.'', ''counter'', (flush_successes_total m)),
      (''telemetry_agent_flush_failures_total'', ''Flush attempts that failed before committing the queue cursor.'', ''counter'', (flush_failures_total m)),
      (''telemetry_agent_drained_records_total'', ''Records drained from the durable queue.'', ''counter'', (drained_records_total m)),
      (''telemetry_agent_exported_records_total'', ''Records exported successfully.'', ''counter'', (exported_records_total m)),
      (''telemetry_agent_dropped_records_total'', ''Records dropped by processors.'', ''counter'', (dropped_records_total m)),
      (''telemetry_agent_exported_bytes_total'', ''Approximate bytes exported successfully.'', ''counter'', (exported_bytes_total m)),
      (''telemetry_agent_config_reloads_total'', ''Control-plane config reloads applied successfully.'', ''counter'', (config_reloads_total m)),
      (''telemetry_agent_config_reload_failures_total'', ''Control-plane config reloads that failed validation or runtime application.'', ''counter'', (config_reload_failures_total m)),
      (''telemetry_agent_control_registrations_total'', ''Successful control-plane registrations.'', ''counter'', (control_registrations_total m)),
      (''telemetry_agent_control_registration_failures_total'', ''Failed control-plane registration attempts.'', ''counter'', (control_registration_failures_total m)),
      (''telemetry_agent_control_heartbeats_total'', ''Successful control-plane heartbeat calls.'', ''counter'', (control_heartbeats_total m)),
      (''telemetry_agent_control_heartbeat_failures_total'', ''Failed control-plane heartbeat calls.'', ''counter'', (control_heartbeat_failures_total m)),
      (''telemetry_agent_control_config_fetches_total'', ''Successful control-plane config fetch calls.'', ''counter'', (control_config_fetches_total m)),
      (''telemetry_agent_control_config_fetch_failures_total'', ''Failed control-plane config fetch calls.'', ''counter'', (control_config_fetch_failures_total m))]"

definition render :: "family \<Rightarrow> string" where
  "render f = (case f of (name, help, kind, val) \<Rightarrow> write_metric [] name help kind val)"

definition plain_family :: "family \<Rightarrow> bool" where
  "plain_family f = (case f of (name, help, kind, val) \<Rightarrow>
     name \<noteq> [] \<and> hd name \<noteq> CHR ''#'' \<and> list_all (\<lambda>c. c \<noteq> CHR '' '' \<and> c \<noteq> CHR ''\<newline>'') name \<and>
     list_all (\<lambda>c. c \<noteq> CHR ''\<newline>'') help \<and> list_all (\<lambda>c. c \<noteq> CHR ''\<newline>'') kind)"

lemma write_metric_append: "write_metric output name help kind val = output @ render (name, help, kind, val)"
  by (simp add: write_metric_def render_def Let_def)

lemma format_families: "format_prometheus_metrics h m = concat (map render (families h m))"
  by (simp add: format_prometheus_metrics_def families_def write_gauge_def write_counter_def write_metric_append Let_def)

lemma families_plain: "list_all plain_family (families h m)"
  by (simp add: families_def plain_family_def)

lemma split_lines_line: "CHR ''\<newline>'' \<notin> set l \<Longrightarrow> split_lines (l @ CHR ''\<newline>'' # rest) = l # split_lines rest"
proof -
  assume l: "CHR ''\<newline>'' \<notin> set l"
  have "dropWhile (\<lambda>c. c \<noteq> CHR ''\<newline>'') (l @ CHR ''\<newline>'' # rest) = CHR ''\<newline>'' # rest"
    by (subst dropWhile_append2) (use l in auto)
  moreover have "takeWhile (\<lambda>c. c \<noteq> CHR ''\<newline>'') (l @ CHR ''\<newline>'' # rest) = l"
    by (subst takeWhile_append2) (use l in auto)
  ultimately show ?thesis by (subst split_lines.simps) simp
qed

lemma show_nat_no_newline: "CHR ''\<newline>'' \<notin> set (show_nat n)"
  using show_nat_plain [of n] by (auto simp: plain_char_def list_all_iff ascii_ws_def)

lemma scrape_render:
  assumes "plain_family (name, help, kind, val)" and "val \<le> u64_max"
  shows "scrape (render (name, help, kind, val) @ rest) = (name, Some val) # scrape rest"
proof -
  have n: "CHR ''\<newline>'' \<notin> set name" "CHR '' '' \<notin> set name" "CHR ''\<newline>'' \<notin> set help" "CHR ''\<newline>'' \<notin> set kind" "name \<noteq> []" "hd name \<noteq> CHR ''#''"
    using assms(1) by (auto simp: plain_family_def list_all_iff)
  have "split_lines (render (name, help, kind, val) @ rest) =
      (''# HELP '' @ name @ '' '' @ help) # (''# TYPE '' @ name @ '' '' @ kind) # (name @ '' '' @ show_nat val) # split_lines rest"
    using n show_nat_no_newline [of val]
      split_lines_line [of "''# HELP '' @ name @ '' '' @ help"] split_lines_line [of "''# TYPE '' @ name @ '' '' @ kind"]
      split_lines_line [of "name @ '' '' @ show_nat val"]
    by (simp add: render_def write_metric_def Let_def)
  moreover have "scrape_line (name @ '' '' @ show_nat val) = (name, Some val)"
    using n(2) assms(2) parse_show_nat [of val u64_max]
    by (simp add: scrape_line_def dropWhile_append takeWhile_append)
  ultimately show ?thesis using n(5,6) by (simp add: scrape_def)
qed

lemma scrape_families:
  "list_all plain_family fs \<Longrightarrow> list_all (\<lambda>(_, _, _, v). v \<le> u64_max) fs \<Longrightarrow>
   scrape (concat (map render fs)) = map (\<lambda>(n, _, _, v). (n, Some v)) fs"
proof (induction fs)
  case Nil
  then show ?case by (simp add: scrape_def split_lines.simps)
next
  case (Cons f fs)
  then show ?case by (cases f) (simp add: scrape_render)
qed

section \<open>Property\<close>

text \<open>A scraper that reads the text under \<^verbatim>\<open>/metrics\<close> gets every gauge and counter of the runtime, under
  its name and with its exact value, and nothing else.\<close>

theorem metrics_scrape:
  assumes "list_all (\<lambda>(_, _, _, v). v \<le> u64_max) (families (health rt) (metrics rt))"
  shows "scrape (prometheus_metrics rt) = map (\<lambda>(n, _, _, v). (n, Some v)) (families (health rt) (metrics rt))"
  by (simp add: prometheus_metrics_def format_families scrape_families families_plain assms)

theorem metrics_scrape_witness:
  "scrape (format_prometheus_metrics
      \<lparr>health_queued_bytes = 43, cursor_segment_id = 1, cursor_offset = 0, health_exports_paused = True\<rparr> default_metrics) ! 3 =
   (''telemetry_agent_exports_paused'', Some 1)"
proof -
  define rt :: "unit agent_runtime" where "rt =
     \<lparr>rt_config = default_config,
      rt_queue = (fresh_queue default_disk_queue_options)\<lparr>queued_bytes := 43\<rparr>, rt_processors = chain_from_config default_config,
      rt_exporters = Map.empty, metrics = default_metrics, exports_paused = True, config_generation = 0, flush_in_progress = False\<rparr>"
  have h: "health rt = \<lparr>health_queued_bytes = 43, cursor_segment_id = 1, cursor_offset = 0, health_exports_paused = True\<rparr>"
    by (simp add: rt_def health_def cursor_position_def fresh_queue_def)
  have m: "metrics rt = default_metrics" by (simp add: rt_def)
  have "list_all (\<lambda>(_, _, _, v). v \<le> u64_max) (families (health rt) (metrics rt))"
    unfolding h m by (simp add: families_def default_metrics_def)
  from metrics_scrape [OF this] show ?thesis
    unfolding h m prometheus_metrics_def by (simp add: families_def)
qed

end
