(* ===== verification/Agent_Control.thy ===== *)
theory Agent_Control
  imports Agent_Startup Runtime_Metrics
begin

text \<open>
  The workers of the agent process (\<^verbatim>\<open>crates/telemetry-agent/src/main.rs\<close>): the control worker with its
  commands, the drain before a restart, the drain at shutdown, and the health endpoint.

  The control plane is a function from the number of the call to the network as that call finds it.
  Each tick of the worker is described with no other task in between; how flushes, ingest and reloads
  interleave is the subject of \<open>Shared_Flush\<close>. A flush that waits for another one gives \<open>None\<close>.
\<close>

section \<open>Health endpoint\<close>

definition parse_request_path :: "string \<Rightarrow> string option" where
  "parse_request_path request =
     Option.bind (first_line request) (\<lambda>line.
       case split_whitespace line of _ # path # _ \<Rightarrow> Some path | _ \<Rightarrow> None)"

definition unhealthy :: "string \<Rightarrow> string \<times> string \<times> string" where
  "unhealthy err =
     (''503 Service Unavailable'', ''application/json'',
      ''{'' @ quoted ''status'' @ '':'' @ quoted ''unhealthy'' @ '','' @ quoted ''error'' @ '':'' @
      quoted (health_json_escape err) @ ''}'')"

definition health_ok_body :: "runtime_health \<Rightarrow> string" where
  "health_ok_body h =
     ''{'' @ quoted ''status'' @ '':'' @ quoted ''ok'' @ '','' @
     quoted ''queued_bytes'' @ '':'' @ show_nat (health_queued_bytes h) @ '','' @
     quoted ''cursor_segment_id'' @ '':'' @ show_nat (cursor_segment_id h) @ '','' @
     quoted ''cursor_offset'' @ '':'' @ show_nat (cursor_offset h) @ '','' @
     quoted ''exports_paused'' @ '':'' @ json_bool (health_exports_paused h) @ ''}''"

text \<open>
  The answer, from the path that was read and from what \<^verbatim>\<open>prometheus_metrics\<close> and \<^verbatim>\<open>health\<close> return; both
  have an error in their type.
\<close>

definition health_answer ::
  "(io_error \<Rightarrow> string) \<Rightarrow> string option \<Rightarrow> disk_queue_error + string \<Rightarrow> disk_queue_error + runtime_health \<Rightarrow>
   string \<times> string \<times> string" where
  "health_answer show_io path metrics_result health_result =
     (if unwrap_or path ''/'' = ''/metrics'' then
        (case metrics_result of
           Inr text \<Rightarrow> (''200 OK'', ''text/plain; version=0.0.4'', text)
         | Inl err \<Rightarrow> unhealthy (show_disk_queue_error show_io err))
      else
        (case health_result of
           Inr h \<Rightarrow> (''200 OK'', ''application/json'', health_ok_body h)
         | Inl err \<Rightarrow> unhealthy (show_disk_queue_error show_io err)))"

definition handle_health :: "(io_error \<Rightarrow> string) \<Rightarrow> string option \<Rightarrow> 'x agent_runtime \<Rightarrow> string" where
  "handle_health show_io path rt =
     (case health_answer show_io path (Inr (prometheus_metrics rt)) (Inr (health rt)) of
        (status, content_type, body_text) \<Rightarrow>
          ''HTTP/1.1 '' @ status @ crlf @ ''Content-Type: '' @ content_type @ crlf @
          ''Content-Length: '' @ show_nat (length body_text) @ crlf @ ''Connection: close'' @ crlf @ crlf @ body_text)"

section \<open>The control worker\<close>

text \<open>
  The state of the worker: the runtime that it shares, its two variables, the number of calls made so
  far, and, for the account, the acknowledgements it sent.
\<close>

record 'x control_state =
  cs_runtime :: "'x agent_runtime"
  registered :: bool
  applied_config_version :: u64
  cs_calls :: nat
  acks :: "(string \<times> bool \<times> string option) list"

text \<open>What surrounds the worker; \<open>drain_clock\<close> gives the instants that the flushes of a drain read.\<close>

record ('x, 'v) control_plane =
  plane :: "nat \<Rightarrow> network"
  values_of :: "'v value_api"
  yaml_pipeline :: "string \<Rightarrow> string + file_pipeline_config"
  make_exporters :: "'x build_fn"
  export_to :: "'x export_fn"
  drain_clock :: "nat \<Rightarrow> nat \<Rightarrow> batch_clock"
  io_message :: "io_error \<Rightarrow> string"

definition call_plane ::
  "('x, 'v) control_plane \<Rightarrow> (network \<Rightarrow> 'a) \<Rightarrow> 'x control_state \<Rightarrow> 'a \<times> 'x control_state" where
  "call_plane p f s = (f (plane p (cs_calls s)), s\<lparr>cs_calls := Suc (cs_calls s)\<rparr>)"

definition on_runtime :: "('x agent_runtime \<Rightarrow> 'x agent_runtime) \<Rightarrow> 'x control_state \<Rightarrow> 'x control_state" where
  "on_runtime f s = s\<lparr>cs_runtime := f (cs_runtime s)\<rparr>"

definition ack_if_delivered ::
  "('x, 'v) control_plane \<Rightarrow> control_client \<Rightarrow> control_command \<Rightarrow> bool \<Rightarrow> string option \<Rightarrow>
   'x control_state \<Rightarrow> 'x control_state" where
  "ack_if_delivered p cl command success err s =
     (if command_status command \<noteq> Delivered then s
      else
        (case call_plane p (\<lambda>net. ack_command net (values_of p) cl (command_id command) success err) s of
           (_, s') \<Rightarrow> s'\<lparr>acks := acks s' @ [(command_id command, success, err)]\<rparr>))"

definition fetch_and_apply_config ::
  "('x, 'v) control_plane \<Rightarrow> control_client \<Rightarrow> u64 \<Rightarrow> ('x control_state, string, config_update option) act" where
  "fetch_and_apply_config p cl current s =
     (case call_plane p (\<lambda>net. fetch_config_update net (values_of p) cl current) s of
        (Inl err, s1) \<Rightarrow> (Inl err, on_runtime (record_control_config_fetch False) s1)
      | (Inr upd, s1) \<Rightarrow>
          let s2 = on_runtime (record_control_config_fetch True) s1 in
          (case upd of
             None \<Rightarrow> (Inr None, s2)
           | Some upd \<Rightarrow>
               (case client_validate_config_update (yaml_pipeline p) cl upd of
                  Inl err \<Rightarrow> (Inl err, s2)
                | Inr cfg \<Rightarrow>
                    (case reload_config (make_exporters p) cfg (cs_runtime s2) of
                       (Inl err, rt) \<Rightarrow> (Inl (show_agent_error (io_message p) err), s2\<lparr>cs_runtime := rt\<rparr>)
                     | (Inr _, rt) \<Rightarrow> (Inr (Some upd), s2\<lparr>cs_runtime := rt\<rparr>)))))"

text \<open>The loop of \<^verbatim>\<open>drain_and_exit\<close>: it ends with the error of a flush, or when a flush found nothing. No other task has a turn in between
  here; \<open>drain_step\<close> of \<^verbatim>\<open>Agent_Drain\<close> is the loop among the other tasks.\<close>

partial_function (option) drain_rounds ::
  "'x export_fn \<Rightarrow> (nat \<Rightarrow> batch_clock) \<Rightarrow> usize \<Rightarrow> nat \<Rightarrow> 'x agent_runtime \<Rightarrow>
   ((disk_queue_error + unit) \<times> 'x agent_runtime) option" where
  "drain_rounds export clocks n k rt =
     Option.bind (flush_for_shutdown_shared export (clocks k) n rt) (\<lambda>(result, rt').
       case result of
         Inl err \<Rightarrow> Some (Inl err, rt')
       | Inr report \<Rightarrow>
           if drained_records report = 0 then Some (Inr (), rt')
           else drain_rounds export clocks n (Suc k) rt')"

declare drain_rounds.simps [code]

text \<open>\<^verbatim>\<open>drain_and_exit\<close> itself; \<open>Inr ()\<close> is \<^verbatim>\<open>std::process::exit(0)\<close>. The acknowledgement is awaited before the exit, and what receivers ingest
  meanwhile is no part of this definition.\<close>

definition drain_and_exit ::
  "('x, 'v) control_plane \<Rightarrow> usize \<Rightarrow> control_client \<Rightarrow> control_command \<Rightarrow> 'x control_state \<Rightarrow>
   ((string + unit) \<times> 'x control_state) option" where
  "drain_and_exit p n cl command s =
     map_option (\<lambda>(result, rt).
       let s1 = s\<lparr>cs_runtime := rt\<rparr> in
       case result of
         Inl err \<Rightarrow> (Inl (show_disk_queue_error (io_message p) err), s1)
       | Inr _ \<Rightarrow> (Inr (), ack_if_delivered p cl command True None s1))
     (drain_rounds (export_to p) (drain_clock p (cs_calls s)) n 0 (cs_runtime s))"

text \<open>One command; the flag says that the process has exited.\<close>

definition run_command ::
  "('x, 'v) control_plane \<Rightarrow> usize \<Rightarrow> control_client \<Rightarrow> control_command \<Rightarrow> 'x control_state \<Rightarrow>
   (bool \<times> 'x control_state) option" where
  "run_command p n cl command s =
     (case command_kind command of
        ReloadConfig \<Rightarrow>
          (case fetch_and_apply_config p cl (applied_config_version s) s of
             (Inr (Some upd), s1) \<Rightarrow>
               Some (False, ack_if_delivered p cl command True None (s1\<lparr>applied_config_version := update_version upd\<rparr>))
           | (Inr None, s1) \<Rightarrow> Some (False, ack_if_delivered p cl command True None s1)
           | (Inl message, s1) \<Rightarrow> Some (False, ack_if_delivered p cl command False (Some message) s1))
      | DrainAndRestart \<Rightarrow>
          map_option (\<lambda>(result, s1).
            case result of
              Inr _ \<Rightarrow> (True, s1)
            | Inl message \<Rightarrow> (False, ack_if_delivered p cl command False (Some message) s1))
          (drain_and_exit p n cl command s)
      | PauseExports \<Rightarrow> Some (False, ack_if_delivered p cl command True None (on_runtime pause_exports s))
      | ResumeExports \<Rightarrow> Some (False, ack_if_delivered p cl command True None (on_runtime resume_exports s))
      | UnknownCommand \<Rightarrow> Some (False, ack_if_delivered p cl command False (Some ''unknown control command'') s))"

fun run_commands ::
  "('x, 'v) control_plane \<Rightarrow> usize \<Rightarrow> control_client \<Rightarrow> control_command list \<Rightarrow> 'x control_state \<Rightarrow>
   (bool \<times> 'x control_state) option" where
  "run_commands p n cl [] s = Some (False, s)"
| "run_commands p n cl (c # cs) s =
     (case run_command p n cl c s of
        None \<Rightarrow> None
      | Some (exited, s1) \<Rightarrow> if exited then Some (True, s1) else run_commands p n cl cs s1)"

text \<open>Registration, until it is accepted; the flag says whether the tick goes on.\<close>

definition try_register ::
  "('x, 'v) control_plane \<Rightarrow> control_client \<Rightarrow> 'x control_state \<Rightarrow> bool \<times> 'x control_state" where
  "try_register p cl s =
     (if registered s then (True, s)
      else
        (case call_plane p (\<lambda>net. register net (values_of p) cl) s of
           (Inr response, s1) \<Rightarrow>
             if accepted_registration response
             then (True, on_runtime (record_control_registration True) (s1\<lparr>registered := True\<rparr>))
             else (False, on_runtime (record_control_registration False) s1)
         | (Inl err, s1) \<Rightarrow> (False, on_runtime (record_control_registration False) s1)))"

text \<open>One tick of the interval, with no other task between its calls.\<close>

definition control_tick ::
  "('x, 'v) control_plane \<Rightarrow> usize \<Rightarrow> control_client \<Rightarrow> 'x control_state \<Rightarrow> (bool \<times> 'x control_state) option" where
  "control_tick p n cl s =
     (case try_register p cl s of
        (False, s1) \<Rightarrow> Some (False, s1)
      | (True, s1) \<Rightarrow>
          let stats = \<lparr>hb_config_version = applied_config_version s1,
                       hb_queue_depth_bytes = health_queued_bytes (health (cs_runtime s1)),
                       hb_ingest_bytes_per_second = 0\<rparr> in
          (case call_plane p (\<lambda>net. heartbeat net (values_of p) cl stats) s1 of
             (Inl err, s2) \<Rightarrow> Some (False, on_runtime (record_control_heartbeat False) s2)
           | (Inr commands, s2) \<Rightarrow>
               run_commands p n cl commands (on_runtime (record_control_heartbeat True) s2)))"

text \<open>The worker over a number of ticks, until the process exits.\<close>

fun control_ticks ::
  "nat \<Rightarrow> ('x, 'v) control_plane \<Rightarrow> usize \<Rightarrow> control_client \<Rightarrow> 'x control_state \<Rightarrow> (bool \<times> 'x control_state) option" where
  "control_ticks 0 p n cl s = Some (False, s)"
| "control_ticks (Suc k) p n cl s =
     (case control_tick p n cl s of
        None \<Rightarrow> None
      | Some (exited, s1) \<Rightarrow> if exited then Some (True, s1) else control_ticks k p n cl s1)"

definition start_control_worker :: "'x agent_runtime \<Rightarrow> 'x control_state" where
  "start_control_worker rt =
     \<lparr>cs_runtime = rt, registered = False, applied_config_version = 0, cs_calls = 0, acks = []\<rparr>"

section \<open>The drain at shutdown\<close>

text \<open>
  A flush races with the deadline: it ends in time, or it is cancelled while it waits for the lock or
  for another flush, or while it exports. A cancelled export drops the exporters it had taken.
\<close>

datatype flush_race = InTime | CutWaiting | CutExporting

datatype drain_end = QueueEmpty | DrainTimeout runtime_health | FlushFailed disk_queue_error

definition log_shutdown_drain_timeout :: "'x agent_runtime \<Rightarrow> drain_end" where
  "log_shutdown_drain_timeout rt = DrainTimeout (health rt)"

partial_function (option) shutdown_rounds ::
  "'x export_fn \<Rightarrow> (nat \<Rightarrow> batch_clock) \<Rightarrow> usize \<Rightarrow> nat \<Rightarrow> (nat \<Rightarrow> nat) \<Rightarrow> (nat \<Rightarrow> flush_race) \<Rightarrow> nat \<Rightarrow>
   'x agent_runtime \<Rightarrow> (drain_end \<times> 'x agent_runtime) option" where
  "shutdown_rounds export clocks n deadline now race k rt =
     (if deadline - now k = 0 then Some (log_shutdown_drain_timeout rt, rt)
      else
        (case race k of
           CutWaiting \<Rightarrow> Some (log_shutdown_drain_timeout rt, rt)
         | CutExporting \<Rightarrow>
             (case prepare_shared_flush (clocks k) n True rt of
                (_, rt') \<Rightarrow> Some (log_shutdown_drain_timeout rt', rt'))
         | InTime \<Rightarrow>
             Option.bind (flush_for_shutdown_shared export (clocks k) n rt) (\<lambda>(result, rt').
               case result of
                 Inl err \<Rightarrow> Some (FlushFailed err, rt')
               | Inr report \<Rightarrow>
                   if drained_records report = 0 then Some (QueueEmpty, rt')
                   else shutdown_rounds export clocks n deadline now race (Suc k) rt')))"

declare shutdown_rounds.simps [code]

text \<open>\<^verbatim>\<open>drain_for_shutdown\<close>, with no other task between its flushes; for those see \<^verbatim>\<open>Agent_Drain\<close>.\<close>

definition drain_for_shutdown ::
  "'x export_fn \<Rightarrow> (nat \<Rightarrow> batch_clock) \<Rightarrow> usize \<Rightarrow> u64 \<Rightarrow> nat \<Rightarrow> (nat \<Rightarrow> nat) \<Rightarrow> (nat \<Rightarrow> flush_race) \<Rightarrow>
   'x agent_runtime \<Rightarrow> (drain_end \<times> 'x agent_runtime) option" where
  "drain_for_shutdown export clocks n timeout started now race rt =
     shutdown_rounds export clocks n (started + timeout) now race 0 rt"

text \<open>
  \<^verbatim>\<open>run_receiver_until_shutdown\<close>: either the receiver ends first, with its result, or a signal arrives (or
  waiting for one fails) and the queue is drained. The drain never fails.
\<close>

datatype serving_end = ReceiverEnded "string + unit" | SignalSeen "string + unit"

definition run_receiver_until_shutdown ::
  "'x export_fn \<Rightarrow> (nat \<Rightarrow> batch_clock) \<Rightarrow> usize \<Rightarrow> u64 \<Rightarrow> nat \<Rightarrow> (nat \<Rightarrow> nat) \<Rightarrow> (nat \<Rightarrow> flush_race) \<Rightarrow>
   serving_end \<Rightarrow> 'x agent_runtime \<Rightarrow> ((string + unit) \<times> 'x agent_runtime) option" where
  "run_receiver_until_shutdown export clocks n timeout started now race event rt =
     (case event of
        ReceiverEnded result \<Rightarrow> Some (result, rt)
      | SignalSeen (Inl err) \<Rightarrow> Some (Inl err, rt)
      | SignalSeen (Inr _) \<Rightarrow>
          map_option (\<lambda>(_, rt'). (Inr (), rt')) (drain_for_shutdown export clocks n timeout started now race rt))"

section \<open>The flush worker\<close>

text \<open>One tick of the flush worker: what it prints, if anything, and the runtime.\<close>

definition flush_worker_tick ::
  "(io_error \<Rightarrow> string) \<Rightarrow> 'x export_fn \<Rightarrow> batch_clock \<Rightarrow> usize \<Rightarrow> 'x agent_runtime \<Rightarrow>
   (string option \<times> 'x agent_runtime) option" where
  "flush_worker_tick show_io export clock n rt =
     map_option (\<lambda>(result, rt').
       (case result of
          Inr report \<Rightarrow>
            if 0 < drained_records report then
              Some (''flush completed: drained='' @ show_nat (drained_records report) @ '' exported='' @
                show_nat (exported_records report) @ '' dropped='' @ show_nat (report_dropped_records report) @
                '' bytes='' @ show_nat (exported_bytes report))
            else None
        | Inl err \<Rightarrow> Some (''flush failed: '' @ show_disk_queue_error show_io err), rt'))
     (flush_shared export clock n rt)"

end
