(* ===== verification/Control_Properties.thy ===== *)
theory Control_Properties
  imports Control_Client
begin

text \<open>
  The properties of the control client: which configuration updates are accepted, that requests are
  framed as announced whatever the fields contain, and that endpoints are read back as printed.
\<close>

section \<open>Updates\<close>

lemma as_bytes_inject: "as_bytes s = as_bytes t \<longleftrightarrow> s = t"
  using from_as_bytes by metis

lemma validate_signature_iff:
  assumes "\<not> blank key"
  shows "validate_config_signature upd (Some key) = Inr () \<longleftrightarrow>
    (\<exists>signature. update_signature upd = Some signature \<and>
       trim (unwrap_or (strip_prefix ''hmac-sha256='' signature) signature) =
         hex_lower (hmac_standard (as_bytes key) (as_bytes (update_pipeline_config upd))))"
  using assms
  by (cases "update_signature upd")
    (auto simp: validate_config_signature_def Let_def constant_time_equal_iff as_bytes_inject hmac_sha256_eq)

lemma hex_digit_plain: "unat n < 16 \<Longrightarrow> plain_char (hex_digit n)"
proof -
  have "\<forall>i < 16. plain_char (''0123456789abcdef'' ! i)" by code_simp
  then show "unat n < 16 \<Longrightarrow> plain_char (hex_digit n)" by (simp only: hex_digit_def)
qed

lemma trim_hex: "trim (hex_lower bs) = hex_lower bs"
proof (rule trim_plain)
  have "plain_char (hex_digit (drop_bit 4 b))" for b :: u8
    using unat_u8 [of b] by (intro hex_digit_plain) (simp add: drop_bit_eq_div unat_div)
  moreover have "plain_char (hex_digit (and b 0x0f))" for b :: u8
    using word_and_le1 [of b "0x0f"] by (intro hex_digit_plain) (simp add: word_le_nat_alt)
  ultimately show "list_all plain_char (hex_lower bs)" by (simp add: hex_lower_def list_all_iff)
qed

section \<open>Request framing\<close>

text \<open>The head of a request: lines without line breaks, each closed by CR LF.\<close>

lemma no_blank_line:
  assumes "\<forall>l \<in> set ls. l \<noteq> [] \<and> CR \<notin> set l \<and> LF \<notin> set l"
  shows "split_once (crlf @ crlf) (concat (map (\<lambda>l. l @ crlf) ls) @ crlf @ rest) =
    (if ls = [] then split_once (crlf @ crlf) (crlf @ rest)
     else Some (concat (map (\<lambda>l. l @ crlf) (butlast ls)) @ last ls, rest))"
  using assms
proof (induction ls)
  case (Cons l ls)
  have skip: "split_once (crlf @ crlf) (l' @ s) = map_option (\<lambda>(a, b). (l' @ a, b)) (split_once (crlf @ crlf) s)"
    if "CR \<notin> set l'" for l' s
    using that by (induction l') (auto simp: strip_prefix_def starts_with_def option.map_comp comp_def option.map_id split: prod.splits intro!: option.map_cong)
  have l: "l \<noteq> []" "CR \<notin> set l" "LF \<notin> set l" using Cons.prems by auto
  show ?case
  proof (cases ls)
    case Nil
    have "split_once (crlf @ crlf) (crlf @ crlf @ rest) = Some ([], rest)"
      by (simp add: strip_prefix_def starts_with_def)
    then show ?thesis using skip [OF l(2), of "crlf @ crlf @ rest"] Nil by simp
  next
    case (Cons l2 ls2)
    then obtain c cs where l2: "l2 = c # cs" "c \<noteq> CR" using Cons.prems by (cases l2) auto
    have "split_once (crlf @ crlf) (crlf @ concat (map (\<lambda>l. l @ crlf) ls) @ crlf @ rest) =
        map_option (\<lambda>(a, b). (crlf @ a, b)) (split_once (crlf @ crlf) (concat (map (\<lambda>l. l @ crlf) ls) @ crlf @ rest))"
      using Cons l2 by (simp add: strip_prefix_def starts_with_def option.map_comp comp_def case_prod_beta)
    then show ?thesis
      using skip [OF l(2)] Cons.IH Cons.prems Cons by simp
  qed
qed simp

definition header_lines :: "control_client \<Rightarrow> string \<Rightarrow> string \<Rightarrow> string list" where
  "header_lines cl path body_text =
     [''POST '' @ path @ '' HTTP/1.1'',
      ''Host: '' @ ep_host (cc_endpoint cl) @ '':'' @ show_nat (ep_port (cc_endpoint cl)),
      ''Content-Type: application/json'',
      ''Content-Length: '' @ show_nat (length body_text)] @
     (case auth_token (cc_security cl) of None \<Rightarrow> [] | Some token \<Rightarrow> [''Authorization: Bearer '' @ token]) @
     [''Connection: close'']"

lemma render_lines: "render_post_request cl path body_text = Inr req \<Longrightarrow>
    req = concat (map (\<lambda>l. l @ crlf) (header_lines cl path body_text)) @ crlf"
  by (auto simp: render_post_request_def header_lines_def Let_def res_bind_Inr_iff split: option.splits if_splits)

lemma show_nat_no_break: "CR \<notin> set (show_nat n)" "LF \<notin> set (show_nat n)"
  using show_nat_plain [of n] by (auto simp: plain_char_def list_all_iff ascii_ws_def)

lemma header_lines_clean:
  assumes "CR \<notin> set (ep_host (cc_endpoint cl))" "LF \<notin> set (ep_host (cc_endpoint cl))" "CR \<notin> set path" "LF \<notin> set path"
    and "\<forall>token. auth_token (cc_security cl) = Some token \<longrightarrow> CR \<notin> set token \<and> LF \<notin> set token"
  shows "\<forall>l \<in> set (header_lines cl path body_text). l \<noteq> [] \<and> CR \<notin> set l \<and> LF \<notin> set l"
  using assms show_nat_no_break by (auto simp: header_lines_def split: option.splits)

section \<open>A reader of the request bodies\<close>

text \<open>The members of an object whose values are strings.\<close>

fun read_members :: "nat \<Rightarrow> string \<Rightarrow> (string \<times> string) list option" where
  "read_members 0 s = None"
| "read_members (Suc n) s =
     (case s of
        CHR 0x22 # s1 \<Rightarrow>
          (case read_json_string s1 of
             Some (k, CHR '':'' # CHR 0x22 # s2) \<Rightarrow>
               (case read_json_string s2 of
                  Some (v, c # s3) \<Rightarrow>
                    if c = CHR '','' then map_option (Cons (k, v)) (read_members n s3)
                    else if c = CHR ''}'' \<and> s3 = [] then Some [(k, v)] else None
                | _ \<Rightarrow> None)
           | _ \<Rightarrow> None)
      | _ \<Rightarrow> None)"

definition read_object :: "string \<Rightarrow> (string \<times> string) list option" where
  "read_object s = (case s of c # s' \<Rightarrow> if c = CHR ''{'' then read_members (length s') s' else None | [] \<Rightarrow> None)"

lemma read_members_field:
  assumes "json_escape key = key"
  shows "read_members (Suc n) (json_field key v @ c # s) =
    (if c = CHR '','' then map_option (Cons (key, v)) (read_members n s)
     else if c = CHR ''}'' \<and> s = [] then Some [(key, v)] else None)"
proof -
  have "read_json_string (key @ CHR 0x22 # rest) = Some (key, rest)" for rest
    using read_json_escape [of key rest] assms by simp
  then show ?thesis by (simp add: json_field_def quoted_def read_json_escape)
qed

lemma plain_keys:
  "json_escape ''agent_id'' = ''agent_id''" "json_escape ''tenant_id'' = ''tenant_id''"
  "json_escape ''hostname'' = ''hostname''" "json_escape ''version'' = ''version''"
  by (simp_all add: json_escape_chars escape_char_def)

section \<open>Endpoints\<close>

fun show_scheme :: "http_scheme \<Rightarrow> string" where
  "show_scheme Http = ''http://''"
| "show_scheme Https = ''https://''"

definition show_endpoint :: "http_endpoint \<Rightarrow> string" where
  "show_endpoint e = show_scheme (ep_scheme e) @ ep_host e @ '':'' @ show_nat (ep_port e)"

lemma trim_plain_ends:
  assumes "plain_char c" and "plain_char d"
  shows "trim (c # s @ [d]) = c # s @ [d]"
  using trim_start_plain [OF assms(1), of "s @ [d]"] ws_width_rev_plain [OF assms(2), of "rev (c # s)"]
  by (simp add: trim_def trim_end_def del: ws_width_rev.simps)

lemma show_nat_last: "\<exists>ds d. show_nat n = ds @ [d] \<and> plain_char d"
  using show_nat_nonempty [of n] show_nat_plain [of n] by (metis append_butlast_last_id last_in_set list_all_iff)

lemma trim_show_endpoint: "trim (show_endpoint e) = show_endpoint e"
proof -
  obtain ds d where d: "show_nat (ep_port e) = ds @ [d]" "plain_char d" using show_nat_last by blast
  have h: "plain_char CHR ''h''" by code_simp
  show ?thesis
    using trim_plain_ends [OF h d(2)]
    by (cases "ep_scheme e") (simp_all add: show_endpoint_def d(1), (metis append.assoc append_Cons)+)
qed

lemma show_nat_no_colon: "CHR '':'' \<notin> set (show_nat n)" "CHR ''/'' \<notin> set (show_nat n)"
proof -
  have "\<forall>d < 10. digit_char d \<noteq> CHR '':'' \<and> digit_char d \<noteq> CHR ''/''" by code_simp
  then show "CHR '':'' \<notin> set (show_nat n)" "CHR ''/'' \<notin> set (show_nat n)" by (metis show_nat_digits)+
qed

lemma strip_prefix_append: "strip_prefix p (p @ s) = Some s"
  by simp

lemma http_not_https: "strip_prefix ''https://'' (''http://'' @ s) = None"
  by (simp add: strip_prefix_def starts_with_def)

section \<open>Properties\<close>

text \<open>Property C10 (update_authentic). With a signing key configured, an update from the control plane is turned into a configuration
  exactly when its text has the SHA-256 that it states, it is signed with the HMAC of that text under
  the key, and the text is a valid pipeline file; the configuration is the one in the text.\<close>

theorem update_authentic:
  assumes "\<not> blank key"
  shows "validate_config_update from_yaml upd (Some key) = Inr cfg \<longleftrightarrow>
    eq_ignore_ascii_case (hex_lower (sha256_standard (as_bytes (update_pipeline_config upd)))) (update_checksum upd) \<and>
    (\<exists>signature. update_signature upd = Some signature \<and>
       trim (unwrap_or (strip_prefix ''hmac-sha256='' signature) signature) =
         hex_lower (hmac_standard (as_bytes key) (as_bytes (update_pipeline_config upd)))) \<and>
    parse_pipeline_config from_yaml (update_pipeline_config upd) = Inr cfg"
  using validate_signature_iff [OF assms, of upd]
  by (auto simp: validate_config_update_def Let_def sha256_hex_def sha256_digest_eq res_bind_Inr_iff split: if_splits)

theorem update_authentic_witness:
  "\<exists>cfg. validate_config_update (\<lambda>_. Inr (sample_file [(''traces'', \<lparr>fro_exporters = [''stdout'']\<rparr>)]))
     \<lparr>update_version = 3, update_pipeline_config = ''tenant: acme'',
      update_checksum = hex_lower (sha256_standard (as_bytes ''tenant: acme'')),
      update_signature = Some (''hmac-sha256='' @ hex_lower (hmac_standard (as_bytes ''k'') (as_bytes ''tenant: acme'')))\<rparr> (Some ''k'') = Inr cfg"
proof -
  let ?f = "sample_file [(''traces'', \<lparr>fro_exporters = [''stdout'']\<rparr>)]"
  have "is_ok (into_pipeline_config ?f)" by code_simp
  then obtain cfg where c: "into_pipeline_config ?f = Inr cfg" by (auto simp: is_ok_iff)
  have k: "\<not> blank ''k''" by code_simp
  show ?thesis
    using c strip_prefix_append [of "''hmac-sha256=''"]
    by (intro exI [of _ cfg] update_authentic [OF k, THEN iffD2])
      (simp add: parse_pipeline_config_def eq_ignore_ascii_case_def trim_hex del: strip_prefix_Some append.simps)
qed

text \<open>Neither the checksum nor the signature covers the version of an update: an old signed text is accepted
  under any version.\<close>

theorem update_version_unsigned:
  "validate_config_update from_yaml (upd\<lparr>update_version := v\<rparr>) key = validate_config_update from_yaml upd key"
proof -
  have "validate_config_signature (upd\<lparr>update_version := v\<rparr>) key = validate_config_signature upd key"
    by (cases key) (simp_all add: validate_config_signature_def)
  then show ?thesis by (simp add: validate_config_update_def Let_def)
qed

text \<open>The paths of the four calls.\<close>

definition agent_paths :: "string list" where
  "agent_paths = [''/v1/agents/register'', ''/v1/agents/heartbeat'', ''/v1/agents/config'', ''/v1/agents/commands/ack'']"

lemma agent_paths_clean: "path \<in> set agent_paths \<Longrightarrow> CR \<notin> set path \<and> LF \<notin> set path"
  by (auto simp: agent_paths_def)

text \<open>Property C40 (request_framing). Let the host of the control endpoint contain no line break (the parser of the endpoint does not check that).
  Then each of the four requests to the control plane is refused only for a line break in the token; otherwise it consists of
  the intended header lines, ends with the only blank line, announces the length of the body, and a
  receiver that splits at the blank line gets exactly the body, whatever the body contains.\<close>

theorem request_framing:
  assumes "CR \<notin> set (ep_host (cc_endpoint cl))" and "LF \<notin> set (ep_host (cc_endpoint cl))" and "path \<in> set agent_paths"
  shows "case render_post_request cl path body_text of
      Inl e \<Rightarrow> \<exists>token. auth_token (cc_security cl) = Some token \<and> (CR \<in> set token \<or> LF \<in> set token)
    | Inr req \<Rightarrow> req = concat (map (\<lambda>l. l @ crlf) (header_lines cl path body_text)) @ crlf \<and>
        ''Content-Length: '' @ show_nat (length body_text) \<in> set (header_lines cl path body_text) \<and>
        map_option snd (split_once (crlf @ crlf) (req @ body_text)) = Some body_text"
proof (cases "render_post_request cl path body_text")
  case (Inl e)
  then show ?thesis
    by (auto simp: render_post_request_def Let_def res_bind_Inl_iff split: option.splits if_splits)
next
  case (Inr req)
  have tok: "\<forall>token. auth_token (cc_security cl) = Some token \<longrightarrow> CR \<notin> set token \<and> LF \<notin> set token"
    using Inr by (auto simp: render_post_request_def Let_def res_bind_Inr_iff split: option.splits if_splits)
  note req = render_lines [OF Inr] and path = agent_paths_clean [OF assms(3)]
  have "header_lines cl path body_text \<noteq> []" by (simp add: header_lines_def)
  then have "map_option snd (split_once (crlf @ crlf) (req @ body_text)) = Some body_text"
    using no_blank_line [OF header_lines_clean [OF assms(1,2) path [THEN conjunct1] path [THEN conjunct2] tok], of body_text body_text] by (simp add: req)
  moreover have "''Content-Length: '' @ show_nat (length body_text) \<in> set (header_lines cl path body_text)"
    by (simp add: header_lines_def)
  ultimately show ?thesis using req Inr by simp
qed

definition sample_client :: control_client where
  "sample_client =
     \<lparr>cc_endpoint = \<lparr>ep_scheme = Https, ep_host = ''cp'', ep_port = 4443\<rparr>, cc_agent_id = ''a'', cc_tenant_id = ''t'',
      cc_hostname = ''h'', cc_version = ''1'',
      cc_security = \<lparr>auth_token = Some ''secret'', sec_tls = tls_enabled_config, config_signing_key = Some ''k''\<rparr>\<rparr>"

theorem request_framing_witness:
  "\<exists>req. render_post_request sample_client ''/v1/agents/register'' ''{}'' = Inr req \<and>
     map_option snd (split_once (crlf @ crlf) (req @ ''{}'')) = Some ''{}''"
proof -
  have "is_ok (render_post_request sample_client ''/v1/agents/register'' ''{}'')" by code_simp
  then obtain req where r: "render_post_request sample_client ''/v1/agents/register'' ''{}'' = Inr req" by (auto simp: is_ok_iff)
  have "CR \<notin> set (ep_host (cc_endpoint sample_client))" "LF \<notin> set (ep_host (cc_endpoint sample_client))"
    "''/v1/agents/register'' \<in> set agent_paths" by (simp_all add: sample_client_def agent_paths_def)
  from request_framing [OF this, of "''{}''", unfolded r sum.case] r show ?thesis by blast
qed

text \<open>The parser of the endpoint accepts a host with line breaks, and the request has the lines of such a host among its headers:
  here a second line that the client never meant to send.\<close>

theorem endpoint_line_break:
  "\<exists>cl req. new_with_security (''http://cp'' @ crlf @ ''X-Role: admin:80'') agent tenant hostname ver
       \<lparr>auth_token = None, sec_tls = tls_disabled, config_signing_key = None\<rparr> = Inr cl \<and>
     render_post_request cl ''/v1/agents/register'' ''{}'' = Inr req \<and>
     req = ''POST /v1/agents/register HTTP/1.1'' @ crlf @ ''Host: cp'' @ crlf @ ''X-Role: admin:80'' @ crlf @
       ''Content-Type: application/json'' @ crlf @ ''Content-Length: 2'' @ crlf @ ''Connection: close'' @ crlf @ crlf"
proof -
  have "parse_http_endpoint (''http://cp'' @ crlf @ ''X-Role: admin:80'') = Inr \<lparr>ep_scheme = Http, ep_host = ''cp'' @ crlf @ ''X-Role: admin'', ep_port = 80\<rparr>"
    by code_simp
  moreover have "show_nat 80 = ''80''" "show_nat (Suc (Suc 0)) = ''2''" by code_simp+
  ultimately show ?thesis by (simp add: new_with_security_def render_post_request_def)
qed

text \<open>The body of a registration is a JSON object from which a reader gets back the agent, tenant, host
  and version exactly, whatever characters they contain: no value can break out of its field.\<close>

theorem register_body_exact:
  "read_object (register_body cl) =
     Some [(''agent_id'', cc_agent_id cl), (''tenant_id'', cc_tenant_id cl), (''hostname'', cc_hostname cl), (''version'', cc_version cl)]"
proof -
  let ?s = "tl (register_body cl)"
  have s: "register_body cl = CHR ''{'' # ?s" by (simp add: register_body_def)
  have "length ?s \<ge> 4" by (simp add: register_body_def json_field_def quoted_def)
  then obtain n where "length ?s = 4 + n" using le_Suc_ex by blast
  then have n: "length ?s = Suc (Suc (Suc (Suc n)))" by simp
  have "?s = json_field ''agent_id'' (cc_agent_id cl) @ CHR '','' # json_field ''tenant_id'' (cc_tenant_id cl) @ CHR '','' #
      json_field ''hostname'' (cc_hostname cl) @ CHR '','' # json_field ''version'' (cc_version cl) @ CHR ''}'' # []"
    by (simp add: register_body_def)
  then have "read_members (Suc (Suc (Suc (Suc n)))) ?s =
      Some [(''agent_id'', cc_agent_id cl), (''tenant_id'', cc_tenant_id cl), (''hostname'', cc_hostname cl), (''version'', cc_version cl)]"
    by (simp only: read_members_field plain_keys) simp
  then show ?thesis by (subst s) (simp only: read_object_def list.case refl if_True n)
qed

text \<open>A control endpoint is parsed back to the scheme, host and port it was printed from; the host may
  contain colons.\<close>

theorem endpoint_roundtrip:
  assumes "\<not> blank (ep_host e)" and "CHR ''/'' \<notin> set (ep_host e)" and "ep_port e \<le> u16_max"
  shows "parse_http_endpoint (show_endpoint e) = Inr e"
proof -
  let ?rest = "ep_host e @ CHR '':'' # show_nat (ep_port e)"
  have r: "rsplit_once CHR '':'' ?rest = Some (ep_host e, show_nat (ep_port e))"
    by (rule rsplit_once_append) (rule show_nat_no_colon)
  have slash: "CHR ''/'' \<notin> set ?rest" using assms(2) show_nat_no_colon(2) by auto
  have body: "show_endpoint e = show_scheme (ep_scheme e) @ ?rest" by (simp add: show_endpoint_def)
  show ?thesis
  proof (cases "ep_scheme e")
    case Http
    have "strip_prefix ''https://'' (''http://'' @ ?rest) = None" "strip_prefix ''http://'' (''http://'' @ ?rest) = Some ?rest"
      by (rule http_not_https, rule strip_prefix_append)
    then show ?thesis
      unfolding parse_http_endpoint_def trim_show_endpoint Let_def unfolding body Http show_scheme.simps
      using r slash assms Http by (simp del: strip_prefix_Some)
  next
    case Https
    have "strip_prefix ''https://'' (''https://'' @ ?rest) = Some ?rest" by (rule strip_prefix_append)
    then show ?thesis
      unfolding parse_http_endpoint_def trim_show_endpoint Let_def unfolding body Https show_scheme.simps
      using r slash assms Https by (simp del: strip_prefix_Some)
  qed
qed

theorem endpoint_roundtrip_witness:
  "parse_http_endpoint (show_endpoint \<lparr>ep_scheme = Https, ep_host = ''::1'', ep_port = 4443\<rparr>) =
     Inr \<lparr>ep_scheme = Https, ep_host = ''::1'', ep_port = 4443\<rparr>"
proof -
  have "\<not> blank ''::1''" by code_simp
  then show ?thesis using endpoint_roundtrip [of "\<lparr>ep_scheme = Https, ep_host = ''::1'', ep_port = 4443\<rparr>"] by simp
qed

end
