(* ===== verification/Agent_Workers.thy ===== *)
theory Agent_Workers
  imports Agent_Control Control_Properties
begin

text \<open>
  The workers keep the queue: drains end and report an empty queue only when it is empty, the control
  worker always finishes its tick, acknowledges what it was asked to, and installs only configurations
  that arrived with a valid signature.
\<close>

section \<open>One flush of a drain\<close>

definition idle_runtime :: "'x agent_runtime \<Rightarrow> bool" where
  "idle_runtime rt \<longleftrightarrow> sound_queue (rt_queue rt) \<and> \<not> flush_in_progress rt"

text \<open>What a step of a worker may do to the queue: take payloads off its front.\<close>

definition drained_to :: "'x agent_runtime \<Rightarrow> 'x agent_runtime \<Rightarrow> bool" where
  "drained_to rt rt' \<longleftrightarrow> (\<exists>j. pending (rt_queue rt') = drop j (pending (rt_queue rt)))"

lemma drained_to_same: "pending (rt_queue rt') = pending (rt_queue rt) \<Longrightarrow> drained_to rt rt'"
  unfolding drained_to_def by (intro exI [of _ 0]) simp

lemma drained_to_trans: "drained_to a b \<Longrightarrow> drained_to b c \<Longrightarrow> drained_to a c"
  by (auto simp: drained_to_def drop_drop)

lemma flush_unpaused_queue:
  assumes s: "sound_queue (rt_queue rt)" and f: "flush_unpaused export clock n rt = (res, rt')"
  shows "sound_queue (rt_queue rt') \<and> rt_config rt' = rt_config rt \<and> flush_in_progress rt' = flush_in_progress rt \<and>
    exports_paused rt' = exports_paused rt \<and>
    (case res of
       Inl e \<Rightarrow> pending (rt_queue rt') = pending (rt_queue rt)
     | Inr report \<Rightarrow> pending (rt_queue rt') = drop n (pending (rt_queue rt)) \<and>
         drained_records report = length (take n (pending (rt_queue rt))))"
proof -
  let ?rt = "upd_metrics (\<lambda>m. m\<lparr>flush_attempts_total := add_u64 (flush_attempts_total m) 1\<rparr>) rt"
  have s': "sound_queue (rt_queue ?rt)" using s by simp
  note eq = flush_inner_eq [OF s', where n = n and clock = clock and export = export, unfolded upd_metrics_simps]
  obtain r2 rt2 where fi: "flush_inner export clock n ?rt = (r2, rt2)" by (cases "flush_inner export clock n ?rt")
  have r: "res = r2" "\<exists>m. rt' = rt2\<lparr>metrics := m\<rparr>"
    using f fi by (auto simp: flush_unpaused_def record_flush_success_def record_flush_failure_def upd_metrics_def split: sum.splits)
  obtain r1 c' where pr: "process_payloads clock (take n (pending (rt_queue rt))) (rt_processors rt) = (r1, c')"
    by (cases "process_payloads clock (take n (pending (rt_queue rt))) (rt_processors rt)")
  show ?thesis
  proof (cases r1)
    case (Inl e)
    then show ?thesis using eq fi pr r s by (auto simp: after_export_def upd_metrics_def)
  next
    case (Inr rd)
    obtain rs d where rd: "rd = (rs, d)" by (cases rd)
    obtain r3 es' where ex: "export_records export (rt_config rt) rs (rt_exporters rt) = (r3, es')"
      by (cases "export_records export (rt_config rt) rs (rt_exporters rt)")
    show ?thesis using eq fi pr Inr rd ex r s by (cases r3) (auto simp: after_export_def upd_metrics_def)
  qed
qed

lemma shutdown_flush:
  assumes "idle_runtime rt"
  obtains res rt' where "flush_for_shutdown_shared export clock n rt = Some (res, rt')" "idle_runtime rt'"
    "rt_config rt' = rt_config rt"
    "case res of Inl e \<Rightarrow> pending (rt_queue rt') = pending (rt_queue rt)
     | Inr report \<Rightarrow> pending (rt_queue rt') = drop n (pending (rt_queue rt)) \<and>
         drained_records report = length (take n (pending (rt_queue rt)))"
proof -
  obtain res rt' where f: "flush_unpaused export clock n rt = (res, rt')" by (cases "flush_unpaused export clock n rt")
  have "flush_for_shutdown_shared export clock n rt = Some (res, rt')"
    using assms f shared_alone_unpaused [of rt True export clock n] by (simp add: flush_for_shutdown_shared_def idle_runtime_def)
  then show thesis using that flush_unpaused_queue [OF _ f] assms by (simp add: idle_runtime_def)
qed

lemma shutdown_flush_drained:
  assumes "case res of Inl e \<Rightarrow> pending (rt_queue rt') = pending (rt_queue rt)
     | Inr report \<Rightarrow> pending (rt_queue rt') = drop n (pending (rt_queue rt)) \<and> drained_records report = m"
  shows "drained_to rt rt'"
  using assms by (auto simp: drained_to_def intro: exI [of _ 0] split: sum.splits)

section \<open>The loop of a drain\<close>

lemma drain_rounds_total:
  assumes "idle_runtime rt" and "0 < n"
  shows "\<exists>res rt'. drain_rounds export clocks n k rt = Some (res, rt') \<and> idle_runtime rt' \<and> rt_config rt' = rt_config rt \<and>
    drained_to rt rt' \<and> (is_ok res \<longrightarrow> pending (rt_queue rt') = [])"
  using assms(1)
proof (induction rt arbitrary: k rule: measure_induct_rule [where f = "\<lambda>rt. length (pending (rt_queue rt))"])
  case (less rt)
  obtain res rt' where f: "flush_for_shutdown_shared export (clocks k) n rt = Some (res, rt')" "idle_runtime rt'"
    "rt_config rt' = rt_config rt"
    "case res of Inl e \<Rightarrow> pending (rt_queue rt') = pending (rt_queue rt)
     | Inr report \<Rightarrow> pending (rt_queue rt') = drop n (pending (rt_queue rt)) \<and>
         drained_records report = length (take n (pending (rt_queue rt)))"
    by (rule shutdown_flush [OF less.prems])
  note dr = shutdown_flush_drained [OF f(4)]
  show ?case
  proof (cases res)
    case (Inl e)
    then show ?thesis using f dr by (simp add: drain_rounds.simps [of export clocks n k rt])
  next
    case (Inr report)
    show ?thesis
    proof (cases "pending (rt_queue rt) = []")
      case True
      then show ?thesis using f Inr dr by (simp add: drain_rounds.simps [of export clocks n k rt])
    next
      case False
      then have "length (pending (rt_queue rt')) < length (pending (rt_queue rt))" "drained_records report \<noteq> 0"
        using f(4) Inr assms(2) by auto
      with less.IH [OF this(1) f(2), of "Suc k"] f Inr dr show ?thesis
        by (fastforce simp: drain_rounds.simps [of export clocks n k rt] intro: drained_to_trans)
    qed
  qed
qed

section \<open>The control worker keeps the queue\<close>

lemma ack_frame [simp]:
  "cs_runtime (ack_if_delivered p cl c b e s) = cs_runtime s"
  "registered (ack_if_delivered p cl c b e s) = registered s"
  "applied_config_version (ack_if_delivered p cl c b e s) = applied_config_version s"
  by (simp_all add: ack_if_delivered_def call_plane_def)

lemma on_runtime_frame [simp]:
  "cs_runtime (on_runtime f s) = f (cs_runtime s)" "acks (on_runtime f s) = acks s" "cs_calls (on_runtime f s) = cs_calls s"
  by (simp_all add: on_runtime_def)

lemma control_metrics_frame [simp]:
  "rt_queue (record_control_registration b rt) = rt_queue rt" "flush_in_progress (record_control_registration b rt) = flush_in_progress rt"
  "rt_queue (record_control_heartbeat b rt) = rt_queue rt" "flush_in_progress (record_control_heartbeat b rt) = flush_in_progress rt"
  "rt_queue (record_control_config_fetch b rt) = rt_queue rt" "flush_in_progress (record_control_config_fetch b rt) = flush_in_progress rt"
  "rt_config (record_control_registration b rt) = rt_config rt" "rt_config (record_control_heartbeat b rt) = rt_config rt"
  "rt_config (record_control_config_fetch b rt) = rt_config rt"
  by (simp_all add: record_control_registration_def record_control_heartbeat_def record_control_config_fetch_def upd_metrics_def)

lemma pause_frame [simp]:
  "rt_queue (pause_exports rt) = rt_queue rt" "flush_in_progress (pause_exports rt) = flush_in_progress rt"
  "rt_config (pause_exports rt) = rt_config rt" "rt_queue (resume_exports rt) = rt_queue rt"
  "flush_in_progress (resume_exports rt) = flush_in_progress rt" "rt_config (resume_exports rt) = rt_config rt"
  by (simp_all add: pause_exports_def resume_exports_def)

text \<open>The runtime after an action of the worker: idle still, with payloads taken off the front at most.\<close>

definition worker_kept :: "'x control_state \<Rightarrow> 'x control_state \<Rightarrow> bool" where
  "worker_kept s s' \<longleftrightarrow> idle_runtime (cs_runtime s') \<and> drained_to (cs_runtime s) (cs_runtime s')"

lemma worker_kept_same:
  "idle_runtime (cs_runtime s) \<Longrightarrow> rt_queue (cs_runtime s') = rt_queue (cs_runtime s) \<Longrightarrow>
   flush_in_progress (cs_runtime s') = flush_in_progress (cs_runtime s) \<Longrightarrow> worker_kept s s'"
  by (simp add: worker_kept_def idle_runtime_def drained_to_same)

lemma worker_kept_trans: "worker_kept s s' \<Longrightarrow> worker_kept s' s'' \<Longrightarrow> worker_kept s s''"
  by (auto simp: worker_kept_def intro: drained_to_trans)

lemma reload_frame:
  "reload_config build cfg rt = (res, rt') \<Longrightarrow> rt_queue rt' = rt_queue rt \<and> flush_in_progress rt' = flush_in_progress rt"
  using reload_cases by blast

lemma fetch_frame:
  assumes "fetch_and_apply_config p cl v s = (res, s')"
  shows "rt_queue (cs_runtime s') = rt_queue (cs_runtime s)" "flush_in_progress (cs_runtime s') = flush_in_progress (cs_runtime s)"
    "acks s' = acks s" "cs_calls s' = Suc (cs_calls s)"
  using assms
  by (auto simp: fetch_and_apply_config_def call_plane_def Let_def split: sum.splits option.splits prod.splits dest!: reload_frame)

lemma run_command_total:
  assumes "idle_runtime (cs_runtime s)" and "0 < n"
  shows "\<exists>b s'. run_command p n cl c s = Some (b, s') \<and> worker_kept s s' \<and> (b \<longrightarrow> pending (rt_queue (cs_runtime s')) = [])"
proof (cases "command_kind c")
  case ReloadConfig
  obtain res s1 where f: "fetch_and_apply_config p cl (applied_config_version s) s = (res, s1)"
    by (cases "fetch_and_apply_config p cl (applied_config_version s) s")
  have "worker_kept s s'" if "cs_runtime s' = cs_runtime s1" for s'
    using fetch_frame(1,2) [OF f] assms(1) that by (intro worker_kept_same) simp_all
  then show ?thesis using ReloadConfig f by (auto simp: run_command_def split: sum.splits option.splits)
next
  case DrainAndRestart
  obtain res rt' where d: "drain_rounds (export_to p) (drain_clock p (cs_calls s)) n 0 (cs_runtime s) = Some (res, rt')"
    "idle_runtime rt'" "drained_to (cs_runtime s) rt'" "is_ok res \<longrightarrow> pending (rt_queue rt') = []"
    using drain_rounds_total [OF assms] by blast
  then show ?thesis using DrainAndRestart
    by (cases res) (auto simp: run_command_def drain_and_exit_def Let_def worker_kept_def)
next
  case PauseExports
  then show ?thesis using assms(1) by (auto simp: run_command_def worker_kept_same)
next
  case ResumeExports
  then show ?thesis using assms(1) by (auto simp: run_command_def worker_kept_same)
next
  case UnknownCommand
  then show ?thesis using assms(1) by (auto simp: run_command_def worker_kept_same)
qed

lemma run_commands_total:
  assumes "idle_runtime (cs_runtime s)" and "0 < n"
  shows "\<exists>b s'. run_commands p n cl cs s = Some (b, s') \<and> worker_kept s s' \<and> (b \<longrightarrow> pending (rt_queue (cs_runtime s')) = [])"
  using assms(1)
proof (induction cs arbitrary: s)
  case Nil
  then show ?case by (auto simp: worker_kept_same)
next
  case (Cons c cs)
  obtain b s1 where c: "run_command p n cl c s = Some (b, s1)" "worker_kept s s1" "b \<longrightarrow> pending (rt_queue (cs_runtime s1)) = []"
    using run_command_total [OF Cons.prems assms(2)] by blast
  with Cons.IH [of s1] show ?case
    by (cases b) (auto simp: worker_kept_def intro: drained_to_trans)
qed

lemma try_register_kept:
  assumes "idle_runtime (cs_runtime s)" and "try_register p cl s = (b, s')"
  shows "worker_kept s s'" "acks s' = acks s" "rt_config (cs_runtime s') = rt_config (cs_runtime s)" "cs_calls s \<le> cs_calls s'"
  using assms by (auto simp: try_register_def call_plane_def worker_kept_same split: if_splits sum.splits)

lemma control_tick_total:
  assumes "idle_runtime (cs_runtime s)" and "0 < n"
  shows "\<exists>b s'. control_tick p n cl s = Some (b, s') \<and> worker_kept s s' \<and> (b \<longrightarrow> pending (rt_queue (cs_runtime s')) = [])"
proof -
  obtain go s1 where r: "try_register p cl s = (go, s1)" by (cases "try_register p cl s")
  note k = try_register_kept(1) [OF assms(1) r]
  have i: "idle_runtime (cs_runtime s1)" using k by (simp add: worker_kept_def)
  let ?stats = "\<lparr>hb_config_version = applied_config_version s1, hb_queue_depth_bytes = health_queued_bytes (health (cs_runtime s1)),
      hb_ingest_bytes_per_second = 0\<rparr>"
  obtain h s2 where h: "call_plane p (\<lambda>net. heartbeat net (values_of p) cl ?stats) s1 = (h, s2)" and s2: "cs_runtime s2 = cs_runtime s1"
    by (simp add: call_plane_def)
  let ?s3 = "\<lambda>b. on_runtime (record_control_heartbeat b) s2"
  have k3: "worker_kept s (?s3 b)" for b
    by (rule worker_kept_trans [OF k], rule worker_kept_same [OF i]) (simp_all add: s2)
  show ?thesis
  proof (cases "go \<and> is_ok h")
    case True
    then obtain cs where cs: "h = Inr cs" by (cases h) auto
    have "idle_runtime (cs_runtime (?s3 True))" using k3 [of True] by (simp add: worker_kept_def)
    from run_commands_total [OF this assms(2), of p cl cs] True cs r h show ?thesis
      by (auto simp: control_tick_def Let_def intro: worker_kept_trans [OF k3])
  next
    case False
    then show ?thesis using r h k k3 by (cases go; cases h) (auto simp: control_tick_def Let_def)
  qed
qed

lemma control_ticks_total:
  assumes "idle_runtime (cs_runtime s)" and "0 < n"
  shows "\<exists>b s'. control_ticks m p n cl s = Some (b, s') \<and> worker_kept s s' \<and> (b \<longrightarrow> pending (rt_queue (cs_runtime s')) = [])"
  using assms(1)
proof (induction m arbitrary: s)
  case 0
  then show ?case by (auto simp: worker_kept_same)
next
  case (Suc m)
  obtain b s1 where c: "control_tick p n cl s = Some (b, s1)" "worker_kept s s1" "b \<longrightarrow> pending (rt_queue (cs_runtime s1)) = []"
    using control_tick_total [OF Suc.prems assms(2)] by blast
  with Suc.IH [of s1] show ?case by (cases b) (auto simp: worker_kept_def intro: drained_to_trans)
qed

section \<open>Acknowledgements\<close>

abbreviation was_delivered :: "control_command \<Rightarrow> bool" where
  "was_delivered c \<equiv> command_status c = Delivered"

lemma ack_acks: "acks (ack_if_delivered p cl c ok err s) = acks s @ (if was_delivered c then [(command_id c, ok, err)] else [])"
  by (simp add: ack_if_delivered_def call_plane_def)

lemma run_command_acks:
  assumes "run_command p n cl c s = Some (b, s')"
  shows "\<exists>ok err. acks s' = acks s @ (if was_delivered c then [(command_id c, ok, err)] else []) \<and>
    ok = (err = None) \<and> (b \<longrightarrow> command_kind c = DrainAndRestart)"
proof (cases "command_kind c")
  case ReloadConfig
  obtain res s1 where f: "fetch_and_apply_config p cl (applied_config_version s) s = (res, s1)"
    by (cases "fetch_and_apply_config p cl (applied_config_version s) s")
  then show ?thesis using ReloadConfig assms fetch_frame(3) [OF f]
    by (auto simp: run_command_def ack_acks split: sum.splits option.splits)
next
  case DrainAndRestart
  then obtain res rt' where "drain_rounds (export_to p) (drain_clock p (cs_calls s)) n 0 (cs_runtime s) = Some (res, rt')"
    using assms by (auto simp: run_command_def drain_and_exit_def)
  then show ?thesis using DrainAndRestart assms by (cases res) (auto simp: run_command_def drain_and_exit_def Let_def ack_acks)
qed (use assms in \<open>auto simp: run_command_def ack_acks\<close>)

lemma run_commands_acks:
  "run_commands p n cl cs s = Some (b, s') \<Longrightarrow>
   \<exists>handled rest new. cs = handled @ rest \<and> acks s' = acks s @ new \<and>
     map fst new = map command_id (filter was_delivered handled) \<and> list_all (\<lambda>(_, ok, err). ok = (err = None)) new \<and>
     (if b then handled \<noteq> [] \<and> command_kind (last handled) = DrainAndRestart else rest = [])"
proof (induction cs arbitrary: s)
  case (Cons c cs)
  then obtain b1 s1 where c: "run_command p n cl c s = Some (b1, s1)" by (auto split: option.splits)
  obtain ok err where a: "acks s1 = acks s @ (if was_delivered c then [(command_id c, ok, err)] else [])"
    "ok = (err = None)" "b1 \<longrightarrow> command_kind c = DrainAndRestart" using run_command_acks [OF c] by blast
  show ?case
  proof (cases b1)
    case True
    then have "b" "s' = s1" using Cons.prems c by auto
    with True a show ?thesis
      by (intro exI [of _ "[c]"] exI [of _ cs] exI [of _ "if was_delivered c then [(command_id c, ok, err)] else []"]) auto
  next
    case False
    then have "run_commands p n cl cs s1 = Some (b, s')" using Cons.prems c by auto
    from Cons.IH [OF this] obtain handled rest new where h: "cs = handled @ rest" "acks s' = acks s1 @ new"
      "map fst new = map command_id (filter was_delivered handled)" "list_all (\<lambda>(_, ok, err). ok = (err = None)) new"
      "if b then handled \<noteq> [] \<and> command_kind (last handled) = DrainAndRestart else rest = []" by blast
    with a show ?thesis
      by (intro exI [of _ "c # handled"] exI [of _ rest] exI [of _ "(if was_delivered c then [(command_id c, ok, err)] else []) @ new"])
        auto
  qed
qed simp

section \<open>Where the configuration comes from\<close>

text \<open>An update that carries the HMAC of its text under the key.\<close>

definition signed_update :: "string \<Rightarrow> config_update \<Rightarrow> bool" where
  "signed_update key upd \<longleftrightarrow>
     (\<exists>signature. update_signature upd = Some signature \<and>
       trim (unwrap_or (strip_prefix ''hmac-sha256='' signature) signature) =
         hex_lower (hmac_standard (as_bytes key) (as_bytes (update_pipeline_config upd))))"

text \<open>The configuration is the text of a signed update that one of the first \<open>calls\<close> answers contained.\<close>

definition received_signed :: "('x, 'v) control_plane \<Rightarrow> control_client \<Rightarrow> string \<Rightarrow> nat \<Rightarrow> pipeline_config \<Rightarrow> bool" where
  "received_signed p cl key calls cfg \<longleftrightarrow>
     (\<exists>k < calls. \<exists>current upd. fetch_config_update (plane p k) (values_of p) cl current = Inr (Some upd) \<and>
        signed_update key upd \<and> parse_pipeline_config (yaml_pipeline p) (update_pipeline_config upd) = Inr cfg)"

lemma received_signed_mono: "received_signed p cl key k cfg \<Longrightarrow> k \<le> k' \<Longrightarrow> received_signed p cl key k' cfg"
  unfolding received_signed_def by (meson order_less_le_trans)

definition config_from :: "('x, 'v) control_plane \<Rightarrow> control_client \<Rightarrow> string \<Rightarrow> pipeline_config \<Rightarrow> 'x control_state \<Rightarrow> bool" where
  "config_from p cl key cfg0 s \<longleftrightarrow> rt_config (cs_runtime s) = cfg0 \<or> received_signed p cl key (cs_calls s) (rt_config (cs_runtime s))"

lemma config_from_same:
  "config_from p cl key cfg0 s \<Longrightarrow> rt_config (cs_runtime s') = rt_config (cs_runtime s) \<Longrightarrow> cs_calls s \<le> cs_calls s' \<Longrightarrow>
   config_from p cl key cfg0 s'"
  by (auto simp: config_from_def intro: received_signed_mono)

lemma ack_calls [simp]: "k \<le> cs_calls s \<Longrightarrow> k \<le> cs_calls (ack_if_delivered p cl c b e s)"
  by (simp add: ack_if_delivered_def call_plane_def)

lemma validated_signed:
  assumes "\<not> blank key" and "config_signing_key (cc_security cl) = Some key"
    and "client_validate_config_update fy cl upd = Inr cfg"
  shows "signed_update key upd \<and> parse_pipeline_config fy (update_pipeline_config upd) = Inr cfg"
  using assms validate_signature_iff [OF assms(1), of upd]
  by (auto simp: client_validate_config_update_def validate_config_update_def Let_def signed_update_def res_bind_Inr_iff split: if_splits)

lemma fetch_config_from:
  assumes key: "\<not> blank key" "config_signing_key (cc_security cl) = Some key"
    and i: "config_from p cl key cfg0 s" and f: "fetch_and_apply_config p cl v s = (res, s')"
  shows "config_from p cl key cfg0 s'"
proof -
  have same: "config_from p cl key cfg0 s'" if "rt_config (cs_runtime s') = rt_config (cs_runtime s)"
    using config_from_same [OF i that] fetch_frame(4) [OF f] by simp
  show ?thesis
  proof (cases "fetch_config_update (plane p (cs_calls s)) (values_of p) cl v")
    case (Inl e)
    then show ?thesis using f by (intro same) (auto simp: fetch_and_apply_config_def call_plane_def)
  next
    case (Inr u)
    show ?thesis
    proof (cases "\<exists>upd cfg. u = Some upd \<and> client_validate_config_update (yaml_pipeline p) cl upd = Inr cfg")
      case False
      then show ?thesis using f Inr
        by (intro same) (auto simp: fetch_and_apply_config_def call_plane_def Let_def split: option.splits sum.splits)
    next
      case True
      then obtain upd cfg where u: "u = Some upd" "client_validate_config_update (yaml_pipeline p) cl upd = Inr cfg" by blast
      then obtain r rt where rel: "reload_config (make_exporters p) cfg (record_control_config_fetch True (cs_runtime s)) = (r, rt)"
        and rt: "cs_runtime s' = rt" "cs_calls s' = Suc (cs_calls s)"
        using f Inr fetch_frame(4) [OF f]
        by (cases "reload_config (make_exporters p) cfg (record_control_config_fetch True (cs_runtime s))")
          (auto simp: fetch_and_apply_config_def call_plane_def Let_def split: sum.splits)
      have "received_signed p cl key (Suc (cs_calls s)) cfg"
        using Inr u validated_signed [OF key u(2)] unfolding received_signed_def by blast
      with reload_cases [OF rel] rt same show ?thesis by (auto simp: config_from_def)
    qed
  qed
qed

lemma run_command_config:
  assumes key: "\<not> blank key" "config_signing_key (cc_security cl) = Some key"
    and i: "config_from p cl key cfg0 s" and idle: "idle_runtime (cs_runtime s)" and n: "0 < n"
    and c: "run_command p n cl c s = Some (b, s')"
  shows "config_from p cl key cfg0 s'"
proof (cases "command_kind c")
  case ReloadConfig
  obtain res s1 where f: "fetch_and_apply_config p cl (applied_config_version s) s = (res, s1)"
    by (cases "fetch_and_apply_config p cl (applied_config_version s) s")
  then have "cs_runtime s' = cs_runtime s1 \<and> cs_calls s1 \<le> cs_calls s'"
    using ReloadConfig c by (auto simp: run_command_def split: sum.splits option.splits)
  then show ?thesis using config_from_same [OF fetch_config_from [OF key i f]] by simp
next
  case DrainAndRestart
  obtain res rt' where d: "drain_rounds (export_to p) (drain_clock p (cs_calls s)) n 0 (cs_runtime s) = Some (res, rt')"
    "rt_config rt' = rt_config (cs_runtime s)" using drain_rounds_total [OF idle n] by blast
  have "rt_config (cs_runtime s') = rt_config (cs_runtime s) \<and> cs_calls s \<le> cs_calls s'"
    using DrainAndRestart c d
    by (cases res) (auto simp: run_command_def drain_and_exit_def Let_def)
  then show ?thesis using config_from_same [OF i] by blast
qed (use c in \<open>auto simp: run_command_def on_runtime_def intro!: config_from_same [OF i]\<close>)

lemma run_commands_config:
  assumes key: "\<not> blank key" "config_signing_key (cc_security cl) = Some key" and n: "0 < n"
  shows "config_from p cl key cfg0 s \<Longrightarrow> idle_runtime (cs_runtime s) \<Longrightarrow> run_commands p n cl cs s = Some (b, s') \<Longrightarrow>
    config_from p cl key cfg0 s'"
proof (induction cs arbitrary: s)
  case (Cons c cs)
  obtain b1 s1 where c: "run_command p n cl c s = Some (b1, s1)" "worker_kept s s1"
    using run_command_total [OF Cons.prems(2) n] by blast
  have "config_from p cl key cfg0 s1" by (rule run_command_config [OF key Cons.prems(1,2) n c(1)])
  with Cons.IH [of s1] Cons.prems(3) c show ?case by (auto simp: worker_kept_def split: if_splits)
qed simp

lemma control_tick_config:
  assumes key: "\<not> blank key" "config_signing_key (cc_security cl) = Some key" and n: "0 < n"
    and i: "config_from p cl key cfg0 s" and idle: "idle_runtime (cs_runtime s)" and t: "control_tick p n cl s = Some (b, s')"
  shows "config_from p cl key cfg0 s'"
proof -
  obtain go s1 where r: "try_register p cl s = (go, s1)" by (cases "try_register p cl s")
  note k = try_register_kept [OF idle r]
  have i1: "config_from p cl key cfg0 s1" using config_from_same [OF i] k(3,4) by simp
  have idle1: "idle_runtime (cs_runtime s1)" using k(1) by (simp add: worker_kept_def)
  have i2: "config_from p cl key cfg0 (on_runtime (record_control_heartbeat h) (s1\<lparr>cs_calls := Suc (cs_calls s1)\<rparr>))"
    and idle2: "idle_runtime (cs_runtime (on_runtime (record_control_heartbeat h) (s1\<lparr>cs_calls := Suc (cs_calls s1)\<rparr>)))" for h
    using config_from_same [OF i1] idle1 by (simp_all add: idle_runtime_def)
  show ?thesis
    using t r i1 i2 run_commands_config [OF key n i2 idle2]
    by (auto simp: control_tick_def call_plane_def Let_def split: if_splits bool.splits sum.splits)
qed

lemma control_ticks_config:
  assumes key: "\<not> blank key" "config_signing_key (cc_security cl) = Some key" and n: "0 < n"
  shows "config_from p cl key cfg0 s \<Longrightarrow> idle_runtime (cs_runtime s) \<Longrightarrow> control_ticks m p n cl s = Some (b, s') \<Longrightarrow>
    config_from p cl key cfg0 s'"
proof (induction m arbitrary: s)
  case (Suc m)
  obtain b1 s1 where c: "control_tick p n cl s = Some (b1, s1)" "worker_kept s s1"
    using control_tick_total [OF Suc.prems(2) n] by blast
  have "config_from p cl key cfg0 s1" by (rule control_tick_config [OF key n Suc.prems(1,2) c(1)])
  with Suc.IH [of s1] Suc.prems(3) c show ?case by (auto simp: worker_kept_def split: if_splits)
qed simp

end
