(* ===== verification/Agent_Properties.thy ===== *)
theory Agent_Properties
  imports Agent_Workers Runtime_Properties
begin

text \<open>The properties of the agent process: shutdown, the control worker, acknowledgements, and the configuration in force. The workers are
  taken one at a time here; \<^verbatim>\<open>Agent_Drain\<close> has a drain among the other tasks.\<close>

section \<open>Concrete surroundings for the witnesses\<close>

definition deaf_plane :: "(unit, unit) control_plane" where
  "deaf_plane =
     \<lparr>plane = (\<lambda>_ _ _. Inl ''connection refused''),
      values_of = \<lparr>yaml_from_str = (\<lambda>_. Inr ()), mapping_get = (\<lambda>_. None), as_str = (\<lambda>_. None), as_bool = (\<lambda>_. None),
                  as_u64 = (\<lambda>_. None), as_sequence = (\<lambda>_. None), is_null = (\<lambda>_. True)\<rparr>,
      yaml_pipeline = (\<lambda>_. Inl ''not yaml''), make_exporters = unit_exporters, export_to = steady,
      drain_clock = (\<lambda>_ _ _ _. 0), io_message = (\<lambda>_. ''error'')\<rparr>"

definition sample_client :: control_client where
  "sample_client =
     \<lparr>cc_endpoint = \<lparr>ep_scheme = Http, ep_host = ''control'', ep_port = 80\<rparr>, cc_agent_id = ''a1'', cc_tenant_id = ''t'',
      cc_hostname = ''h'', cc_version = ''0.1.0'',
      cc_security = \<lparr>auth_token = None, sec_tls = tls_disabled, config_signing_key = Some ''secret''\<rparr>\<rparr>"

definition sample_runtime :: "unit agent_runtime" where
  "sample_runtime = opened [''stdout'' \<mapsto> ()] default_config sample_queue"

lemma sample_idle: "idle_runtime sample_runtime"
  using sample_queue by (simp add: sample_runtime_def idle_runtime_def opened_def)

section \<open>Shutdown\<close>








section \<open>The control worker\<close>

text \<open>With no other task in between, every tick of the control worker ends, whatever the control plane answers, and leaves the
  queue sound and the flush flag clear; payloads leave the queue at its front only; and the worker comes to the exit of the process only with the
  queue empty. (Between that flush and the exit the acknowledgement is awaited, and a receiver may put records into the queue then: they
  stay there for the next process.)\<close>

theorem worker_total:
  assumes "idle_runtime rt" and "0 < n"
  shows "\<exists>exited s. control_ticks m p n cl (start_control_worker rt) = Some (exited, s) \<and> idle_runtime (cs_runtime s) \<and>
    (\<exists>j. pending (rt_queue (cs_runtime s)) = drop j (pending (rt_queue rt))) \<and>
    (exited \<longrightarrow> pending (rt_queue (cs_runtime s)) = [])"
  using control_ticks_total [of "start_control_worker rt" n m p cl] assms
  by (auto simp: worker_kept_def drained_to_def start_control_worker_def)

theorem worker_total_witness:
  "\<exists>exited s. control_ticks 3 deaf_plane 128 sample_client (start_control_worker sample_runtime) = Some (exited, s) \<and>
     idle_runtime (cs_runtime s)"
  using worker_total [OF sample_idle, of 128 3 deaf_plane sample_client] by fastforce

text \<open>Property C15 (commands_acknowledged). Of the commands in an answer, the worker handles all, in order, or, when the
  process exits, those up to a \<^verbatim>\<open>drain_and_restart\<close>. It acknowledges each handled command that is marked
  as delivered, once and in the same order, and no other; an acknowledgement carries an error exactly when
  it reports a failure.\<close>

theorem commands_acknowledged:
  assumes "run_commands p n cl commands s = Some (exited, s')"
  shows "\<exists>handled rest new. commands = handled @ rest \<and> acks s' = acks s @ new \<and>
    map fst new = map command_id (filter was_delivered handled) \<and> list_all (\<lambda>(_, ok, err). ok = (err = None)) new \<and>
    (if exited then handled \<noteq> [] \<and> command_kind (last handled) = DrainAndRestart else rest = [])"
  by (rule run_commands_acks [OF assms])

definition sample_commands :: "control_command list" where
  "sample_commands =
     [\<lparr>command_id = ''c1'', command_kind = PauseExports, command_reason = ''load'', command_status = Delivered\<rparr>,
      \<lparr>command_id = ''c2'', command_kind = UnknownCommand, command_reason = '''', command_status = PendingCommand\<rparr>,
      \<lparr>command_id = ''c3'', command_kind = UnknownCommand, command_reason = '''', command_status = Delivered\<rparr>]"

theorem commands_acknowledged_witness:
  "\<exists>s new. run_commands deaf_plane 128 sample_client sample_commands (start_control_worker sample_runtime) = Some (False, s) \<and>
     acks s = new \<and> map fst new = [''c1'', ''c3'']"
proof -
  obtain s where r: "run_commands deaf_plane 128 sample_client sample_commands (start_control_worker sample_runtime) = Some (False, s)"
    by (simp add: sample_commands_def run_command_def)
  from commands_acknowledged [OF r] show ?thesis using r by (simp add: sample_commands_def start_control_worker_def)
qed

text \<open>Property C11 (config_authentic). With a signing key configured, the pipeline that the runtime runs after any number of
  ticks is the one it started with, or the text of an update that the control plane did send and that
  carries the HMAC of that text under the key. No answer of the control plane can install anything else.\<close>

theorem config_authentic:
  assumes "\<not> blank key" and "config_signing_key (cc_security cl) = Some key" and "idle_runtime rt" and "0 < n"
    and "control_ticks m p n cl (start_control_worker rt) = Some (exited, s)"
  shows "rt_config (cs_runtime s) = rt_config rt \<or> received_signed p cl key (cs_calls s) (rt_config (cs_runtime s))"
  using control_ticks_config [OF assms(1,2,4), of p "rt_config rt" "start_control_worker rt" m exited s] assms(3,5)
  by (simp add: config_from_def start_control_worker_def)

theorem config_authentic_witness:
  "\<exists>exited s. control_ticks 2 deaf_plane 128 sample_client (start_control_worker sample_runtime) = Some (exited, s) \<and>
     (rt_config (cs_runtime s) = default_config \<or>
      received_signed deaf_plane sample_client ''secret'' (cs_calls s) (rt_config (cs_runtime s)))"
proof -
  obtain exited s where t: "control_ticks 2 deaf_plane 128 sample_client (start_control_worker sample_runtime) = Some (exited, s)"
    using control_ticks_total [of "start_control_worker sample_runtime" 128 2 deaf_plane sample_client] sample_idle
    by (auto simp: start_control_worker_def)
  have "\<not> blank ''secret''" by code_simp
  moreover have "config_signing_key (cc_security sample_client) = Some ''secret''" by (simp add: sample_client_def)
  ultimately show ?thesis using config_authentic [OF _ _ sample_idle _ t] t by (auto simp: sample_runtime_def)
qed

end
