(* ===== verification/Otlp_Convert.thy ===== *)
theory Otlp_Convert
  imports Telemetry
begin

text \<open>
  From OTLP requests to records (\<^verbatim>\<open>crates/telemetry-otlp/src/lib.rs\<close>). The message types come from the crate
  \<^verbatim>\<open>opentelemetry_proto\<close>; the types here have the fields that the code reads or writes. Doubles are values
  of the type parameter \<open>'f\<close>; \<open>proto_api\<close> has what is used of \<^verbatim>\<open>f64\<close> and of the enumerations of the crate.
  Each record reads the clock once, in the order in which the records are made.
\<close>

section \<open>Messages\<close>

record 'f proto_api =
  show_f64 :: "'f \<Rightarrow> string"
  parse_f64 :: "string \<Rightarrow> 'f option"
  is_finite :: "'f \<Rightarrow> bool"
  f64_of_int :: "int \<Rightarrow> 'f"
  f64_default :: 'f
  f64_neg :: "'f \<Rightarrow> 'f"
  f64_powf :: "'f \<Rightarrow> 'f \<Rightarrow> 'f"
  f64_powi :: "'f \<Rightarrow> int \<Rightarrow> 'f"
  f64_total_le :: "'f \<Rightarrow> 'f \<Rightarrow> bool"
  temporality_name :: "int \<Rightarrow> string option"
  temporality_unspecified :: int
  temporality_delta :: int
  temporality_cumulative :: int
  severity_unspecified :: int

text \<open>\<open>AnyNone\<close> is an \<^verbatim>\<open>AnyValue\<close> with no value.\<close>

datatype 'f any_value =
  AnyNone
| StringValue string
| BoolValue bool
| IntValue int
| DoubleValue 'f
| BytesValue "u8 list"
| ArrayValue "'f any_value list"
| KvlistValue "(string \<times> 'f any_value option) list"
| StringValueStrindex int

type_synonym 'f key_value = "string \<times> 'f any_value option"

record 'f otlp_span =
  sp_trace_id :: "u8 list"
  sp_span_id :: "u8 list"
  sp_parent_span_id :: "u8 list"
  sp_name :: string
  sp_kind :: int
  sp_start_time_unix_nano :: u64
  sp_end_time_unix_nano :: u64
  sp_attributes :: "'f key_value list"

record 'f otlp_log =
  lg_time_unix_nano :: u64
  lg_observed_time_unix_nano :: u64
  lg_severity_number :: int
  lg_severity_text :: string
  lg_body :: "'f any_value option"
  lg_attributes :: "'f key_value list"
  lg_flags :: nat
  lg_trace_id :: "u8 list"
  lg_span_id :: "u8 list"
  lg_event_name :: string

datatype 'f number_value = AsDouble 'f | AsInt int

record 'f otlp_exemplar =
  ex_filtered_attributes :: "'f key_value list"
  ex_time_unix_nano :: u64
  ex_span_id :: "u8 list"
  ex_trace_id :: "u8 list"
  ex_value :: "'f number_value option"

record 'f number_data_point =
  np_attributes :: "'f key_value list"
  np_start_time_unix_nano :: u64
  np_time_unix_nano :: u64
  np_value :: "'f number_value option"
  np_exemplars :: "'f otlp_exemplar list"
  np_flags :: nat

record 'f histogram_data_point =
  hp_attributes :: "'f key_value list"
  hp_start_time_unix_nano :: u64
  hp_time_unix_nano :: u64
  hp_count :: u64
  hp_sum :: "'f option"
  hp_bucket_counts :: "u64 list"
  hp_explicit_bounds :: "'f list"
  hp_exemplars :: "'f otlp_exemplar list"
  hp_flags :: nat
  hp_min :: "'f option"
  hp_max :: "'f option"

record exponential_buckets =
  bk_offset :: int
  bk_bucket_counts :: "u64 list"

record 'f exponential_data_point =
  xp_attributes :: "'f key_value list"
  xp_start_time_unix_nano :: u64
  xp_time_unix_nano :: u64
  xp_count :: u64
  xp_sum :: "'f option"
  xp_scale :: int
  xp_zero_count :: u64
  xp_positive :: "exponential_buckets option"
  xp_negative :: "exponential_buckets option"
  xp_flags :: nat
  xp_exemplars :: "'f otlp_exemplar list"
  xp_min :: "'f option"
  xp_max :: "'f option"
  xp_zero_threshold :: 'f

record 'f summary_data_point =
  sm_attributes :: "'f key_value list"
  sm_start_time_unix_nano :: u64
  sm_time_unix_nano :: u64
  sm_count :: u64
  sm_sum :: 'f
  sm_quantile_values :: "('f \<times> 'f) list"
  sm_flags :: nat

datatype 'f metric_data =
  GaugeData "'f number_data_point list"
| SumData "'f number_data_point list" int bool
| HistogramData "'f histogram_data_point list" int
| ExponentialHistogramData "'f exponential_data_point list" int
| SummaryData "'f summary_data_point list"

record 'f otlp_metric =
  mt_name :: string
  mt_description :: string
  mt_unit :: string
  mt_data :: "'f metric_data option"

text \<open>A request is a list of resources, each with scopes, each with items; of a scope only the name is read.\<close>

record 'a scope_items =
  scope_name_of :: "string option"
  items_of :: "'a list"

record ('f, 'a) resource_items =
  resource_of :: "'f key_value list option"
  scopes_of :: "'a scope_items list"

type_synonym 'f trace_request = "('f, 'f otlp_span) resource_items list"
type_synonym 'f metrics_request = "('f, 'f otlp_metric) resource_items list"
type_synonym 'f logs_request = "('f, 'f otlp_log) resource_items list"

section \<open>Texts\<close>

definition hex_char :: "nat \<Rightarrow> char" where
  "hex_char n = ''0123456789abcdef'' ! n"

definition hex_encode :: "u8 list \<Rightarrow> string" where
  "hex_encode bs = concat (map (\<lambda>b. [hex_char (unat b div 16), hex_char (unat b mod 16)]) bs)"

definition show_int :: "int \<Rightarrow> string" where
  "show_int i = (if i < 0 then CHR ''-'' # show_nat (nat (- i)) else show_nat (nat i))"

definition show_bool :: "bool \<Rightarrow> string" where
  "show_bool b = (if b then ''true'' else ''false'')"

fun join :: "string \<Rightarrow> string list \<Rightarrow> string" where
  "join sep [] = []"
| "join sep [s] = s"
| "join sep (s # t # ts) = s @ sep @ join sep (t # ts)"

fun any_value_to_string :: "'f proto_api \<Rightarrow> 'f any_value \<Rightarrow> string" where
  "any_value_to_string api AnyNone = []"
| "any_value_to_string api (StringValue s) = s"
| "any_value_to_string api (BoolValue b) = show_bool b"
| "any_value_to_string api (IntValue i) = show_int i"
| "any_value_to_string api (DoubleValue d) = show_f64 api d"
| "any_value_to_string api (BytesValue bs) = hex_encode bs"
| "any_value_to_string api (ArrayValue vs) = ''['' @ join '','' (map (any_value_to_string api) vs) @ '']''"
| "any_value_to_string api (KvlistValue kvs) =
     ''{'' @ join '','' (map (\<lambda>(k, v). k @ ''='' @ (case v of None \<Rightarrow> [] | Some a \<Rightarrow> any_value_to_string api a))
       (filter (\<lambda>(k, v). \<not> blank k) kvs)) @ ''}''"
| "any_value_to_string api (StringValueStrindex i) = show_int i"

definition attributes_from_key_values :: "'f proto_api \<Rightarrow> string \<Rightarrow> 'f key_value list \<Rightarrow> (string \<times> string) list" where
  "attributes_from_key_values api pre kvs =
     map (\<lambda>(k, v). (if pre = [] then k else pre @ k, case v of None \<Rightarrow> [] | Some a \<Rightarrow> any_value_to_string api a))
       (filter (\<lambda>(k, v). \<not> blank k) kvs)"

definition join_u64_values :: "u64 list \<Rightarrow> string" where
  "join_u64_values vs = join '','' (map show_nat vs)"

definition join_f64_values :: "'f proto_api \<Rightarrow> 'f list \<Rightarrow> string" where
  "join_f64_values api vs = join '','' (map (show_f64 api) vs)"

definition join_quantile_values :: "'f proto_api \<Rightarrow> ('f \<times> 'f) list \<Rightarrow> string" where
  "join_quantile_values api vs = join '','' (map (\<lambda>(qu, v). show_f64 api qu @ '':'' @ show_f64 api v) vs)"

definition number_value_to_string :: "'f proto_api \<Rightarrow> 'f number_value \<Rightarrow> (string \<times> string) option" where
  "number_value_to_string api v =
     (case v of
        AsDouble d \<Rightarrow> if is_finite api d then Some (''double'', show_f64 api d) else None
      | AsInt i \<Rightarrow> Some (''int'', show_int i))"

definition exemplar_value_to_string :: "'f proto_api \<Rightarrow> 'f number_value \<Rightarrow> (string \<times> string) option" where
  "exemplar_value_to_string api v =
     (case v of
        AsDouble d \<Rightarrow> if is_finite api d then Some (''double'', show_f64 api d) else None
      | AsInt i \<Rightarrow> Some (''int'', show_int i))"

definition aggregation_temporality_name :: "'f proto_api \<Rightarrow> int \<Rightarrow> string option" where
  "aggregation_temporality_name api t = temporality_name api t"

section \<open>Records\<close>

definition with_attributes :: "(string \<times> string) list \<Rightarrow> telemetry_record \<Rightarrow> telemetry_record" where
  "with_attributes kvs r = fold (\<lambda>(k, v). with_attribute k v) kvs r"

definition opt_attribute :: "string \<Rightarrow> string option \<Rightarrow> (string \<times> string) list" where
  "opt_attribute k v = (case v of None \<Rightarrow> [] | Some s \<Rightarrow> [(k, s)])"

definition text_attribute :: "string \<Rightarrow> string \<Rightarrow> (string \<times> string) list" where
  "text_attribute k s = (if s = [] then [] else [(k, s)])"

definition span_to_record ::
  "'f proto_api \<Rightarrow> string \<Rightarrow> (string \<times> string) list \<Rightarrow> string \<Rightarrow> 'f otlp_span \<Rightarrow> 128 word \<Rightarrow> telemetry_record" where
  "span_to_record api tenant resource_attributes scope_name span now =
     with_attributes
       ([(''otel.signal'', ''trace''), (''otel.span.name'', sp_name span),
         (''otel.trace_id'', hex_encode (sp_trace_id span)), (''otel.span_id'', hex_encode (sp_span_id span)),
         (''otel.parent_span_id'', hex_encode (sp_parent_span_id span)), (''otel.span.kind'', show_int (sp_kind span)),
         (''otel.start_unix_nano'', show_nat (sp_start_time_unix_nano span)),
         (''otel.end_unix_nano'', show_nat (sp_end_time_unix_nano span))] @
        text_attribute ''otel.scope.name'' scope_name @ resource_attributes @
        attributes_from_key_values api [] (sp_attributes span))
       (record_new now tenant Trace (as_bytes (sp_name span)))"

definition log_record_to_record ::
  "'f proto_api \<Rightarrow> string \<Rightarrow> (string \<times> string) list \<Rightarrow> string \<Rightarrow> 'f otlp_log \<Rightarrow> 128 word \<Rightarrow> telemetry_record" where
  "log_record_to_record api tenant resource_attributes scope_name lg now =
     (let b = (case lg_body lg of
                 None \<Rightarrow> lg_event_name lg
               | Some v \<Rightarrow> let s = any_value_to_string api v in if blank s then lg_event_name lg else s) in
      with_attributes
        ([(''otel.signal'', ''log''), (''otel.log.time_unix_nano'', show_nat (lg_time_unix_nano lg)),
          (''otel.log.observed_time_unix_nano'', show_nat (lg_observed_time_unix_nano lg)),
          (''otel.log.severity_number'', show_int (lg_severity_number lg)),
          (''otel.log.severity_text'', lg_severity_text lg), (''otel.trace_id'', hex_encode (lg_trace_id lg)),
          (''otel.span_id'', hex_encode (lg_span_id lg)), (''otel.log.flags'', show_nat (lg_flags lg))] @
         text_attribute ''otel.log.event_name'' (lg_event_name lg) @ text_attribute ''otel.scope.name'' scope_name @
         resource_attributes @ attributes_from_key_values api [] (lg_attributes lg))
        (record_new now tenant Log (as_bytes b)))"

record metric_metadata =
  md_name :: string
  md_description :: string
  md_unit :: string
  md_data_type :: string
  md_temporality :: "int option"
  md_is_monotonic :: "bool option"

definition metric_record_base ::
  "'f proto_api \<Rightarrow> string \<Rightarrow> (string \<times> string) list \<Rightarrow> string \<Rightarrow> metric_metadata \<Rightarrow> 'f key_value list \<Rightarrow>
   u64 \<Rightarrow> u64 \<Rightarrow> nat \<Rightarrow> 128 word \<Rightarrow> telemetry_record" where
  "metric_record_base api tenant resource_attributes scope_name md kvs start_time time flags now =
     with_attributes
       ([(''otel.signal'', ''metric''), (''otel.metric.name'', md_name md), (''otel.metric.data_type'', md_data_type md),
         (''otel.metric.time_unix_nano'', show_nat time), (''otel.metric.start_time_unix_nano'', show_nat start_time),
         (''otel.metric.flags'', show_nat flags)] @
        text_attribute ''otel.metric.description'' (md_description md) @ text_attribute ''otel.metric.unit'' (md_unit md) @
        (case md_temporality md of
           None \<Rightarrow> []
         | Some t \<Rightarrow> (''otel.metric.aggregation_temporality'', show_int t) #
             opt_attribute ''otel.metric.aggregation_temporality_name'' (aggregation_temporality_name api t)) @
        opt_attribute ''otel.metric.is_monotonic'' (map_option show_bool (md_is_monotonic md)) @
        text_attribute ''otel.scope.name'' scope_name @ resource_attributes @ attributes_from_key_values api [] kvs)
       (record_new now tenant Metric (as_bytes (md_name md)))"

definition exemplar_attributes :: "'f proto_api \<Rightarrow> nat \<times> 'f otlp_exemplar \<Rightarrow> (string \<times> string) list" where
  "exemplar_attributes api ie =
     (case ie of (index, ex) \<Rightarrow>
        let pre = ''otel.metric.exemplar.'' @ show_nat index in
        [(pre @ ''.time_unix_nano'', show_nat (ex_time_unix_nano ex)),
         (pre @ ''.trace_id'', hex_encode (ex_trace_id ex)), (pre @ ''.span_id'', hex_encode (ex_span_id ex))] @
        (case Option.bind (ex_value ex) (exemplar_value_to_string api) of
           Some (value_type, v) \<Rightarrow> [(pre @ ''.value'', v), (pre @ ''.value_type'', value_type)]
         | None \<Rightarrow> []) @
        attributes_from_key_values api (pre @ ''.filtered.'') (ex_filtered_attributes ex))"

definition append_exemplar_attributes :: "'f proto_api \<Rightarrow> 'f otlp_exemplar list \<Rightarrow> telemetry_record \<Rightarrow> telemetry_record" where
  "append_exemplar_attributes api exemplars r =
     (if exemplars = [] then r
      else
        with_attributes
          ((''otel.metric.exemplar.count'', show_nat (length exemplars)) #
           concat (map (exemplar_attributes api) (List.enumerate 0 exemplars))) r)"

definition number_data_point_to_record ::
  "'f proto_api \<Rightarrow> string \<Rightarrow> (string \<times> string) list \<Rightarrow> string \<Rightarrow> metric_metadata \<Rightarrow> 'f number_data_point \<Rightarrow>
   (128 word \<Rightarrow> telemetry_record) option" where
  "number_data_point_to_record api tenant resource_attributes scope_name md p =
     map_option (\<lambda>(value_type, v) now.
       append_exemplar_attributes api (np_exemplars p)
         (with_attributes [(''otel.metric.value'', v), (''otel.metric.value_type'', value_type)]
           (metric_record_base api tenant resource_attributes scope_name md (np_attributes p)
             (np_start_time_unix_nano p) (np_time_unix_nano p) (np_flags p) now)))
     (Option.bind (np_value p) (number_value_to_string api))"

definition histogram_data_point_to_record ::
  "'f proto_api \<Rightarrow> string \<Rightarrow> (string \<times> string) list \<Rightarrow> string \<Rightarrow> metric_metadata \<Rightarrow> 'f histogram_data_point \<Rightarrow>
   128 word \<Rightarrow> telemetry_record" where
  "histogram_data_point_to_record api tenant resource_attributes scope_name md p now =
     append_exemplar_attributes api (hp_exemplars p)
       (with_attributes
         ([(''otel.metric.count'', show_nat (hp_count p)), (''otel.metric.bucket_counts'', join_u64_values (hp_bucket_counts p)),
           (''otel.metric.explicit_bounds'', join_f64_values api (hp_explicit_bounds p))] @
          opt_attribute ''otel.metric.sum'' (map_option (show_f64 api) (hp_sum p)) @
          opt_attribute ''otel.metric.min'' (map_option (show_f64 api) (hp_min p)) @
          opt_attribute ''otel.metric.max'' (map_option (show_f64 api) (hp_max p)))
         (metric_record_base api tenant resource_attributes scope_name md (hp_attributes p)
           (hp_start_time_unix_nano p) (hp_time_unix_nano p) (hp_flags p) now))"

definition bucket_attributes :: "string \<Rightarrow> exponential_buckets option \<Rightarrow> (string \<times> string) list" where
  "bucket_attributes sign b =
     (case b of
        None \<Rightarrow> []
      | Some b \<Rightarrow> [(''otel.metric.'' @ sign @ ''_offset'', show_int (bk_offset b)),
                   (''otel.metric.'' @ sign @ ''_bucket_counts'', join_u64_values (bk_bucket_counts b))])"

definition exponential_histogram_data_point_to_record ::
  "'f proto_api \<Rightarrow> string \<Rightarrow> (string \<times> string) list \<Rightarrow> string \<Rightarrow> metric_metadata \<Rightarrow> 'f exponential_data_point \<Rightarrow>
   128 word \<Rightarrow> telemetry_record" where
  "exponential_histogram_data_point_to_record api tenant resource_attributes scope_name md p now =
     append_exemplar_attributes api (xp_exemplars p)
       (with_attributes
         ([(''otel.metric.count'', show_nat (xp_count p)), (''otel.metric.scale'', show_int (xp_scale p)),
           (''otel.metric.zero_count'', show_nat (xp_zero_count p)),
           (''otel.metric.zero_threshold'', show_f64 api (xp_zero_threshold p))] @
          opt_attribute ''otel.metric.sum'' (map_option (show_f64 api) (xp_sum p)) @
          opt_attribute ''otel.metric.min'' (map_option (show_f64 api) (xp_min p)) @
          opt_attribute ''otel.metric.max'' (map_option (show_f64 api) (xp_max p)) @
          bucket_attributes ''positive'' (xp_positive p) @ bucket_attributes ''negative'' (xp_negative p))
         (metric_record_base api tenant resource_attributes scope_name md (xp_attributes p)
           (xp_start_time_unix_nano p) (xp_time_unix_nano p) (xp_flags p) now))"

definition summary_data_point_to_record ::
  "'f proto_api \<Rightarrow> string \<Rightarrow> (string \<times> string) list \<Rightarrow> string \<Rightarrow> metric_metadata \<Rightarrow> 'f summary_data_point \<Rightarrow>
   128 word \<Rightarrow> telemetry_record" where
  "summary_data_point_to_record api tenant resource_attributes scope_name md p now =
     with_attributes
       [(''otel.metric.count'', show_nat (sm_count p)), (''otel.metric.sum'', show_f64 api (sm_sum p)),
        (''otel.metric.quantile_values'', join_quantile_values api (sm_quantile_values p))]
       (metric_record_base api tenant resource_attributes scope_name md (sm_attributes p)
         (sm_start_time_unix_nano p) (sm_time_unix_nano p) (sm_flags p) now)"

definition metric_to_records ::
  "'f proto_api \<Rightarrow> string \<Rightarrow> (string \<times> string) list \<Rightarrow> string \<Rightarrow> 'f otlp_metric \<Rightarrow> (128 word \<Rightarrow> telemetry_record) list" where
  "metric_to_records api tenant resource_attributes scope_name m =
     (let md = (\<lambda>data_type temporality mon.
            \<lparr>md_name = mt_name m, md_description = mt_description m, md_unit = mt_unit m, md_data_type = data_type,
             md_temporality = temporality, md_is_monotonic = mon\<rparr>) in
      case mt_data m of
        Some (GaugeData ps) \<Rightarrow>
          List.map_filter (number_data_point_to_record api tenant resource_attributes scope_name (md ''gauge'' None None)) ps
      | Some (SumData ps t monotonic) \<Rightarrow>
          List.map_filter (number_data_point_to_record api tenant resource_attributes scope_name (md ''sum'' (Some t) (Some monotonic))) ps
      | Some (HistogramData ps t) \<Rightarrow>
          map (histogram_data_point_to_record api tenant resource_attributes scope_name (md ''histogram'' (Some t) None)) ps
      | Some (ExponentialHistogramData ps t) \<Rightarrow>
          map (exponential_histogram_data_point_to_record api tenant resource_attributes scope_name
            (md ''exponential_histogram'' (Some t) None)) ps
      | Some (SummaryData ps) \<Rightarrow>
          map (summary_data_point_to_record api tenant resource_attributes scope_name (md ''summary'' None None)) ps
      | None \<Rightarrow> [])"

section \<open>Requests\<close>

text \<open>The three loops over resources and scopes are the same; \<open>stamp\<close> reads the clock for each record in turn.\<close>

definition resource_attributes_of :: "'f proto_api \<Rightarrow> ('f, 'a) resource_items \<Rightarrow> (string \<times> string) list" where
  "resource_attributes_of api ri =
     (case resource_of ri of None \<Rightarrow> [] | Some kvs \<Rightarrow> attributes_from_key_values api ''resource.'' kvs)"

definition scope_text :: "'a scope_items \<Rightarrow> string" where
  "scope_text si = (case scope_name_of si of None \<Rightarrow> [] | Some n \<Rightarrow> n)"

definition request_items ::
  "'f proto_api \<Rightarrow> ((string \<times> string) list \<Rightarrow> string \<Rightarrow> 'a \<Rightarrow> 'b list) \<Rightarrow> ('f, 'a) resource_items list \<Rightarrow> 'b list" where
  "request_items api f req =
     concat (map (\<lambda>ri. concat (map (\<lambda>si. concat (map (f (resource_attributes_of api ri) (scope_text si)) (items_of si)))
       (scopes_of ri))) req)"

definition stamp :: "(nat \<Rightarrow> 128 word) \<Rightarrow> (128 word \<Rightarrow> telemetry_record) list \<Rightarrow> telemetry_record list" where
  "stamp clock fs = map (\<lambda>(i, f). f (clock i)) (List.enumerate 0 fs)"

definition trace_request_to_records ::
  "'f proto_api \<Rightarrow> (nat \<Rightarrow> 128 word) \<Rightarrow> string \<Rightarrow> 'f trace_request \<Rightarrow> telemetry_record list" where
  "trace_request_to_records api clock tenant req =
     stamp clock (request_items api (\<lambda>ra sc span. [span_to_record api tenant ra sc span]) req)"

definition metrics_request_to_records ::
  "'f proto_api \<Rightarrow> (nat \<Rightarrow> 128 word) \<Rightarrow> string \<Rightarrow> 'f metrics_request \<Rightarrow> telemetry_record list" where
  "metrics_request_to_records api clock tenant req = stamp clock (request_items api (metric_to_records api tenant) req)"

definition logs_request_to_records ::
  "'f proto_api \<Rightarrow> (nat \<Rightarrow> 128 word) \<Rightarrow> string \<Rightarrow> 'f logs_request \<Rightarrow> telemetry_record list" where
  "logs_request_to_records api clock tenant req =
     stamp clock (request_items api (\<lambda>ra sc lg. [log_record_to_record api tenant ra sc lg]) req)"

end
