(* ===== verification/Http_Request.thy ===== *)
theory Http_Request
  imports Http_Text
begin

text \<open>
  Reading an OTLP/HTTP request (\<^verbatim>\<open>crates/telemetry-agent/src/otlp_http.rs\<close>): the bytes arrive in pieces of
  any size, and after each piece the buffer is searched for a complete request.
\<close>

section \<open>Text of the standard library\<close>

text \<open>\<^verbatim>\<open>String::from_utf8_lossy\<close>: each maximal ill-formed sequence becomes U+FFFD.\<close>

definition replacement_char :: string where
  "replacement_char = from_bytes [0xEF, 0xBF, 0xBD]"

function from_utf8_lossy :: "u8 list \<Rightarrow> string" where
  "from_utf8_lossy [] = []"
| "from_utf8_lossy (b # bs) =
     (case utf8_char (b # bs) of
        Inr w \<Rightarrow> from_bytes (take w (b # bs)) @ from_utf8_lossy (drop w (b # bs))
      | Inl (Some k) \<Rightarrow> replacement_char @ from_utf8_lossy (drop (max 1 k) (b # bs))
      | Inl None \<Rightarrow> replacement_char)"
  by pat_completeness auto
termination
proof (relation "measure length", goal_cases)
  case (3 b bs w)
  then have "0 < w" using utf8_char_width [of "b # bs" w] by simp
  then show ?case by simp
qed auto

text \<open>\<^verbatim>\<open>str::lines\<close>.\<close>

definition strip_cr :: "string \<Rightarrow> string" where
  "strip_cr l = (if l \<noteq> [] \<and> last l = CR then butlast l else l)"

function str_lines :: "string \<Rightarrow> string list" where
  "str_lines s =
     (if s = [] then []
      else
        (case dropWhile (\<lambda>c. c \<noteq> LF) s of
           [] \<Rightarrow> [s]
         | _ # rest \<Rightarrow> strip_cr (takeWhile (\<lambda>c. c \<noteq> LF) s) # str_lines rest))"
  by pat_completeness auto
termination
proof (relation "measure length", goal_cases)
  case (2 s c rest)
  then have "length (c # rest) \<le> length s" using length_dropWhile_le [of "\<lambda>c. c \<noteq> LF" s] by simp
  then show ?case by simp
qed simp

declare str_lines.simps [simp del]

fun find_map :: "('a \<Rightarrow> 'b option) \<Rightarrow> 'a list \<Rightarrow> 'b option" where
  "find_map f [] = None"
| "find_map f (x # xs) = (case f x of Some y \<Rightarrow> Some y | None \<Rightarrow> find_map f xs)"

section \<open>The request\<close>

definition MAX_OTLP_HTTP_BODY_BYTES :: usize where
  "MAX_OTLP_HTTP_BODY_BYTES = 16 * 1024 * 1024"

record otlp_http_request =
  req_method :: string
  req_path :: string
  req_content_type :: "string option"
  req_body :: "u8 list"

definition is_json :: "otlp_http_request \<Rightarrow> bool" where
  "is_json req =
     (case req_content_type req of
        None \<Rightarrow> False
      | Some v \<Rightarrow> eq_ignore_ascii_case (trim (takeWhile (\<lambda>c. c \<noteq> CHR '';'') v)) ''application/json'')"

fun find_header_end :: "u8 list \<Rightarrow> usize option" where
  "find_header_end [] = None"
| "find_header_end (b # bs) =
     (if take 4 (b # bs) = [13, 10, 13, 10] then Some 0 else map_option Suc (find_header_end bs))"

definition header_line_value :: "string \<Rightarrow> string \<Rightarrow> string option" where
  "header_line_value expected_name line =
     Option.bind (split_once '':'' line) (\<lambda>(name, v).
       if eq_ignore_ascii_case name expected_name then Some (trim v) else None)"

definition parse_header_value :: "string \<Rightarrow> string \<Rightarrow> string option" where
  "parse_header_value headers expected_name = find_map (header_line_value expected_name) (str_lines headers)"

definition parse_content_length :: "string \<Rightarrow> string + usize" where
  "parse_content_length headers =
     (case parse_header_value headers ''content-length'' of
        None \<Rightarrow> Inl ''missing Content-Length''
      | Some v \<Rightarrow> map_err show_parse_int_error (parse_uint u64_max v))"

text \<open>What the header says: method, path, content type and the length of the body.\<close>

definition parse_http_head :: "string \<Rightarrow> string + string \<times> string \<times> string option \<times> usize" where
  "parse_http_head headers =
     res_bind (ok_or ''missing HTTP request line'' (case str_lines headers of [] \<Rightarrow> None | l # _ \<Rightarrow> Some l)) (\<lambda>line.
     let parts = split_whitespace line in
     res_bind (ok_or ''missing HTTP method'' (case parts of m # _ \<Rightarrow> Some m | _ \<Rightarrow> None)) (\<lambda>method.
     res_bind (ok_or ''missing HTTP request path'' (case parts of _ # p # _ \<Rightarrow> Some p | _ \<Rightarrow> None)) (\<lambda>path.
     res_bind (parse_content_length headers) (\<lambda>content_length.
     let content_type = parse_header_value headers ''content-type'' in
     if content_length > MAX_OTLP_HTTP_BODY_BYTES then Inl ''OTLP/HTTP request exceeds maximum body size''
     else Inr (method, path, content_type, content_length)))))"

definition parse_buffered_http_request :: "u8 list \<Rightarrow> string + otlp_http_request option" where
  "parse_buffered_http_request buffer =
     (case find_header_end buffer of
        None \<Rightarrow> Inr None
      | Some header_end \<Rightarrow>
          res_bind (parse_http_head (from_utf8_lossy (take header_end buffer))) (\<lambda>(method, path, content_type, content_length).
          let body_start = header_end + 4; body_end = body_start + content_length in
          if length buffer < body_end then Inr None
          else Inr (Some \<lparr>req_method = method, req_path = path, req_content_type = content_type,
                         req_body = take content_length (drop body_start buffer)\<rparr>)))"

text \<open>The loop over what the stream returns: an error, or bytes, where no bytes mean the end.\<close>

fun read_otlp_http_request :: "(string + u8 list) list \<Rightarrow> u8 list \<Rightarrow> string + otlp_http_request" where
  "read_otlp_http_request [] buffer = Inl ''OTLP/HTTP request ended before full body''"
| "read_otlp_http_request (Inl err # reads) buffer = Inl err"
| "read_otlp_http_request (Inr chunk # reads) buffer =
     (if chunk = [] then Inl ''OTLP/HTTP request ended before full body''
      else
        (let buffer' = buffer @ chunk in
         case parse_buffered_http_request buffer' of
           Inl e \<Rightarrow> Inl e
         | Inr (Some req) \<Rightarrow> Inr req
         | Inr None \<Rightarrow>
             if length buffer' > MAX_OTLP_HTTP_BODY_BYTES then Inl ''OTLP/HTTP request exceeds maximum body size''
             else read_otlp_http_request reads buffer'))"

definition http_response_head :: "string \<Rightarrow> string \<Rightarrow> usize \<Rightarrow> string" where
  "http_response_head status content_type n =
     ''HTTP/1.1 '' @ status @ crlf @ ''Content-Type: '' @ content_type @ crlf @ ''Content-Length: '' @ show_nat n @ crlf @
     ''Connection: close'' @ crlf @ crlf"

definition write_http_response :: "string \<Rightarrow> string \<Rightarrow> u8 list \<Rightarrow> u8 list" where
  "write_http_response status content_type bs = as_bytes (http_response_head status content_type (length bs)) @ bs"

section \<open>The pieces do not matter\<close>

lemma pattern_length: "take 4 ys = [13, 10, 13, 10 :: u8] \<Longrightarrow> 4 \<le> length ys"
  using length_take [of 4 ys] by simp

lemma find_header_end_iff:
  "find_header_end xs = Some h \<longleftrightarrow>
     take 4 (drop h xs) = [13, 10, 13, 10] \<and> (\<forall>i < h. take 4 (drop i xs) \<noteq> [13, 10, 13, 10])"
proof (induction xs arbitrary: h)
  case (Cons x xs)
  show ?case
  proof (cases h)
    case 0
    then show ?thesis by auto
  next
    case (Suc k)
    have "(\<forall>i < Suc k. take 4 (drop i (x # xs)) \<noteq> [13, 10, 13, 10]) \<longleftrightarrow>
        take 4 (x # xs) \<noteq> [13, 10, 13, 10] \<and> (\<forall>i < k. take 4 (drop i xs) \<noteq> [13, 10, 13, 10])"
      by (auto simp: less_Suc_eq_0_disj)
    then show ?thesis using Cons.IH [of k] Suc by auto
  qed
qed simp

lemma find_header_end_append:
  assumes "find_header_end a = Some h"
  shows "find_header_end (a @ b) = Some h" and "h + 4 \<le> length a"
proof -
  note h = assms [unfolded find_header_end_iff]
  show len: "h + 4 \<le> length a" using pattern_length h by fastforce
  have "take 4 (drop i (a @ b)) = take 4 (drop i a)" if "i \<le> h" for i using that len by simp
  with h show "find_header_end (a @ b) = Some h" unfolding find_header_end_iff by (metis order_refl less_imp_le)
qed

lemma parse_buffered_append:
  "parse_buffered_http_request a = Inr None \<or> parse_buffered_http_request (a @ b) = parse_buffered_http_request a"
proof (cases "find_header_end a")
  case None
  then show ?thesis by (simp add: parse_buffered_http_request_def)
next
  case (Some h)
  note h = find_header_end_append(1) [OF Some, of b] find_header_end_append(2) [OF Some]
  show ?thesis
  proof (cases "parse_http_head (from_utf8_lossy (take h a))")
    case (Inl e)
    then show ?thesis using Some h by (simp add: parse_buffered_http_request_def)
  next
    case (Inr v)
    obtain m p c n where v: "v = (m, p, c, n)" by (cases v)
    show ?thesis
      using Some h Inr v by (cases "length a < h + 4 + n") (auto simp: parse_buffered_http_request_def Let_def)
  qed
qed

lemma read_chunks:
  assumes "list_all (\<lambda>c. c \<noteq> []) chunks" and "length (concat chunks) \<le> MAX_OTLP_HTTP_BODY_BYTES"
  shows "read_otlp_http_request (map Inr chunks) [] =
    (case parse_buffered_http_request (concat chunks) of
       Inl e \<Rightarrow> Inl e
     | Inr (Some req) \<Rightarrow> Inr req
     | Inr None \<Rightarrow> Inl ''OTLP/HTTP request ended before full body'')"
proof -
  have "parse_buffered_http_request buffer = Inr None \<Longrightarrow> length (buffer @ concat chunks) \<le> MAX_OTLP_HTTP_BODY_BYTES \<Longrightarrow>
      read_otlp_http_request (map Inr chunks) buffer =
      (case parse_buffered_http_request (buffer @ concat chunks) of
         Inl e \<Rightarrow> Inl e | Inr (Some req) \<Rightarrow> Inr req | Inr None \<Rightarrow> Inl ''OTLP/HTTP request ended before full body'')" for buffer
    using assms(1)
  proof (induction chunks arbitrary: buffer)
    case (Cons c cs)
    show ?case
    proof (cases "parse_buffered_http_request (buffer @ c) = Inr None")
      case True
      then show ?thesis using Cons.IH [OF True] Cons.prems by simp
    next
      case False
      then have "parse_buffered_http_request ((buffer @ c) @ concat cs) = parse_buffered_http_request (buffer @ c)"
        using parse_buffered_append by blast
      then show ?thesis using False Cons.prems by (auto split: sum.splits option.splits)
    qed
  qed simp
  from this [of "[]"] assms(2) show ?thesis by (simp add: parse_buffered_http_request_def)
qed

text \<open>
  Property C28 (request_reassembled). However the network cuts up a request of at most 16 MiB, the receiver
  sees the same: the request, or the error, that the whole text gives; and a request that is cut short is
  an error.
\<close>

theorem request_reassembled:
  assumes "list_all (\<lambda>c. c \<noteq> []) chunks" and "length (concat chunks) \<le> MAX_OTLP_HTTP_BODY_BYTES"
  shows "read_otlp_http_request (map Inr chunks) [] =
    (case parse_buffered_http_request (concat chunks) of
       Inl e \<Rightarrow> Inl e
     | Inr (Some req) \<Rightarrow> Inr req
     | Inr None \<Rightarrow> Inl ''OTLP/HTTP request ended before full body'')"
  by (rule read_chunks [OF assms])

definition sample_request :: "u8 list" where
  "sample_request =
     as_bytes (''POST /v1/logs HTTP/1.1'' @ crlf @ ''Content-Type: application/json'' @ crlf @ ''content-length: 2'' @ crlf @ crlf @ ''{}'')"

theorem request_reassembled_witness:
  "read_otlp_http_request (map Inr [take 30 sample_request, drop 30 sample_request]) [] =
     Inr \<lparr>req_method = ''POST'', req_path = ''/v1/logs'', req_content_type = Some ''application/json'', req_body = as_bytes ''{}''\<rparr>"
proof -
  have "list_all (\<lambda>c. c \<noteq> []) [take 30 sample_request, drop 30 sample_request]" by code_simp
  moreover have "length (concat [take 30 sample_request, drop 30 sample_request]) \<le> MAX_OTLP_HTTP_BODY_BYTES"
    by (simp add: sample_request_def MAX_OTLP_HTTP_BODY_BYTES_def)
  moreover have "parse_buffered_http_request sample_request =
      Inr (Some \<lparr>req_method = ''POST'', req_path = ''/v1/logs'', req_content_type = Some ''application/json'', req_body = as_bytes ''{}''\<rparr>)"
    by code_simp
  ultimately show ?thesis using request_reassembled [of "[take 30 sample_request, drop 30 sample_request]"] by simp
qed

section \<open>A header and a body\<close>

lemma parse_buffered_of_head:
  assumes "find_header_end h = Some k" and "length h = k + 4"
    and "parse_http_head (from_utf8_lossy (take k h)) = Inr (m, p, c, n)"
  shows "parse_buffered_http_request (h @ b) =
    (if length b < n then Inr None
     else Inr (Some \<lparr>req_method = m, req_path = p, req_content_type = c, req_body = take n b\<rparr>))"
  using assms find_header_end_append(1) [OF assms(1), of b] by (simp add: parse_buffered_http_request_def)

text \<open>
  The limit on the body is compared with the whole buffer, header included, whenever the request is not
  complete yet: a request with a body of exactly the largest size is accepted in one piece and refused when
  its last byte comes separately.
\<close>

definition large_head :: "u8 list" where
  "large_head = as_bytes (''POST /v1/logs HTTP/1.1'' @ crlf @ ''Content-Length: 16777216'' @ crlf @ crlf)"

lemma large_head_parsed:
  "find_header_end large_head = Some (length large_head - 4)" "length large_head = (length large_head - 4) + 4"
  "parse_http_head (from_utf8_lossy (take (length large_head - 4) large_head)) =
     Inr (''POST'', ''/v1/logs'', None, 16777216)" "length large_head = 52"
  by code_simp+

theorem limit_includes_header:
  fixes body :: "u8 list"
  assumes "length body = MAX_OTLP_HTTP_BODY_BYTES"
  shows "(\<exists>req. read_otlp_http_request [Inr (large_head @ body)] [] = Inr req \<and> req_body req = body) \<and>
    read_otlp_http_request [Inr (large_head @ butlast body), Inr [last body]] [] =
      Inl ''OTLP/HTTP request exceeds maximum body size''"
proof -
  have n: "length body = 16777216" using assms by (simp add: MAX_OTLP_HTTP_BODY_BYTES_def)
  note p = parse_buffered_of_head [OF large_head_parsed(1-3)]
  have "large_head \<noteq> []" using large_head_parsed(4) by auto
  then show ?thesis
    using p [of body] p [of "butlast body"] n large_head_parsed(4) by (simp add: MAX_OTLP_HTTP_BODY_BYTES_def)
qed

end
