(* ===== verification/Exporter_Http.thy ===== *)
theory Exporter_Http
  imports Http_Request Runtime
begin

text \<open>
  The exporters' side of the wire (\<^verbatim>\<open>crates/telemetry-exporters/src/lib.rs\<close>): errors, endpoints, the HTTP request
  that carries a batch and its answer, the Snappy framing of Prometheus remote write, and the exporters
  that write lines. Connecting (TCP, TLS) is a parameter.
\<close>

unbundle bit_operations_syntax

section \<open>Errors\<close>

datatype exporter_error =
  ExpIo io_error
| Grpc string
| UnsupportedExporter string
| InvalidEndpoint string
| Tls string

fun show_exporter_error :: "(io_error \<Rightarrow> string) \<Rightarrow> exporter_error \<Rightarrow> string" where
  "show_exporter_error show_io (ExpIo err) = ''exporter I/O error: '' @ show_io err"
| "show_exporter_error show_io (Grpc message) = ''exporter gRPC error: '' @ message"
| "show_exporter_error show_io (UnsupportedExporter name) = ''unsupported exporter: '' @ name"
| "show_exporter_error show_io (InvalidEndpoint endpoint) = ''invalid exporter endpoint: '' @ endpoint"
| "show_exporter_error show_io (Tls message) = ''exporter TLS error: '' @ message"

section \<open>Lines\<close>

definition format_record :: "telemetry_record \<Rightarrow> string" where
  "format_record r =
     ''tenant='' @ tenant_id r @ '' signal='' @ signal_as_str (signal r) @ '' attrs='' @ show_nat (length (attributes r)) @
     '' bytes='' @ show_nat (length (body r))"

text \<open>
  A writer is a value of the type parameter \<open>'w\<close>, with what \<^verbatim>\<open>write_all\<close> and \<^verbatim>\<open>flush\<close> do as arguments. The
  stdout exporter and the file exporter have the same loop.
\<close>

type_synonym 'w write_fn = "u8 list \<Rightarrow> ('w, io_error, unit) act"
type_synonym 'w flush_fn = "('w, io_error, unit) act"

fun write_lines :: "'w write_fn \<Rightarrow> telemetry_record list \<Rightarrow> usize \<Rightarrow> ('w, exporter_error, usize) act" where
  "write_lines write_all [] n = ok_act n"
| "write_lines write_all (r # rs) n =
     (let line = format_record r in
      seq_act (map_err_act ExpIo (write_all (as_bytes line)))
      (seq_act (map_err_act ExpIo (write_all [10]))
      (write_lines write_all rs (n + length line))))"

definition line_export :: "'w write_fn \<Rightarrow> 'w flush_fn \<Rightarrow> telemetry_record list \<Rightarrow> ('w, exporter_error, export_report) act" where
  "line_export write_all flush_writer batch =
     bind_act (write_lines write_all batch 0) (\<lambda>n.
     seq_act (map_err_act ExpIo flush_writer) (ok_act \<lparr>report_records = length batch, report_bytes = n\<rparr>))"

definition endpoint_to_path :: "string \<Rightarrow> exporter_error + string" where
  "endpoint_to_path endpoint =
     (case strip_prefix ''file://'' endpoint of
        Some path \<Rightarrow> if blank path then Inl (InvalidEndpoint endpoint) else Inr path
      | None \<Rightarrow> if blank endpoint then Inl (InvalidEndpoint endpoint) else Inr endpoint)"

section \<open>Endpoints\<close>

datatype export_scheme = PlainHttp | TlsHttps

record export_endpoint =
  he_scheme :: export_scheme
  he_host :: string
  he_port :: nat
  he_base_path :: string

definition trim_matches :: "char \<Rightarrow> string \<Rightarrow> string" where
  "trim_matches c s = rev (dropWhile (\<lambda>x. x = c) (rev (dropWhile (\<lambda>x. x = c) s)))"

definition trim_end_matches :: "char \<Rightarrow> string \<Rightarrow> string" where
  "trim_end_matches c s = rev (dropWhile (\<lambda>x. x = c) (rev s))"

definition trim_start_matches :: "char \<Rightarrow> string \<Rightarrow> string" where
  "trim_start_matches c s = dropWhile (\<lambda>x. x = c) s"

definition parse_http_authority :: "string \<Rightarrow> nat \<Rightarrow> exporter_error + string \<times> nat" where
  "parse_http_authority authority default_port =
     (case rsplit_once CHR '':'' authority of
        Some (host, port) \<Rightarrow>
          if blank host then Inl (InvalidEndpoint authority)
          else
            res_bind (map_err (\<lambda>_. InvalidEndpoint authority) (parse_uint u16_max port)) (\<lambda>p. Inr (host, p))
      | None \<Rightarrow> Inr (authority, default_port))"

definition parse_http_endpoint_with_default_port :: "string \<Rightarrow> nat \<Rightarrow> exporter_error + export_endpoint" where
  "parse_http_endpoint_with_default_port endpoint default_port =
     (let endpoint = trim endpoint in
      if endpoint = [] then Inl (InvalidEndpoint endpoint)
      else
        let (scheme, without_scheme) =
              (case strip_prefix ''https://'' endpoint of
                 Some rest \<Rightarrow> (TlsHttps, rest)
               | None \<Rightarrow> (PlainHttp, case strip_prefix ''http://'' endpoint of Some rest \<Rightarrow> rest | None \<Rightarrow> endpoint));
            (authority, path) =
              (case split_once ''/'' without_scheme of
                 Some (authority, path) \<Rightarrow> (authority, ''/'' @ trim_matches CHR ''/'' path)
               | None \<Rightarrow> (without_scheme, [])) in
        if blank authority then Inl (InvalidEndpoint endpoint)
        else
          res_bind (parse_http_authority authority default_port) (\<lambda>(host, port).
          Inr \<lparr>he_scheme = scheme, he_host = host, he_port = port,
               he_base_path = (if path = ''/'' then [] else path)\<rparr>))"

definition exporter_http_endpoint :: "string \<Rightarrow> exporter_error + export_endpoint" where
  "exporter_http_endpoint endpoint = parse_http_endpoint_with_default_port endpoint 4318"

definition path_or :: "export_endpoint \<Rightarrow> string \<Rightarrow> string" where
  "path_or e default_path = (if he_base_path e = [] then default_path else he_base_path e)"

definition endpoint_path :: "export_endpoint \<Rightarrow> string \<Rightarrow> string" where
  "endpoint_path e signal_path =
     (if he_base_path e = [] then signal_path
      else if ends_with signal_path (he_base_path e) then he_base_path e
      else trim_end_matches CHR ''/'' (he_base_path e) @ ''/'' @ trim_start_matches CHR ''/'' signal_path)"

definition normalize_grpc_endpoint :: "string \<Rightarrow> exporter_error + string" where
  "normalize_grpc_endpoint endpoint =
     (let endpoint = trim endpoint in
      if endpoint = [] then Inl (InvalidEndpoint endpoint)
      else if starts_with ''http://'' endpoint \<or> starts_with ''https://'' endpoint then Inr endpoint
      else Inr (''http://'' @ endpoint))"

section \<open>One request\<close>

definition post_headers :: "export_endpoint \<Rightarrow> string \<Rightarrow> string \<Rightarrow> (string \<times> string) list \<Rightarrow> usize \<Rightarrow> string" where
  "post_headers e path content_type extra_headers n =
     ''POST '' @ path @ '' HTTP/1.1'' @ crlf @ ''Host: '' @ he_host e @ '':'' @ show_nat (he_port e) @ crlf @
     ''Content-Type: '' @ content_type @ crlf @
     concat (map (\<lambda>(name, v). name @ '': '' @ v @ crlf) extra_headers) @
     ''Content-Length: '' @ show_nat n @ crlf @ ''Connection: close'' @ crlf @ crlf"

definition parse_http_status :: "u8 list \<Rightarrow> exporter_error + nat" where
  "parse_http_status response =
     res_bind (ok_or (Grpc ''OTLP/HTTP response did not include a status line'') (first_line (from_utf8_lossy response))) (\<lambda>line.
     let parts = split_whitespace line in
     res_bind (ok_or (Grpc ''OTLP/HTTP response status line was incomplete'') (case parts of v # _ \<Rightarrow> Some v | _ \<Rightarrow> None)) (\<lambda>_.
     res_bind (ok_or (Grpc ''OTLP/HTTP response status line was incomplete'') (case parts of _ # st # _ \<Rightarrow> Some st | _ \<Rightarrow> None)) (\<lambda>status.
     map_err (\<lambda>_. Grpc (''invalid OTLP/HTTP status code: '' @ status)) (parse_uint u16_max status))))"

text \<open>The network: connecting fails, or gives a stream that takes the request and returns the answer.\<close>

type_synonym export_network = "export_endpoint \<Rightarrow> tls_config \<Rightarrow> exporter_error + (u8 list \<Rightarrow> io_error + u8 list)"

definition post_body ::
  "export_network \<Rightarrow> export_endpoint \<Rightarrow> string \<Rightarrow> string \<Rightarrow> u8 list \<Rightarrow> tls_config \<Rightarrow> (string \<times> string) list \<Rightarrow>
   exporter_error + unit" where
  "post_body net e path content_type bs tls extra_headers =
     res_bind (net e tls) (\<lambda>stream.
     res_bind (map_err ExpIo (stream (as_bytes (post_headers e path content_type extra_headers (length bs)) @ bs))) (\<lambda>response.
     res_bind (parse_http_status response) (\<lambda>status.
     if \<not> (200 \<le> status \<and> status < 300)
     then Inl (Grpc (''OTLP/HTTP export failed with HTTP status '' @ show_nat status))
     else Inr ())))"

section \<open>Snappy\<close>

function write_snappy_varint :: "usize \<Rightarrow> u8 list" where
  "write_snappy_varint n =
     (if 0x80 \<le> n then ((of_nat n AND 0x7f) OR 0x80) # write_snappy_varint (n div 128) else [of_nat n])"
  by pat_completeness auto
termination by (relation "measure id") auto

declare write_snappy_varint.simps [simp del]

text \<open>\<^verbatim>\<open>rposition\<close> of a byte that is not zero, plus one, or 1.\<close>

definition bytes_used :: "u8 list \<Rightarrow> nat" where
  "bytes_used bs = (let k = length (dropWhile (\<lambda>b. b = 0) (rev bs)) in if k = 0 then 1 else k)"

definition write_snappy_literal_tag :: "usize \<Rightarrow> u8 list" where
  "write_snappy_literal_tag len =
     (if len = 0 then []
      else
        let length_minus_one = len - 1 in
        if length_minus_one < 60 then [push_bit 2 (of_nat length_minus_one)]
        else
          let length_bytes = le_bytes 4 (length_minus_one mod 2 ^ 32); k = bytes_used length_bytes in
          push_bit 2 (of_nat (59 + k)) # take k length_bytes)"

function chunks_of :: "nat \<Rightarrow> 'a list \<Rightarrow> 'a list list" where
  "chunks_of n xs = (if n = 0 \<or> xs = [] then [] else take n xs # chunks_of n (drop n xs))"
  by pat_completeness auto
termination by (relation "measure (\<lambda>(n, xs). length xs)") auto

declare chunks_of.simps [simp del]

definition snappy_compress_literal :: "u8 list \<Rightarrow> u8 list" where
  "snappy_compress_literal input =
     write_snappy_varint (length input) @
     concat (map (\<lambda>chunk. write_snappy_literal_tag (length chunk) @ chunk) (chunks_of 65536 input))"

subsection \<open>A reader of the format\<close>

text \<open>The Snappy block format, for blocks of literals: the length as a varint, then elements; a literal has the low
  bits 00 in its tag, and its length minus one in the tag or in the 1 to 4 bytes after it.\<close>

fun read_varint :: "u8 list \<Rightarrow> (nat \<times> u8 list) option" where
  "read_varint [] = None"
| "read_varint (b # bs) =
     (if \<not> bit b 7 then Some (unat b, bs)
      else map_option (\<lambda>(n, rest). (unat (b AND 0x7f) + 128 * n, rest)) (read_varint bs))"

definition split_at :: "nat \<Rightarrow> 'a list \<Rightarrow> ('a list \<times> 'a list) option" where
  "split_at n xs = (if length xs < n then None else Some (take n xs, drop n xs))"

fun read_literal :: "u8 list \<Rightarrow> (u8 list \<times> u8 list) option" where
  "read_literal [] = None"
| "read_literal (tag # bs) =
     (if tag AND 3 \<noteq> 0 then None
      else
        let v = unat (drop_bit 2 tag) in
        if v < 60 then split_at (v + 1) bs
        else Option.bind (split_at (v - 59) bs) (\<lambda>(len, rest). split_at (le_value len + 1) rest))"

lemma split_at_Some: "split_at n xs = Some (a, b) \<longleftrightarrow> xs = a @ b \<and> length a = n"
  by (auto simp: split_at_def)

lemma read_literal_shorter: "read_literal bs = Some (x, rest) \<Longrightarrow> length rest < length bs"
  by (cases bs) (auto simp: Let_def split_at_Some split: if_splits bind_splits)

function read_literals :: "u8 list \<Rightarrow> u8 list option" where
  "read_literals bs =
     (if bs = [] then Some []
      else
        (case read_literal bs of
           None \<Rightarrow> None
         | Some (x, rest) \<Rightarrow> map_option ((@) x) (read_literals rest)))"
  by pat_completeness auto
termination by (relation "measure length") (auto dest: read_literal_shorter)

declare read_literals.simps [simp del]

definition snappy_decode :: "u8 list \<Rightarrow> u8 list option" where
  "snappy_decode bs =
     Option.bind (read_varint bs) (\<lambda>(n, rest).
     Option.bind (read_literals rest) (\<lambda>xs. if length xs = n then Some xs else None))"

lemma varint_byte:
  fixes w :: u8
  shows "bit ((w AND 0x7f) OR 0x80) 7" "((w AND 0x7f) OR 0x80) AND 0x7f = take_bit 7 w"
proof -
  have m: "(0x7f :: u8) = mask 7" "take_bit 7 (0x80 :: u8) = 0" "bit (0x80 :: u8) 7" by (simp_all add: mask_eq_exp_minus_1 take_bit_eq_mod bit_iff_odd)
  show "bit ((w AND 0x7f) OR 0x80) 7" using m(3) by (simp add: bit_or_iff)
  show "((w AND 0x7f) OR 0x80) AND 0x7f = take_bit 7 w"
    using m(2) unfolding m(1) by (simp add: take_bit_eq_mask [symmetric])
qed

lemma unat_low: "unat (take_bit 7 (of_nat n :: u8)) = n mod 128"
  unfolding unsigned_take_bit_eq by (simp add: take_bit_eq_mod unat_of_nat mod_mod_cancel)

lemma read_write_varint: "read_varint (write_snappy_varint n @ rest) = Some (n, rest)"
proof (induction n rule: write_snappy_varint.induct)
  case (1 n)
  show ?case
  proof (cases "0x80 \<le> n")
    case True
    with 1 show ?thesis by (subst write_snappy_varint.simps) (simp add: varint_byte unat_low)
  next
    case False
    then have "unat (of_nat n :: u8) = n" by (simp add: unat_of_nat)
    moreover from this False have "\<not> bit (unat (of_nat n :: u8)) 7" by (simp only:) (simp add: bit_iff_odd)
    then have "\<not> bit (of_nat n :: u8) 7" by (simp only: bit_unsigned_iff) simp
    ultimately show ?thesis using False by (subst write_snappy_varint.simps) simp
  qed
qed

lemma tag_bits:
  "list_all (\<lambda>k. (push_bit 2 (of_nat k) :: u8) AND 3 = 0 \<and> unat (drop_bit 2 (push_bit 2 (of_nat k) :: u8)) = k) [0..<64]"
  by code_simp

lemma tag_byte:
  "k < 64 \<Longrightarrow> (push_bit 2 (of_nat k) :: u8) AND 3 = 0" "k < 64 \<Longrightarrow> unat (drop_bit 2 (push_bit 2 (of_nat k) :: u8)) = k"
  using tag_bits by (auto simp: list_all_iff)

lemma length_bytes_used:
  assumes "60 \<le> m" and "m < 65536"
  shows "\<exists>k. bytes_used (le_bytes 4 m) = k \<and> (k = 1 \<or> k = 2) \<and> le_value (take k (le_bytes 4 m)) = m \<and> length (take k (le_bytes 4 m)) = k"
proof -
  have four: "(4 :: nat) = Suc (Suc (Suc (Suc 0)))" by simp
  have "m div 256 < 256" using assms(2) by (simp add: less_mult_imp_div_less)
  then have bytes: "le_bytes 4 m = [of_nat (m mod 256), of_nat (m div 256), 0, 0]"
    unfolding four le_bytes.simps by simp
  show ?thesis
  proof (cases "m < 256")
    case True
    then have "(of_nat m :: u8) \<noteq> 0" using assms(1) by (simp add: word_unat_eq_iff unat_of_nat)
    with True assms show ?thesis by (simp add: bytes bytes_used_def unat_of_nat)
  next
    case False
    then have "(of_nat (m div 256) :: u8) \<noteq> 0" using assms(2) by (simp add: word_unat_eq_iff unat_of_nat)
    with False assms(2) show ?thesis by (simp add: bytes bytes_used_def unat_of_nat Let_def)
  qed
qed

lemma read_write_literal:
  assumes "chunk \<noteq> []" and "length chunk \<le> 65536"
  shows "read_literal (write_snappy_literal_tag (length chunk) @ chunk @ rest) = Some (chunk, rest)"
proof (cases "length chunk - 1 < 60")
  case True
  then have "length chunk - 1 < 64" by simp
  note tag_byte [OF this]
  with True assms show ?thesis
    by (simp add: write_snappy_literal_tag_def split_at_def Let_def)
next
  case False
  let ?m = "length chunk - 1"
  have m: "60 \<le> ?m" "?m < 65536" using False assms by (cases chunk; simp)+
  obtain k where k: "bytes_used (le_bytes 4 ?m) = k" "k = 1 \<or> k = 2" "le_value (take k (le_bytes 4 ?m)) = ?m"
    "length (take k (le_bytes 4 ?m)) = k" using length_bytes_used [OF m] by blast
  then have "59 + k < 64" by auto
  note t = tag_byte [OF this]
  have w: "write_snappy_literal_tag (length chunk) = push_bit 2 (of_nat (59 + k)) # take k (le_bytes 4 ?m)"
    using False assms m k(1) by (simp add: write_snappy_literal_tag_def Let_def)
  have s: "split_at k (take k (le_bytes 4 ?m) @ chunk @ rest) = Some (take k (le_bytes 4 ?m), chunk @ rest)"
    using k(4) by (simp add: split_at_Some)
  have "split_at (?m + 1) (chunk @ rest) = Some (chunk, rest)" using assms(1) by (simp add: split_at_Some)
  with t s k show ?thesis unfolding w by (auto simp: Let_def simp del: of_nat_add)
qed

lemma chunks_of_facts:
  "0 < n \<Longrightarrow> concat (chunks_of n xs) = xs \<and> (\<forall>c \<in> set (chunks_of n xs). c \<noteq> [] \<and> length c \<le> n)"
proof (induction n xs rule: chunks_of.induct)
  case (1 n xs)
  then show ?case by (subst (1 2) chunks_of.simps) auto
qed

lemma read_write_literals:
  "\<forall>c \<in> set cs. c \<noteq> [] \<and> length c \<le> 65536 \<Longrightarrow>
   read_literals (concat (map (\<lambda>c. write_snappy_literal_tag (length c) @ c) cs)) = Some (concat cs)"
proof (induction cs)
  case Nil
  then show ?case by (simp add: read_literals.simps)
next
  case (Cons c cs)
  then have "write_snappy_literal_tag (length c) \<noteq> []" by (simp add: write_snappy_literal_tag_def Let_def)
  with Cons read_write_literal [of c "concat (map (\<lambda>c. write_snappy_literal_tag (length c) @ c) cs)"] show ?case
    by (subst read_literals.simps) simp
qed

text \<open>Property C27 (snappy_roundtrip). What the Prometheus exporter sends as Snappy is a valid block of literals: a reader of
  the format gets back exactly the bytes that were compressed, whatever their number.\<close>

theorem snappy_roundtrip: "snappy_decode (snappy_compress_literal input) = Some input"
  using chunks_of_facts [of 65536 input] read_write_literals [of "chunks_of 65536 input"]
  by (simp add: snappy_decode_def snappy_compress_literal_def read_write_varint)

end
