(* ===== verification/Exporter_Convert.thy ===== *)
theory Exporter_Convert
  imports Otlp_Convert Exporter_Http
begin

text \<open>
  From records back to OTLP requests (\<^verbatim>\<open>crates/telemetry-exporters/src/lib.rs\<close>): what the OTLP exporters send for a
  batch. A record carries the fields of its message as attributes whose keys start with \<^verbatim>\<open>otel.\<close>; the first
  attribute with a key is the one that counts.
\<close>

section \<open>Attributes\<close>

definition find_attribute :: "telemetry_record \<Rightarrow> string \<Rightarrow> string option" where
  "find_attribute r key = map_option attr_value (List.find (\<lambda>a. attr_key a = key) (attributes r))"

text \<open>\<^verbatim>\<open>str::parse\<close> for a signed type with maximum \<open>m\<close>, the error dropped; and for \<^verbatim>\<open>bool\<close>.\<close>

definition parse_int :: "nat \<Rightarrow> string \<Rightarrow> int option" where
  "parse_int m s =
     (case s of
        [] \<Rightarrow> None
      | c # cs \<Rightarrow>
          if cs = [] \<and> (c = CHR ''+'' \<or> c = CHR ''-'') then None
          else if c = CHR ''+'' then map_option int (res_ok (parse_digits m 0 cs))
          else if c = CHR ''-'' then map_option (\<lambda>n. - int n) (res_ok (parse_digits (m + 1) 0 cs))
          else map_option int (res_ok (parse_digits m 0 s)))"

definition i32_max :: nat where
  "i32_max = 2 ^ 31 - 1"

definition i64_max :: nat where
  "i64_max = 2 ^ 63 - 1"

definition parse_bool :: "string \<Rightarrow> bool option" where
  "parse_bool s = (if s = ''true'' then Some True else if s = ''false'' then Some False else None)"

text \<open>\<^verbatim>\<open>str::split\<close> with a character.\<close>

fun split_on :: "char \<Rightarrow> string \<Rightarrow> string list" where
  "split_on c [] = [[]]"
| "split_on c (x # xs) = (if x = c then [] # split_on c xs else (x # hd (split_on c xs)) # tl (split_on c xs))"

definition or_default :: "'a \<Rightarrow> 'a option \<Rightarrow> 'a" where
  "or_default d v = (case v of None \<Rightarrow> d | Some x \<Rightarrow> x)"

text \<open>\<^verbatim>\<open>as u64\<close> of the timestamp keeps the low 64 bits.\<close>

definition record_time :: "telemetry_record \<Rightarrow> u64" where
  "record_time r = unat (timestamp_unix_nanos r) mod 2 ^ 64"

definition parse_u64_attribute :: "telemetry_record \<Rightarrow> string \<Rightarrow> u64 option" where
  "parse_u64_attribute r key = Option.bind (find_attribute r key) (\<lambda>v. parse_u64 v)"

definition filter_opt :: "('a \<Rightarrow> bool) \<Rightarrow> 'a option \<Rightarrow> 'a option" where
  "filter_opt p v = (case v of Some x \<Rightarrow> if p x then Some x else None | None \<Rightarrow> None)"

definition parse_finite :: "'f proto_api \<Rightarrow> string \<Rightarrow> 'f option" where
  "parse_finite api s = filter_opt (is_finite api) (parse_f64 api s)"

definition parse_f64_attribute :: "'f proto_api \<Rightarrow> telemetry_record \<Rightarrow> string \<Rightarrow> 'f option" where
  "parse_f64_attribute api r key = Option.bind (find_attribute r key) (parse_finite api)"

definition parse_i32_attribute :: "telemetry_record \<Rightarrow> string \<Rightarrow> int option" where
  "parse_i32_attribute r key = Option.bind (find_attribute r key) (parse_int i32_max)"

definition parse_u64_list_attribute :: "telemetry_record \<Rightarrow> string \<Rightarrow> u64 list" where
  "parse_u64_list_attribute r key =
     (case find_attribute r key of
        None \<Rightarrow> []
      | Some v \<Rightarrow> List.map_filter (\<lambda>item. parse_u64 (trim item)) (split_on CHR '','' v))"

definition parse_f64_list_attribute :: "'f proto_api \<Rightarrow> telemetry_record \<Rightarrow> string \<Rightarrow> 'f list" where
  "parse_f64_list_attribute api r key =
     (case find_attribute r key of
        None \<Rightarrow> []
      | Some v \<Rightarrow> List.map_filter (\<lambda>item. parse_finite api (trim item)) (split_on CHR '','' v))"

definition parse_quantile :: "'f proto_api \<Rightarrow> string \<Rightarrow> ('f \<times> 'f) option" where
  "parse_quantile api item =
     Option.bind (split_once '':'' (trim item)) (\<lambda>(qu, v).
     Option.bind (parse_f64 api qu) (\<lambda>qu.
     Option.bind (parse_f64 api v) (\<lambda>v.
     if is_finite api qu \<and> is_finite api v then Some (qu, v) else None)))"

definition parse_quantile_values_attribute :: "'f proto_api \<Rightarrow> telemetry_record \<Rightarrow> string \<Rightarrow> ('f \<times> 'f) list" where
  "parse_quantile_values_attribute api r key =
     (case find_attribute r key of
        None \<Rightarrow> []
      | Some v \<Rightarrow> List.map_filter (parse_quantile api) (split_on CHR '','' v))"

section \<open>Identifiers\<close>

definition hex_value :: "u8 \<Rightarrow> u8 option" where
  "hex_value v =
     (if 0x30 \<le> v \<and> v \<le> 0x39 then Some (v - 0x30)
      else if 0x61 \<le> v \<and> v \<le> 0x66 then Some (v - 0x61 + 10)
      else if 0x41 \<le> v \<and> v \<le> 0x46 then Some (v - 0x41 + 10)
      else None)"

fun hex_pairs :: "u8 list \<Rightarrow> u8 list option" where
  "hex_pairs (h # l # rest) =
     Option.bind (hex_value h) (\<lambda>high.
     Option.bind (hex_value l) (\<lambda>low.
     map_option (\<lambda>bs. (push_bit 4 high OR low) # bs) (hex_pairs rest)))"
| "hex_pairs _ = Some []"

definition all_zero :: "u8 list \<Rightarrow> bool" where
  "all_zero bs \<longleftrightarrow> list_all (\<lambda>b. b = 0) bs"

definition hex_decode_fixed :: "string \<Rightarrow> usize \<Rightarrow> u8 list option" where
  "hex_decode_fixed v expected_len =
     (if length v \<noteq> expected_len * 2 then None
      else Option.bind (hex_pairs (as_bytes v)) (\<lambda>out. if all_zero out then None else Some out))"

definition FNV_PRIME :: "32 word" where
  "FNV_PRIME = 0x01000193"

definition seed_hash :: "u8 list \<Rightarrow> 32 word" where
  "seed_hash seed = fold (\<lambda>b h. (h XOR ucast b) * FNV_PRIME) seed 0x811c9dc5"

definition stretch_hash :: "32 word \<Rightarrow> 32 word" where
  "stretch_hash h = (h XOR word_rotl 13 h) * FNV_PRIME"

text \<open>Each round adds the four bytes of the next hash, until there are \<open>len\<close> bytes.\<close>

fun stretch :: "usize \<Rightarrow> 32 word \<Rightarrow> u8 list" where
  "stretch len h =
     (if len = 0 then []
      else let h' = stretch_hash h in le_bytes 4 (unat h') @ stretch (len - 4) h')"

declare stretch.simps [simp del]

definition fallback_id :: "u8 list \<Rightarrow> usize \<Rightarrow> u8 list" where
  "fallback_id seed len =
     (let out = take len (stretch len (seed_hash seed)) in
      if all_zero out then out[0 := 1] else out)"

section \<open>Spans\<close>

definition string_kv :: "string \<Rightarrow> string \<Rightarrow> 'f key_value" where
  "string_kv k v = (k, Some (StringValue v))"

definition record_to_span :: "telemetry_record \<Rightarrow> 'f otlp_span" where
  "record_to_span r =
     (let name = or_default (from_utf8_lossy (body r)) (filter_opt (\<lambda>n. \<not> blank n) (find_attribute r ''otel.span.name'')) in
      \<lparr>sp_trace_id = or_default (fallback_id (body r) 16)
         (Option.bind (find_attribute r ''otel.trace_id'') (\<lambda>v. hex_decode_fixed v 16)),
       sp_span_id = or_default (fallback_id (as_bytes name) 8)
         (Option.bind (find_attribute r ''otel.span_id'') (\<lambda>v. hex_decode_fixed v 8)),
       sp_parent_span_id = or_default []
         (Option.bind (find_attribute r ''otel.parent_span_id'') (\<lambda>v. hex_decode_fixed v 8)),
       sp_name = name,
       sp_kind = or_default 0 (parse_i32_attribute r ''otel.span.kind''),
       sp_start_time_unix_nano = or_default (record_time r) (parse_u64_attribute r ''otel.start_unix_nano''),
       sp_end_time_unix_nano = or_default (record_time r) (parse_u64_attribute r ''otel.end_unix_nano''),
       sp_attributes =
         map (\<lambda>a. string_kv (attr_key a) (attr_value a))
           (filter (\<lambda>a. \<not> starts_with ''otel.'' (attr_key a)) (attributes r))\<rparr>)"

section \<open>Logs\<close>

definition record_to_log_attributes :: "telemetry_record \<Rightarrow> 'f key_value list" where
  "record_to_log_attributes r =
     map (\<lambda>a. string_kv (attr_key a) (attr_value a))
       (filter (\<lambda>a. \<not> starts_with ''otel.'' (attr_key a) \<and> \<not> starts_with ''resource.'' (attr_key a)) (attributes r))"

definition record_to_resource_attributes :: "telemetry_record \<Rightarrow> 'f key_value list" where
  "record_to_resource_attributes r =
     List.map_filter (\<lambda>a.
       map_option (\<lambda>k. string_kv k (attr_value a))
         (filter_opt (\<lambda>k. \<not> blank k) (strip_prefix ''resource.'' (attr_key a)))) (attributes r)"

definition record_scope :: "telemetry_record \<Rightarrow> string option" where
  "record_scope r = filter_opt (\<lambda>n. \<not> blank n) (find_attribute r ''otel.scope.name'')"

definition record_to_log_record :: "'f proto_api \<Rightarrow> telemetry_record \<Rightarrow> 'f otlp_log" where
  "record_to_log_record api r =
     \<lparr>lg_time_unix_nano = or_default (record_time r) (parse_u64_attribute r ''otel.log.time_unix_nano''),
      lg_observed_time_unix_nano = or_default (record_time r) (parse_u64_attribute r ''otel.log.observed_time_unix_nano''),
      lg_severity_number = or_default (severity_unspecified api) (parse_i32_attribute r ''otel.log.severity_number''),
      lg_severity_text = or_default [] (find_attribute r ''otel.log.severity_text''),
      lg_body = Some (StringValue (from_utf8_lossy (body r))),
      lg_attributes = record_to_log_attributes r,
      lg_flags = or_default 0 (Option.bind (find_attribute r ''otel.log.flags'') (\<lambda>v. res_ok (parse_uint u32_max v))),
      lg_trace_id = or_default [] (Option.bind (find_attribute r ''otel.trace_id'') (\<lambda>v. hex_decode_fixed v 16)),
      lg_span_id = or_default [] (Option.bind (find_attribute r ''otel.span_id'') (\<lambda>v. hex_decode_fixed v 8)),
      lg_event_name = or_default [] (find_attribute r ''otel.log.event_name'')\<rparr>"

definition record_to_resource_log :: "'f proto_api \<Rightarrow> telemetry_record \<Rightarrow> ('f, 'f otlp_log) resource_items option" where
  "record_to_resource_log api r =
     Some \<lparr>resource_of = Some (record_to_resource_attributes r),
           scopes_of = [\<lparr>scope_name_of = record_scope r, items_of = [record_to_log_record api r]\<rparr>]\<rparr>"

section \<open>Metrics\<close>

definition metric_name :: "telemetry_record \<Rightarrow> string option" where
  "metric_name r =
     (case find_attribute r ''otel.metric.name'' of Some n \<Rightarrow> Some n | None \<Rightarrow>
      (case find_attribute r ''metric.name'' of Some n \<Rightarrow> Some n | None \<Rightarrow>
       (case find_attribute r ''service.name'' of Some n \<Rightarrow> Some n | None \<Rightarrow>
        filter_opt (\<lambda>s. \<not> blank s) (Some (from_utf8_lossy (body r))))))"

definition metric_value :: "'f proto_api \<Rightarrow> telemetry_record \<Rightarrow> 'f number_value option" where
  "metric_value api r =
     (let v = or_default (from_utf8_lossy (body r)) (find_attribute r ''otel.metric.value'') in
      if find_attribute r ''otel.metric.value_type'' = Some ''int'' then map_option AsInt (parse_int i64_max v)
      else map_option AsDouble (parse_finite api v))"

definition metric_start_time_unix_nano :: "telemetry_record \<Rightarrow> u64" where
  "metric_start_time_unix_nano r = or_default 0 (parse_u64_attribute r ''otel.metric.start_time_unix_nano'')"

definition metric_time_unix_nano :: "telemetry_record \<Rightarrow> u64" where
  "metric_time_unix_nano r = or_default (record_time r) (parse_u64_attribute r ''otel.metric.time_unix_nano'')"

definition metric_flags :: "telemetry_record \<Rightarrow> nat" where
  "metric_flags r = or_default 0 (Option.bind (find_attribute r ''otel.metric.flags'') (\<lambda>v. res_ok (parse_uint u32_max v)))"

definition aggregation_temporality_from_name :: "'f proto_api \<Rightarrow> string \<Rightarrow> int option" where
  "aggregation_temporality_from_name api v =
     (if v = ''AGGREGATION_TEMPORALITY_UNSPECIFIED'' \<or> v = ''unspecified'' then Some (temporality_unspecified api)
      else if v = ''AGGREGATION_TEMPORALITY_DELTA'' \<or> v = ''delta'' then Some (temporality_delta api)
      else if v = ''AGGREGATION_TEMPORALITY_CUMULATIVE'' \<or> v = ''cumulative'' then Some (temporality_cumulative api)
      else None)"

definition metric_aggregation_temporality :: "'f proto_api \<Rightarrow> telemetry_record \<Rightarrow> int" where
  "metric_aggregation_temporality api r =
     (case parse_i32_attribute r ''otel.metric.aggregation_temporality'' of
        Some t \<Rightarrow> t
      | None \<Rightarrow>
          or_default (temporality_cumulative api)
            (Option.bind (find_attribute r ''otel.metric.aggregation_temporality_name'')
              (aggregation_temporality_from_name api)))"

definition record_to_exponential_buckets :: "telemetry_record \<Rightarrow> string \<Rightarrow> string \<Rightarrow> exponential_buckets option" where
  "record_to_exponential_buckets r offset_key bucket_counts_key =
     (let bucket_counts = parse_u64_list_attribute r bucket_counts_key in
      if bucket_counts = [] then None
      else Some \<lparr>bk_offset = or_default 0 (parse_i32_attribute r offset_key), bk_bucket_counts = bucket_counts\<rparr>)"

definition record_to_exemplar_value :: "'f proto_api \<Rightarrow> telemetry_record \<Rightarrow> string \<Rightarrow> 'f number_value option" where
  "record_to_exemplar_value api r pre =
     Option.bind (find_attribute r (pre @ ''.value'')) (\<lambda>v.
     if find_attribute r (pre @ ''.value_type'') = Some ''int'' then map_option AsInt (parse_int i64_max v)
     else map_option AsDouble (parse_finite api v))"

definition record_to_exemplar_filtered_attributes :: "telemetry_record \<Rightarrow> string \<Rightarrow> 'f key_value list" where
  "record_to_exemplar_filtered_attributes r pre =
     List.map_filter (\<lambda>a. map_option (\<lambda>k. string_kv k (attr_value a)) (strip_prefix (pre @ ''.filtered.'') (attr_key a)))
       (attributes r)"

definition record_to_exemplar :: "'f proto_api \<Rightarrow> telemetry_record \<Rightarrow> u64 \<Rightarrow> 'f otlp_exemplar option" where
  "record_to_exemplar api r index =
     (let pre = ''otel.metric.exemplar.'' @ show_nat index in
      Some \<lparr>ex_filtered_attributes = record_to_exemplar_filtered_attributes r pre,
            ex_time_unix_nano = or_default 0 (parse_u64_attribute r (pre @ ''.time_unix_nano'')),
            ex_span_id = or_default [] (Option.bind (find_attribute r (pre @ ''.span_id'')) (\<lambda>v. hex_decode_fixed v 8)),
            ex_trace_id = or_default [] (Option.bind (find_attribute r (pre @ ''.trace_id'')) (\<lambda>v. hex_decode_fixed v 16)),
            ex_value = record_to_exemplar_value api r pre\<rparr>)"

definition record_to_exemplars :: "'f proto_api \<Rightarrow> telemetry_record \<Rightarrow> 'f otlp_exemplar list" where
  "record_to_exemplars api r =
     (let n = or_default 0 (parse_u64_attribute r ''otel.metric.exemplar.count'') in
      List.map_filter (record_to_exemplar api r) [0..<n])"

definition record_to_metric_attributes :: "telemetry_record \<Rightarrow> 'f key_value list" where
  "record_to_metric_attributes r =
     map (\<lambda>a. string_kv (attr_key a) (attr_value a))
       (filter (\<lambda>a. \<not> starts_with ''otel.'' (attr_key a) \<and> \<not> starts_with ''resource.'' (attr_key a)) (attributes r))"

definition record_to_number_data_point :: "'f proto_api \<Rightarrow> telemetry_record \<Rightarrow> 'f number_value \<Rightarrow> 'f number_data_point" where
  "record_to_number_data_point api r v =
     \<lparr>np_attributes = record_to_metric_attributes r, np_start_time_unix_nano = metric_start_time_unix_nano r,
      np_time_unix_nano = metric_time_unix_nano r, np_value = Some v, np_exemplars = record_to_exemplars api r,
      np_flags = metric_flags r\<rparr>"

definition record_to_histogram_data_point :: "'f proto_api \<Rightarrow> telemetry_record \<Rightarrow> 'f histogram_data_point option" where
  "record_to_histogram_data_point api r =
     Option.bind (parse_u64_attribute r ''otel.metric.count'') (\<lambda>n.
     Some \<lparr>hp_attributes = record_to_metric_attributes r, hp_start_time_unix_nano = metric_start_time_unix_nano r,
           hp_time_unix_nano = metric_time_unix_nano r, hp_count = n,
           hp_sum = parse_f64_attribute api r ''otel.metric.sum'',
           hp_bucket_counts = parse_u64_list_attribute r ''otel.metric.bucket_counts'',
           hp_explicit_bounds = parse_f64_list_attribute api r ''otel.metric.explicit_bounds'',
           hp_exemplars = record_to_exemplars api r, hp_flags = metric_flags r,
           hp_min = parse_f64_attribute api r ''otel.metric.min'',
           hp_max = parse_f64_attribute api r ''otel.metric.max''\<rparr>)"

definition record_to_exponential_histogram_data_point ::
  "'f proto_api \<Rightarrow> telemetry_record \<Rightarrow> 'f exponential_data_point option" where
  "record_to_exponential_histogram_data_point api r =
     Option.bind (parse_u64_attribute r ''otel.metric.count'') (\<lambda>n.
     Some \<lparr>xp_attributes = record_to_metric_attributes r, xp_start_time_unix_nano = metric_start_time_unix_nano r,
           xp_time_unix_nano = metric_time_unix_nano r, xp_count = n,
           xp_sum = parse_f64_attribute api r ''otel.metric.sum'',
           xp_scale = or_default 0 (parse_i32_attribute r ''otel.metric.scale''),
           xp_zero_count = or_default 0 (parse_u64_attribute r ''otel.metric.zero_count''),
           xp_positive = record_to_exponential_buckets r ''otel.metric.positive_offset'' ''otel.metric.positive_bucket_counts'',
           xp_negative = record_to_exponential_buckets r ''otel.metric.negative_offset'' ''otel.metric.negative_bucket_counts'',
           xp_flags = metric_flags r, xp_exemplars = record_to_exemplars api r,
           xp_min = parse_f64_attribute api r ''otel.metric.min'',
           xp_max = parse_f64_attribute api r ''otel.metric.max'',
           xp_zero_threshold = or_default (f64_default api) (parse_f64_attribute api r ''otel.metric.zero_threshold'')\<rparr>)"

definition record_to_summary_data_point :: "'f proto_api \<Rightarrow> telemetry_record \<Rightarrow> 'f summary_data_point option" where
  "record_to_summary_data_point api r =
     Option.bind (parse_u64_attribute r ''otel.metric.count'') (\<lambda>n.
     Option.bind (parse_f64_attribute api r ''otel.metric.sum'') (\<lambda>total.
     Some \<lparr>sm_attributes = record_to_metric_attributes r, sm_start_time_unix_nano = metric_start_time_unix_nano r,
           sm_time_unix_nano = metric_time_unix_nano r, sm_count = n, sm_sum = total,
           sm_quantile_values = parse_quantile_values_attribute api r ''otel.metric.quantile_values'',
           sm_flags = metric_flags r\<rparr>))"

definition record_to_metric_data :: "'f proto_api \<Rightarrow> telemetry_record \<Rightarrow> 'f metric_data option" where
  "record_to_metric_data api r =
     (let data_type = find_attribute r ''otel.metric.data_type'' in
      if data_type = Some ''sum'' then
        map_option (\<lambda>v. SumData [record_to_number_data_point api r v] (metric_aggregation_temporality api r)
          (or_default False (Option.bind (find_attribute r ''otel.metric.is_monotonic'') parse_bool))) (metric_value api r)
      else if data_type = Some ''histogram'' then
        map_option (\<lambda>p. HistogramData [p] (metric_aggregation_temporality api r)) (record_to_histogram_data_point api r)
      else if data_type = Some ''exponential_histogram'' then
        map_option (\<lambda>p. ExponentialHistogramData [p] (metric_aggregation_temporality api r))
          (record_to_exponential_histogram_data_point api r)
      else if data_type = Some ''summary'' then map_option (\<lambda>p. SummaryData [p]) (record_to_summary_data_point api r)
      else map_option (\<lambda>v. GaugeData [record_to_number_data_point api r v]) (metric_value api r))"

definition record_to_metric :: "'f proto_api \<Rightarrow> telemetry_record \<Rightarrow> 'f otlp_metric option" where
  "record_to_metric api r =
     Option.bind (metric_name r) (\<lambda>name.
     Option.bind (record_to_metric_data api r) (\<lambda>data.
     Some \<lparr>mt_name = name, mt_description = or_default [] (find_attribute r ''otel.metric.description''),
           mt_unit = or_default [] (find_attribute r ''otel.metric.unit''), mt_data = Some data\<rparr>))"

definition record_to_resource_metric :: "'f proto_api \<Rightarrow> telemetry_record \<Rightarrow> ('f, 'f otlp_metric) resource_items option" where
  "record_to_resource_metric api r =
     Option.bind (record_to_metric api r) (\<lambda>m.
     Some \<lparr>resource_of = Some (record_to_resource_attributes r),
           scopes_of = [\<lparr>scope_name_of = record_scope r, items_of = [m]\<rparr>]\<rparr>)"

section \<open>Batches\<close>

definition batch_to_trace_request :: "telemetry_record list \<Rightarrow> 'f trace_request" where
  "batch_to_trace_request batch =
     (let spans = map record_to_span (filter (\<lambda>r. signal r = Trace) batch) in
      if spans = [] then []
      else [\<lparr>resource_of = Some [], scopes_of = [\<lparr>scope_name_of = None, items_of = spans\<rparr>]\<rparr>])"

definition batch_to_metrics_request :: "'f proto_api \<Rightarrow> telemetry_record list \<Rightarrow> 'f metrics_request" where
  "batch_to_metrics_request api batch =
     List.map_filter (record_to_resource_metric api) (filter (\<lambda>r. signal r = Metric) batch)"

definition batch_to_logs_request :: "'f proto_api \<Rightarrow> telemetry_record list \<Rightarrow> 'f logs_request" where
  "batch_to_logs_request api batch =
     List.map_filter (record_to_resource_log api) (filter (\<lambda>r. signal r = Log) batch)"

definition count_spans :: "'f trace_request \<Rightarrow> usize" where
  "count_spans req = sum_list (map (\<lambda>si. length (items_of si)) (concat (map scopes_of req)))"

definition data_points_of :: "'f otlp_metric \<Rightarrow> usize" where
  "data_points_of m =
     (case mt_data m of
        Some (GaugeData ps) \<Rightarrow> length ps
      | Some (SumData ps _ _) \<Rightarrow> length ps
      | Some (HistogramData ps _) \<Rightarrow> length ps
      | Some (SummaryData ps) \<Rightarrow> length ps
      | Some (ExponentialHistogramData ps _) \<Rightarrow> length ps
      | None \<Rightarrow> 0)"

definition count_metric_data_points :: "'f metrics_request \<Rightarrow> usize" where
  "count_metric_data_points req =
     sum_list (map data_points_of (concat (map items_of (concat (map scopes_of req)))))"

definition count_log_records :: "'f logs_request \<Rightarrow> usize" where
  "count_log_records req = sum_list (map (\<lambda>si. length (items_of si)) (concat (map scopes_of req)))"

end
