(* ===== verification/Otlp_Forward.thy ===== *)
theory Otlp_Forward
  imports Exporter_Convert
begin

text \<open>
  What an agent forwards: the composition of the receiving conversion with the exporting one, for spans and
  logs. The attributes of a record are read as a list of pairs, in which the first pair with a key counts.
\<close>

section \<open>Attributes as pairs\<close>

definition attr_pairs :: "telemetry_record \<Rightarrow> (string \<times> string) list" where
  "attr_pairs r = map (\<lambda>a. (attr_key a, attr_value a)) (attributes r)"

lemma find_attribute_pairs: "find_attribute r k = map_of (attr_pairs r) k"
proof -
  have "map_option attr_value (List.find (\<lambda>a. attr_key a = k) as) = map_of (map (\<lambda>a. (attr_key a, attr_value a)) as) k" for as
    by (induction as) auto
  then show ?thesis by (simp add: find_attribute_def attr_pairs_def)
qed

lemma with_attributes_fields [simp]:
  "tenant_id (with_attributes kvs r) = tenant_id r" "signal (with_attributes kvs r) = signal r"
  "timestamp_unix_nanos (with_attributes kvs r) = timestamp_unix_nanos r" "body (with_attributes kvs r) = body r"
  "attr_pairs (with_attributes kvs r) = attr_pairs r @ kvs"
  by (induction kvs arbitrary: r) (auto simp: with_attributes_def with_attribute_def attr_pairs_def)

lemma record_new_fields [simp]:
  "tenant_id (record_new now t sg b) = t" "signal (record_new now t sg b) = sg" "body (record_new now t sg b) = b"
  "timestamp_unix_nanos (record_new now t sg b) = now" "attr_pairs (record_new now t sg b) = []"
  by (simp_all add: record_new_def attr_pairs_def)

lemma kept_pairs:
  "map (\<lambda>a. string_kv (attr_key a) (attr_value a)) (filter (\<lambda>a. P (attr_key a)) (attributes r)) =
   map (\<lambda>(k, v). string_kv k v) (filter (\<lambda>(k, v). P k) (attr_pairs r))"
  by (simp add: attr_pairs_def filter_map comp_def)

lemma mapped_pairs:
  "List.map_filter (\<lambda>a. map_option (\<lambda>k. string_kv k (attr_value a)) (g (attr_key a))) (attributes r) =
   List.map_filter (\<lambda>(k, v). map_option (\<lambda>k. string_kv k v) (g k)) (attr_pairs r)"
proof -
  have "List.map_filter (\<lambda>a. map_option (\<lambda>k. string_kv k (attr_value a)) (g (attr_key a))) as =
    List.map_filter (\<lambda>(k, v). map_option (\<lambda>k. string_kv k v) (g k)) (map (\<lambda>a. (attr_key a, attr_value a)) as)" for as
    by (induction as) (auto simp: List.map_filter_simps split: option.split)
  then show ?thesis by (simp add: attr_pairs_def)
qed

lemma map_of_text_attribute [simp]:
  "map_of (text_attribute k s) k' = (if k = k' \<and> s \<noteq> [] then Some s else None)"
  by (simp add: text_attribute_def)

lemma map_of_opt_attribute [simp]: "map_of (opt_attribute k v) k' = (if k = k' then v else None)"
  by (simp add: opt_attribute_def split: option.split)

text \<open>Keys with a prefix, and keys that avoid one.\<close>

definition avoids :: "string \<Rightarrow> (string \<times> 'v) list \<Rightarrow> bool" where
  "avoids p kvs \<longleftrightarrow> list_all (\<lambda>(k, v). \<not> starts_with p k) kvs"

lemma avoids_simps [simp]:
  "avoids p []" "avoids p ((k, v) # kvs) \<longleftrightarrow> \<not> starts_with p k \<and> avoids p kvs" "avoids p (xs @ ys) \<longleftrightarrow> avoids p xs \<and> avoids p ys"
  "avoids p (text_attribute k s) \<longleftrightarrow> s = [] \<or> \<not> starts_with p k" "avoids p (opt_attribute k z) \<longleftrightarrow> z = None \<or> \<not> starts_with p k"
  by (auto simp: avoids_def text_attribute_def opt_attribute_def split: option.split)

lemma avoids_lookup: "avoids p kvs \<Longrightarrow> starts_with p k \<Longrightarrow> map_of kvs k = None"
  by (induction kvs) (auto simp: avoids_def)

lemma avoids_kept: "avoids p kvs \<Longrightarrow> filter (\<lambda>(k, v). \<not> starts_with p k) kvs = kvs"
  by (induction kvs) (auto simp: avoids_def)

text \<open>The attributes of a message as strings, and what is left of them under a prefix.\<close>

definition value_text :: "'f proto_api \<Rightarrow> 'f any_value option \<Rightarrow> string" where
  "value_text api v = (case v of None \<Rightarrow> [] | Some a \<Rightarrow> any_value_to_string api a)"

definition rendered :: "'f proto_api \<Rightarrow> 'f key_value list \<Rightarrow> 'f key_value list" where
  "rendered api kvs = map (\<lambda>(k, v). string_kv k (value_text api v)) (filter (\<lambda>(k, v). \<not> blank k) kvs)"

lemma attributes_from_key_values_eq:
  "attributes_from_key_values api pre kvs = map (\<lambda>(k, v). (pre @ k, value_text api v)) (filter (\<lambda>(k, v). \<not> blank k) kvs)"
  by (auto simp: attributes_from_key_values_def value_text_def)

lemma rendered_pairs: "map (\<lambda>(k, v). string_kv k v) (attributes_from_key_values api [] kvs) = rendered api kvs"
  by (simp add: attributes_from_key_values_eq rendered_def comp_def case_prod_unfold)

lemma avoids_attributes: "avoids p kvs \<Longrightarrow> avoids p (attributes_from_key_values api [] kvs)"
  by (auto simp: avoids_def attributes_from_key_values_eq list_all_iff)

lemma avoids_prefixed: "\<not> starts_with (take (length pre) p) pre \<Longrightarrow> avoids p (attributes_from_key_values api pre kvs)"
  by (auto simp: avoids_def attributes_from_key_values_eq list_all_iff starts_with_iff append_eq_append_conv2)

lemma resource_avoids_otel [simp]:
  "avoids (CHR ''o'' # p) (resource_attributes_of api ri)"
  by (auto simp: resource_attributes_of_def starts_with_def intro!: avoids_prefixed split: option.split)

lemma stripped_prefixed:
  "(\<And>k. \<not> blank k \<Longrightarrow> P k) \<Longrightarrow>
   List.map_filter (\<lambda>(k, v). map_option (\<lambda>k. string_kv k v) (filter_opt P (strip_prefix pre k)))
     (attributes_from_key_values api pre kvs) = rendered api kvs"
  by (induction kvs) (auto simp: attributes_from_key_values_eq rendered_def List.map_filter_simps strip_prefix_def
      starts_with_def filter_opt_def)

lemma stripped_avoided:
  "avoids pre kvs \<Longrightarrow>
   List.map_filter (\<lambda>(k, v). map_option (\<lambda>k. string_kv k v) (filter_opt P (strip_prefix pre k))) kvs = []"
  by (induction kvs) (auto simp: avoids_def List.map_filter_simps strip_prefix_def filter_opt_def)

lemma map_filter_append: "List.map_filter f (xs @ ys) = List.map_filter f xs @ List.map_filter f ys"
  by (induction xs) (auto simp: List.map_filter_simps split: option.split)

section \<open>Texts that are read back\<close>

lemma lossy_valid: "valid_str s \<Longrightarrow> from_utf8_lossy (as_bytes s) = s"
proof -
  have "is_ok (utf8_check i bs) \<Longrightarrow> from_utf8_lossy bs = from_bytes bs" for i bs
  proof (induction i bs rule: utf8_check.induct)
    case (1 i)
    then show ?case by (simp add: from_bytes_def)
  next
    case (2 i b bs)
    then obtain w where w: "utf8_char (b # bs) = Inr w" by (cases "utf8_char (b # bs)") auto
    with 2 have "from_utf8_lossy (drop w (b # bs)) = from_bytes (drop w (b # bs))" by (simp del: utf8_char.simps)
    then have "from_utf8_lossy (b # bs) = from_bytes (take w (b # bs)) @ from_bytes (drop w (b # bs))"
      using w by (simp del: utf8_char.simps)
    also have "\<dots> = from_bytes (take w (b # bs) @ drop w (b # bs))" unfolding from_bytes_def map_append ..
    finally show ?case by simp
  qed
  then show "valid_str s \<Longrightarrow> ?thesis" by (simp add: valid_str_def)
qed

lemma hex_chars: "list_all (\<lambda>n. hex_value (of_char (hex_char n)) = Some (of_nat n)) [0..<16]"
  by code_simp

lemma hex_value_char: "n < 16 \<Longrightarrow> hex_value (of_char (hex_char n)) = Some (of_nat n)"
  using hex_chars by (auto simp: list_all_iff)

lemma byte_halves:
  fixes b :: u8
  shows "push_bit 4 (of_nat (unat b div 16)) OR of_nat (unat b mod 16) = b"
proof -
  have "(of_nat (unat b div 16) :: u8) = drop_bit 4 b" "(of_nat (unat b mod 16) :: u8) = take_bit 4 b"
    by (simp_all add: drop_bit_eq_div take_bit_eq_mod word_unat_eq_iff unat_of_nat unat_div unat_mod)
      (metis mod_less unat_u8 le_less_trans div_le_dividend mod_less_eq_dividend)+
  moreover have "push_bit 4 (drop_bit 4 b) OR take_bit 4 b = b"
    by (rule bit_eqI) (auto simp: bit_simps)
  ultimately show ?thesis by simp
qed

lemma hex_pairs_encode: "hex_pairs (as_bytes (hex_encode bs)) = Some bs"
proof (induction bs)
  case Nil
  then show ?case by (simp add: hex_encode_def)
next
  case (Cons b bs)
  have "unat b div 16 < 16" "unat b mod 16 < 16" using unat_u8 [of b] by (auto simp: less_mult_imp_div_less)
  with Cons show ?case by (simp add: hex_encode_def as_bytes_def hex_value_char byte_halves)
qed

lemma length_hex_encode: "length (hex_encode bs) = 2 * length bs"
  by (induction bs) (auto simp: hex_encode_def)

text \<open>An identifier of the protocol: absent, or of the right length and not zero.\<close>

definition proper_id :: "usize \<Rightarrow> u8 list \<Rightarrow> bool" where
  "proper_id n bs \<longleftrightarrow> length bs = n \<and> \<not> all_zero bs"

lemma hex_decode_encode: "hex_decode_fixed (hex_encode bs) n = (if proper_id n bs then Some bs else None)"
  by (auto simp: hex_decode_fixed_def length_hex_encode hex_pairs_encode proper_id_def)

lemma parse_show_int: "- int m - 1 \<le> i \<Longrightarrow> i \<le> int m \<Longrightarrow> parse_int m (show_int i) = Some i"
proof (cases "i < 0")
  case True
  assume "- int m - 1 \<le> i"
  with True have "parse_digits (m + 1) 0 (show_nat (nat (- i)) @ []) = Inr (nat (- i))"
    by (subst parse_digits_show) auto
  with True show ?thesis by (simp add: show_int_def parse_int_def)
next
  case False
  assume "i \<le> int m"
  with False have digits: "parse_digits m 0 (show_nat (nat i) @ []) = Inr (nat i)"
    by (subst parse_digits_show) auto
  obtain c cs where s: "show_nat (nat i) = c # cs" by (cases "show_nat (nat i)") auto
  then obtain d where "d < 10" "c = digit_char d" using show_nat_digits [of c "nat i"] by auto
  then have "c \<noteq> CHR ''+''" "c \<noteq> CHR ''-''" using digit_char_sign by auto
  with False s digits show ?thesis by (simp add: show_int_def parse_int_def)
qed

lemma or_default_simps [simp]: "or_default d None = d" "or_default d (Some x) = x"
  by (simp_all add: or_default_def)

lemma filter_opt_simps [simp]: "filter_opt p None = None" "filter_opt p (Some x) = (if p x then Some x else None)"
  by (simp_all add: filter_opt_def)

lemmas read_back = find_attribute_pairs parse_u64_attribute_def parse_i32_attribute_def hex_decode_encode parse_show_int

section \<open>Requests\<close>

definition messages :: "('f, 'a) resource_items list \<Rightarrow> 'a list" where
  "messages req = concat (map (\<lambda>ri. concat (map items_of (scopes_of ri))) req)"

lemma messages_all:
  "list_all P (messages req) \<longleftrightarrow> (\<forall>ri\<in>set req. \<forall>si\<in>set (scopes_of ri). \<forall>x\<in>set (items_of si). P x)"
  by (auto simp: messages_def list_all_iff)

lemma map_filter_total: "(\<And>x. x \<in> set xs \<Longrightarrow> f x = Some (g x)) \<Longrightarrow> List.map_filter f xs = map g xs"
  by (induction xs) (auto simp: List.map_filter_simps)

lemma list_all2_concat_map: "(\<And>x. x \<in> set xs \<Longrightarrow> list_all2 Q (f x) (g x)) \<Longrightarrow> list_all2 Q (concat (map f xs)) (concat (map g xs))"
  by (induction xs) (auto intro: list_all2_appendI)

text \<open>The general form of a forwarded request: each message with the resource and the scope it came with.\<close>

definition each_message ::
  "('f key_value list option \<Rightarrow> string option \<Rightarrow> 'a \<Rightarrow> 'b list) \<Rightarrow> ('f, 'a) resource_items list \<Rightarrow> 'b list" where
  "each_message F req =
     concat (map (\<lambda>ri. concat (map (\<lambda>si. concat (map (F (resource_of ri) (scope_name_of si)) (items_of si))) (scopes_of ri))) req)"

text \<open>
  What a signal needs to be forwarded: the records that a receiver makes of a message are read by an exporter as
  what the message is forwarded as, whenever they are made. Then whole requests are forwarded.
\<close>

locale message_forwarding =
  fixes api :: "'f proto_api" and kind :: signal_kind
    and make :: "(string \<times> string) list \<Rightarrow> string \<Rightarrow> 'a \<Rightarrow> (128 word \<Rightarrow> telemetry_record) list"
    and recover :: "telemetry_record \<Rightarrow> 'o option"
    and wf :: "'a \<Rightarrow> bool"
    and forward :: "'f key_value list option \<Rightarrow> string option \<Rightarrow> 'a \<Rightarrow> 'o list"
  assumes read_back: "wf x \<Longrightarrow>
    list_all2 (\<lambda>g y. \<forall>now. signal (g now) = kind \<and> recover (g now) = Some y)
      (make (resource_attributes_of api (ri :: ('f, 'a) resource_items)) (scope_text (si :: 'a scope_items)) x)
      (forward (resource_of ri) (scope_name_of si) x)"
begin

lemma makers:
  "list_all wf (messages req) \<Longrightarrow>
   list_all2 (\<lambda>g y. \<forall>now. signal (g now) = kind \<and> recover (g now) = Some y) (request_items api make req) (each_message forward req)"
  unfolding request_items_def each_message_def messages_all by (intro list_all2_concat_map) (auto intro: read_back)

lemma stamped:
  "list_all2 (\<lambda>g y. \<forall>now. signal (g now) = kind \<and> recover (g now) = Some y) gs ys \<Longrightarrow>
   List.map_filter recover (filter (\<lambda>r. signal r = kind) (map (\<lambda>(i, g). g (clock i)) (List.enumerate n gs))) = ys"
  by (induction gs ys arbitrary: n rule: list_all2_induct) (auto simp: List.map_filter_simps)

lemma forwarded:
  "list_all wf (messages req) \<Longrightarrow>
   List.map_filter recover (filter (\<lambda>r. signal r = kind) (stamp clock (request_items api make req))) = each_message forward req"
  unfolding stamp_def by (rule stamped [OF makers])

end

section \<open>Spans\<close>

definition wf_span :: "'f otlp_span \<Rightarrow> bool" where
  "wf_span s \<longleftrightarrow> proper_id 16 (sp_trace_id s) \<and> proper_id 8 (sp_span_id s) \<and>
     (sp_parent_span_id s = [] \<or> proper_id 8 (sp_parent_span_id s)) \<and> \<not> blank (sp_name s) \<and>
     - int i32_max - 1 \<le> sp_kind s \<and> sp_kind s \<le> int i32_max \<and>
     sp_start_time_unix_nano s \<le> u64_max \<and> sp_end_time_unix_nano s \<le> u64_max"

text \<open>A span is forwarded with the resource's attributes in front of its own, all as strings.\<close>

definition resource_pairs :: "'f proto_api \<Rightarrow> 'f key_value list option \<Rightarrow> 'f key_value list" where
  "resource_pairs api res =
     (case res of
        None \<Rightarrow> []
      | Some kvs \<Rightarrow> map (\<lambda>(k, v). string_kv (''resource.'' @ k) (value_text api v)) (filter (\<lambda>(k, v). \<not> blank k) kvs))"

definition forwarded_span :: "'f proto_api \<Rightarrow> 'f key_value list option \<Rightarrow> 'f otlp_span \<Rightarrow> 'f otlp_span" where
  "forwarded_span api res s =
     s\<lparr>sp_attributes := resource_pairs api res @
        filter (\<lambda>(k, v). \<not> starts_with ''otel.'' k) (rendered api (sp_attributes s))\<rparr>"

lemma resource_pairs_eq:
  "map (\<lambda>(k, v). string_kv k v) (resource_attributes_of api ri) = resource_pairs api (resource_of ri)"
  by (auto simp: resource_attributes_of_def resource_pairs_def attributes_from_key_values_eq case_prod_unfold split: option.split)

lemma filter_rendered:
  "map (\<lambda>(k, v). string_kv k v) (filter (\<lambda>(k, v). P k) (attributes_from_key_values api [] kvs)) =
   filter (\<lambda>(k, v). P k) (rendered api kvs)"
  by (simp add: rendered_pairs [symmetric] filter_map comp_def case_prod_unfold string_kv_def)

lemma span_record_pairs:
  "attr_pairs (span_to_record api tenant ra scope s now) =
     [(''otel.signal'', ''trace''), (''otel.span.name'', sp_name s),
      (''otel.trace_id'', hex_encode (sp_trace_id s)), (''otel.span_id'', hex_encode (sp_span_id s)),
      (''otel.parent_span_id'', hex_encode (sp_parent_span_id s)), (''otel.span.kind'', show_int (sp_kind s)),
      (''otel.start_unix_nano'', show_nat (sp_start_time_unix_nano s)),
      (''otel.end_unix_nano'', show_nat (sp_end_time_unix_nano s))] @
     text_attribute ''otel.scope.name'' scope @ ra @ attributes_from_key_values api [] (sp_attributes s)"
  "signal (span_to_record api tenant ra scope s now) = Trace" "body (span_to_record api tenant ra scope s now) = as_bytes (sp_name s)"
  "timestamp_unix_nanos (span_to_record api tenant ra scope s now) = now"
  by (simp_all add: span_to_record_def)

lemma improper_Nil [simp]: "\<not> proper_id n []"
  by (simp add: proper_id_def all_zero_def)

lemma span_read_back:
  assumes "wf_span s"
  shows "record_to_span (span_to_record api tenant (resource_attributes_of api ri) scope s now) = forwarded_span api (resource_of ri) s"
proof -
  let ?r = "span_to_record api tenant (resource_attributes_of api ri) scope s now"
  have kept: "map (\<lambda>a. string_kv (attr_key a) (attr_value a)) (filter (\<lambda>a. \<not> starts_with ''otel.'' (attr_key a)) (attributes ?r)) =
    resource_pairs api (resource_of ri) @ filter (\<lambda>(k, v). \<not> starts_with ''otel.'' k) (rendered api (sp_attributes s))"
    unfolding kept_pairs [where P = "\<lambda>k. \<not> starts_with ''otel.'' k"]
    by (simp add: span_record_pairs text_attribute_def starts_with_def [of "''otel.''" "CHR ''o'' # _"] avoids_kept resource_pairs_eq
        filter_rendered)
  show ?thesis
    using assms unfolding record_to_span_def kept
    by (cases s) (auto simp: Let_def read_back span_record_pairs(1) wf_span_def forwarded_span_def)
qed

subsection \<open>Every record gives a span with valid fields\<close>

lemma res_ok_Some: "res_ok r = Some x \<longleftrightarrow> r = Inr x"
  by (cases r) auto

lemma length_stretch: "len \<le> length (stretch len h)"
proof (induction len h rule: stretch.induct)
  case (1 len h)
  then show ?case by (subst stretch.simps) (auto simp: Let_def)
qed

lemma fallback_id_proper: "0 < len \<Longrightarrow> proper_id len (fallback_id seed len)"
proof -
  assume "0 < len"
  let ?out = "take len (stretch len (seed_hash seed))"
  have len: "length ?out = len" using length_stretch [of len "seed_hash seed"] by simp
  with \<open>0 < len\<close> obtain b bs where out: "?out = b # bs" by (cases ?out) auto
  show ?thesis
    using len unfolding fallback_id_def proper_id_def Let_def out by (auto simp: all_zero_def)
qed

lemma hex_pairs_length: "hex_pairs bs = Some out \<Longrightarrow> length out = length bs div 2"
  by (induction bs arbitrary: out rule: hex_pairs.induct) (auto split: bind_splits)

lemma hex_decode_proper: "hex_decode_fixed v n = Some bs \<Longrightarrow> proper_id n bs"
  by (auto simp: hex_decode_fixed_def proper_id_def dest: hex_pairs_length split: if_splits bind_splits)

lemma parse_int_bounds: "parse_int m s = Some i \<Longrightarrow> - int m - 1 \<le> i \<and> i \<le> int m"
  by (auto simp: parse_int_def res_ok_Some simp del: parse_digits.simps split: list.splits if_splits
      dest!: parse_digits_bound)

lemma or_default_cases: "(\<And>x. v = Some x \<Longrightarrow> P x) \<Longrightarrow> P d \<Longrightarrow> P (or_default d v)"
  by (cases v) auto

text \<open>
  Whatever the attributes of a record are, the span made from it has a trace
  identifier of 16 bytes and a span identifier of 8 bytes that are not zero, a parent that is absent or valid,
  and numbers in the ranges of their types: what is missing or malformed is replaced, never sent.
\<close>

theorem exported_span_valid:
  "proper_id 16 (sp_trace_id (record_to_span r)) \<and> proper_id 8 (sp_span_id (record_to_span r)) \<and>
   (sp_parent_span_id (record_to_span r) = [] \<or> proper_id 8 (sp_parent_span_id (record_to_span r))) \<and>
   - int i32_max - 1 \<le> sp_kind (record_to_span r) \<and> sp_kind (record_to_span r) \<le> int i32_max \<and>
   sp_start_time_unix_nano (record_to_span r) \<le> u64_max \<and> sp_end_time_unix_nano (record_to_span r) \<le> u64_max"
proof -
  have id: "proper_id n (or_default (fallback_id seed n) (Option.bind a (\<lambda>v. hex_decode_fixed v n)))" if "0 < n" for n seed a
    by (rule or_default_cases) (use that in \<open>auto simp: fallback_id_proper dest: hex_decode_proper split: bind_splits\<close>)
  have time: "or_default (record_time r) (parse_u64_attribute r k) \<le> u64_max" for k
    by (rule or_default_cases) (auto simp: parse_u64_attribute_def record_time_def res_ok_Some dest!: parse_uint_bound split: bind_splits)
  have parent: "bs = [] \<or> proper_id 8 bs" if "bs = or_default [] (Option.bind a (\<lambda>v. hex_decode_fixed v 8))" for a bs
    unfolding that by (rule or_default_cases) (auto dest: hex_decode_proper split: bind_splits)
  have kind: "- int i32_max - 1 \<le> k \<and> k \<le> int i32_max" if "k = or_default 0 (parse_i32_attribute r x)" for k x
    unfolding that by (rule or_default_cases) (auto simp: parse_i32_attribute_def dest: parse_int_bounds split: bind_splits)
  show ?thesis
    unfolding record_to_span_def Let_def otlp_span.simps
    by (intro conjI id time parent [OF refl] conjunct1 [OF kind [OF refl]] conjunct2 [OF kind [OF refl]]) simp_all
qed

subsection \<open>Forwarding\<close>

interpretation spans: message_forwarding api Trace "\<lambda>ra sc s. [span_to_record api tenant ra sc s]" "\<lambda>r. Some (record_to_span r)" wf_span
  "\<lambda>res scope s. [forwarded_span api res s]" for api :: "'f proto_api" and tenant
  by unfold_locales (simp add: span_read_back span_record_pairs)

lemma spans_read_back_request:
  fixes req :: "'f trace_request"
  assumes "list_all wf_span (messages req)"
  shows "batch_to_trace_request (trace_request_to_records api clock tenant req) =
    (let spans = each_message (\<lambda>res scope s. [forwarded_span api res s]) req in
     if spans = [] then [] else [\<lparr>resource_of = Some [], scopes_of = [\<lparr>scope_name_of = None, items_of = spans\<rparr>]\<rparr>])"
proof -
  have "map record_to_span (filter (\<lambda>r. signal r = Trace) (trace_request_to_records api clock tenant req)) =
    each_message (\<lambda>res scope s. [forwarded_span api res s]) req"
    using spans.forwarded [OF assms, where api = api and tenant = tenant and clock = clock] unfolding trace_request_to_records_def by (simp add: map_filter_total)
  then show ?thesis by (simp add: batch_to_trace_request_def)
qed

text \<open>
  Property C18 (spans_forwarded). Let every span of a trace request have a trace identifier of 16 bytes and a span identifier of 8 bytes, neither all
  zero, a parent identifier that is absent or like a span identifier, a name that is not blank, and a kind and times within their integer types. Then the
  request, received, turned into records and exported again, is sent as one request with all spans in their order: identifiers, name, kind and times are
  unchanged, and the attributes are those of the resource under the prefix \<^verbatim>\<open>resource.\<close> and then the span's own, as strings, less
  those with a reserved key. Attributes of the client cannot replace a field of such a span. (For any other span the exporter
  substitutes a derived identifier and drops a malformed parent, so the condition is needed.)
\<close>

theorem spans_forwarded:
  fixes req :: "'f trace_request"
  assumes "list_all wf_span (messages req)"
  shows "batch_to_trace_request (trace_request_to_records api clock tenant req) =
    (let spans = each_message (\<lambda>res scope s. [forwarded_span api res s]) req in
     if spans = [] then [] else [\<lparr>resource_of = Some [], scopes_of = [\<lparr>scope_name_of = None, items_of = spans\<rparr>]\<rparr>])"
  by (rule spans_read_back_request [OF assms])

text \<open>Integers in place of doubles, and the numbers of the protocol's enumerations, for concrete examples.\<close>

definition sample_api :: "int proto_api" where
  "sample_api =
     \<lparr>show_f64 = show_int, parse_f64 = parse_int i64_max, is_finite = (\<lambda>d. \<bar>d\<bar> < 2 ^ 60), f64_of_int = id, f64_default = 0,
      f64_neg = uminus, f64_powf = (\<lambda>a b. a ^ nat b), f64_powi = (\<lambda>a b. a ^ nat b), f64_total_le = (\<le>),
      temporality_name = (\<lambda>t. if t = 0 then Some ''AGGREGATION_TEMPORALITY_UNSPECIFIED''
        else if t = 1 then Some ''AGGREGATION_TEMPORALITY_DELTA''
        else if t = 2 then Some ''AGGREGATION_TEMPORALITY_CUMULATIVE'' else None),
      temporality_unspecified = 0, temporality_delta = 1, temporality_cumulative = 2, severity_unspecified = 0\<rparr>"

definition sample_trace_id :: "u8 list" where
  "sample_trace_id = replicate 15 0 @ [1]"

definition sample_span :: "int otlp_span" where
  "sample_span =
     \<lparr>sp_trace_id = sample_trace_id, sp_span_id = [0, 0, 0, 0, 0, 0, 0, 7], sp_parent_span_id = [], sp_name = ''get'',
      sp_kind = 2, sp_start_time_unix_nano = 5, sp_end_time_unix_nano = 9,
      sp_attributes = [(''otel.span.name'', Some (StringValue ''x'')), (''retries'', Some (IntValue 3))]\<rparr>"

lemma spans_forwarded_witness:
  "batch_to_trace_request (trace_request_to_records sample_api (\<lambda>_. 0) ''t''
     [\<lparr>resource_of = Some [(''host'', Some (StringValue ''a''))], scopes_of = [\<lparr>scope_name_of = None, items_of = [sample_span]\<rparr>]\<rparr>]) =
   [\<lparr>resource_of = Some [],
     scopes_of = [\<lparr>scope_name_of = None,
       items_of = [sample_span\<lparr>sp_attributes := [string_kv ''resource.host'' ''a'', string_kv ''retries'' ''3'']\<rparr>]\<rparr>]\<rparr>]"
proof -
  have names: "trim ''get'' \<noteq> []" "trim ''host'' \<noteq> []" "trim ''otel.span.name'' \<noteq> []" "trim ''retries'' \<noteq> []" by code_simp+
  have "show_int 3 = ''3''" "proper_id 16 sample_trace_id" "proper_id 8 [0, 0, 0, 0, 0, 0, 0, 7]" by code_simp+
  then show ?thesis
    using names
    by (subst spans_forwarded)
      (simp_all add: messages_def wf_span_def sample_span_def each_message_def forwarded_span_def resource_pairs_def rendered_def
        value_text_def string_kv_def starts_with_def i32_max_def)
qed


section \<open>Logs\<close>

definition log_text :: "'f proto_api \<Rightarrow> 'f otlp_log \<Rightarrow> string" where
  "log_text api lg = (let s = value_text api (lg_body lg) in if blank s then lg_event_name lg else s)"

text \<open>A log of a client that does not use the reserved prefixes as attribute keys.\<close>

definition wf_log :: "'f proto_api \<Rightarrow> 'f otlp_log \<Rightarrow> bool" where
  "wf_log api lg \<longleftrightarrow>
     (lg_trace_id lg = [] \<or> proper_id 16 (lg_trace_id lg)) \<and> (lg_span_id lg = [] \<or> proper_id 8 (lg_span_id lg)) \<and>
     - int i32_max - 1 \<le> lg_severity_number lg \<and> lg_severity_number lg \<le> int i32_max \<and>
     lg_time_unix_nano lg \<le> u64_max \<and> lg_observed_time_unix_nano lg \<le> u64_max \<and> lg_flags lg \<le> u32_max \<and>
     valid_str (log_text api lg) \<and> avoids ''otel.'' (lg_attributes lg) \<and> avoids ''resource.'' (lg_attributes lg)"

definition forwarded_log :: "'f proto_api \<Rightarrow> 'f otlp_log \<Rightarrow> 'f otlp_log" where
  "forwarded_log api lg =
     lg\<lparr>lg_body := Some (StringValue (log_text api lg)), lg_attributes := rendered api (lg_attributes lg)\<rparr>"

text \<open>A message on its own, with its resource and its scope.\<close>

definition alone :: "'f proto_api \<Rightarrow> 'f key_value list option \<Rightarrow> string option \<Rightarrow> 'a \<Rightarrow> ('f, 'a) resource_items" where
  "alone api res scope x =
     \<lparr>resource_of = Some (case res of None \<Rightarrow> [] | Some kvs \<Rightarrow> rendered api kvs),
      scopes_of = [\<lparr>scope_name_of = filter_opt (\<lambda>n. \<not> blank n) scope, items_of = [x]\<rparr>]\<rparr>"

lemma log_record_pairs:
  "attr_pairs (log_record_to_record api tenant ra scope lg now) =
     [(''otel.signal'', ''log''), (''otel.log.time_unix_nano'', show_nat (lg_time_unix_nano lg)),
      (''otel.log.observed_time_unix_nano'', show_nat (lg_observed_time_unix_nano lg)),
      (''otel.log.severity_number'', show_int (lg_severity_number lg)),
      (''otel.log.severity_text'', lg_severity_text lg), (''otel.trace_id'', hex_encode (lg_trace_id lg)),
      (''otel.span_id'', hex_encode (lg_span_id lg)), (''otel.log.flags'', show_nat (lg_flags lg))] @
     text_attribute ''otel.log.event_name'' (lg_event_name lg) @ text_attribute ''otel.scope.name'' scope @
     ra @ attributes_from_key_values api [] (lg_attributes lg)"
  "signal (log_record_to_record api tenant ra scope lg now) = Log"
  "body (log_record_to_record api tenant ra scope lg now) = as_bytes (log_text api lg)"
  by (auto simp: log_record_to_record_def log_text_def value_text_def Let_def split: option.split)

lemma resource_read_back:
  "List.map_filter (\<lambda>(k, v). map_option (\<lambda>k. string_kv k v) (filter_opt (\<lambda>k. \<not> blank k) (strip_prefix ''resource.'' k)))
     (resource_attributes_of api ri) = (case resource_of ri of None \<Rightarrow> [] | Some kvs \<Rightarrow> rendered api kvs)"
  by (auto simp: resource_attributes_of_def stripped_prefixed List.map_filter_simps split: option.split)

lemma resource_prefixed: "filter (\<lambda>(k, v). \<not> starts_with ''otel.'' k \<and> \<not> starts_with ''resource.'' k) (resource_attributes_of api ri) = []"
  by (auto simp: resource_attributes_of_def attributes_from_key_values_eq filter_empty_conv starts_with_iff split: option.split)

lemma kept_avoiding:
  "avoids ''otel.'' kvs \<Longrightarrow> avoids ''resource.'' kvs \<Longrightarrow>
   filter (\<lambda>(k, v). \<not> starts_with ''otel.'' k \<and> \<not> starts_with ''resource.'' k) (attributes_from_key_values api [] kvs) =
   attributes_from_key_values api [] kvs"
  by (auto simp: avoids_def attributes_from_key_values_eq list_all_iff intro!: filter_True)

text \<open>What is common to logs and metrics: \<open>own\<close> are the attributes with reserved keys, after them come the resource's and
  the message's.\<close>

lemma shared_read_back:
  assumes pairs: "attr_pairs r = own @ resource_attributes_of api ri @ attributes_from_key_values api [] kvs @ rest"
    and own: "list_all (\<lambda>(k, v). starts_with ''otel.'' k) (own @ rest)"
    and clean: "avoids ''otel.'' kvs" "avoids ''resource.'' kvs"
  shows "record_to_resource_attributes r = (case resource_of ri of None \<Rightarrow> [] | Some a \<Rightarrow> rendered api a)"
    and "record_to_log_attributes r = rendered api kvs" and "record_to_metric_attributes r = rendered api kvs"
proof -
  have "\<not> starts_with ''resource.'' k" if "starts_with ''otel.'' k" for k
    using that by (auto simp: starts_with_iff)
  with own have away: "avoids ''resource.'' own" "avoids ''resource.'' rest"
    by (auto simp: avoids_def elim!: list.pred_mono_strong)
  show "record_to_resource_attributes r = (case resource_of ri of None \<Rightarrow> [] | Some a \<Rightarrow> rendered api a)"
    unfolding record_to_resource_attributes_def mapped_pairs [where g = "\<lambda>k. filter_opt (\<lambda>k. \<not> blank k) (strip_prefix ''resource.'' k)"] pairs
    using away clean by (simp add: map_filter_append stripped_avoided avoids_attributes resource_read_back)
  have dropped: "filter (\<lambda>(k, v). \<not> starts_with ''otel.'' k \<and> \<not> starts_with ''resource.'' k) xs = []"
    if "list_all (\<lambda>(k, v). starts_with ''otel.'' k) xs" for xs :: "(string \<times> string) list"
    using that by (induction xs) auto
  have "filter (\<lambda>(k, v). \<not> starts_with ''otel.'' k \<and> \<not> starts_with ''resource.'' k) (attr_pairs r) = attributes_from_key_values api [] kvs"
    using clean dropped [of own] dropped [of rest] own by (simp add: pairs kept_avoiding resource_prefixed)
  then show "record_to_log_attributes r = rendered api kvs" "record_to_metric_attributes r = rendered api kvs"
    unfolding record_to_log_attributes_def record_to_metric_attributes_def
      kept_pairs [where P = "\<lambda>k. \<not> starts_with ''otel.'' k \<and> \<not> starts_with ''resource.'' k"]
    by (simp_all add: rendered_pairs)
qed

lemma scope_of_text: "filter_opt (\<lambda>n. \<not> blank n) (Some (scope_text si)) = filter_opt (\<lambda>n. \<not> blank n) (scope_name_of si)"
  by (simp add: scope_text_def split: option.split)

lemma log_read_back:
  assumes "wf_log api lg"
  shows "record_to_resource_log api (log_record_to_record api tenant (resource_attributes_of api ri) (scope_text si) lg now) =
    Some (alone api (resource_of ri) (scope_name_of si) (forwarded_log api lg))"
proof -
  let ?r = "log_record_to_record api tenant (resource_attributes_of api ri) (scope_text si) lg now"
  let ?kvs = "attributes_from_key_values api [] (lg_attributes lg)"
  have clean: "avoids ''otel.'' (lg_attributes lg)" "avoids ''resource.'' (lg_attributes lg)"
    using assms by (auto simp: wf_log_def)
  note shared = shared_read_back [OF _ _ clean, where r = ?r and api = api and ri = ri and rest = "[]",
      unfolded log_record_pairs append_assoc [symmetric] append_Nil2, OF refl]
  have absent: "map_of ?kvs k = None" "map_of (resource_attributes_of api ri) k = None" if "starts_with ''otel.'' k" for k
    using that clean by (auto intro: avoids_lookup [of "''otel.''"] avoids_attributes)
  have own: "list_all (\<lambda>(k, v). starts_with ''otel.'' k) (text_attribute ''otel.log.event_name'' e @ text_attribute ''otel.scope.name'' s)"
    for e s by (simp add: text_attribute_def starts_with_def)
  have "record_scope ?r = filter_opt (\<lambda>n. \<not> blank n) (scope_name_of si)"
    by (simp add: record_scope_def find_attribute_pairs log_record_pairs absent starts_with_def map_add_def scope_of_text [symmetric])
  moreover have "record_to_resource_attributes ?r = (case resource_of ri of None \<Rightarrow> [] | Some a \<Rightarrow> rendered api a)"
    by (rule shared(1)) (use own in \<open>simp add: starts_with_def\<close>)
  moreover have "record_to_log_attributes ?r = rendered api (lg_attributes lg)"
    by (rule shared(2)) (use own in \<open>simp add: starts_with_def\<close>)
  moreover have "record_to_log_record api ?r = forwarded_log api lg"
    if "record_to_log_attributes ?r = rendered api (lg_attributes lg)"
    using assms unfolding record_to_log_record_def that
    by (intro otlp_log.equality) (auto simp: read_back log_record_pairs(1,3) wf_log_def forwarded_log_def lossy_valid absent starts_with_def map_add_def)
  ultimately show ?thesis by (simp add: record_to_resource_log_def alone_def)
qed

interpretation logs: message_forwarding api Log "\<lambda>ra sc lg. [log_record_to_record api tenant ra sc lg]" "record_to_resource_log api"
  "wf_log api" "\<lambda>res scope lg. [alone api res scope (forwarded_log api lg)]" for api :: "'f proto_api" and tenant
  by unfold_locales (simp add: log_read_back log_record_pairs)

text \<open>
  Property C20 (logs_forwarded). Let every log record of a request have a trace and a span identifier that are absent or of 16 and 8 bytes and not
  all zero, numbers within their integer types, a text in valid UTF-8, and no attribute key that starts with \<^verbatim>\<open>otel.\<close> or \<^verbatim>\<open>resource.\<close>. Then the
  request, received, turned into records and exported again, comes out as one entry for each log record, in order, with the attributes of its resource
  and the name of its scope. The log record keeps its times, severity, identifiers, flags and event name; its body and its attributes are
  sent as strings, and the event name stands in for a body with no text. (A client that does use the two prefixes can set fields that are absent and
  move attributes to the resource, see \<open>log_field_forged\<close>; malformed identifiers are dropped.)
\<close>

theorem logs_forwarded:
  assumes "list_all (wf_log api) (messages req)"
  shows "batch_to_logs_request api (logs_request_to_records api clock tenant req) =
    each_message (\<lambda>res scope lg. [alone api res scope (forwarded_log api lg)]) req"
  using logs.forwarded [OF assms, where tenant = tenant and clock = clock] by (simp add: batch_to_logs_request_def logs_request_to_records_def)

definition sample_log_message :: "int otlp_log" where
  "sample_log_message =
     \<lparr>lg_time_unix_nano = 5, lg_observed_time_unix_nano = 6, lg_severity_number = 9, lg_severity_text = ''INFO'',
      lg_body = Some AnyNone, lg_attributes = [(''retries'', Some (IntValue 3))], lg_flags = 1, lg_trace_id = sample_trace_id,
      lg_span_id = [], lg_event_name = ''boot''\<rparr>"

theorem logs_forwarded_witness:
  "batch_to_logs_request sample_api (logs_request_to_records sample_api (\<lambda>_. 0) ''t''
     [\<lparr>resource_of = Some [(''host'', Some (StringValue ''a''))], scopes_of = [\<lparr>scope_name_of = Some ''web'', items_of = [sample_log_message]\<rparr>]\<rparr>]) =
   [\<lparr>resource_of = Some [string_kv ''host'' ''a''],
     scopes_of = [\<lparr>scope_name_of = Some ''web'',
       items_of = [sample_log_message\<lparr>lg_body := Some (StringValue ''boot''), lg_attributes := [string_kv ''retries'' ''3'']\<rparr>]\<rparr>]\<rparr>]"
proof -
  have texts: "trim ''web'' \<noteq> []" "trim ''host'' \<noteq> []" "trim ''retries'' \<noteq> []" "valid_str ''boot''" by code_simp+
  have "show_int 3 = ''3''" "proper_id 16 sample_trace_id" by code_simp+
  then show ?thesis
    using texts
    by (subst logs_forwarded)
      (simp_all add: messages_def wf_log_def sample_log_message_def each_message_def forwarded_log_def alone_def rendered_def log_text_def
        value_text_def string_kv_def starts_with_def i32_max_def avoids_def)
qed

text \<open>Attributes of a log under the reserved prefixes: the first becomes the event name that the log does not have, the second its scope, the
  third an attribute of the resource.\<close>

theorem log_field_forged:
  "batch_to_logs_request sample_api (logs_request_to_records sample_api (\<lambda>_. 0) ''t''
     [\<lparr>resource_of = None, scopes_of = [\<lparr>scope_name_of = None, items_of =
        [sample_log_message\<lparr>lg_event_name := [], lg_body := Some (StringValue ''hi''),
           lg_attributes := [(''otel.log.event_name'', Some (StringValue ''login'')), (''otel.scope.name'', Some (StringValue ''auth'')),
             (''resource.host'', Some (StringValue ''b''))]\<rparr>]\<rparr>]\<rparr>]) =
   [\<lparr>resource_of = Some [string_kv ''host'' ''b''],
     scopes_of = [\<lparr>scope_name_of = Some ''auth'',
       items_of = [sample_log_message\<lparr>lg_event_name := ''login'', lg_body := Some (StringValue ''hi''), lg_attributes := []\<rparr>]\<rparr>]\<rparr>]"
  by code_simp

end
