(* ===== verification/Metric_Forward.thy ===== *)
theory Metric_Forward
  imports Otlp_Forward
begin

text \<open>
  Metrics through an agent: each data point becomes a record whose attributes spell its fields, and the exporter
  reads them back. Numbers go through text; what is needed of the text of a double is \<open>f64_texts\<close>.
\<close>

section \<open>Lists of numbers\<close>

lemma split_on_none: "c \<notin> set s \<Longrightarrow> split_on c s = [s]"
  by (induction s) auto

lemma split_on_append: "c \<notin> set s \<Longrightarrow> split_on c (s @ c # t) = s # split_on c t"
  by (induction s) auto

lemma split_join: "xs \<noteq> [] \<Longrightarrow> list_all (\<lambda>s. c \<notin> set s) xs \<Longrightarrow> split_on c (join [c] xs) = xs"
  by (induction "[c]" xs rule: join.induct) (auto simp: split_on_none split_on_append)

lemma read_list:
  assumes "\<And>x. x \<in> set xs \<Longrightarrow> CHR '','' \<notin> set (f x) \<and> g (f x) = Some x" and "g [] = None"
  shows "List.map_filter g (split_on CHR '','' (join '','' (map f xs))) = xs"
proof (cases xs)
  case Nil
  then show ?thesis using assms(2) by (simp add: List.map_filter_simps)
next
  case (Cons y ys)
  then have "split_on CHR '','' (join '','' (map f xs)) = map f xs"
    using assms(1) by (intro split_join) (auto simp: list_all_iff)
  moreover have "List.map_filter g (map f zs) = zs" if "set zs \<subseteq> set xs" for zs
    using that assms(1) by (induction zs) (auto simp: List.map_filter_simps)
  ultimately show ?thesis by simp
qed

definition number_text :: "string \<Rightarrow> bool" where
  "number_text s \<longleftrightarrow> list_all plain_char s \<and> CHR '','' \<notin> set s \<and> CHR '':'' \<notin> set s"

definition f64_texts :: "'f proto_api \<Rightarrow> bool" where
  "f64_texts api \<longleftrightarrow>
     (\<forall>d. is_finite api d \<longrightarrow> parse_f64 api (show_f64 api d) = Some d \<and> number_text (show_f64 api d)) \<and> parse_f64 api [] = None"

lemma f64_read: "f64_texts api \<Longrightarrow> is_finite api d \<Longrightarrow> parse_finite api (show_f64 api d) = Some d"
  by (simp add: f64_texts_def parse_finite_def)

lemma show_nat_no: "(\<forall>d<10. c \<noteq> digit_char d) \<Longrightarrow> c \<notin> set (show_nat n)"
  by (auto dest: show_nat_digits)

lemma digit_marks: "\<forall>d<10. CHR '','' \<noteq> digit_char d" "\<forall>d<10. CHR '':'' \<noteq> digit_char d" "\<forall>d<10. CHR ''.'' \<noteq> digit_char d"
  by (auto simp: digit_char_def of_char_of dest!: arg_cong [where f = "of_char :: char \<Rightarrow> nat"])

lemma read_u64_list: "list_all (\<lambda>n. n \<le> u64_max) ns \<Longrightarrow>
  List.map_filter (\<lambda>item. parse_u64 (trim item)) (split_on CHR '','' (join_u64_values ns)) = ns"
  unfolding join_u64_values_def
  by (rule read_list) (auto simp: list_all_iff trim_plain [OF show_nat_plain] show_nat_no digit_marks parse_uint_def [of _ "[]"])

lemma read_f64_list: "f64_texts api \<Longrightarrow> list_all (is_finite api) ds \<Longrightarrow>
  List.map_filter (\<lambda>item. parse_finite api (trim item)) (split_on CHR '','' (join_f64_values api ds)) = ds"
  unfolding join_f64_values_def
  by (rule read_list) (auto simp: list_all_iff f64_texts_def number_text_def trim_plain parse_finite_def)

lemma read_quantiles:
  assumes "f64_texts api" and "list_all (\<lambda>(qu, v). is_finite api qu \<and> is_finite api v) qs"
  shows "List.map_filter (parse_quantile api) (split_on CHR '','' (join_quantile_values api qs)) = qs"
proof -
  have one: "CHR '','' \<notin> set s \<and> parse_quantile api s = Some x"
    if "x \<in> set qs" and s: "s = (case x of (qu, v) \<Rightarrow> show_f64 api qu @ '':'' @ show_f64 api v)" for x s
  proof -
    obtain qu v where x: "x = (qu, v)" by (cases x)
    with that assms have fin: "is_finite api qu" "is_finite api v" by (auto simp: list_all_iff)
    with assms(1) have texts: "number_text (show_f64 api qu)" "number_text (show_f64 api v)" by (auto simp: f64_texts_def)
    then have "trim s = s" unfolding s x by (auto intro!: trim_plain simp: number_text_def plain_char_def ascii_ws_def)
    moreover have "split_once '':'' s = Some (show_f64 api qu, show_f64 api v)"
      using texts unfolding s x by (simp add: split_once_colon number_text_def)
    ultimately show ?thesis
      using texts fin assms(1) unfolding s x by (auto simp: parse_quantile_def number_text_def f64_texts_def)
  qed
  have "parse_quantile api [] = None" by (simp add: parse_quantile_def)
  with one show ?thesis
    unfolding join_quantile_values_def by (intro read_list) auto
qed

section \<open>Exemplars\<close>

definition ex_key :: "nat \<Rightarrow> string \<Rightarrow> string" where
  "ex_key i x = ''otel.metric.exemplar.'' @ show_nat i @ x"

lemma show_nat_dot: "show_nat i @ CHR ''.'' # x = show_nat j @ CHR ''.'' # y \<longleftrightarrow> i = j \<and> x = y"
proof
  assume eq: "show_nat i @ CHR ''.'' # x = show_nat j @ CHR ''.'' # y"
  have tw: "takeWhile (\<lambda>c. c \<noteq> CHR ''.'') (show_nat n @ CHR ''.'' # z) = show_nat n" for n z
    using show_nat_no [OF digit_marks(3), of n] by (subst takeWhile_append2) auto
  have "show_nat i = show_nat j" using tw [of i x] tw [of j y] eq by simp
  then have "i = j" using parse_show_nat [of i "i + j"] parse_show_nat [of j "i + j"] by (metis le_add1 le_add2 sum.inject(2))
  with eq show "i = j \<and> x = y" by simp
qed simp

lemma ex_key_eq: "ex_key i (CHR ''.'' # x) = ex_key j (CHR ''.'' # y) \<longleftrightarrow> i = j \<and> x = y"
  by (simp add: ex_key_def show_nat_dot)

definition exemplar_fields :: "'f proto_api \<Rightarrow> 'f otlp_exemplar \<Rightarrow> (string \<times> string) list" where
  "exemplar_fields api ex =
     [(''.time_unix_nano'', show_nat (ex_time_unix_nano ex)), (''.trace_id'', hex_encode (ex_trace_id ex)),
      (''.span_id'', hex_encode (ex_span_id ex))] @
     (case Option.bind (ex_value ex) (exemplar_value_to_string api) of
        Some (value_type, v) \<Rightarrow> [(''.value'', v), (''.value_type'', value_type)]
      | None \<Rightarrow> []) @
     attributes_from_key_values api ''.filtered.'' (ex_filtered_attributes ex)"

lemma exemplar_attributes_eq:
  "exemplar_attributes api (i, ex) = map (\<lambda>(k, v). (ex_key i k, v)) (exemplar_fields api ex)"
  by (auto simp: exemplar_attributes_def exemplar_fields_def ex_key_def attributes_from_key_values_eq split: option.split)

lemma fields_dotted: "list_all (\<lambda>(k, v). \<exists>x. k = CHR ''.'' # x) (exemplar_fields api ex)"
  by (auto simp: exemplar_fields_def attributes_from_key_values_eq list_all_iff split: option.split)

lemma lookup_keyed:
  "list_all (\<lambda>(k, v). \<exists>x. k = CHR ''.'' # x) kvs \<Longrightarrow>
   map_of (map (\<lambda>(k, v). (ex_key j k, v)) kvs) (ex_key i (CHR ''.'' # x)) = (if i = j then map_of kvs (CHR ''.'' # x) else None)"
  by (induction kvs) (auto simp: ex_key_eq)

lemma lookup_exemplars:
  "i < length exs \<Longrightarrow>
   map_of (concat (map (exemplar_attributes api) (List.enumerate n exs))) (ex_key (n + i) (CHR ''.'' # x)) =
   map_of (exemplar_fields api (exs ! i)) (CHR ''.'' # x)"
proof (induction exs arbitrary: n i)
  case Nil
  then show ?case by simp
next
  case (Cons e exs)
  have later: "map_of (concat (map (exemplar_attributes api) (List.enumerate (Suc m) es))) (ex_key k (CHR ''.'' # x)) = None"
    if "k \<le> m" for k m es
    using that by (induction es arbitrary: m) (auto simp: exemplar_attributes_eq lookup_keyed fields_dotted map_add_def)
  show ?case
  proof (cases i)
    case 0
    then show ?thesis by (auto simp: exemplar_attributes_eq lookup_keyed fields_dotted map_add_def later split: option.split)
  next
    case (Suc i')
    then show ?thesis
      using Cons.prems Cons.IH [of i' "Suc n"] by (auto simp: exemplar_attributes_eq lookup_keyed fields_dotted map_add_def)
  qed
qed

definition under_prefix :: "string \<Rightarrow> (string \<times> string) list \<Rightarrow> 'f key_value list" where
  "under_prefix pre = List.map_filter (\<lambda>(k, v). map_option (\<lambda>k. string_kv k v) (strip_prefix pre k))"

lemma under_simps [simp]:
  "under_prefix pre [] = []" "under_prefix pre (xs @ ys) = under_prefix pre xs @ under_prefix pre ys"
  "under_prefix pre ((k, v) # kvs) = (case strip_prefix pre k of None \<Rightarrow> [] | Some x \<Rightarrow> [string_kv x v]) @ under_prefix pre kvs"
  by (auto simp: under_prefix_def map_filter_append List.map_filter_simps simp del: strip_prefix_Some split: option.split)

lemma under_avoided: "avoids pre kvs \<Longrightarrow> under_prefix pre kvs = []"
  by (induction kvs) (auto simp: avoids_def under_prefix_def List.map_filter_simps strip_prefix_def)

lemma strip_keyed: "strip_prefix (ex_key i ''.filtered.'') (ex_key j (CHR ''.'' # x)) =
  (if i = j then strip_prefix ''.filtered.'' (CHR ''.'' # x) else None)"
proof -
  have "strip_prefix (ex_key i ''.filtered.'') (ex_key j (CHR ''.'' # x)) = Some y \<longleftrightarrow>
    (if i = j then strip_prefix ''.filtered.'' (CHR ''.'' # x) else None) = Some y" for y
    using ex_key_eq [of j x i "''filtered.'' @ y"] by (auto simp: ex_key_def)
  then show ?thesis by (metis option.exhaust)
qed

lemma under_keyed:
  "list_all (\<lambda>(k, v). \<exists>x. k = CHR ''.'' # x) kvs \<Longrightarrow>
   under_prefix (ex_key i ''.filtered.'') (map (\<lambda>(k, v). (ex_key j k, v)) kvs) = (if i = j then under_prefix ''.filtered.'' kvs else [])"
  by (induction kvs) (auto simp: strip_keyed)

lemma under_fields: "under_prefix ''.filtered.'' (exemplar_fields api ex) = rendered api (ex_filtered_attributes ex)"
proof -
  have "filter_opt (\<lambda>_. True) z = z" for z :: "string option" by (cases z) auto
  then have "under_prefix ''.filtered.'' (attributes_from_key_values api ''.filtered.'' kvs) = rendered api kvs" for kvs
    using stripped_prefixed [of "\<lambda>_. True" "''.filtered.''" api kvs] by (simp add: under_prefix_def)
  then show ?thesis
    by (auto simp: exemplar_fields_def strip_prefix_def starts_with_def split: option.split)
qed

lemma under_exemplars:
  "i < length exs \<Longrightarrow>
   under_prefix (ex_key (n + i) ''.filtered.'') (concat (map (exemplar_attributes api) (List.enumerate n exs))) =
   rendered api (ex_filtered_attributes (exs ! i))"
proof (induction exs arbitrary: n i)
  case Nil
  then show ?case by simp
next
  case (Cons e exs)
  have later: "under_prefix (ex_key k ''.filtered.'') (concat (map (exemplar_attributes api) (List.enumerate (Suc m) es))) = []"
    if "k \<le> m" for k m es
    using that by (induction es arbitrary: m) (auto simp: exemplar_attributes_eq under_keyed fields_dotted)
  show ?case
  proof (cases i)
    case 0
    then show ?thesis by (simp add: exemplar_attributes_eq under_keyed fields_dotted later under_fields)
  next
    case (Suc i')
    then show ?thesis
      using Cons.prems Cons.IH [of i' "Suc n"] by (simp add: exemplar_attributes_eq under_keyed fields_dotted)
  qed
qed


text \<open>The value of a number that can be sent: an integer, or a finite double.\<close>

definition kept_value :: "'f proto_api \<Rightarrow> 'f number_value \<Rightarrow> 'f number_value option" where
  "kept_value api v = (case v of AsDouble d \<Rightarrow> if is_finite api d then Some v else None | AsInt i \<Rightarrow> Some v)"

definition wf_number :: "'f number_value \<Rightarrow> bool" where
  "wf_number v \<longleftrightarrow> (case v of AsDouble d \<Rightarrow> True | AsInt i \<Rightarrow> - int i64_max - 1 \<le> i \<and> i \<le> int i64_max)"

definition wf_exemplar :: "'f otlp_exemplar \<Rightarrow> bool" where
  "wf_exemplar ex \<longleftrightarrow>
     (ex_trace_id ex = [] \<or> proper_id 16 (ex_trace_id ex)) \<and> (ex_span_id ex = [] \<or> proper_id 8 (ex_span_id ex)) \<and>
     ex_time_unix_nano ex \<le> u64_max \<and> pred_option wf_number (ex_value ex)"

definition forwarded_exemplar :: "'f proto_api \<Rightarrow> 'f otlp_exemplar \<Rightarrow> 'f otlp_exemplar" where
  "forwarded_exemplar api ex =
     ex\<lparr>ex_filtered_attributes := rendered api (ex_filtered_attributes ex),
        ex_value := Option.bind (ex_value ex) (kept_value api)\<rparr>"

definition exemplar_tail :: "'f proto_api \<Rightarrow> 'f otlp_exemplar list \<Rightarrow> (string \<times> string) list" where
  "exemplar_tail api exs =
     (if exs = [] then []
      else (''otel.metric.exemplar.count'', show_nat (length exs)) #
        concat (map (exemplar_attributes api) (List.enumerate 0 exs)))"

lemma append_exemplars_fields [simp]:
  "attr_pairs (append_exemplar_attributes api exs r) = attr_pairs r @ exemplar_tail api exs"
  "signal (append_exemplar_attributes api exs r) = signal r" "body (append_exemplar_attributes api exs r) = body r"
  "timestamp_unix_nanos (append_exemplar_attributes api exs r) = timestamp_unix_nanos r"
  by (simp_all add: append_exemplar_attributes_def exemplar_tail_def)

lemma exemplar_tail_keys: "list_all (\<lambda>(k, v). starts_with ''otel.metric.exemplar.'' k) (exemplar_tail api exs)"
proof -
  have "starts_with ''otel.metric.exemplar.'' (ex_key i k)" for i k by (simp add: ex_key_def starts_with_def)
  then show ?thesis
    by (auto simp: exemplar_tail_def list_all_iff exemplar_attributes_eq starts_with_def in_set_enumerate_eq)
qed

lemma exemplar_tail_other: "\<not> starts_with ''otel.metric.exemplar.'' k \<Longrightarrow> map_of (exemplar_tail api exs) k = None"
  using exemplar_tail_keys [of api exs] by (auto simp: list_all_iff map_of_eq_None_iff)

lemma count_key: "''otel.metric.exemplar.count'' \<noteq> ex_key i x"
proof -
  obtain c cs where s: "show_nat i = c # cs" by (cases "show_nat i") auto
  then obtain d where "d < 10" "c = digit_char d" using show_nat_digits [of c i] by auto
  then have "digit_val c = Some d" by simp
  moreover have "digit_val (CHR ''c'') = None" by (simp add: digit_val_def)
  ultimately have "CHR ''c'' \<noteq> c" by auto
  then show ?thesis by (simp add: ex_key_def s)
qed

lemma avoids_longer: "avoids p kvs \<Longrightarrow> avoids (p @ x) kvs"
  by (auto simp: avoids_def list_all_iff starts_with_iff)

lemma value_read_back:
  assumes "f64_texts api" and "wf_number v" and "exemplar_value_to_string api v = Some (ty, s)"
  shows "(if ty = ''int'' then map_option AsInt (parse_int i64_max s) else map_option AsDouble (parse_finite api s)) = Some v"
    and "kept_value api v = Some v" and "ty = ''int'' \<or> ty = ''double''"
  using assms by (auto simp: exemplar_value_to_string_def wf_number_def parse_show_int f64_read kept_value_def
      split: number_value.splits if_splits)

lemma value_dropped: "exemplar_value_to_string api v = None \<Longrightarrow> kept_value api v = None"
  by (auto simp: exemplar_value_to_string_def kept_value_def split: number_value.splits if_splits)

lemma exemplar_value_read_back:
  assumes "find_attribute r (pre @ ''.value'') = map_option snd (Option.bind ov (exemplar_value_to_string api))"
    and "find_attribute r (pre @ ''.value_type'') = map_option fst (Option.bind ov (exemplar_value_to_string api))"
    and "pred_option wf_number ov" and "f64_texts api"
  shows "record_to_exemplar_value api r pre = Option.bind ov (kept_value api)"
proof (cases "Option.bind ov (exemplar_value_to_string api)")
  case None
  with assms show ?thesis by (cases ov) (auto simp: record_to_exemplar_value_def value_dropped)
next
  case (Some ts)
  obtain ty s where ts: "ts = (ty, s)" by (cases ts)
  with Some obtain v where v: "ov = Some v" "exemplar_value_to_string api v = Some (ty, s)" by (cases ov) auto
  with assms(3) have "wf_number v" by simp
  note again = value_read_back [OF assms(4) this v(2)]
  show ?thesis
    using assms(1,2) Some ts v again(1,2) by (simp add: record_to_exemplar_value_def)
qed

lemma exemplar_field_values:
  "map_of (exemplar_fields api ex) ''.time_unix_nano'' = Some (show_nat (ex_time_unix_nano ex))"
  "map_of (exemplar_fields api ex) ''.trace_id'' = Some (hex_encode (ex_trace_id ex))"
  "map_of (exemplar_fields api ex) ''.span_id'' = Some (hex_encode (ex_span_id ex))"
  "map_of (exemplar_fields api ex) ''.value'' = map_option snd (Option.bind (ex_value ex) (exemplar_value_to_string api))"
  "map_of (exemplar_fields api ex) ''.value_type'' = map_option fst (Option.bind (ex_value ex) (exemplar_value_to_string api))"
proof -
  have away: "map_of (attributes_from_key_values api ''.filtered.'' kvs) (CHR ''.'' # CHR ''v'' # x) = None" for kvs x
    by (auto simp: attributes_from_key_values_eq map_of_eq_None_iff)
  show "map_of (exemplar_fields api ex) ''.value'' = map_option snd (Option.bind (ex_value ex) (exemplar_value_to_string api))"
    "map_of (exemplar_fields api ex) ''.value_type'' = map_option fst (Option.bind (ex_value ex) (exemplar_value_to_string api))"
    by (auto simp: exemplar_fields_def away split: option.split)
qed (simp_all add: exemplar_fields_def)

lemma exemplars_read_back:
  assumes pairs: "attr_pairs r = before @ exemplar_tail api exs" and away: "avoids ''otel.metric.exemplar.'' before"
    and wf: "list_all wf_exemplar exs" "length exs \<le> u64_max" and texts: "f64_texts api"
  shows "record_to_exemplars api r = map (forwarded_exemplar api) exs"
proof -
  have key: "starts_with ''otel.metric.exemplar.'' (ex_key i x)" for i x by (simp add: ex_key_def starts_with_def)
  have counted: "find_attribute r ''otel.metric.exemplar.count'' = (if exs = [] then None else Some (show_nat (length exs)))"
    using away by (simp add: find_attribute_pairs pairs map_add_def avoids_lookup exemplar_tail_def starts_with_def)
  have one: "record_to_exemplar api r i = Some (forwarded_exemplar api (exs ! i))" if i: "i < length exs" for i
  proof -
    let ?ex = "exs ! i"
    have "exs \<noteq> []" and ex: "wf_exemplar ?ex" using i wf(1) by (auto simp: list_all_length)
    then have field: "find_attribute r (ex_key i (CHR ''.'' # x)) = map_of (exemplar_fields api ?ex) (CHR ''.'' # x)" for x
      using lookup_exemplars [OF i, of api 0 x] avoids_lookup [OF away key, of i "CHR ''.'' # x"] count_key [of i "CHR ''.'' # x"]
      by (simp add: find_attribute_pairs pairs map_add_def exemplar_tail_def)
    have "filter_opt (\<lambda>_. True) z = z" for z :: "string option" by (cases z) auto
    then have "record_to_exemplar_filtered_attributes r (ex_key i []) = under_prefix (ex_key i ''.filtered.'') (attr_pairs r)"
      unfolding record_to_exemplar_filtered_attributes_def under_prefix_def
      using mapped_pairs [of "strip_prefix (ex_key i ''.filtered.'')" r] by (simp add: ex_key_def)
    also have "\<dots> = rendered api (ex_filtered_attributes ?ex)"
      using \<open>exs \<noteq> []\<close> under_exemplars [OF i, of 0 api] avoids_longer [OF away, of "show_nat i @ ''.filtered.''"] count_key [of i]
      by (auto simp: pairs exemplar_tail_def under_avoided ex_key_def [of i "''.filtered.''"] split: option.split)
    finally have filtered: "record_to_exemplar_filtered_attributes r (ex_key i []) = rendered api (ex_filtered_attributes ?ex)" .
    have "record_to_exemplar_value api r (ex_key i []) = Option.bind (ex_value ?ex) (kept_value api)"
      using ex field [of "''value''"] field [of "''value_type''"]
      by (intro exemplar_value_read_back texts) (auto simp: ex_key_def exemplar_field_values wf_exemplar_def)
    with filtered ex field [of "''time_unix_nano''"] field [of "''trace_id''"] field [of "''span_id''"] show ?thesis
      unfolding record_to_exemplar_def Let_def
      by (auto simp: ex_key_def parse_u64_attribute_def exemplar_field_values hex_decode_encode wf_exemplar_def
          forwarded_exemplar_def intro!: otlp_exemplar.equality)
  qed
  have "record_to_exemplars api r = List.map_filter (record_to_exemplar api r) [0..<length exs]"
    using wf(2) by (cases "exs = []") (simp_all add: record_to_exemplars_def parse_u64_attribute_def counted)
  also have "\<dots> = map (\<lambda>i. forwarded_exemplar api (exs ! i)) [0..<length exs]"
    using one by (intro map_filter_total) auto
  also have "\<dots> = map (forwarded_exemplar api) exs" by (intro nth_equalityI) simp_all
  finally show ?thesis .
qed


definition i32_range :: "int \<Rightarrow> bool" where
  "i32_range n \<longleftrightarrow> - int i32_max - 1 \<le> n \<and> n \<le> int i32_max"

section \<open>The attributes of a metric\<close>

definition temporality_pairs :: "'f proto_api \<Rightarrow> int option \<Rightarrow> (string \<times> string) list" where
  "temporality_pairs api t =
     (case t of
        None \<Rightarrow> []
      | Some t \<Rightarrow> (''otel.metric.aggregation_temporality'', show_int t) #
          opt_attribute ''otel.metric.aggregation_temporality_name'' (aggregation_temporality_name api t))"

definition metric_head :: "'f proto_api \<Rightarrow> metric_metadata \<Rightarrow> string \<Rightarrow> u64 \<Rightarrow> u64 \<Rightarrow> nat \<Rightarrow> (string \<times> string) list" where
  "metric_head api md scope start t fl =
     [(''otel.signal'', ''metric''), (''otel.metric.name'', md_name md), (''otel.metric.data_type'', md_data_type md),
      (''otel.metric.time_unix_nano'', show_nat t), (''otel.metric.start_time_unix_nano'', show_nat start),
      (''otel.metric.flags'', show_nat fl)] @
     text_attribute ''otel.metric.description'' (md_description md) @ text_attribute ''otel.metric.unit'' (md_unit md) @
     temporality_pairs api (md_temporality md) @
     opt_attribute ''otel.metric.is_monotonic'' (map_option show_bool (md_is_monotonic md)) @
     text_attribute ''otel.scope.name'' scope"

lemma metric_base_pairs:
  "attr_pairs (metric_record_base api tenant ra scope md kvs start t fl now) =
     metric_head api md scope start t fl @ ra @ attributes_from_key_values api [] kvs"
  "signal (metric_record_base api tenant ra scope md kvs start t fl now) = Metric"
  "body (metric_record_base api tenant ra scope md kvs start t fl now) = as_bytes (md_name md)"
  by (simp_all add: metric_record_base_def metric_head_def temporality_pairs_def)

lemma lookup_temporality:
  "map_of (temporality_pairs api t) k =
     (if k = ''otel.metric.aggregation_temporality'' then map_option show_int t
      else if k = ''otel.metric.aggregation_temporality_name'' then Option.bind t (aggregation_temporality_name api) else None)"
  by (auto simp: temporality_pairs_def split: option.split)

lemma metric_head_keys: "list_all (\<lambda>(k, v). starts_with ''otel.'' k) (metric_head api md scope start t fl)"
  "avoids ''otel.metric.exemplar.'' (metric_head api md scope start t fl)"
  by (auto simp: metric_head_def temporality_pairs_def text_attribute_def opt_attribute_def starts_with_def split: option.split)

lemmas head_lookup = metric_head_def lookup_temporality map_add_def

text \<open>
  A record of a metric: the head, the attributes of the resource and of the data point, the fields of the
  data point (\<open>own_fields\<close>) and its exemplars.
\<close>

definition metric_pairs ::
  "'f proto_api \<Rightarrow> telemetry_record \<Rightarrow> metric_metadata \<Rightarrow> ('f, 'a) resource_items \<Rightarrow> 'a scope_items \<Rightarrow> 'f key_value list \<Rightarrow>
   u64 \<Rightarrow> u64 \<Rightarrow> nat \<Rightarrow> (string \<times> string) list \<Rightarrow> 'f otlp_exemplar list \<Rightarrow> bool" where
  "metric_pairs api r md ri si kvs start t fl own_fields exs \<longleftrightarrow>
     attr_pairs r = metric_head api md (scope_text si) start t fl @ resource_attributes_of api ri @
       attributes_from_key_values api [] kvs @ own_fields @ exemplar_tail api exs \<and>
     avoids ''otel.'' kvs \<and> avoids ''resource.'' kvs \<and> list_all (\<lambda>(k, v). starts_with ''otel.'' k) own_fields \<and>
     avoids ''otel.metric.exemplar.'' own_fields \<and> list_all wf_exemplar exs \<and> length exs \<le> u64_max \<and>
     start \<le> u64_max \<and> t \<le> u64_max \<and> fl \<le> u32_max \<and>
     pred_option i32_range (md_temporality md)"

lemma metric_find:
  assumes "metric_pairs api r md ri si kvs start t fl own_fields exs" and "starts_with ''otel.'' k"
    and "\<not> starts_with ''otel.metric.exemplar.'' k"
  shows "find_attribute r k =
    (case map_of (metric_head api md (scope_text si) start t fl) k of Some v \<Rightarrow> Some v | None \<Rightarrow> map_of own_fields k)"
proof -
  have "map_of (attributes_from_key_values api [] kvs) k = None" "map_of (resource_attributes_of api ri) k = None"
    using assms by (auto simp: metric_pairs_def intro: avoids_lookup [of "''otel.''"] avoids_attributes)
  with assms show ?thesis
    by (auto simp: metric_pairs_def find_attribute_pairs map_add_def exemplar_tail_other split: option.split)
qed

lemma metric_common:
  assumes r: "metric_pairs api r md ri si kvs start t fl own_fields exs" and texts: "f64_texts api"
  shows "record_to_resource_attributes r = (case resource_of ri of None \<Rightarrow> [] | Some a \<Rightarrow> rendered api a)"
    and "record_to_metric_attributes r = rendered api kvs" and "record_to_exemplars api r = map (forwarded_exemplar api) exs"
proof -
  have pairs: "attr_pairs r = metric_head api md (scope_text si) start t fl @ resource_attributes_of api ri @
      attributes_from_key_values api [] kvs @ (own_fields @ exemplar_tail api exs)"
    and clean: "avoids ''otel.'' kvs" "avoids ''resource.'' kvs"
    using r by (simp_all add: metric_pairs_def)
  have "starts_with ''otel.metric.exemplar.'' k \<Longrightarrow> starts_with ''otel.'' k" for k by (auto simp: starts_with_iff)
  with exemplar_tail_keys [of api exs] have "list_all (\<lambda>(k, v). starts_with ''otel.'' k) (exemplar_tail api exs)"
    by (auto elim!: list.pred_mono_strong)
  with r have own: "list_all (\<lambda>(k, v). starts_with ''otel.'' k) (metric_head api md (scope_text si) start t fl @ (own_fields @ exemplar_tail api exs))"
    by (simp add: metric_pairs_def metric_head_keys)
  show "record_to_resource_attributes r = (case resource_of ri of None \<Rightarrow> [] | Some a \<Rightarrow> rendered api a)"
    and "record_to_metric_attributes r = rendered api kvs"
    using shared_read_back [OF pairs own clean] by simp_all
  have "avoids ''otel.metric.exemplar.'' (attributes_from_key_values api [] kvs)"
    using avoids_longer [OF avoids_attributes [OF clean(1), of api], of "''metric.exemplar.''"] by simp
  then show "record_to_exemplars api r = map (forwarded_exemplar api) exs"
    using r texts
    by (intro exemplars_read_back [where before = "metric_head api md (scope_text si) start t fl @ resource_attributes_of api ri @
      attributes_from_key_values api [] kvs @ own_fields"]) (simp_all add: metric_pairs_def metric_head_keys)
qed

text \<open>The fields that every data point has; the keys in \<open>own_fields\<close> are those of the data point itself.\<close>

definition head_keys :: "string list" where
  "head_keys = [''otel.metric.name'', ''otel.metric.data_type'', ''otel.metric.time_unix_nano'',
     ''otel.metric.start_time_unix_nano'', ''otel.metric.flags'', ''otel.metric.description'', ''otel.metric.unit'',
     ''otel.metric.aggregation_temporality'', ''otel.metric.aggregation_temporality_name'', ''otel.metric.is_monotonic'', ''otel.scope.name'']"

lemma metric_head_read_back:
  assumes r: "metric_pairs api r md ri si kvs start t fl own_fields exs"
    and own: "list_all (\<lambda>k. map_of own_fields k = None) head_keys"
  shows "metric_name r = Some (md_name md)" and "find_attribute r ''otel.metric.data_type'' = Some (md_data_type md)"
    and "metric_time_unix_nano r = t" and "metric_start_time_unix_nano r = start" and "metric_flags r = fl"
    and "or_default [] (find_attribute r ''otel.metric.description'') = md_description md"
    and "or_default [] (find_attribute r ''otel.metric.unit'') = md_unit md"
    and "md_temporality md = Some n \<Longrightarrow> metric_aggregation_temporality api r = n"
    and "md_is_monotonic md = Some b \<Longrightarrow> Option.bind (find_attribute r ''otel.metric.is_monotonic'') parse_bool = Some b"
    and "record_scope r = filter_opt (\<lambda>s. \<not> blank s) (scope_name_of si)"
proof -
  have find: "find_attribute r k = map_of (metric_head api md (scope_text si) start t fl) k" if "k \<in> set head_keys" for k
  proof -
    have "starts_with ''otel.'' k" "\<not> starts_with ''otel.metric.exemplar.'' k" "map_of own_fields k = None"
      using that own by (auto simp: head_keys_def starts_with_def)
    with r show ?thesis by (simp add: metric_find split: option.split)
  qed
  have num: "t \<le> u64_max" "start \<le> u64_max" "fl \<le> u32_max"
    "pred_option i32_range (md_temporality md)"
    using r by (simp_all add: metric_pairs_def)
  show "metric_name r = Some (md_name md)" "find_attribute r ''otel.metric.data_type'' = Some (md_data_type md)"
    by (simp_all add: metric_name_def find head_keys_def head_lookup)
  show "metric_time_unix_nano r = t" "metric_start_time_unix_nano r = start" "metric_flags r = fl"
    using num by (simp_all add: metric_time_unix_nano_def metric_start_time_unix_nano_def metric_flags_def parse_u64_attribute_def
        find head_keys_def head_lookup)
  show "or_default [] (find_attribute r ''otel.metric.description'') = md_description md"
    "or_default [] (find_attribute r ''otel.metric.unit'') = md_unit md"
    by (simp_all add: find head_keys_def head_lookup)
  show "md_temporality md = Some n \<Longrightarrow> metric_aggregation_temporality api r = n"
    using num by (simp add: metric_aggregation_temporality_def parse_i32_attribute_def find head_keys_def head_lookup parse_show_int i32_range_def)
  show "md_is_monotonic md = Some b \<Longrightarrow> Option.bind (find_attribute r ''otel.metric.is_monotonic'') parse_bool = Some b"
    by (simp add: find head_keys_def head_lookup parse_bool_def show_bool_def)
  show "record_scope r = filter_opt (\<lambda>s. \<not> blank s) (scope_name_of si)"
    by (simp add: record_scope_def find head_keys_def head_lookup scope_of_text [symmetric])
qed

end
