(* ===== verification/Metric_Properties.thy ===== *)
theory Metric_Properties
  imports Metric_Forward
begin

text \<open>
  The four kinds of data points, read back from their records, and the properties of metrics: what a request
  becomes when it is forwarded, and what a client's attributes can do to a metric.
\<close>

section \<open>Data points\<close>

definition wf_point :: "'f key_value list \<Rightarrow> u64 \<Rightarrow> u64 \<Rightarrow> nat \<Rightarrow> 'f otlp_exemplar list \<Rightarrow> bool" where
  "wf_point kvs start t fl exs \<longleftrightarrow>
     avoids ''otel.'' kvs \<and> avoids ''resource.'' kvs \<and> list_all wf_exemplar exs \<and> length exs \<le> u64_max \<and>
     start \<le> u64_max \<and> t \<le> u64_max \<and> fl \<le> u32_max"

definition wf_number_point :: "'f number_data_point \<Rightarrow> bool" where
  "wf_number_point p \<longleftrightarrow>
     wf_point (np_attributes p) (np_start_time_unix_nano p) (np_time_unix_nano p) (np_flags p) (np_exemplars p) \<and>
     pred_option wf_number (np_value p)"

definition wf_histogram :: "'f proto_api \<Rightarrow> 'f histogram_data_point \<Rightarrow> bool" where
  "wf_histogram api p \<longleftrightarrow>
     wf_point (hp_attributes p) (hp_start_time_unix_nano p) (hp_time_unix_nano p) (hp_flags p) (hp_exemplars p) \<and>
     hp_count p \<le> u64_max \<and> list_all (\<lambda>n. n \<le> u64_max) (hp_bucket_counts p) \<and> list_all (is_finite api) (hp_explicit_bounds p) \<and>
     pred_option (is_finite api) (hp_sum p) \<and> pred_option (is_finite api) (hp_min p) \<and> pred_option (is_finite api) (hp_max p)"

definition wf_buckets :: "exponential_buckets \<Rightarrow> bool" where
  "wf_buckets b \<longleftrightarrow> i32_range (bk_offset b) \<and> list_all (\<lambda>n. n \<le> u64_max) (bk_bucket_counts b)"

definition wf_exponential :: "'f proto_api \<Rightarrow> 'f exponential_data_point \<Rightarrow> bool" where
  "wf_exponential api p \<longleftrightarrow>
     wf_point (xp_attributes p) (xp_start_time_unix_nano p) (xp_time_unix_nano p) (xp_flags p) (xp_exemplars p) \<and>
     xp_count p \<le> u64_max \<and> xp_zero_count p \<le> u64_max \<and> i32_range (xp_scale p) \<and>
     pred_option wf_buckets (xp_positive p) \<and> pred_option wf_buckets (xp_negative p) \<and> is_finite api (xp_zero_threshold p) \<and>
     pred_option (is_finite api) (xp_sum p) \<and> pred_option (is_finite api) (xp_min p) \<and> pred_option (is_finite api) (xp_max p)"

definition wf_summary :: "'f proto_api \<Rightarrow> 'f summary_data_point \<Rightarrow> bool" where
  "wf_summary api p \<longleftrightarrow>
     wf_point (sm_attributes p) (sm_start_time_unix_nano p) (sm_time_unix_nano p) (sm_flags p) [] \<and> sm_count p \<le> u64_max \<and>
     is_finite api (sm_sum p) \<and> list_all (\<lambda>(qu, v). is_finite api qu \<and> is_finite api v) (sm_quantile_values p)"

definition wf_metric :: "'f proto_api \<Rightarrow> 'f otlp_metric \<Rightarrow> bool" where
  "wf_metric api m \<longleftrightarrow>
     (case mt_data m of
        Some (GaugeData ps) \<Rightarrow> list_all wf_number_point ps
      | Some (SumData ps t _) \<Rightarrow> i32_range t \<and> list_all wf_number_point ps
      | Some (HistogramData ps t) \<Rightarrow> i32_range t \<and> list_all (wf_histogram api) ps
      | Some (ExponentialHistogramData ps t) \<Rightarrow> i32_range t \<and> list_all (wf_exponential api) ps
      | Some (SummaryData ps) \<Rightarrow> list_all (wf_summary api) ps
      | None \<Rightarrow> True)"

text \<open>Forwarding keeps a data point but for the text of attributes, the values that are not finite, and empty buckets.\<close>

definition forwarded_number :: "'f proto_api \<Rightarrow> 'f number_data_point \<Rightarrow> 'f number_data_point" where
  "forwarded_number api p =
     p\<lparr>np_attributes := rendered api (np_attributes p), np_exemplars := map (forwarded_exemplar api) (np_exemplars p)\<rparr>"

definition forwarded_histogram :: "'f proto_api \<Rightarrow> 'f histogram_data_point \<Rightarrow> 'f histogram_data_point" where
  "forwarded_histogram api p =
     p\<lparr>hp_attributes := rendered api (hp_attributes p), hp_exemplars := map (forwarded_exemplar api) (hp_exemplars p)\<rparr>"

definition kept_buckets :: "exponential_buckets option \<Rightarrow> exponential_buckets option" where
  "kept_buckets b = filter_opt (\<lambda>b. bk_bucket_counts b \<noteq> []) b"

definition forwarded_exponential :: "'f proto_api \<Rightarrow> 'f exponential_data_point \<Rightarrow> 'f exponential_data_point" where
  "forwarded_exponential api p =
     p\<lparr>xp_attributes := rendered api (xp_attributes p), xp_exemplars := map (forwarded_exemplar api) (xp_exemplars p),
       xp_positive := kept_buckets (xp_positive p), xp_negative := kept_buckets (xp_negative p)\<rparr>"

definition forwarded_summary :: "'f proto_api \<Rightarrow> 'f summary_data_point \<Rightarrow> 'f summary_data_point" where
  "forwarded_summary api p = p\<lparr>sm_attributes := rendered api (sm_attributes p)\<rparr>"

definition has_value :: "'f proto_api \<Rightarrow> 'f number_data_point \<Rightarrow> bool" where
  "has_value api p \<longleftrightarrow> Option.bind (np_value p) (kept_value api) \<noteq> None"

definition forwarded_data :: "'f proto_api \<Rightarrow> 'f metric_data \<Rightarrow> 'f metric_data list" where
  "forwarded_data api d =
     (case d of
        GaugeData ps \<Rightarrow> map (\<lambda>p. GaugeData [forwarded_number api p]) (filter (has_value api) ps)
      | SumData ps t b \<Rightarrow> map (\<lambda>p. SumData [forwarded_number api p] t b) (filter (has_value api) ps)
      | HistogramData ps t \<Rightarrow> map (\<lambda>p. HistogramData [forwarded_histogram api p] t) ps
      | ExponentialHistogramData ps t \<Rightarrow> map (\<lambda>p. ExponentialHistogramData [forwarded_exponential api p] t) ps
      | SummaryData ps \<Rightarrow> map (\<lambda>p. SummaryData [forwarded_summary api p]) ps)"

definition forwarded_metrics :: "'f proto_api \<Rightarrow> 'f otlp_metric \<Rightarrow> 'f otlp_metric list" where
  "forwarded_metrics api m =
     (case mt_data m of None \<Rightarrow> [] | Some d \<Rightarrow> map (\<lambda>d. m\<lparr>mt_data := Some d\<rparr>) (forwarded_data api d))"

section \<open>Reading the data points back\<close>

definition meta_of :: "'f otlp_metric \<Rightarrow> string \<Rightarrow> int option \<Rightarrow> bool option \<Rightarrow> metric_metadata" where
  "meta_of m data_type temporality mon =
     \<lparr>md_name = mt_name m, md_description = mt_description m, md_unit = mt_unit m, md_data_type = data_type,
      md_temporality = temporality, md_is_monotonic = mon\<rparr>"

lemma meta_of_fields [simp]:
  "md_name (meta_of m dt t b) = mt_name m" "md_description (meta_of m dt t b) = mt_description m" "md_unit (meta_of m dt t b) = mt_unit m"
  "md_data_type (meta_of m dt t b) = dt" "md_temporality (meta_of m dt t b) = t" "md_is_monotonic (meta_of m dt t b) = b"
  by (simp_all add: meta_of_def)

lemma metric_assembled:
  assumes "metric_pairs api r (meta_of m dt tp b) ri si kvs start t fl own_fields exs" and "f64_texts api"
    and "list_all (\<lambda>k. map_of own_fields k = None) head_keys" and "record_to_metric_data api r = Some d"
  shows "record_to_resource_metric api r = Some (alone api (resource_of ri) (scope_name_of si) (m\<lparr>mt_data := Some d\<rparr>))"
  using metric_head_read_back [OF assms(1,3)] metric_common(1) [OF assms(1,2)] assms(4)
  by (auto simp: record_to_resource_metric_def record_to_metric_def alone_def intro!: otlp_metric.equality)

definition value_fields :: "string \<Rightarrow> string \<Rightarrow> (string \<times> string) list" where
  "value_fields v ty = [(''otel.metric.value'', v), (''otel.metric.value_type'', ty)]"

lemma head_no_field:
  "map_of (metric_head api md scope start t fl) k = None"
  if "k \<notin> set head_keys" "k \<noteq> ''otel.signal''"
  using that by (auto simp: head_keys_def metric_head_def lookup_temporality map_add_def)

lemma field_find:
  assumes "metric_pairs api r md ri si kvs start t fl own_fields exs" and "k \<notin> set head_keys" and "k \<noteq> ''otel.signal''"
    and "starts_with ''otel.'' k" and "\<not> starts_with ''otel.metric.exemplar.'' k"
  shows "find_attribute r k = map_of own_fields k"
  using metric_find [OF assms(1,4,5)] assms(2,3) by (simp add: head_no_field)

lemma number_string_eq: "number_value_to_string = exemplar_value_to_string"
  by (intro ext) (simp add: number_value_to_string_def exemplar_value_to_string_def)

lemma number_point_read_back:
  fixes api :: "'f proto_api" and ri :: "('f, 'a) resource_items" and si :: "'a scope_items"
  fixes md :: metric_metadata and p :: "'f number_data_point" and tenant ty s :: string
  assumes p: "wf_number_point p" and texts: "f64_texts api" and tp: "pred_option i32_range (md_temporality md)"
    and v: "np_value p = Some v" "exemplar_value_to_string api v = Some (ty, s)"
  defines "r \<equiv> \<lambda>now. append_exemplar_attributes api (np_exemplars p)
         (with_attributes [(''otel.metric.value'', s), (''otel.metric.value_type'', ty)]
           (metric_record_base api tenant (resource_attributes_of api ri) (scope_text si) md (np_attributes p)
             (np_start_time_unix_nano p) (np_time_unix_nano p) (np_flags p) now))"
  shows "metric_pairs api (r now) md ri si (np_attributes p) (np_start_time_unix_nano p) (np_time_unix_nano p) (np_flags p)
      (value_fields s ty) (np_exemplars p)"
    and "metric_value api (r now) = Some v"
    and "record_to_number_data_point api (r now) v = forwarded_number api p"
proof -
  show pairs: "metric_pairs api (r now) md ri si (np_attributes p) (np_start_time_unix_nano p) (np_time_unix_nano p) (np_flags p)
      (value_fields s ty) (np_exemplars p)"
    using p tp by (simp add: metric_pairs_def r_def metric_base_pairs wf_number_point_def wf_point_def value_fields_def
        starts_with_def)
  have "wf_number v" using p v by (simp add: wf_number_point_def)
  note again = value_read_back [OF texts this v(2)]
  have "find_attribute (r now) ''otel.metric.value'' = Some s" "find_attribute (r now) ''otel.metric.value_type'' = Some ty"
    using field_find [OF pairs] by (simp_all add: head_keys_def value_fields_def starts_with_def)
  with again(1) show "metric_value api (r now) = Some v" by (simp add: metric_value_def)
  have "list_all (\<lambda>k. map_of (value_fields s ty) k = None) head_keys" by (simp add: value_fields_def head_keys_def)
  with v metric_head_read_back [OF pairs] metric_common [OF pairs texts]
  show "record_to_number_data_point api (r now) v = forwarded_number api p"
    by (simp add: record_to_number_data_point_def forwarded_number_def)
qed

lemma f64_field:
  "f64_texts api \<Longrightarrow> find_attribute r k = map_option (show_f64 api) x \<Longrightarrow> pred_option (is_finite api) x \<Longrightarrow> parse_f64_attribute api r k = x"
  by (cases x) (auto simp: parse_f64_attribute_def f64_read)

lemma histogram_read_back:
  fixes ri :: "('f, 'a) resource_items" and si :: "'a scope_items"
  assumes p: "wf_histogram api p" and texts: "f64_texts api" and tp: "pred_option i32_range (md_temporality md)"
  defines "own \<equiv> [(''otel.metric.count'', show_nat (hp_count p)), (''otel.metric.bucket_counts'', join_u64_values (hp_bucket_counts p)),
           (''otel.metric.explicit_bounds'', join_f64_values api (hp_explicit_bounds p))] @
          opt_attribute ''otel.metric.sum'' (map_option (show_f64 api) (hp_sum p)) @
          opt_attribute ''otel.metric.min'' (map_option (show_f64 api) (hp_min p)) @
          opt_attribute ''otel.metric.max'' (map_option (show_f64 api) (hp_max p))"
  shows "metric_pairs api (histogram_data_point_to_record api tenant (resource_attributes_of api ri) (scope_text si) md p now) md ri si
      (hp_attributes p) (hp_start_time_unix_nano p) (hp_time_unix_nano p) (hp_flags p) own (hp_exemplars p)"
    and "list_all (\<lambda>k. map_of own k = None) head_keys"
    and "record_to_histogram_data_point api (histogram_data_point_to_record api tenant (resource_attributes_of api ri) (scope_text si) md p now) =
      Some (forwarded_histogram api p)"
proof -
  let ?r = "histogram_data_point_to_record api tenant (resource_attributes_of api ri) (scope_text si) md p now"
  have "list_all (\<lambda>(k, v). starts_with ''otel.'' k) own" "avoids ''otel.metric.exemplar.'' own"
    by (auto simp: own_def starts_with_def opt_attribute_def split: option.split)
  then show pairs: "metric_pairs api ?r md ri si (hp_attributes p) (hp_start_time_unix_nano p) (hp_time_unix_nano p) (hp_flags p) own (hp_exemplars p)"
    using p tp by (simp add: metric_pairs_def histogram_data_point_to_record_def metric_base_pairs wf_histogram_def wf_point_def own_def)
  show head: "list_all (\<lambda>k. map_of own k = None) head_keys" by (simp add: own_def head_keys_def map_add_def)
  have find: "find_attribute ?r k = map_of own k"
    if "k \<in> {''otel.metric.count'', ''otel.metric.bucket_counts'', ''otel.metric.explicit_bounds'', ''otel.metric.sum'', ''otel.metric.min'', ''otel.metric.max''}" for k
    using that field_find [OF pairs, of k] by (auto simp: head_keys_def starts_with_def)
  have "parse_f64_attribute api ?r ''otel.metric.sum'' = hp_sum p" "parse_f64_attribute api ?r ''otel.metric.min'' = hp_min p"
    "parse_f64_attribute api ?r ''otel.metric.max'' = hp_max p"
    using p by (intro f64_field [OF texts]; simp add: find own_def map_add_def wf_histogram_def split: option.split)+
  then show "record_to_histogram_data_point api ?r = Some (forwarded_histogram api p)"
    using p metric_head_read_back [OF pairs head] metric_common [OF pairs texts] read_u64_list read_f64_list [OF texts]
    by (simp add: record_to_histogram_data_point_def forwarded_histogram_def parse_u64_attribute_def parse_u64_list_attribute_def
        parse_f64_list_attribute_def find own_def map_add_def wf_histogram_def)
qed

lemma buckets_read_back:
  assumes "pred_option wf_buckets b"
    and "find_attribute r ok = map_option (\<lambda>b. show_int (bk_offset b)) b"
    and "find_attribute r ck = map_option (\<lambda>b. join_u64_values (bk_bucket_counts b)) b"
  shows "record_to_exponential_buckets r ok ck = kept_buckets b"
  using assms by (cases b) (auto simp: record_to_exponential_buckets_def parse_u64_list_attribute_def parse_i32_attribute_def kept_buckets_def
      wf_buckets_def i32_range_def parse_show_int read_u64_list)

lemma lookup_buckets:
  "map_of (bucket_attributes sign b) k =
     (if k = ''otel.metric.'' @ sign @ ''_offset'' then map_option (\<lambda>b. show_int (bk_offset b)) b
      else if k = ''otel.metric.'' @ sign @ ''_bucket_counts'' then map_option (\<lambda>b. join_u64_values (bk_bucket_counts b)) b else None)"
  by (auto simp: bucket_attributes_def split: option.split)

lemma exponential_read_back:
  fixes ri :: "('f, 'a) resource_items" and si :: "'a scope_items"
  assumes p: "wf_exponential api p" and texts: "f64_texts api" and tp: "pred_option i32_range (md_temporality md)"
  defines "own \<equiv> [(''otel.metric.count'', show_nat (xp_count p)), (''otel.metric.scale'', show_int (xp_scale p)),
           (''otel.metric.zero_count'', show_nat (xp_zero_count p)),
           (''otel.metric.zero_threshold'', show_f64 api (xp_zero_threshold p))] @
          opt_attribute ''otel.metric.sum'' (map_option (show_f64 api) (xp_sum p)) @
          opt_attribute ''otel.metric.min'' (map_option (show_f64 api) (xp_min p)) @
          opt_attribute ''otel.metric.max'' (map_option (show_f64 api) (xp_max p)) @
          bucket_attributes ''positive'' (xp_positive p) @ bucket_attributes ''negative'' (xp_negative p)"
  shows "metric_pairs api (exponential_histogram_data_point_to_record api tenant (resource_attributes_of api ri) (scope_text si) md p now) md ri si
      (xp_attributes p) (xp_start_time_unix_nano p) (xp_time_unix_nano p) (xp_flags p) own (xp_exemplars p)"
    and "list_all (\<lambda>k. map_of own k = None) head_keys"
    and "record_to_exponential_histogram_data_point api (exponential_histogram_data_point_to_record api tenant (resource_attributes_of api ri) (scope_text si) md p now) =
      Some (forwarded_exponential api p)"
proof -
  let ?r = "exponential_histogram_data_point_to_record api tenant (resource_attributes_of api ri) (scope_text si) md p now"
  have "list_all (\<lambda>(k, v). starts_with ''otel.'' k) own" "avoids ''otel.metric.exemplar.'' own"
    by (auto simp: own_def starts_with_def opt_attribute_def bucket_attributes_def split: option.split)
  then show pairs: "metric_pairs api ?r md ri si (xp_attributes p) (xp_start_time_unix_nano p) (xp_time_unix_nano p) (xp_flags p) own (xp_exemplars p)"
    using p tp by (simp add: metric_pairs_def exponential_histogram_data_point_to_record_def metric_base_pairs wf_exponential_def wf_point_def own_def)
  show head: "list_all (\<lambda>k. map_of own k = None) head_keys" by (simp add: own_def head_keys_def map_add_def lookup_buckets)
  have find: "find_attribute ?r k = map_of own k"
    if "k \<in> {''otel.metric.count'', ''otel.metric.scale'', ''otel.metric.zero_count'', ''otel.metric.zero_threshold'', ''otel.metric.sum'',
      ''otel.metric.min'', ''otel.metric.max'', ''otel.metric.positive_offset'', ''otel.metric.positive_bucket_counts'',
      ''otel.metric.negative_offset'', ''otel.metric.negative_bucket_counts''}" for k
    using that field_find [OF pairs, of k] by (auto simp: head_keys_def starts_with_def)
  have "parse_f64_attribute api ?r ''otel.metric.sum'' = xp_sum p" "parse_f64_attribute api ?r ''otel.metric.min'' = xp_min p"
    "parse_f64_attribute api ?r ''otel.metric.max'' = xp_max p"
    using p by (intro f64_field [OF texts]; simp add: find own_def map_add_def lookup_buckets wf_exponential_def split: option.split)+
  moreover have "parse_f64_attribute api ?r ''otel.metric.zero_threshold'' = Some (xp_zero_threshold p)"
    using p by (intro f64_field [OF texts]) (simp_all add: find own_def wf_exponential_def)
  moreover have "record_to_exponential_buckets ?r ''otel.metric.positive_offset'' ''otel.metric.positive_bucket_counts'' = kept_buckets (xp_positive p)"
    "record_to_exponential_buckets ?r ''otel.metric.negative_offset'' ''otel.metric.negative_bucket_counts'' = kept_buckets (xp_negative p)"
    using p by (intro buckets_read_back; simp add: find own_def map_add_def lookup_buckets wf_exponential_def split: option.split)+
  ultimately show "record_to_exponential_histogram_data_point api ?r = Some (forwarded_exponential api p)"
    using p metric_head_read_back [OF pairs head] metric_common [OF pairs texts]
    by (simp add: record_to_exponential_histogram_data_point_def forwarded_exponential_def parse_u64_attribute_def parse_i32_attribute_def
        find own_def wf_exponential_def i32_range_def parse_show_int)
qed

lemma summary_read_back:
  fixes ri :: "('f, 'a) resource_items" and si :: "'a scope_items"
  assumes p: "wf_summary api p" and texts: "f64_texts api" and tp: "pred_option i32_range (md_temporality md)"
  defines "own \<equiv> [(''otel.metric.count'', show_nat (sm_count p)), (''otel.metric.sum'', show_f64 api (sm_sum p)),
        (''otel.metric.quantile_values'', join_quantile_values api (sm_quantile_values p))]"
  shows "metric_pairs api (summary_data_point_to_record api tenant (resource_attributes_of api ri) (scope_text si) md p now) md ri si
      (sm_attributes p) (sm_start_time_unix_nano p) (sm_time_unix_nano p) (sm_flags p) own []"
    and "list_all (\<lambda>k. map_of own k = None) head_keys"
    and "record_to_summary_data_point api (summary_data_point_to_record api tenant (resource_attributes_of api ri) (scope_text si) md p now) =
      Some (forwarded_summary api p)"
proof -
  let ?r = "summary_data_point_to_record api tenant (resource_attributes_of api ri) (scope_text si) md p now"
  have "list_all (\<lambda>(k, v). starts_with ''otel.'' k) own" "avoids ''otel.metric.exemplar.'' own"
    by (simp_all add: own_def starts_with_def)
  then show pairs: "metric_pairs api ?r md ri si (sm_attributes p) (sm_start_time_unix_nano p) (sm_time_unix_nano p) (sm_flags p) own []"
    using p tp by (simp add: metric_pairs_def summary_data_point_to_record_def metric_base_pairs wf_summary_def wf_point_def own_def exemplar_tail_def)
  show head: "list_all (\<lambda>k. map_of own k = None) head_keys" by (simp add: own_def head_keys_def)
  have find: "find_attribute ?r k = map_of own k"
    if "k \<in> {''otel.metric.count'', ''otel.metric.sum'', ''otel.metric.quantile_values''}" for k
    using that field_find [OF pairs, of k] by (auto simp: head_keys_def starts_with_def)
  have "parse_f64_attribute api ?r ''otel.metric.sum'' = Some (sm_sum p)"
    using p by (intro f64_field [OF texts]) (simp_all add: find own_def wf_summary_def)
  then show "record_to_summary_data_point api ?r = Some (forwarded_summary api p)"
    using p metric_head_read_back [OF pairs head] metric_common [OF pairs texts] read_quantiles [OF texts]
    by (simp add: record_to_summary_data_point_def forwarded_summary_def parse_u64_attribute_def parse_quantile_values_attribute_def
        find own_def wf_summary_def)
qed


section \<open>Requests\<close>

text \<open>A record maker and the metric that is read back from its records, at whatever time they are made.\<close>

definition gives ::
  "'f proto_api \<Rightarrow> ('f, 'f otlp_metric) resource_items \<Rightarrow> 'f otlp_metric scope_items \<Rightarrow> (128 word \<Rightarrow> telemetry_record) \<Rightarrow> 'f otlp_metric \<Rightarrow> bool" where
  "gives api ri si g m \<longleftrightarrow>
     (\<forall>now. signal (g now) = Metric \<and>
        record_to_resource_metric api (g now) = Some (alone api (resource_of ri) (scope_name_of si) m))"

lemma list_all2_points: "list_all P ps \<Longrightarrow> (\<And>p. P p \<Longrightarrow> R (f p) (g p)) \<Longrightarrow> list_all2 R (map f ps) (map g ps)"
  by (induction ps) auto

lemma list_all2_kept:
  "list_all P ps \<Longrightarrow> (\<And>p. P p \<Longrightarrow> keep p \<Longrightarrow> \<exists>y. f p = Some y \<and> R y (g p)) \<Longrightarrow> (\<And>p. P p \<Longrightarrow> \<not> keep p \<Longrightarrow> f p = None) \<Longrightarrow>
   list_all2 R (List.map_filter f ps) (map g (filter keep ps))"
  by (induction ps) (force simp: List.map_filter_simps)+

lemma number_gives:
  assumes p: "wf_number_point p" and texts: "f64_texts api" and tp: "pred_option i32_range tp"
    and d: "\<And>r v. find_attribute r ''otel.metric.data_type'' = Some dt \<Longrightarrow> metric_value api r = Some v \<Longrightarrow>
      (\<And>n. tp = Some n \<Longrightarrow> metric_aggregation_temporality api r = n) \<Longrightarrow>
      (\<And>c. b = Some c \<Longrightarrow> Option.bind (find_attribute r ''otel.metric.is_monotonic'') parse_bool = Some c) \<Longrightarrow>
      record_to_metric_data api r = Some (D (record_to_number_data_point api r v))"
  shows "has_value api p \<Longrightarrow>
      \<exists>g. number_data_point_to_record api tenant (resource_attributes_of api ri) (scope_text si) (meta_of m dt tp b) p = Some g \<and>
        gives api ri si g (m\<lparr>mt_data := Some (D (forwarded_number api p))\<rparr>)"
    and "\<not> has_value api p \<Longrightarrow>
      number_data_point_to_record api tenant (resource_attributes_of api ri) (scope_text si) (meta_of m dt tp b) p = None"
proof -
  assume "\<not> has_value api p"
  then show "number_data_point_to_record api tenant (resource_attributes_of api ri) (scope_text si) (meta_of m dt tp b) p = None"
    by (auto simp: has_value_def number_data_point_to_record_def number_value_to_string_def kept_value_def
        split: bind_splits number_value.splits if_splits)
next
  assume "has_value api p"
  then obtain v ty s where v: "np_value p = Some v" "exemplar_value_to_string api v = Some (ty, s)"
    by (cases "np_value p") (auto simp: has_value_def exemplar_value_to_string_def kept_value_def split: number_value.splits if_splits)
  let ?g = "\<lambda>now. append_exemplar_attributes api (np_exemplars p)
         (with_attributes [(''otel.metric.value'', s), (''otel.metric.value_type'', ty)]
           (metric_record_base api tenant (resource_attributes_of api ri) (scope_text si) (meta_of m dt tp b) (np_attributes p)
             (np_start_time_unix_nano p) (np_time_unix_nano p) (np_flags p) now))"
  have tp': "pred_option i32_range (md_temporality (meta_of m dt tp b))" using tp by simp
  note read = number_point_read_back [OF p texts tp' v]
  have head: "list_all (\<lambda>k. map_of (value_fields s ty) k = None) head_keys" by (simp add: value_fields_def head_keys_def)
  have "record_to_metric_data api (?g now) = Some (D (forwarded_number api p))" for now
    unfolding read(3) [of tenant ri si now, symmetric]
    by (rule d [OF _ read(2)]) (rule trans [OF metric_head_read_back(2) [OF read(1) head]], simp,
        rule metric_head_read_back(8) [OF read(1) head], simp, rule metric_head_read_back(9) [OF read(1) head], simp)
  then have "gives api ri si ?g (m\<lparr>mt_data := Some (D (forwarded_number api p))\<rparr>)"
    unfolding gives_def
    by (intro allI conjI metric_assembled [OF read(1) texts head]) (simp_all add: metric_base_pairs)
  moreover have "number_data_point_to_record api tenant (resource_attributes_of api ri) (scope_text si) (meta_of m dt tp b) p = Some ?g"
    using v by (simp add: number_data_point_to_record_def number_string_eq)
  ultimately show "\<exists>g. number_data_point_to_record api tenant (resource_attributes_of api ri) (scope_text si) (meta_of m dt tp b) p = Some g \<and>
        gives api ri si g (m\<lparr>mt_data := Some (D (forwarded_number api p))\<rparr>)" by blast
qed

lemma point_gives:
  assumes pairs: "\<And>now. metric_pairs api (g now) (meta_of m dt tp b) ri si kvs start t fl own exs"
    and head: "list_all (\<lambda>k. map_of own k = None) head_keys" and texts: "f64_texts api"
    and data: "\<And>now. find_attribute (g now) ''otel.metric.data_type'' = Some dt \<Longrightarrow>
      (\<And>n. tp = Some n \<Longrightarrow> metric_aggregation_temporality api (g now) = n) \<Longrightarrow> record_to_metric_data api (g now) = Some d"
    and sig: "\<And>now. signal (g now) = Metric"
  shows "gives api ri si g (m\<lparr>mt_data := Some d\<rparr>)"
proof -
  have "record_to_metric_data api (g now) = Some d" for now
    using metric_head_read_back(2,8) [OF pairs head] by (intro data) simp_all
  then show ?thesis using metric_assembled [OF pairs texts head] sig by (simp add: gives_def)
qed

lemma point_signals [simp]:
  "signal (histogram_data_point_to_record api tenant ra sc md hp now) = Metric"
  "signal (exponential_histogram_data_point_to_record api tenant ra sc md xp now) = Metric"
  "signal (summary_data_point_to_record api tenant ra sc md sp now) = Metric"
  by (simp_all add: histogram_data_point_to_record_def exponential_histogram_data_point_to_record_def summary_data_point_to_record_def
      metric_base_pairs)

lemma histogram_gives:
  "f64_texts api \<Longrightarrow> i32_range t \<Longrightarrow> wf_histogram api p \<Longrightarrow>
   gives api ri si (histogram_data_point_to_record api tenant (resource_attributes_of api ri) (scope_text si) (meta_of m ''histogram'' (Some t) None) p)
     (m\<lparr>mt_data := Some (HistogramData [forwarded_histogram api p] t)\<rparr>)"
  by (rule point_gives [OF histogram_read_back(1) histogram_read_back(2) [where md = "meta_of m ''histogram'' (Some t) None"]])
    (simp_all add: record_to_metric_data_def histogram_read_back(3))

lemma exponential_gives:
  "f64_texts api \<Longrightarrow> i32_range t \<Longrightarrow> wf_exponential api p \<Longrightarrow>
   gives api ri si (exponential_histogram_data_point_to_record api tenant (resource_attributes_of api ri) (scope_text si) (meta_of m ''exponential_histogram'' (Some t) None) p)
     (m\<lparr>mt_data := Some (ExponentialHistogramData [forwarded_exponential api p] t)\<rparr>)"
  by (rule point_gives [OF exponential_read_back(1) exponential_read_back(2) [where md = "meta_of m ''exponential_histogram'' (Some t) None"]])
    (simp_all add: record_to_metric_data_def exponential_read_back(3))

lemma summary_gives:
  "f64_texts api \<Longrightarrow> wf_summary api p \<Longrightarrow>
   gives api ri si (summary_data_point_to_record api tenant (resource_attributes_of api ri) (scope_text si) (meta_of m ''summary'' None None) p)
     (m\<lparr>mt_data := Some (SummaryData [forwarded_summary api p])\<rparr>)"
  by (rule point_gives [OF summary_read_back(1) summary_read_back(2) [where md = "meta_of m ''summary'' None None"]])
    (simp_all add: record_to_metric_data_def summary_read_back(3))

lemma metric_records_give:
  assumes m: "wf_metric api m" and texts: "f64_texts api"
  shows "list_all2 (gives api ri si) (metric_to_records api tenant (resource_attributes_of api ri) (scope_text si) m) (forwarded_metrics api m)"
proof (cases "mt_data m")
  case None
  then show ?thesis by (simp add: metric_to_records_def forwarded_metrics_def)
next
  case (Some d)
  note eqs = metric_to_records_def forwarded_metrics_def forwarded_data_def Let_def Some comp_def
  show ?thesis
  proof (cases d)
    case (GaugeData ps)
    have "list_all wf_number_point ps" using m Some GaugeData by (simp add: wf_metric_def)
    then show ?thesis
      unfolding eqs GaugeData option.case metric_data.case map_map meta_of_def [symmetric]
      by (intro list_all2_kept number_gives texts; simp add: record_to_metric_data_def)
  next
    case (SumData ps t b)
    have "list_all wf_number_point ps" and t: "i32_range t" using m Some SumData by (simp_all add: wf_metric_def)
    then show ?thesis
      unfolding eqs SumData option.case metric_data.case map_map meta_of_def [symmetric]
      by (intro list_all2_kept number_gives [where D = "\<lambda>p. SumData [p] t b"] texts; simp add: record_to_metric_data_def)
  next
    case (HistogramData ps t)
    then have "list_all (wf_histogram api) ps" "i32_range t" using m Some by (simp_all add: wf_metric_def)
    then show ?thesis
      unfolding eqs HistogramData option.case metric_data.case map_map meta_of_def [symmetric]
      by (intro list_all2_points histogram_gives texts)
  next
    case (ExponentialHistogramData ps t)
    then have "list_all (wf_exponential api) ps" "i32_range t" using m Some by (simp_all add: wf_metric_def)
    then show ?thesis
      unfolding eqs ExponentialHistogramData option.case metric_data.case map_map meta_of_def [symmetric]
      by (intro list_all2_points exponential_gives texts)
  next
    case (SummaryData ps)
    then have "list_all (wf_summary api) ps" using m Some by (simp_all add: wf_metric_def)
    then show ?thesis
      unfolding eqs SummaryData option.case metric_data.case map_map meta_of_def [symmetric]
      by (intro list_all2_points summary_gives texts)
  qed
qed

interpretation metrics: message_forwarding api Metric "metric_to_records api tenant" "record_to_resource_metric api"
  "\<lambda>m. f64_texts api \<and> wf_metric api m" "\<lambda>res scope m. map (alone api res scope) (forwarded_metrics api m)"
  for api :: "'f proto_api" and tenant
proof
  fix m and ri :: "('f, 'f otlp_metric) resource_items" and si :: "'f otlp_metric scope_items"
  assume "f64_texts api \<and> wf_metric api m"
  then have "list_all2 (gives api ri si) (metric_to_records api tenant (resource_attributes_of api ri) (scope_text si) m) (forwarded_metrics api m)"
    using metric_records_give by blast
  then show "list_all2 (\<lambda>g y. \<forall>now. signal (g now) = Metric \<and> record_to_resource_metric api (g now) = Some y)
      (metric_to_records api tenant (resource_attributes_of api ri) (scope_text si) m)
      (map (alone api (resource_of ri) (scope_name_of si)) (forwarded_metrics api m))"
    by (auto simp: list_all2_map2 gives_def elim!: list_all2_mono)
qed

text \<open>
  Property C19 (metrics_forwarded). Let a metrics request be such that in every data point the attribute keys start with neither \<^verbatim>\<open>otel.\<close> nor
  \<^verbatim>\<open>resource.\<close>, the identifiers of exemplars are absent or of 16 and 8 bytes and not all zero, the integers are within their types, and, in
  histograms and summaries, the sum, the minimum, the maximum, the bounds, the zero threshold, the quantiles and their values are finite; and
  let finite doubles be printed as text with no separator or blank in it that parses back to them, and the empty text parse to no double. Then the request, received, turned into records and exported again, comes out as one
  metric for each data point of a histogram or summary and for each number that is present and finite, in order, with the resource, the
  scope, the name, the description, the unit, the temporality and the monotonicity it came with. Values, times, counts, bounds, buckets, quantiles and
  exemplars are unchanged but for this: attributes are sent as strings, the value of an exemplar that is not finite and buckets that are empty are
  left out. (Without the condition that sums and bounds are finite the code drops the whole summary or the single bound.)
\<close>

theorem metrics_forwarded:
  assumes "f64_texts api" and "list_all (wf_metric api) (messages req)"
  shows "batch_to_metrics_request api (metrics_request_to_records api clock tenant req) =
    each_message (\<lambda>res scope m. map (alone api res scope) (forwarded_metrics api m)) req"
proof -
  have "list_all (\<lambda>m. f64_texts api \<and> wf_metric api m) (messages req)" using assms by (simp add: list_all_iff)
  from metrics.forwarded [OF this, where tenant = tenant and clock = clock] show ?thesis
    by (simp add: batch_to_metrics_request_def metrics_request_to_records_def)
qed

lemma sample_api_texts: "f64_texts sample_api"
proof -
  have "number_text (show_int d)" for d
    by (auto simp: number_text_def show_int_def list_all_iff plain_char_def ascii_ws_def show_nat_no digit_marks
        dest: show_nat_plain [unfolded list_all_iff, rule_format])
  moreover have "parse_int i64_max (show_int d) = Some d" if "\<bar>d\<bar> < 2 ^ 60" for d
    using that by (intro parse_show_int) (auto simp: i64_max_def)
  ultimately show ?thesis by (simp add: f64_texts_def sample_api_def parse_int_def)
qed

definition sample_point :: "int number_data_point" where
  "sample_point =
     \<lparr>np_attributes = [(''code'', Some (IntValue 3))], np_start_time_unix_nano = 1, np_time_unix_nano = 5, np_value = Some (AsInt 7),
      np_exemplars =
        [\<lparr>ex_filtered_attributes = [(''who'', Some (StringValue ''me''))], ex_time_unix_nano = 4, ex_span_id = [],
          ex_trace_id = sample_trace_id, ex_value = Some (AsDouble 6)\<rparr>],
      np_flags = 0\<rparr>"

definition sample_metric :: "int otlp_metric" where
  "sample_metric =
     \<lparr>mt_name = ''requests'', mt_description = [], mt_unit = ''1'',
      mt_data = Some (SumData [sample_point, sample_point\<lparr>np_value := None\<rparr>] 2 True)\<rparr>"

theorem metrics_forwarded_witness:
  "batch_to_metrics_request sample_api (metrics_request_to_records sample_api (\<lambda>_. 0) ''t''
     [\<lparr>resource_of = None, scopes_of = [\<lparr>scope_name_of = Some ''web'', items_of = [sample_metric]\<rparr>]\<rparr>]) =
   [\<lparr>resource_of = Some [],
     scopes_of = [\<lparr>scope_name_of = Some ''web'',
       items_of = [sample_metric\<lparr>mt_data := Some (SumData [forwarded_number sample_api sample_point] 2 True)\<rparr>]\<rparr>]\<rparr>] \<and>
   np_attributes (forwarded_number sample_api sample_point) = [string_kv ''code'' ''3'']"
proof -
  have texts: "trim ''web'' \<noteq> []" "trim ''code'' \<noteq> []" "show_int 3 = ''3''" "proper_id 16 sample_trace_id" by code_simp+
  have point: "wf_number_point sample_point" "wf_number_point (sample_point\<lparr>np_value := None\<rparr>)"
    using texts(4) by (simp_all add: wf_number_point_def wf_point_def sample_point_def starts_with_def wf_exemplar_def wf_number_def i64_max_def)
  have "wf_metric sample_api sample_metric"
    using point by (simp add: wf_metric_def sample_metric_def i32_range_def i32_max_def)
  moreover have "has_value sample_api sample_point" "\<not> has_value sample_api (sample_point\<lparr>np_value := None\<rparr>)"
    by (simp_all add: has_value_def sample_point_def kept_value_def)
  ultimately show ?thesis
    using texts
    by (subst metrics_forwarded)
      (simp_all add: sample_api_texts messages_def each_message_def alone_def forwarded_metrics_def forwarded_data_def sample_metric_def,
        simp add: forwarded_number_def sample_point_def rendered_def value_text_def)
qed

section \<open>What reserved keys of a client do\<close>

text \<open>
  The attributes of a data point stand before its fields, and the first attribute with a key counts: a client's
  attribute \<^verbatim>\<open>otel.metric.value\<close> is exported in place of the value that was measured.
\<close>

theorem value_replaced:
  "map (\<lambda>m. case m of Some (GaugeData ps) \<Rightarrow> map np_value ps | _ \<Rightarrow> [])
     (map mt_data (messages (batch_to_metrics_request sample_api (metrics_request_to_records sample_api (\<lambda>_. 0) ''t''
       [\<lparr>resource_of = None, scopes_of = [\<lparr>scope_name_of = None, items_of =
         [\<lparr>mt_name = ''m'', mt_description = [], mt_unit = [],
           mt_data = Some (GaugeData [\<lparr>np_attributes = [(''otel.metric.value'', Some (IntValue 0))], np_start_time_unix_nano = 1,
             np_time_unix_nano = 5, np_value = Some (AsInt 7), np_exemplars = [], np_flags = 0\<rparr>])\<rparr>]\<rparr>]\<rparr>])))) =
   [[Some (AsInt 0)]]"
  by code_simp

text \<open>
  The number of exemplars is taken from an attribute, and a client's attribute with this key comes first: a data
  point with no exemplars is exported with as many as its client writes, up to \<^term>\<open>u64_max\<close>.
\<close>

theorem exemplars_from_attribute:
  assumes "n \<le> u64_max" and "np_attributes p = [(''otel.metric.exemplar.count'', Some (StringValue (show_nat n)))]"
    and "number_data_point_to_record api tenant [] sc md p = Some g"
  shows "length (record_to_exemplars api (g now)) = n"
proof -
  have key: "\<not> blank ''otel.metric.exemplar.count''" by code_simp
  have "find_attribute (g now) ''otel.metric.exemplar.count'' = Some (show_nat n)"
    using assms(2,3) key metric_head_keys(2) [THEN avoids_lookup, of "''otel.metric.exemplar.count''" api md sc]
    by (auto simp: number_data_point_to_record_def find_attribute_pairs metric_base_pairs attributes_from_key_values_eq value_text_def
        map_add_def starts_with_def)
  then have "length (record_to_exemplars api (g now)) = length [0..<n]"
    using assms(1) by (simp add: record_to_exemplars_def parse_u64_attribute_def record_to_exemplar_def Let_def map_filter_total)
  then show ?thesis by simp
qed

end
