(* ===== verification/Otlp_Receivers.thy ===== *)
theory Otlp_Receivers
  imports Otlp_Convert Http_Request Agent_Args Runtime_Properties
begin

text \<open>
  The two OTLP receivers (\<^verbatim>\<open>crates/telemetry-agent/src/otlp_http.rs\<close> and \<^verbatim>\<open>otlp.rs\<close>): what happens to a request once
  there is a connection. The decoders and the encoders of responses (\<^verbatim>\<open>prost\<close>, \<^verbatim>\<open>serde_json\<close>) are the fields of
  \<open>receiver_codec\<close>, the first argument of a decoder says whether the body is JSON. Writing to the stream is \<open>send\<close>.
\<close>

record 'f receiver_codec =
  decode_trace :: "bool \<Rightarrow> u8 list \<Rightarrow> string + 'f trace_request"
  decode_metrics :: "bool \<Rightarrow> u8 list \<Rightarrow> string + 'f metrics_request"
  decode_logs :: "bool \<Rightarrow> u8 list \<Rightarrow> string + 'f logs_request"
  response_json :: "signal_kind \<Rightarrow> string + u8 list"
  response_protobuf :: "signal_kind \<Rightarrow> u8 list"

section \<open>OTLP over HTTP\<close>

datatype http_failure =
  IngestFailed agent_error
| StreamFailed string

definition ingest_records :: "telemetry_record list \<Rightarrow> ('x, unit) rt_act" where
  "ingest_records records = each_act ingest records"

definition decode_otlp_http_body :: "(bool \<Rightarrow> u8 list \<Rightarrow> string + 'r) \<Rightarrow> otlp_http_request \<Rightarrow> string + 'r" where
  "decode_otlp_http_body decoder req = decoder (is_json req) (req_body req)"

definition encode_otlp_http_response :: "'f receiver_codec \<Rightarrow> signal_kind \<Rightarrow> otlp_http_request \<Rightarrow> string + u8 list \<times> string" where
  "encode_otlp_http_response co kind req =
     (if is_json req then res_bind (response_json co kind) (\<lambda>bs. Inr (bs, ''application/json''))
      else Inr (response_protobuf co kind, ''application/x-protobuf''))"

type_synonym 'x http_act = "('x agent_runtime, http_failure, u8 list) act"

definition respond :: "(u8 list \<Rightarrow> string + unit) \<Rightarrow> string \<Rightarrow> string \<Rightarrow> u8 list \<Rightarrow> 'x http_act" where
  "respond send status content_type bs =
     (let response = write_http_response status content_type bs in
      lift_res (res_bind (map_err StreamFailed (send response)) (\<lambda>_. Inr response)))"

text \<open>One arm of the match on the path: decode, convert, ingest, and encode the response.\<close>

definition handle_signal ::
  "'f receiver_codec \<Rightarrow> signal_kind \<Rightarrow> (bool \<Rightarrow> u8 list \<Rightarrow> string + 'r) \<Rightarrow> ('r \<Rightarrow> telemetry_record list) \<Rightarrow> otlp_http_request \<Rightarrow>
   ('x agent_runtime, http_failure, string + u8 list \<times> string) act" where
  "handle_signal co kind decoder to_records req =
     (case decode_otlp_http_body decoder req of
        Inl message \<Rightarrow> ok_act (Inl message)
      | Inr decoded \<Rightarrow>
          seq_act (map_err_act IngestFailed (ingest_records (to_records decoded)))
            (ok_act (encode_otlp_http_response co kind req)))"

definition handle_otlp_http ::
  "'f proto_api \<Rightarrow> 'f receiver_codec \<Rightarrow> (u8 list \<Rightarrow> string + unit) \<Rightarrow> (nat \<Rightarrow> 128 word) \<Rightarrow> string \<Rightarrow> (string + u8 list) list \<Rightarrow> 'x http_act" where
  "handle_otlp_http api co send clock tenant reads =
     (case read_otlp_http_request reads [] of
        Inl message \<Rightarrow> respond send ''400 Bad Request'' ''text/plain'' (as_bytes message)
      | Inr req \<Rightarrow>
          if req_method req \<noteq> ''POST'' then
            respond send ''405 Method Not Allowed'' ''text/plain'' (as_bytes ''method must be POST'')
          else
            (let finish = (\<lambda>response.
                   case response of
                     Inr (bs, content_type) \<Rightarrow> respond send ''200 OK'' content_type bs
                   | Inl message \<Rightarrow> respond send ''400 Bad Request'' ''text/plain'' (as_bytes message)) in
             if req_path req = ''/v1/traces'' then
               bind_act (handle_signal co Trace (decode_trace co) (trace_request_to_records api clock tenant) req) finish
             else if req_path req = ''/v1/metrics'' then
               bind_act (handle_signal co Metric (decode_metrics co) (metrics_request_to_records api clock tenant) req) finish
             else if req_path req = ''/v1/logs'' then
               bind_act (handle_signal co Log (decode_logs co) (logs_request_to_records api clock tenant) req) finish
             else respond send ''404 Not Found'' ''text/plain'' (as_bytes ''unknown OTLP/HTTP signal path'')))"

text \<open>The files that TLS needs; reading them and building the acceptor are arguments.\<close>

definition build_tls_acceptor ::
  "(string \<Rightarrow> string + 'cert) \<Rightarrow> (string \<Rightarrow> string + 'key) \<Rightarrow> ('cert \<Rightarrow> string + 'ver) \<Rightarrow> ('ver option \<Rightarrow> 'cert \<Rightarrow> 'key \<Rightarrow> string + 'acc) \<Rightarrow>
   tls_config \<Rightarrow> string + 'acc" where
  "build_tls_acceptor load_certificates load_private_key client_verifier acceptor tls =
     res_bind (ok_or ''OTLP/HTTP TLS receiver requires tls.cert_file'' (cert_file tls)) (\<lambda>cert.
     res_bind (ok_or ''OTLP/HTTP TLS receiver requires tls.key_file'' (key_file tls)) (\<lambda>key.
     res_bind
       (if require_client_auth tls then
          res_bind (ok_or ''OTLP/HTTP mTLS receiver requires tls.ca_file'' (ca_file tls)) (\<lambda>ca.
          res_bind (load_certificates ca) (\<lambda>roots.
          res_bind (client_verifier roots) (\<lambda>v. Inr (Some v))))
        else Inr None) (\<lambda>verifier.
     res_bind (load_certificates cert) (\<lambda>c.
     res_bind (load_private_key key) (\<lambda>k.
     acceptor verifier c k)))))"

section \<open>OTLP over gRPC\<close>

datatype grpc_status = ResourceExhausted string

text \<open>The export methods of the three services.\<close>

definition grpc_ingest :: "(io_error \<Rightarrow> string) \<Rightarrow> telemetry_record list \<Rightarrow> ('x agent_runtime, grpc_status, unit) act" where
  "grpc_ingest show_io records =
     each_act (\<lambda>r. map_err_act (\<lambda>e. ResourceExhausted (show_agent_error show_io e)) (ingest r)) records"

definition grpc_export_traces ::
  "'f proto_api \<Rightarrow> (io_error \<Rightarrow> string) \<Rightarrow> (nat \<Rightarrow> 128 word) \<Rightarrow> string \<Rightarrow> 'f trace_request \<Rightarrow> ('x agent_runtime, grpc_status, unit) act" where
  "grpc_export_traces api show_io clock tenant req = grpc_ingest show_io (trace_request_to_records api clock tenant req)"

definition grpc_export_metrics ::
  "'f proto_api \<Rightarrow> (io_error \<Rightarrow> string) \<Rightarrow> (nat \<Rightarrow> 128 word) \<Rightarrow> string \<Rightarrow> 'f metrics_request \<Rightarrow> ('x agent_runtime, grpc_status, unit) act" where
  "grpc_export_metrics api show_io clock tenant req = grpc_ingest show_io (metrics_request_to_records api clock tenant req)"

definition grpc_export_logs ::
  "'f proto_api \<Rightarrow> (io_error \<Rightarrow> string) \<Rightarrow> (nat \<Rightarrow> 128 word) \<Rightarrow> string \<Rightarrow> 'f logs_request \<Rightarrow> ('x agent_runtime, grpc_status, unit) act" where
  "grpc_export_logs api show_io clock tenant req = grpc_ingest show_io (logs_request_to_records api clock tenant req)"

end
