(* ===== verification/Receiver_Properties.thy ===== *)
theory Receiver_Properties
  imports Otlp_Receivers Otlp_Forward
begin

text \<open>What a client of a receiver can rely on: the answer it gets and what is in the queue then.\<close>

section \<open>Ingesting a list of records\<close>

text \<open>Room for the segments that \<open>n\<close> more records may start; the quota itself is checked by the code.\<close>

definition room_for :: "nat \<Rightarrow> 'x agent_runtime \<Rightarrow> bool" where
  "room_for n rt \<longleftrightarrow>
     sound_queue (rt_queue rt) \<and> active_segment_id (rt_queue rt) + n < u64_max \<and> max_queue_bytes (limits (rt_config rt)) \<le> max_offset"

lemma ingest_room:
  assumes "room_for (Suc (Suc n)) rt"
  shows "(\<exists>bs rt'. ingest r rt = (Inr (), rt') \<and> encode r = Inr bs \<and> room_for (Suc n) rt' \<and>
            pending (rt_queue rt') = pending (rt_queue rt) @ [bs] \<and> rt_config rt' = rt_config rt) \<or>
         (\<exists>e rt'. ingest r rt = (Inl e, rt') \<and> room_for (Suc n) rt' \<and> rt_queue rt' = rt_queue rt \<and> rt_config rt' = rt_config rt)"
proof -
  have room: "sound_queue (rt_queue rt)" "Suc (active_segment_id (rt_queue rt)) < u64_max"
    "max_queue_bytes (limits (rt_config rt)) \<le> max_offset" using assms by (simp_all add: room_for_def)
  show ?thesis
  proof (cases "\<exists>bs. admissible (rt_config rt) (rt_queue rt) r bs")
    case True
    with ingest_accepts [OF room, of r] obtain bs q' where q': "encode r = Inr bs" "sound_queue q'"
      "pending q' = pending (rt_queue rt) @ [bs]" "active_segment_id q' \<le> Suc (active_segment_id (rt_queue rt))"
      and run: "ingest r rt = (Inr (), upd_metrics (\<lambda>m. m\<lparr>ingested_records_total := add_u64 (ingested_records_total m) 1\<rparr>) (rt\<lparr>rt_queue := q'\<rparr>))"
      by (auto simp only: if_True)
    let ?rt' = "upd_metrics (\<lambda>m. m\<lparr>ingested_records_total := add_u64 (ingested_records_total m) 1\<rparr>) (rt\<lparr>rt_queue := q'\<rparr>)"
    have "room_for (Suc n) ?rt'" "rt_queue ?rt' = q'" "rt_config ?rt' = rt_config rt" using assms q'(2,4) by (simp_all add: room_for_def)
    then show ?thesis using q'(1,3) run by (metis (no_types, lifting))
  next
    case False
    with ingest_accepts [OF room, of r] obtain e where
      "ingest r rt = (Inl e, upd_metrics (\<lambda>m. m\<lparr>ingest_rejected_records_total := add_u64 (ingest_rejected_records_total m) 1\<rparr>) rt)"
      by (auto simp only: if_False)
    moreover have "room_for (Suc n) (upd_metrics f rt)" "rt_queue (upd_metrics f rt) = rt_queue rt" "rt_config (upd_metrics f rt) = rt_config rt" for f
      using assms by (simp_all add: room_for_def)
    ultimately show ?thesis by (metis (no_types, lifting))
  qed
qed

text \<open>The records that were ingested are the first \<open>n\<close>; all of them exactly when there is no error.\<close>

definition ingested :: "telemetry_record list \<Rightarrow> nat \<Rightarrow> 'x agent_runtime \<Rightarrow> 'x agent_runtime \<Rightarrow> bool" where
  "ingested rs n rt rt' \<longleftrightarrow>
     n \<le> length rs \<and> sound_queue (rt_queue rt') \<and> rt_config rt' = rt_config rt \<and>
     (\<exists>ps. map Inr ps = map encode (take n rs) \<and> pending (rt_queue rt') = pending (rt_queue rt) @ ps)"

lemma each_ingest:
  assumes "room_for (Suc (length rs)) rt" and "each_act (\<lambda>r. map_err_act h (ingest r)) rs rt = (res, rt')"
  shows "\<exists>n. ingested rs n rt rt' \<and> (n = length rs \<longleftrightarrow> res = Inr ())"
  using assms
proof (induction rs arbitrary: rt)
  case Nil
  then show ?case by (auto simp: ingested_def room_for_def)
next
  case (Cons r rs)
  from Cons.prems(1) have room: "room_for (Suc (Suc (length rs))) rt" by simp
  show ?case
  proof (rule disjE [OF ingest_room [OF room, of r]])
    assume "\<exists>bs rt1. ingest r rt = (Inr (), rt1) \<and> encode r = Inr bs \<and> room_for (Suc (length rs)) rt1 \<and>
            pending (rt_queue rt1) = pending (rt_queue rt) @ [bs] \<and> rt_config rt1 = rt_config rt"
    then obtain bs rt1 where ok: "ingest r rt = (Inr (), rt1)" "encode r = Inr bs" "room_for (Suc (length rs)) rt1"
      "pending (rt_queue rt1) = pending (rt_queue rt) @ [bs]" "rt_config rt1 = rt_config rt" by blast
    have "map_err_act h (ingest r) rt = (Inr (), rt1)" using ok(1) by (simp add: map_err_act_def)
    with Cons.prems(2) have "each_act (\<lambda>r. map_err_act h (ingest r)) rs rt1 = (res, rt')" by (simp add: seq_act_def bind_act_def)
    from Cons.IH [OF ok(3) this] obtain n where n: "ingested rs n rt1 rt'" "n = length rs \<longleftrightarrow> res = Inr ()" by blast
    then obtain ps where ps: "map Inr ps = map encode (take n rs)" "pending (rt_queue rt') = pending (rt_queue rt1) @ ps"
      by (auto simp: ingested_def)
    have "map Inr (bs # ps) = map encode (take (Suc n) (r # rs)) \<and> pending (rt_queue rt') = pending (rt_queue rt) @ (bs # ps)"
      using ok(2,4) ps by simp
    then have "ingested (r # rs) (Suc n) rt rt'" using n(1) ok(5) unfolding ingested_def by auto
    then show ?thesis using n(2) by (intro exI [of _ "Suc n"]) simp
  next
    assume "\<exists>e rt1. ingest r rt = (Inl e, rt1) \<and> room_for (Suc (length rs)) rt1 \<and> rt_queue rt1 = rt_queue rt \<and> rt_config rt1 = rt_config rt"
    then obtain e rt1 where no: "ingest r rt = (Inl e, rt1)" "room_for (Suc (length rs)) rt1" "rt_queue rt1 = rt_queue rt" "rt_config rt1 = rt_config rt"
      by blast
    have "map_err_act h (ingest r) rt = (Inl (h e), rt1)" using no(1) by (simp add: map_err_act_def)
    with Cons.prems(2) have "res = Inl (h e)" "rt' = rt1" by (auto simp: seq_act_def bind_act_def)
    then show ?thesis using no by (intro exI [of _ 0]) (auto simp: ingested_def room_for_def)
  qed
qed

lemma map_err_id: "map_err_act (\<lambda>e. e) m = m"
  by (intro ext) (simp add: map_err_act_def map_err_def split: prod.split sum.split)

lemma each_map_err: "map_err_act h (each_act f xs) = each_act (\<lambda>x. map_err_act h (f x)) xs"
proof (induction xs)
  case Nil
  then show ?case by (intro ext) (simp add: map_err_act_def)
next
  case (Cons x xs)
  have "map_err_act h (seq_act (f x) (each_act f xs)) = seq_act (map_err_act h (f x)) (map_err_act h (each_act f xs))"
    by (intro ext) (auto simp: map_err_act_def seq_act_def bind_act_def split: prod.splits sum.splits)
  with Cons show ?case by simp
qed

lemma each_error: "each_act (\<lambda>x. map_err_act h (f x)) xs s = (Inl e, s') \<Longrightarrow> \<exists>e'. e = h e'"
proof (induction xs arbitrary: s)
  case (Cons x xs)
  obtain r s1 where x: "f x s = (r, s1)" by (cases "f x s")
  then have "map_err_act h (f x) s = (map_err h r, s1)" by (simp add: map_err_act_def)
  with Cons show ?case by (cases r) (auto simp: seq_act_def bind_act_def)
qed simp

section \<open>The HTTP receiver\<close>

text \<open>The records a request stands for, when it is a request that the receiver serves.\<close>

definition request_records ::
  "'f proto_api \<Rightarrow> 'f receiver_codec \<Rightarrow> (nat \<Rightarrow> 128 word) \<Rightarrow> string \<Rightarrow> (string + u8 list) list \<Rightarrow> (signal_kind \<times> otlp_http_request \<times> telemetry_record list) option" where
  "request_records api co clock tenant reads =
     (case read_otlp_http_request reads [] of
        Inl _ \<Rightarrow> None
      | Inr req \<Rightarrow>
          if req_method req \<noteq> ''POST'' then None
          else if req_path req = ''/v1/traces'' then
            map_option (\<lambda>d. (Trace, req, trace_request_to_records api clock tenant d)) (res_ok (decode_trace co (is_json req) (req_body req)))
          else if req_path req = ''/v1/metrics'' then
            map_option (\<lambda>d. (Metric, req, metrics_request_to_records api clock tenant d)) (res_ok (decode_metrics co (is_json req) (req_body req)))
          else if req_path req = ''/v1/logs'' then
            map_option (\<lambda>d. (Log, req, logs_request_to_records api clock tenant d)) (res_ok (decode_logs co (is_json req) (req_body req)))
          else None)"

definition answer_after :: "'f receiver_codec \<Rightarrow> (u8 list \<Rightarrow> string + unit) \<Rightarrow> signal_kind \<Rightarrow> otlp_http_request \<Rightarrow> http_failure + u8 list" where
  "answer_after co send kind req =
     (let response = (case encode_otlp_http_response co kind req of
            Inr (bs, content_type) \<Rightarrow> write_http_response ''200 OK'' content_type bs
          | Inl message \<Rightarrow> write_http_response ''400 Bad Request'' ''text/plain'' (as_bytes message)) in
      res_bind (map_err StreamFailed (send response)) (\<lambda>_. Inr response))"

text \<open>What the answer of a refused request starts with.\<close>

definition refusal :: "u8 list \<Rightarrow> bool" where
  "refusal bs \<longleftrightarrow> take 10 bs = as_bytes ''HTTP/1.1 4''"

lemma write_refusal: "refusal (write_http_response (CHR ''4'' # status) ct bs)"
  by (simp add: refusal_def write_http_response_def http_response_head_def as_bytes_def)

lemma respond_step: "respond send status ct bs rt =
  (res_bind (map_err StreamFailed (send (write_http_response status ct bs))) (\<lambda>_. Inr (write_http_response status ct bs)), rt)"
  by (simp add: respond_def Let_def lift_res_def)

lemma handle_signal_step:
  "handle_signal co kind decoder to_records req rt =
     (case decoder (is_json req) (req_body req) of
        Inl message \<Rightarrow> (Inr (Inl message), rt)
      | Inr d \<Rightarrow>
          (case each_act (\<lambda>r. map_err_act IngestFailed (ingest r)) (to_records d) rt of
             (Inl e, rt') \<Rightarrow> (Inl e, rt')
           | (Inr _, rt') \<Rightarrow> (Inr (encode_otlp_http_response co kind req), rt')))"
  by (simp add: handle_signal_def decode_otlp_http_body_def ingest_records_def each_map_err seq_act_def bind_act_def split: sum.split prod.split)

lemma respond_refusal:
  "snd (respond send (CHR ''4'' # status) ct bs rt) = rt" "fst (respond send (CHR ''4'' # status) ct bs rt) = Inr out \<Longrightarrow> refusal out"
  by (auto simp: respond_step res_bind_Inr_iff write_refusal)

lemma served_step:
  assumes "decoder (is_json req) (req_body req) = Inr d"
  shows "bind_act (handle_signal co kind decoder to_records req)
      (\<lambda>response. case response of Inr (bs, content_type) \<Rightarrow> respond send ''200 OK'' content_type bs
         | Inl message \<Rightarrow> respond send ''400 Bad Request'' ''text/plain'' (as_bytes message)) rt =
    (case each_act (\<lambda>r. map_err_act IngestFailed (ingest r)) (to_records d) rt of
       (Inl e, rt') \<Rightarrow> (Inl e, rt') | (Inr _, rt') \<Rightarrow> (answer_after co send kind req, rt'))"
  by (cases "each_act (\<lambda>r. map_err_act IngestFailed (ingest r)) (to_records d) rt"; cases "encode_otlp_http_response co kind req")
    (auto simp: bind_act_def handle_signal_step assms respond_step answer_after_def Let_def split: sum.split)

lemma undecoded_step:
  assumes "decoder (is_json req) (req_body req) = Inl e"
  shows "bind_act (handle_signal co kind decoder to_records req) finish rt = finish (Inl e) rt"
  by (simp add: bind_act_def handle_signal_step assms)

lemma handle_served:
  assumes "request_records api co clock tenant reads = Some (kind, req, rs)"
  shows "handle_otlp_http api co send clock tenant reads rt =
    (case each_act (\<lambda>r. map_err_act IngestFailed (ingest r)) rs rt of
       (Inl e, rt') \<Rightarrow> (Inl e, rt') | (Inr _, rt') \<Rightarrow> (answer_after co send kind req, rt'))"
proof -
  obtain rq where rq: "read_otlp_http_request reads [] = Inr rq" using assms by (auto simp: request_records_def split: sum.splits)
  with assms have post: "req_method rq = ''POST''" by (auto simp: request_records_def split: if_splits)
  note eqs = handle_otlp_http_def rq post Let_def
  consider "req_path rq = ''/v1/traces''" | "req_path rq = ''/v1/metrics''" | "req_path rq = ''/v1/logs''"
    using assms rq post by (auto simp: request_records_def split: if_splits)
  then show ?thesis
  proof cases
    case 1
    with assms rq post obtain d where d: "decode_trace co (is_json rq) (req_body rq) = Inr d"
      and "kind = Trace" "req = rq" "rs = trace_request_to_records api clock tenant d"
      by (cases "decode_trace co (is_json rq) (req_body rq)") (auto simp: request_records_def)
    then show ?thesis using 1 by (auto simp: eqs served_step [where decoder = "decode_trace co" and req = rq, OF d])
  next
    case 2
    with assms rq post obtain d where d: "decode_metrics co (is_json rq) (req_body rq) = Inr d"
      and "kind = Metric" "req = rq" "rs = metrics_request_to_records api clock tenant d"
      by (cases "decode_metrics co (is_json rq) (req_body rq)") (auto simp: request_records_def)
    then show ?thesis using 2 by (auto simp: eqs served_step [where decoder = "decode_metrics co" and req = rq, OF d])
  next
    case 3
    with assms rq post obtain d where d: "decode_logs co (is_json rq) (req_body rq) = Inr d"
      and "kind = Log" "req = rq" "rs = logs_request_to_records api clock tenant d"
      by (cases "decode_logs co (is_json rq) (req_body rq)") (auto simp: request_records_def)
    then show ?thesis using 3 by (auto simp: eqs served_step [where decoder = "decode_logs co" and req = rq, OF d])
  qed
qed

lemma handle_refused:
  assumes "request_records api co clock tenant reads = None"
  shows "\<exists>status ct bs. handle_otlp_http api co send clock tenant reads rt = respond send (CHR ''4'' # status) ct bs rt"
proof (cases "read_otlp_http_request reads []")
  case (Inl e)
  then show ?thesis by (auto simp: handle_otlp_http_def)
next
  case (Inr req)
  note rq = Inr
  show ?thesis
  proof (cases "req_method req = ''POST''")
    case False
    then show ?thesis by (auto simp: handle_otlp_http_def rq)
  next
    case post: True
    note eqs = handle_otlp_http_def rq post Let_def
    consider "req_path req = ''/v1/traces''" | "req_path req = ''/v1/metrics''" | "req_path req = ''/v1/logs''"
      | "req_path req \<notin> {''/v1/traces'', ''/v1/metrics'', ''/v1/logs''}" by blast
    then show ?thesis
    proof cases
      case 1
      with assms rq post obtain e where d: "decode_trace co (is_json req) (req_body req) = Inl e"
        by (cases "decode_trace co (is_json req) (req_body req)") (auto simp: request_records_def)
      from 1 show ?thesis by (auto simp: eqs undecoded_step [where decoder = "decode_trace co" and req = req, OF d])
    next
      case 2
      with assms rq post obtain e where d: "decode_metrics co (is_json req) (req_body req) = Inl e"
        by (cases "decode_metrics co (is_json req) (req_body req)") (auto simp: request_records_def)
      from 2 show ?thesis by (auto simp: eqs undecoded_step [where decoder = "decode_metrics co" and req = req, OF d])
    next
      case 3
      with assms rq post obtain e where d: "decode_logs co (is_json req) (req_body req) = Inl e"
        by (cases "decode_logs co (is_json req) (req_body req)") (auto simp: request_records_def)
      from 3 show ?thesis by (auto simp: eqs undecoded_step [where decoder = "decode_logs co" and req = req, OF d])
    next
      case 4
      then show ?thesis by (auto simp: eqs)
    qed
  qed
qed

text \<open>
  Property C21 (http_receiver_exact). A request that the receiver cannot read or decode, with another method or another
  path, is answered with a status 4xx and changes nothing. For any other request the records it stands for are
  ingested in order until the first that is refused: if all are in the queue the client gets the response of
  its signal, and if not, the connection is closed with no response and the records before the refused one stay queued.
\<close>

theorem http_receiver_exact:
  assumes "room_for (Suc (case request_records api co clock tenant reads of None \<Rightarrow> 0 | Some (_, _, rs) \<Rightarrow> length rs)) rt"
    and "handle_otlp_http api co send clock tenant reads rt = (res, rt')"
  shows "case request_records api co clock tenant reads of
      None \<Rightarrow> rt' = rt \<and> (case res of Inr bs \<Rightarrow> refusal bs | Inl e \<Rightarrow> \<exists>s. e = StreamFailed s)
    | Some (kind, req, rs) \<Rightarrow>
        \<exists>n. ingested rs n rt rt' \<and> (if n = length rs then res = answer_after co send kind req else \<exists>e. res = Inl (IngestFailed e))"
proof (cases "request_records api co clock tenant reads")
  case None
  obtain status ct bs where "handle_otlp_http api co send clock tenant reads rt = respond send (CHR ''4'' # status) ct bs rt"
    using handle_refused [OF None] by blast
  with assms(2) have "(res, rt') = respond send (CHR ''4'' # status) ct bs rt" by simp
  then show ?thesis
    using None write_refusal by (cases "send (write_http_response (CHR ''4'' # status) ct bs)") (auto simp: respond_step)
next
  case (Some krs)
  obtain kind req rs where krs: "krs = (kind, req, rs)" by (cases krs)
  obtain r1 rt1 where run: "each_act (\<lambda>r. map_err_act IngestFailed (ingest r)) rs rt = (r1, rt1)" by (cases "each_act (\<lambda>r. map_err_act IngestFailed (ingest r)) rs rt")
  have "room_for (Suc (length rs)) rt" using assms(1) Some krs by simp
  from each_ingest [OF this run] obtain n where n: "ingested rs n rt rt1" "n = length rs \<longleftrightarrow> r1 = Inr ()" by blast
  have "\<exists>e. r1 = Inl (IngestFailed e)" if "r1 = Inl x" for x
    using that each_error [of IngestFailed ingest rs rt x rt1] run by blast
  with n run assms(2) handle_served [OF Some [unfolded krs], of send rt] Some krs show ?thesis
    by (cases r1) auto
qed

definition sample_codec :: "int receiver_codec" where
  "sample_codec =
     \<lparr>decode_trace = (\<lambda>json bs. Inr []), decode_metrics = (\<lambda>json bs. Inr []),
      decode_logs = (\<lambda>json bs. if bs = as_bytes ''{}'' then
        Inr [\<lparr>resource_of = None, scopes_of = [\<lparr>scope_name_of = None, items_of = [sample_log_message]\<rparr>]\<rparr>] else Inl ''bad''),
      response_json = (\<lambda>kind. Inr (as_bytes ''{}'')), response_protobuf = (\<lambda>kind. [])\<rparr>"

definition sample_reads :: "(string + u8 list) list" where
  "sample_reads = map Inr [take 30 sample_request, drop 30 sample_request]"

definition receiver_runtime :: "unit agent_runtime" where
  "receiver_runtime = opened Map.empty default_config (fresh_queue default_disk_queue_options)"

definition sample_logs :: "telemetry_record list" where
  "sample_logs = logs_request_to_records sample_api (\<lambda>_. 7) ''acme''
     [\<lparr>resource_of = None, scopes_of = [\<lparr>scope_name_of = None, items_of = [sample_log_message]\<rparr>]\<rparr>]"

lemma receiver_runtime_room: "n < 1000 \<Longrightarrow> room_for (Suc n) receiver_runtime"
  using fresh_sound
  by (simp add: room_for_def receiver_runtime_def default_config_def limits_default_def) (simp add: fresh_queue_def)

lemma sample_logs_request:
  "request_records sample_api sample_codec (\<lambda>_. 7) ''acme'' sample_reads =
     Some (Log, \<lparr>req_method = ''POST'', req_path = ''/v1/logs'', req_content_type = Some ''application/json'', req_body = as_bytes ''{}''\<rparr>, sample_logs)"
proof -
  have "read_otlp_http_request sample_reads [] =
     Inr \<lparr>req_method = ''POST'', req_path = ''/v1/logs'', req_content_type = Some ''application/json'', req_body = as_bytes ''{}''\<rparr>"
    by code_simp
  then show ?thesis by (simp add: request_records_def sample_codec_def sample_logs_def)
qed

theorem http_receiver_exact_witness:
  "\<exists>res rt' n. handle_otlp_http sample_api sample_codec (\<lambda>_. Inr ()) (\<lambda>_. 7) ''acme'' sample_reads receiver_runtime = (res, rt') \<and>
     ingested sample_logs n receiver_runtime rt' \<and> (n = 1 \<or> n = 0) \<and>
     (if n = 1 then res = Inr (write_http_response ''200 OK'' ''application/json'' (as_bytes ''{}'')) else res \<in> range (\<lambda>e. Inl (IngestFailed e)))"
proof -
  let ?run = "handle_otlp_http sample_api sample_codec (\<lambda>_. Inr ()) (\<lambda>_. 7) ''acme'' sample_reads receiver_runtime"
  have len: "length sample_logs = 1" by code_simp
  have answer: "answer_after sample_codec (\<lambda>_. Inr ()) Log
      \<lparr>req_method = ''POST'', req_path = ''/v1/logs'', req_content_type = Some ''application/json'', req_body = as_bytes ''{}''\<rparr> =
    Inr (write_http_response ''200 OK'' ''application/json'' (as_bytes ''{}''))" by code_simp
  obtain res rt' where run: "?run = (res, rt')" by (cases ?run)
  have "room_for (Suc (case request_records sample_api sample_codec (\<lambda>_. 7) ''acme'' sample_reads of None \<Rightarrow> 0 | Some (_, _, rs) \<Rightarrow> length rs)) receiver_runtime"
    unfolding sample_logs_request option.case prod.case len by (rule receiver_runtime_room) simp
  from http_receiver_exact [OF this run] obtain n where n: "ingested sample_logs n receiver_runtime rt'"
    "if n = 1 then res = Inr (write_http_response ''200 OK'' ''application/json'' (as_bytes ''{}'')) else \<exists>e. res = Inl (IngestFailed e)"
    unfolding sample_logs_request option.case prod.case len answer by blast
  moreover from n have "n = 1 \<or> n = 0" "if n = 1 then res = Inr (write_http_response ''200 OK'' ''application/json'' (as_bytes ''{}''))
      else res \<in> range (\<lambda>e. Inl (IngestFailed e))" by (auto simp: ingested_def len split: if_splits)
  ultimately show ?thesis using run by blast
qed

section \<open>The gRPC receiver\<close>

text \<open>
  The services of the gRPC receiver answer with success exactly when every record of the
  request is in the queue; otherwise the status is \<^verbatim>\<open>RESOURCE_EXHAUSTED\<close>, whatever the reason of the refusal was, and the
  records before the refused one stay queued.
\<close>

theorem grpc_receiver_exact:
  assumes "room_for (Suc (length rs)) rt" and "grpc_ingest show_io rs rt = (res, rt')"
  shows "\<exists>n. ingested rs n rt rt' \<and>
    (if n = length rs then res = Inr () else \<exists>e. res = Inl (ResourceExhausted (show_agent_error show_io e)))"
proof -
  have run: "each_act (\<lambda>r. map_err_act (\<lambda>e. ResourceExhausted (show_agent_error show_io e)) (ingest r)) rs rt = (res, rt')"
    using assms(2) by (simp add: grpc_ingest_def)
  from each_ingest [OF assms(1) run] obtain n where n: "ingested rs n rt rt'" "n = length rs \<longleftrightarrow> res = Inr ()" by blast
  have "\<exists>e. x = ResourceExhausted (show_agent_error show_io e)" if "res = Inl x" for x
    using that each_error [where f = ingest, of "\<lambda>e. ResourceExhausted (show_agent_error show_io e)"] run by blast
  with n show ?thesis by (cases res) auto
qed

theorem grpc_receiver_exact_witness:
  "\<exists>res rt' n. grpc_export_logs sample_api (\<lambda>_. ''io'') (\<lambda>_. 7) ''acme''
       [\<lparr>resource_of = None, scopes_of = [\<lparr>scope_name_of = None, items_of = [sample_log_message]\<rparr>]\<rparr>] receiver_runtime = (res, rt') \<and>
     ingested sample_logs n receiver_runtime rt' \<and> (if n = 1 then res = Inr () else n = 0)"
proof -
  have len: "length sample_logs = 1" by code_simp
  obtain res rt' where run: "grpc_ingest (\<lambda>_. ''io'') sample_logs receiver_runtime = (res, rt')"
    by (cases "grpc_ingest (\<lambda>_. ''io'') sample_logs receiver_runtime")
  have "room_for (Suc (length sample_logs)) receiver_runtime" unfolding len by (rule receiver_runtime_room) simp
  from grpc_receiver_exact [OF this run] obtain n where n: "ingested sample_logs n receiver_runtime rt'" "n = 1 \<longrightarrow> res = Inr ()"
    by (auto simp: len split: if_splits)
  then have "if n = 1 then res = Inr () else n = 0" by (auto simp: ingested_def len)
  then show ?thesis using run n(1) unfolding grpc_export_logs_def sample_logs_def [symmetric] by blast
qed

end
