(* ===== verification/Http_Agreement.thy ===== *)
theory Http_Agreement
  imports Exporter_Http
begin

text \<open>
  The request that an exporter writes is the request that a receiver of the same fabric reads: the link
  between two agents in a chain.
\<close>

section \<open>A header as a list of lines\<close>

definition good_line :: "string \<Rightarrow> bool" where
  "good_line l \<longleftrightarrow> l \<noteq> [] \<and> CR \<notin> set l \<and> LF \<notin> set l"

fun header_text :: "string list \<Rightarrow> string" where
  "header_text [] = []"
| "header_text [l] = l"
| "header_text (l # l' # ls) = l @ crlf @ header_text (l' # ls)"

lemma header_text_lines: "ls \<noteq> [] \<Longrightarrow> header_text ls @ crlf @ rest = concat (map (\<lambda>l. l @ crlf) ls) @ rest"
  by (induction ls rule: header_text.induct) auto

lemma header_text_head:
  assumes "list_all good_line (l # ls)"
  obtains c s where "header_text (l # ls) = c # s" "c \<noteq> CR"
proof -
  obtain c s where "l = c # s" using assms by (cases l) (auto simp: good_line_def)
  then show thesis using that assms by (cases ls) (auto simp: good_line_def)
qed

lemma find_header_end_skip:
  "13 \<notin> set xs \<Longrightarrow> find_header_end (xs @ ys) = map_option ((+) (length xs)) (find_header_end ys)"
proof (induction xs)
  case Nil
  then show ?case by (simp add: option.map_ident)
next
  case (Cons x xs)
  then have "x \<noteq> 13" by auto
  with Cons show ?case by (simp add: take_Cons' option.map_comp comp_def)
qed

lemma of_char_CR: "(of_char c :: u8) = 13 \<longleftrightarrow> c = CR"
proof
  assume "(of_char c :: u8) = 13"
  then have "(of_char c :: nat) = 13" using unat_of_char [of c] by simp
  then have "c = char_of (13 :: nat)" by (metis char_of_char)
  then show "c = CR" by (simp add: char_of_def bit_iff_odd)
qed simp

lemma no_CR_bytes: "CR \<notin> set l \<Longrightarrow> (13 :: u8) \<notin> set (as_bytes l)"
  unfolding as_bytes_def list.set_map by (metis of_char_CR imageE)

lemma find_header_text:
  assumes "ls \<noteq> []" and "list_all good_line ls"
  shows "find_header_end (as_bytes (header_text ls @ crlf @ crlf)) = Some (length (header_text ls))"
  using assms
proof (induction ls rule: header_text.induct)
  case (2 l)
  then have "13 \<notin> set (as_bytes l)" by (simp add: good_line_def no_CR_bytes)
  from find_header_end_skip [OF this, of "[13, 10, 13, 10]"] show ?case by (simp add: as_bytes_def)
next
  case (3 l l' ls)
  obtain c s where r: "header_text (l' # ls) = c # s" "c \<noteq> CR" using header_text_head [of l' ls] "3.prems"(2) by auto
  have "13 \<notin> set (as_bytes l)" using "3.prems" by (simp add: good_line_def no_CR_bytes)
  note skip = find_header_end_skip [OF this]
  have c: "(of_char c :: u8) \<noteq> 13" using r(2) of_char_CR by blast
  have "find_header_end (as_bytes (crlf @ header_text (l' # ls) @ crlf @ crlf)) = Some (2 + length (header_text (l' # ls)))"
    using "3.IH" "3.prems" c unfolding r by (simp add: as_bytes_def take_Cons')
  then show ?case using skip [of "as_bytes (crlf @ header_text (l' # ls) @ crlf @ crlf)"] by simp
qed simp

lemma str_lines_text:
  assumes "ls \<noteq> []" and "list_all good_line ls"
  shows "str_lines (header_text ls) = ls"
  using assms
proof (induction ls rule: header_text.induct)
  case (2 l)
  then have "dropWhile (\<lambda>c. c \<noteq> LF) l = []" by (auto simp: good_line_def)
  then show ?case using 2 str_lines.simps [of l] by (simp del: dropWhile_eq_Nil_conv add: good_line_def)
next
  case (3 l l' ls)
  let ?r = "header_text (l' # ls)"
  have n: "\<And>c. c \<in> set (l @ [CR]) \<Longrightarrow> c \<noteq> LF" using "3.prems" by (auto simp: good_line_def)
  have e: "header_text (l # l' # ls) = (l @ [CR]) @ LF # ?r" by simp
  have d: "dropWhile (\<lambda>c. c \<noteq> LF) ((l @ [CR]) @ LF # ?r) = LF # ?r" "takeWhile (\<lambda>c. c \<noteq> LF) ((l @ [CR]) @ LF # ?r) = l @ [CR]"
    using dropWhile_append2 [of "l @ [CR]" "\<lambda>c. c \<noteq> LF" "LF # ?r", OF n] takeWhile_append2 [of "l @ [CR]" "\<lambda>c. c \<noteq> LF" "LF # ?r", OF n]
    by simp_all
  have "str_lines ((l @ [CR]) @ LF # ?r) = l # str_lines ?r"
    using "3.prems" by (subst str_lines.simps) (simp only: d, simp add: strip_cr_def)
  then show ?case using 3 e by simp
qed simp

section \<open>Fields of the header\<close>

lemma lossy_ascii: "ascii_str s \<Longrightarrow> from_utf8_lossy (as_bytes s) = s"
proof (induction s)
  case (Cons c s)
  then have "(of_char c :: u8) < 0x80" by (auto simp: ascii_str_def intro: of_char_less_word)
  then have "utf8_char (as_bytes (c # s)) = Inr 1" by (simp add: as_bytes_def)
  moreover have "as_bytes (c # s) = of_char c # as_bytes s" by (simp add: as_bytes_def)
  ultimately show ?case using Cons by (simp add: ascii_str_def from_bytes_def)
qed (simp add: as_bytes_def)

lemma find_map_append: "find_map f (xs @ ys) = (case find_map f xs of Some y \<Rightarrow> Some y | None \<Rightarrow> find_map f ys)"
  by (induction xs) (auto split: option.splits)

lemma find_map_None: "find_map f xs = None \<longleftrightarrow> (\<forall>x \<in> set xs. f x = None)"
  by (induction xs) (auto split: option.splits)

lemma header_line_field:
  assumes "CHR '':'' \<notin> set name" and "list_all plain_char v"
  shows "header_line_value expected (name @ '': '' @ v) = (if eq_ignore_ascii_case name expected then Some v else None)"
proof -
  have "trim (CHR '' '' # v) = v"
    using trim_plain [OF assms(2)] trim_start_ws [of "CHR '' ''" v] by (simp add: trim_def ascii_ws_def)
  then show ?thesis using split_once_colon [OF assms(1), of "CHR '' '' # v"] by (simp add: header_line_value_def)
qed

section \<open>The request of an exporter\<close>

definition http_token :: "string \<Rightarrow> bool" where
  "http_token s \<longleftrightarrow> s \<noteq> [] \<and> list_all plain_char s"

definition extra_field :: "string \<times> string \<Rightarrow> bool" where
  "extra_field f \<longleftrightarrow> http_token (fst f) \<and> CHR '':'' \<notin> set (fst f) \<and> list_all plain_char (snd f) \<and>
     \<not> eq_ignore_ascii_case (fst f) ''content-length'' \<and> \<not> eq_ignore_ascii_case (fst f) ''content-type''"

definition post_lines :: "export_endpoint \<Rightarrow> string \<Rightarrow> string \<Rightarrow> (string \<times> string) list \<Rightarrow> usize \<Rightarrow> string list" where
  "post_lines e path content_type extra n =
     (''POST '' @ path @ '' HTTP/1.1'') # (''Host'' @ '': '' @ he_host e @ '':'' @ show_nat (he_port e)) #
     (''Content-Type'' @ '': '' @ content_type) # map (\<lambda>(name, v). name @ '': '' @ v) extra @
     [''Content-Length'' @ '': '' @ show_nat n, ''Connection'' @ '': '' @ ''close'']"

lemma post_headers_lines:
  "post_headers e path content_type extra n = header_text (post_lines e path content_type extra n) @ crlf @ crlf"
proof -
  have "concat (map (\<lambda>l. l @ crlf) (map (\<lambda>(name, v). name @ '': '' @ v) extra)) = concat (map (\<lambda>(name, v). name @ '': '' @ v @ crlf) extra)"
    by (induction extra) auto
  then show ?thesis
    using header_text_lines [of "post_lines e path content_type extra n" crlf] by (simp add: post_headers_def post_lines_def)
qed

lemma plain_chars: "list_all plain_char s \<Longrightarrow> CR \<notin> set s \<and> LF \<notin> set s \<and> ascii_str s"
  by (induction s) (auto simp: plain_char_def ascii_ws_def ascii_str_def)

lemma ascii_header_text: "list_all ascii_str ls \<Longrightarrow> ascii_str (header_text ls)"
  by (induction ls rule: header_text.induct) (auto simp: ascii_str_def)

lemma post_lines_good:
  assumes "http_token path" and "http_token content_type" and "list_all plain_char (he_host e)" and "list_all extra_field extra"
  shows "list_all (\<lambda>l. good_line l \<and> ascii_str l) (post_lines e path content_type extra n)"
proof -
  have "list_all (\<lambda>l. good_line l \<and> ascii_str l) (map (\<lambda>(name, v). name @ '': '' @ v) extra)"
    using assms(4) plain_chars by (fastforce simp: list_all_iff extra_field_def http_token_def good_line_def ascii_str_def)
  moreover have "list_all (\<lambda>l. good_line l \<and> ascii_str l) [''POST '' @ path @ '' HTTP/1.1'',
      ''Host'' @ '': '' @ he_host e @ '':'' @ show_nat (he_port e), ''Content-Type'' @ '': '' @ content_type,
      ''Content-Length'' @ '': '' @ show_nat n, ''Connection'' @ '': '' @ ''close'']"
    using plain_chars [of path] plain_chars [of content_type] plain_chars [of "he_host e"] plain_chars [OF show_nat_plain] assms(1-3)
    by (simp add: http_token_def good_line_def ascii_str_def)
  ultimately show ?thesis by (simp add: post_lines_def)
qed

lemma split_once_first: "split_once '':'' (c # s) = Some (name, v) \<Longrightarrow> c \<noteq> CHR '':'' \<Longrightarrow> \<exists>name'. name = c # name'"
  by (auto simp: strip_prefix_def starts_with_def split: option.splits)

lemma other_first_char:
  assumes "ascii_lower_char c \<noteq> ascii_lower_char d" and "c \<noteq> CHR '':''"
  shows "header_line_value (d # k) (c # s) = None"
proof (cases "split_once '':'' (c # s)")
  case (Some nv)
  obtain name v where nv: "nv = (name, v)" by (cases nv)
  then obtain name' where "name = c # name'" using split_once_first [of c s name v] Some assms(2) by blast
  then have "\<not> eq_ignore_ascii_case name (d # k)" using assms(1) by (simp add: eq_ignore_ascii_case_def to_ascii_lowercase_def)
  then show ?thesis using Some nv by (simp add: header_line_value_def)
qed (simp add: header_line_value_def)

lemma post_line_no_field: "header_line_value ''content-length'' (CHR ''P'' # s) = None" "header_line_value ''content-type'' (CHR ''P'' # s) = None"
proof -
  have "ascii_lower_char (CHR ''P'') \<noteq> ascii_lower_char (CHR ''c'')" by code_simp
  then show "header_line_value ''content-length'' (CHR ''P'' # s) = None" "header_line_value ''content-type'' (CHR ''P'' # s) = None"
    by (rule other_first_char; simp)+
qed

lemma post_fields:
  assumes "http_token path" and "http_token content_type" and "list_all plain_char (he_host e)" and "list_all extra_field extra"
  shows "find_map (header_line_value ''content-length'') (post_lines e path content_type extra n) = Some (show_nat n)"
    and "find_map (header_line_value ''content-type'') (post_lines e path content_type extra n) = Some content_type"
proof -
  have host: "list_all plain_char (he_host e @ '':'' @ show_nat (he_port e))"
    using assms(3) show_nat_plain by (simp add: plain_char_def ascii_ws_def)
  have ci: "\<not> eq_ignore_ascii_case ''Host'' ''content-length''" "\<not> eq_ignore_ascii_case ''Host'' ''content-type''"
    "\<not> eq_ignore_ascii_case ''Content-Type'' ''content-length''" "eq_ignore_ascii_case ''Content-Type'' ''content-type''"
    "eq_ignore_ascii_case ''Content-Length'' ''content-length''" by code_simp+
  note h = header_line_field [of "''Host''", OF _ host]
  note t = header_line_field [of "''Content-Type''" content_type]
  note l = header_line_field [of "''Content-Length''", OF _ show_nat_plain]
  have x: "find_map (header_line_value k) (map (\<lambda>(name, v). name @ '': '' @ v) extra) = None"
    if "\<forall>f \<in> set extra. \<not> eq_ignore_ascii_case (fst f) k" for k
    using that assms(4) header_line_field by (fastforce simp: find_map_None list_all_iff extra_field_def)
  have xl: "find_map (header_line_value ''content-length'') (map (\<lambda>(name, v). name @ '': '' @ v) extra) = None"
    by (rule x) (use assms(4) in \<open>simp add: list_all_iff extra_field_def\<close>)
  show "find_map (header_line_value ''content-length'') (post_lines e path content_type extra n) = Some (show_nat n)"
    using assms(2) h t l xl ci by (simp add: post_lines_def post_line_no_field find_map_append http_token_def)
  show "find_map (header_line_value ''content-type'') (post_lines e path content_type extra n) = Some content_type"
    using assms(2) h t ci by (simp add: post_lines_def post_line_no_field http_token_def)
qed

lemma split_post_line: "http_token path \<Longrightarrow> split_whitespace (''POST '' @ path @ '' HTTP/1.1'') = [''POST'', path, ''HTTP/1.1'']"
proof -
  assume p: "http_token path"
  have ws: "ascii_ws (of_char (CHR '' ''))" by (simp add: ascii_ws_def)
  have "split_whitespace (''POST'' @ CHR '' '' # path @ CHR '' '' # ''HTTP/1.1'') = ''POST'' # split_whitespace (path @ CHR '' '' # ''HTTP/1.1'')"
    by (rule split_whitespace_word [OF _ _ ws]) (simp_all add: plain_char_def ascii_ws_def)
  also have "split_whitespace (path @ CHR '' '' # ''HTTP/1.1'') = path # split_whitespace ''HTTP/1.1''"
    by (rule split_whitespace_word [OF _ _ ws]) (use p in \<open>simp_all add: http_token_def\<close>)
  also have "split_whitespace ''HTTP/1.1'' = [''HTTP/1.1'']" by code_simp
  finally show ?thesis by simp
qed

lemma post_request_parsed:
  assumes "http_token path" and "http_token content_type" and "list_all plain_char (he_host e)" and "list_all extra_field extra"
    and "length bs \<le> MAX_OTLP_HTTP_BODY_BYTES"
  shows "parse_buffered_http_request (as_bytes (post_headers e path content_type extra (length bs)) @ bs) =
    Inr (Some \<lparr>req_method = ''POST'', req_path = path, req_content_type = Some content_type, req_body = bs\<rparr>)"
proof -
  let ?ls = "post_lines e path content_type extra (length bs)"
  let ?h = "as_bytes (header_text ?ls @ crlf @ crlf)"
  have g: "list_all good_line ?ls" "list_all ascii_str ?ls" using post_lines_good [OF assms(1-4)] by (simp_all add: list_all_iff)
  have ne: "?ls \<noteq> []" by (simp add: post_lines_def)
  have e: "find_header_end ?h = Some (length (header_text ?ls))" by (rule find_header_text [OF ne g(1)])
  have "take (length (header_text ?ls)) ?h = as_bytes (header_text ?ls)" by (simp add: as_bytes_append)
  then have head: "from_utf8_lossy (take (length (header_text ?ls)) ?h) = header_text ?ls"
    using lossy_ascii ascii_header_text [OF g(2)] by simp
  have "length bs \<le> u64_max" using assms(5) by (simp add: MAX_OTLP_HTTP_BODY_BYTES_def)
  then have p: "parse_http_head (header_text ?ls) = Inr (''POST'', path, Some content_type, length bs)"
    using assms(5) post_fields [OF assms(1-4), of "length bs"] split_post_line [OF assms(1)] str_lines_text [OF ne g(1)]
    by (simp add: parse_http_head_def parse_header_value_def parse_content_length_def Let_def) (simp add: post_lines_def)
  show ?thesis
    using parse_buffered_of_head [OF e, of "''POST''" path "Some content_type" "length bs" bs] p head by (simp add: post_headers_lines)
qed

text \<open>A receiver reads the request of an HTTP exporter as what it means: method POST,
  the path and content type of the exporter, and exactly the bytes of the body, whatever they are; fields
  such as \<^verbatim>\<open>Content-Encoding\<close> do not disturb it.\<close>

theorem exporter_receiver_agree:
  assumes "http_token path" and "http_token content_type" and "list_all plain_char (he_host e)" and "list_all extra_field extra"
    and "length bs \<le> MAX_OTLP_HTTP_BODY_BYTES"
  shows "parse_buffered_http_request (as_bytes (post_headers e path content_type extra (length bs)) @ bs) =
    Inr (Some \<lparr>req_method = ''POST'', req_path = path, req_content_type = Some content_type, req_body = bs\<rparr>)"
  by (rule post_request_parsed [OF assms])

theorem exporter_receiver_agree_witness:
  "parse_buffered_http_request (as_bytes (post_headers \<lparr>he_scheme = PlainHttp, he_host = ''gateway'', he_port = 4318, he_base_path = []\<rparr>
      ''/v1/traces'' ''application/x-protobuf'' [(''Content-Encoding'', ''snappy'')] (length [10, 13, 10, 13 :: u8])) @ [10, 13, 10, 13]) =
    Inr (Some \<lparr>req_method = ''POST'', req_path = ''/v1/traces'', req_content_type = Some ''application/x-protobuf'',
               req_body = [10, 13, 10, 13]\<rparr>)"
  by (rule exporter_receiver_agree) (code_simp, code_simp, code_simp, code_simp, simp add: MAX_OTLP_HTTP_BODY_BYTES_def)

end
