(* ===== verification/Exporter_Prometheus.thy ===== *)
theory Exporter_Prometheus
  imports Exporter_Convert
begin

text \<open>
  Prometheus remote write (\<^verbatim>\<open>crates/telemetry-exporters/src/lib.rs\<close>): the time series that a batch of metric records
  becomes. Labels are kept in a \<^verbatim>\<open>BTreeMap\<close>, modelled as a list sorted by key.
\<close>

section \<open>Messages\<close>

record prom_label =
  pl_name :: string
  pl_value :: string

record 'f prom_sample =
  ps_value :: 'f
  ps_timestamp :: int

record 'f prom_exemplar =
  pe_labels :: "prom_label list"
  pe_value :: 'f
  pe_timestamp :: int

record 'f prom_time_series =
  ts_labels :: "prom_label list"
  ts_samples :: "'f prom_sample list"
  ts_exemplars :: "'f prom_exemplar list"

type_synonym 'f prom_write_request = "'f prom_time_series list"

section \<open>Names\<close>

definition ascii_digit :: "char \<Rightarrow> bool" where
  "ascii_digit c \<longleftrightarrow> CHR ''0'' \<le> c \<and> c \<le> CHR ''9''"

definition ascii_alphanumeric :: "char \<Rightarrow> bool" where
  "ascii_alphanumeric c \<longleftrightarrow>
     ascii_digit c \<or> (CHR ''a'' \<le> c \<and> c \<le> CHR ''z'') \<or> (CHR ''A'' \<le> c \<and> c \<le> CHR ''Z'')"

text \<open>
  \<^verbatim>\<open>str::chars\<close>, by the first byte of each character: in valid UTF-8 the other bytes are those from 0x80 to 0xBF.
  A character that is not ASCII is replaced, whatever it is.
\<close>

definition char_leads :: "string \<Rightarrow> string" where
  "char_leads s = filter (\<lambda>c. \<not> ((0x80 :: nat) \<le> of_char c \<and> of_char c < (0xC0 :: nat))) s"

definition sanitize_character :: "bool \<Rightarrow> nat \<times> char \<Rightarrow> string" where
  "sanitize_character allow_colon ic =
     (case ic of (index, character) \<Rightarrow>
        let valid = (character = CHR ''_'' \<or> (allow_colon \<and> character = CHR '':'') \<or> ascii_alphanumeric character);
            character = (if valid then character else CHR ''_'') in
        (if index = 0 \<and> ascii_digit character then ''_'' else []) @
        [if \<not> allow_colon \<and> character = CHR '':'' then CHR ''_'' else character])"

definition sanitize_prometheus_identifier :: "string \<Rightarrow> bool \<Rightarrow> string" where
  "sanitize_prometheus_identifier v allow_colon =
     (let out = concat (map (sanitize_character allow_colon) (List.enumerate 0 (char_leads v))) in
      if out = [] then ''_'' else out)"

definition sanitize_prometheus_metric_name :: "string \<Rightarrow> string" where
  "sanitize_prometheus_metric_name v = sanitize_prometheus_identifier v True"

definition sanitize_prometheus_label_name :: "string \<Rightarrow> string" where
  "sanitize_prometheus_label_name v = sanitize_prometheus_identifier v False"

section \<open>Labels\<close>

fun btree_insert :: "string \<Rightarrow> 'v \<Rightarrow> (string \<times> 'v) list \<Rightarrow> (string \<times> 'v) list" where
  "btree_insert k v [] = [(k, v)]"
| "btree_insert k v ((k', v') # m) =
     (if k < k' then (k, v) # (k', v') # m else if k = k' then (k, v) # m else (k', v') # btree_insert k v m)"

definition btree_or_insert :: "string \<Rightarrow> string \<Rightarrow> (string \<times> string) list \<Rightarrow> (string \<times> string) list" where
  "btree_or_insert k v m = (if map_of m k = None then btree_insert k v m else m)"

definition label_step :: "attribute \<Rightarrow> (string \<times> string) list \<Rightarrow> (string \<times> string) list" where
  "label_step a labels =
     (if starts_with ''otel.'' (attr_key a) then labels
      else
        let label_name = sanitize_prometheus_label_name (attr_key a) in
        if label_name = ''__name__'' \<or> label_name = [] then labels else btree_or_insert label_name (attr_value a) labels)"

definition prometheus_labels_with_extra :: "telemetry_record \<Rightarrow> string \<Rightarrow> (string \<times> string) list \<Rightarrow> prom_label list" where
  "prometheus_labels_with_extra r name extra_labels =
     (let labels = btree_insert ''tenant_id'' (tenant_id r) (btree_insert ''__name__'' name []);
          labels = fold label_step (attributes r) labels;
          labels = fold (\<lambda>(k, v). btree_insert k v) extra_labels labels in
      map (\<lambda>(k, v). \<lparr>pl_name = k, pl_value = v\<rparr>) labels)"

definition prometheus_labels :: "telemetry_record \<Rightarrow> string \<Rightarrow> prom_label list" where
  "prometheus_labels r name = prometheus_labels_with_extra r name []"

section \<open>Values\<close>

text \<open>\<^verbatim>\<open>min(i64::MAX as u128) as i64\<close>.\<close>

definition millis_of :: "nat \<Rightarrow> int" where
  "millis_of nanos = int (min (nanos div 1000000) i64_max)"

definition metric_timestamp_millis :: "telemetry_record \<Rightarrow> int" where
  "metric_timestamp_millis r =
     millis_of (or_default (unat (timestamp_unix_nanos r))
       (Option.bind (find_attribute r ''otel.metric.time_unix_nano'') (\<lambda>v. res_ok (parse_uint (2 ^ 128 - 1) v))))"

definition metric_value_to_f64 :: "'f proto_api \<Rightarrow> 'f number_value \<Rightarrow> 'f option" where
  "metric_value_to_f64 api v =
     (case v of AsDouble d \<Rightarrow> if is_finite api d then Some d else None | AsInt i \<Rightarrow> Some (f64_of_int api i))"

fun exporter_value_text :: "'f proto_api \<Rightarrow> 'f any_value \<Rightarrow> string" where
  "exporter_value_text api AnyNone = []"
| "exporter_value_text api (StringValue s) = s"
| "exporter_value_text api (BoolValue b) = show_bool b"
| "exporter_value_text api (IntValue i) = show_int i"
| "exporter_value_text api (DoubleValue d) = show_f64 api d"
| "exporter_value_text api (BytesValue bs) = hex_encode bs"
| "exporter_value_text api (ArrayValue vs) = join '','' (map (exporter_value_text api) vs)"
| "exporter_value_text api (KvlistValue kvs) =
     join '','' (map (\<lambda>(k, v). k @ ''='' @ (case v of None \<Rightarrow> [] | Some a \<Rightarrow> exporter_value_text api a))
       (filter (\<lambda>(k, v). \<not> blank k) kvs))"
| "exporter_value_text api (StringValueStrindex i) = show_int i"

definition prometheus_exemplar :: "'f proto_api \<Rightarrow> 'f otlp_exemplar \<Rightarrow> 'f prom_exemplar option" where
  "prometheus_exemplar api ex =
     Option.bind (ex_value ex) (\<lambda>v.
     Option.bind (metric_value_to_f64 api v) (\<lambda>v.
     Some \<lparr>pe_labels =
             (if ex_trace_id ex = [] then [] else [\<lparr>pl_name = ''trace_id'', pl_value = hex_encode (ex_trace_id ex)\<rparr>]) @
             (if ex_span_id ex = [] then [] else [\<lparr>pl_name = ''span_id'', pl_value = hex_encode (ex_span_id ex)\<rparr>]) @
             List.map_filter (\<lambda>(k, v).
               map_option (\<lambda>a. \<lparr>pl_name = sanitize_prometheus_label_name k, pl_value = exporter_value_text api a\<rparr>) v)
               (ex_filtered_attributes ex),
           pe_value = v, pe_timestamp = millis_of (ex_time_unix_nano ex)\<rparr>))"

definition prometheus_exemplars :: "'f proto_api \<Rightarrow> telemetry_record \<Rightarrow> 'f prom_exemplar list" where
  "prometheus_exemplars api r = List.map_filter (prometheus_exemplar api) (record_to_exemplars api r)"

definition prometheus_timeseries ::
  "telemetry_record \<Rightarrow> string \<Rightarrow> (string \<times> string) list \<Rightarrow> 'f \<Rightarrow> int \<Rightarrow> 'f prom_exemplar list \<Rightarrow> 'f prom_time_series" where
  "prometheus_timeseries r name extra_labels v timestamp exemplars =
     \<lparr>ts_labels = (if extra_labels = [] then prometheus_labels r name else prometheus_labels_with_extra r name extra_labels),
      ts_samples = [\<lparr>ps_value = v, ps_timestamp = timestamp\<rparr>], ts_exemplars = exemplars\<rparr>"

section \<open>Series\<close>

definition record_to_prometheus_scalar_timeseries :: "'f proto_api \<Rightarrow> telemetry_record \<Rightarrow> string \<Rightarrow> 'f prom_time_series option" where
  "record_to_prometheus_scalar_timeseries api r name =
     Option.bind (metric_value api r) (\<lambda>v.
     Option.bind (metric_value_to_f64 api v) (\<lambda>v.
     Some (prometheus_timeseries r name [] v (metric_timestamp_millis r) (prometheus_exemplars api r))))"

text \<open>The count and the sum, which histograms and summaries have.\<close>

definition count_series :: "'f proto_api \<Rightarrow> telemetry_record \<Rightarrow> string \<Rightarrow> 'f prom_time_series list" where
  "count_series api r name =
     (case parse_u64_attribute r ''otel.metric.count'' of
        None \<Rightarrow> []
      | Some n \<Rightarrow> [prometheus_timeseries r (name @ ''_count'') [] (f64_of_int api (int n)) (metric_timestamp_millis r) []])"

definition sum_series :: "'f proto_api \<Rightarrow> telemetry_record \<Rightarrow> string \<Rightarrow> 'f prom_exemplar list \<Rightarrow> 'f prom_time_series list" where
  "sum_series api r name exemplars =
     (case parse_f64_attribute api r ''otel.metric.sum'' of
        None \<Rightarrow> []
      | Some s \<Rightarrow> [prometheus_timeseries r (name @ ''_sum'') [] s (metric_timestamp_millis r) exemplars])"

text \<open>The loop over buckets: the counts are added up, and the sum saturates.\<close>

fun bucket_series :: "'f proto_api \<Rightarrow> telemetry_record \<Rightarrow> string \<Rightarrow> u64 \<Rightarrow> (string \<times> u64) list \<Rightarrow> 'f prom_time_series list \<times> u64" where
  "bucket_series api r name acc [] = ([], acc)"
| "bucket_series api r name acc ((le, n) # bs) =
     (let acc = saturating_add_u64 acc n; (rest, total) = bucket_series api r name acc bs in
      (prometheus_timeseries r (name @ ''_bucket'') [(''le'', le)] (f64_of_int api (int acc)) (metric_timestamp_millis r) [] # rest, total))"

definition bound_text :: "'f proto_api \<Rightarrow> 'f list \<Rightarrow> nat \<Rightarrow> string" where
  "bound_text api bounds index = (if index < length bounds then show_f64 api (bounds ! index) else ''+Inf'')"

definition record_to_prometheus_histogram_timeseries :: "'f proto_api \<Rightarrow> telemetry_record \<Rightarrow> string \<Rightarrow> 'f prom_time_series list" where
  "record_to_prometheus_histogram_timeseries api r name =
     (let bucket_counts = parse_u64_list_attribute r ''otel.metric.bucket_counts'';
          explicit_bounds = parse_f64_list_attribute api r ''otel.metric.explicit_bounds'' in
      count_series api r name @ sum_series api r name (prometheus_exemplars api r) @
      fst (bucket_series api r name 0 (map (\<lambda>(index, n). (bound_text api explicit_bounds index, n)) (List.enumerate 0 bucket_counts))))"

text \<open>Arithmetic on \<^verbatim>\<open>i32\<close>: negation wraps, as in a release build, sums saturate, and \<^verbatim>\<open>as i32\<close> keeps the low bits.\<close>

definition neg_i32 :: "int \<Rightarrow> int" where
  "neg_i32 n = (if n = - int i32_max - 1 then n else - n)"

definition saturating_i32 :: "int \<Rightarrow> int" where
  "saturating_i32 n = max (- int i32_max - 1) (min (int i32_max) n)"

definition as_i32 :: "nat \<Rightarrow> int" where
  "as_i32 n = (let m = int n mod 2 ^ 32 in if m < 2 ^ 31 then m else m - 2 ^ 32)"

text \<open>\<^verbatim>\<open>sort_by\<close> is stable.\<close>

fun insert_by :: "('a \<Rightarrow> 'a \<Rightarrow> bool) \<Rightarrow> 'a \<Rightarrow> 'a list \<Rightarrow> 'a list" where
  "insert_by le x [] = [x]"
| "insert_by le x (y # ys) = (if le x y then x # y # ys else y # insert_by le x ys)"

definition sort_by :: "('a \<Rightarrow> 'a \<Rightarrow> bool) \<Rightarrow> 'a list \<Rightarrow> 'a list" where
  "sort_by le xs = foldr (insert_by le) xs []"

definition exponential_histogram_prometheus_buckets :: "'f proto_api \<Rightarrow> telemetry_record \<Rightarrow> (string \<times> u64) list" where
  "exponential_histogram_prometheus_buckets api r =
     (let scale = or_default 0 (parse_i32_attribute r ''otel.metric.scale'');
          two = f64_of_int api 2;
          base = f64_powf api two (f64_powi api two (neg_i32 scale));
          finite_buckets = (\<lambda>bound counts. filter (\<lambda>(upper_bound, n). is_finite api upper_bound)
            (map (\<lambda>(index, n). (bound index, n)) (List.enumerate 0 counts)));
          negative_offset = or_default 0 (parse_i32_attribute r ''otel.metric.negative_offset'');
          negative = finite_buckets (\<lambda>index. f64_neg api (f64_powi api base (saturating_i32 (negative_offset + as_i32 index))))
            (parse_u64_list_attribute r ''otel.metric.negative_bucket_counts'');
          zero = (case parse_u64_attribute r ''otel.metric.zero_count'' of
              None \<Rightarrow> []
            | Some n \<Rightarrow> if n > 0 then [(or_default (f64_default api) (parse_f64_attribute api r ''otel.metric.zero_threshold''), n)] else []);
          positive_offset = or_default 0 (parse_i32_attribute r ''otel.metric.positive_offset'');
          positive = finite_buckets (\<lambda>index. f64_powi api base (saturating_i32 (saturating_i32 (positive_offset + as_i32 index) + 1)))
            (parse_u64_list_attribute r ''otel.metric.positive_bucket_counts'') in
      map (\<lambda>(upper_bound, n). (show_f64 api upper_bound, n))
        (sort_by (\<lambda>a b. f64_total_le api (fst a) (fst b)) (negative @ zero @ positive)))"

definition record_to_prometheus_exponential_histogram_timeseries ::
  "'f proto_api \<Rightarrow> telemetry_record \<Rightarrow> string \<Rightarrow> 'f prom_time_series list" where
  "record_to_prometheus_exponential_histogram_timeseries api r name =
     (let (series, cumulative_count) = bucket_series api r name 0 (exponential_histogram_prometheus_buckets api r) in
      count_series api r name @ sum_series api r name (prometheus_exemplars api r) @ series @
      (case parse_u64_attribute r ''otel.metric.count'' of
         None \<Rightarrow> []
       | Some n \<Rightarrow>
           [prometheus_timeseries r (name @ ''_bucket'') [(''le'', ''+Inf'')] (f64_of_int api (int (max n cumulative_count)))
              (metric_timestamp_millis r) []]))"

definition record_to_prometheus_summary_timeseries :: "'f proto_api \<Rightarrow> telemetry_record \<Rightarrow> string \<Rightarrow> 'f prom_time_series list" where
  "record_to_prometheus_summary_timeseries api r name =
     count_series api r name @ sum_series api r name [] @
     map (\<lambda>(qu, v). prometheus_timeseries r name [(''quantile'', show_f64 api qu)] v (metric_timestamp_millis r) [])
       (parse_quantile_values_attribute api r ''otel.metric.quantile_values'')"

definition record_to_prometheus_timeseries :: "'f proto_api \<Rightarrow> telemetry_record \<Rightarrow> 'f prom_time_series list" where
  "record_to_prometheus_timeseries api r =
     (case map_option sanitize_prometheus_metric_name (metric_name r) of
        None \<Rightarrow> []
      | Some name \<Rightarrow>
          let data_type = find_attribute r ''otel.metric.data_type'' in
          if data_type = Some ''histogram'' then record_to_prometheus_histogram_timeseries api r name
          else if data_type = Some ''exponential_histogram'' then record_to_prometheus_exponential_histogram_timeseries api r name
          else if data_type = Some ''summary'' then record_to_prometheus_summary_timeseries api r name
          else (case record_to_prometheus_scalar_timeseries api r name of None \<Rightarrow> [] | Some s \<Rightarrow> [s]))"

definition batch_to_prometheus_remote_write_request :: "'f proto_api \<Rightarrow> telemetry_record list \<Rightarrow> 'f prom_write_request" where
  "batch_to_prometheus_remote_write_request api batch =
     concat (map (record_to_prometheus_timeseries api) (filter (\<lambda>r. signal r = Metric) batch))"


section \<open>The rules of remote write\<close>

text \<open>A metric name (with colons) or a label name (without).\<close>

definition prom_name :: "bool \<Rightarrow> string \<Rightarrow> bool" where
  "prom_name allow_colon s \<longleftrightarrow>
     s \<noteq> [] \<and> \<not> ascii_digit (hd s) \<and> list_all (\<lambda>c. c = CHR ''_'' \<or> (allow_colon \<and> c = CHR '':'') \<or> ascii_alphanumeric c) s"

lemma not_digit [simp]: "\<not> ascii_digit CHR ''_''" "\<not> ascii_digit CHR '':''"
  by (simp_all add: ascii_digit_def less_eq_char_def)

lemma sanitize_first: "\<exists>c cs. sanitize_character allow (0, x) = c # cs \<and> \<not> ascii_digit c"
  by (auto simp: sanitize_character_def Let_def)

lemma sanitize_chars:
  "list_all (\<lambda>c. c = CHR ''_'' \<or> (allow \<and> c = CHR '':'') \<or> ascii_alphanumeric c) (sanitize_character allow ix)"
  by (auto simp: sanitize_character_def Let_def split: prod.split)

lemma sanitized_name: "prom_name allow (sanitize_prometheus_identifier v allow)"
proof (cases "char_leads v")
  case Nil
  then show ?thesis by (simp add: sanitize_prometheus_identifier_def prom_name_def)
next
  case (Cons x xs)
  obtain c cs where first: "sanitize_character allow (0, x) = c # cs" "\<not> ascii_digit c" using sanitize_first by blast
  have "list_all (\<lambda>c. c = CHR ''_'' \<or> (allow \<and> c = CHR '':'') \<or> ascii_alphanumeric c)
    (concat (map (sanitize_character allow) (List.enumerate 0 (char_leads v))))"
    using sanitize_chars [of allow] by (auto simp: list_all_iff)
  with Cons first show ?thesis by (simp add: sanitize_prometheus_identifier_def prom_name_def)
qed

lemma prom_name_suffix: "prom_name allow s \<Longrightarrow> list_all (\<lambda>c. c = CHR ''_'' \<or> ascii_alphanumeric c) x \<Longrightarrow> prom_name allow (s @ x)"
  by (auto simp: prom_name_def list_all_iff)

definition ordered_map :: "(string \<times> string) list \<Rightarrow> bool" where
  "ordered_map m \<longleftrightarrow> sorted_wrt (<) (map fst m)"

lemma btree_insert_keys: "set (map fst (btree_insert k v m)) = insert k (set (map fst m))"
  by (induction k v m rule: btree_insert.induct) auto

lemma btree_insert_lookup: "map_of (btree_insert k v m) k' = (if k' = k then Some v else map_of m k')"
  by (induction k v m rule: btree_insert.induct) auto

lemma btree_insert_ordered: "ordered_map m \<Longrightarrow> ordered_map (btree_insert k v m)"
proof (induction k v m rule: btree_insert.induct)
  case (2 k v k' v' m)
  then have "\<forall>x\<in>set (map fst m). k' < x" "ordered_map m" by (auto simp: ordered_map_def)
  with 2 show ?case
    using btree_insert_keys [of k v m] by (auto simp: ordered_map_def intro: less_trans)
qed (simp add: ordered_map_def)

definition label_map :: "string \<Rightarrow> string \<Rightarrow> (string \<times> string) list \<Rightarrow> bool" where
  "label_map name tenant m \<longleftrightarrow>
     ordered_map m \<and> (\<forall>k \<in> set (map fst m). prom_name False k) \<and> map_of m ''__name__'' = Some name \<and> map_of m ''tenant_id'' = Some tenant"

lemma label_map_insert:
  "label_map name tenant m \<Longrightarrow> prom_name False k \<Longrightarrow> k \<noteq> ''__name__'' \<Longrightarrow> k \<noteq> ''tenant_id'' \<Longrightarrow> label_map name tenant (btree_insert k v m)"
  unfolding label_map_def btree_insert_keys by (auto simp: btree_insert_ordered btree_insert_lookup)

lemma label_map_step: "label_map name tenant m \<Longrightarrow> label_map name tenant (label_step a m)"
  using sanitized_name [of False "attr_key a"]
  by (auto simp: label_step_def Let_def btree_or_insert_def sanitize_prometheus_label_name_def label_map_def [of _ _ m]
      intro!: label_map_insert)

lemma label_map_fold: "label_map name tenant m \<Longrightarrow> label_map name tenant (fold label_step as m)"
  by (induction as arbitrary: m) (auto simp: label_map_step)

lemma label_map_start: "label_map name tenant (btree_insert ''tenant_id'' tenant (btree_insert ''__name__'' name []))"
proof -
  have "''__name__'' < ''tenant_id''" "prom_name False ''__name__''" "prom_name False ''tenant_id''" by code_simp+
  then show ?thesis by (auto simp: label_map_def ordered_map_def)
qed

text \<open>
  A time series as remote write asks for it: labels sorted by name and with no name twice, label names and the
  metric name from their alphabets, the tenant of the record, and one sample.
\<close>

definition label_pairs :: "'f prom_time_series \<Rightarrow> (string \<times> string) list" where
  "label_pairs ts = map (\<lambda>l. (pl_name l, pl_value l)) (ts_labels ts)"

definition series_valid :: "string \<Rightarrow> 'f prom_time_series \<Rightarrow> bool" where
  "series_valid tenant ts \<longleftrightarrow>
     sorted_wrt (<) (map pl_name (ts_labels ts)) \<and> list_all (\<lambda>l. prom_name False (pl_name l)) (ts_labels ts) \<and>
     (case map_of (label_pairs ts) ''__name__'' of None \<Rightarrow> False | Some n \<Rightarrow> prom_name True n) \<and>
     map_of (label_pairs ts) ''tenant_id'' = Some tenant \<and> length (ts_samples ts) = 1"

lemma series_of_map:
  assumes labels: "ts_labels ts = map (\<lambda>(k, v). \<lparr>pl_name = k, pl_value = v\<rparr>) m"
    and m: "label_map name tenant m" and name: "prom_name True name" and "length (ts_samples ts) = 1"
  shows "series_valid tenant ts"
proof -
  have "map pl_name (ts_labels ts) = map fst m" "label_pairs ts = m"
    by (simp_all add: labels label_pairs_def case_prod_unfold comp_def)
  moreover have "list_all (\<lambda>l. prom_name False (pl_name l)) (ts_labels ts)"
    using m by (auto simp: labels label_map_def list_all_iff)
  ultimately show ?thesis using assms(2-) by (simp add: series_valid_def label_map_def ordered_map_def)
qed

lemma series_of_label_map:
  assumes "label_map name (tenant_id r) (fold (\<lambda>(k, v). btree_insert k v) extra
      (fold label_step (attributes r) (btree_insert ''tenant_id'' (tenant_id r) (btree_insert ''__name__'' name []))))"
    and "prom_name True name"
  shows "series_valid (tenant_id r) (prometheus_timeseries r name extra v t exs)"
  by (rule series_of_map [OF _ assms])
    (simp_all add: prometheus_timeseries_def prometheus_labels_def prometheus_labels_with_extra_def Let_def del: btree_insert.simps)

lemma series_valid_plain: "prom_name True name \<Longrightarrow> series_valid (tenant_id r) (prometheus_timeseries r name [] v t exs)"
  by (rule series_of_label_map) (simp_all add: label_map_fold label_map_start del: btree_insert.simps)

lemma series_valid_extra:
  "prom_name True name \<Longrightarrow> k = ''le'' \<or> k = ''quantile'' \<Longrightarrow> series_valid (tenant_id r) (prometheus_timeseries r name [(k, x)] v t exs)"
proof -
  assume k: "k = ''le'' \<or> k = ''quantile''" and name: "prom_name True name"
  have "prom_name False ''le''" "prom_name False ''quantile''" by code_simp+
  with k have "prom_name False k" "k \<noteq> ''__name__''" "k \<noteq> ''tenant_id''" by auto
  then show ?thesis using name by (intro series_of_label_map) (simp_all add: label_map_insert label_map_fold label_map_start del: btree_insert.simps)
qed

lemma suffixed_names:
  "prom_name True n \<Longrightarrow> prom_name True (n @ ''_count'')" "prom_name True n \<Longrightarrow> prom_name True (n @ ''_sum'')"
  "prom_name True n \<Longrightarrow> prom_name True (n @ ''_bucket'')"
proof -
  have "list_all (\<lambda>c. c = CHR ''_'' \<or> ascii_alphanumeric c) ''_count''" "list_all (\<lambda>c. c = CHR ''_'' \<or> ascii_alphanumeric c) ''_sum''"
    "list_all (\<lambda>c. c = CHR ''_'' \<or> ascii_alphanumeric c) ''_bucket''" by code_simp+
  then show "prom_name True n \<Longrightarrow> prom_name True (n @ ''_count'')" "prom_name True n \<Longrightarrow> prom_name True (n @ ''_sum'')"
    "prom_name True n \<Longrightarrow> prom_name True (n @ ''_bucket'')" by (simp_all only: prom_name_suffix)
qed

lemma count_sum_valid:
  "prom_name True name \<Longrightarrow> list_all (series_valid (tenant_id r)) (count_series api r name)"
  "prom_name True name \<Longrightarrow> list_all (series_valid (tenant_id r)) (sum_series api r name exs)"
  by (auto simp: count_series_def sum_series_def series_valid_plain suffixed_names split: option.split)

lemma bucket_series_valid: "prom_name True name \<Longrightarrow> list_all (series_valid (tenant_id r)) (fst (bucket_series api r name acc bs))"
  by (induction bs arbitrary: acc) (auto simp: Let_def case_prod_unfold series_valid_extra suffixed_names)

text \<open>
  Property C26 (remote_write_valid). Whatever a metric record holds, every time series made from it obeys the rules of
  remote write: labels strictly sorted by name, label names and the metric name from the allowed characters
  and not starting with a digit, the record's tenant as \<^verbatim>\<open>tenant_id\<close> (no attribute can replace it), and exactly one sample.
\<close>

theorem remote_write_valid: "list_all (series_valid (tenant_id r)) (record_to_prometheus_timeseries api r)"
proof (cases "metric_name r")
  case None
  then show ?thesis by (simp add: record_to_prometheus_timeseries_def)
next
  case (Some n)
  let ?name = "sanitize_prometheus_metric_name n"
  have name: "prom_name True ?name" by (simp add: sanitize_prometheus_metric_name_def sanitized_name)
  note valid = count_sum_valid [OF name] bucket_series_valid [OF name] series_valid_extra [OF name] series_valid_extra [OF suffixed_names(3) [OF name]]
  have "list_all (series_valid (tenant_id r)) (record_to_prometheus_histogram_timeseries api r ?name)"
    by (simp add: record_to_prometheus_histogram_timeseries_def Let_def valid)
  moreover have "list_all (series_valid (tenant_id r)) (record_to_prometheus_exponential_histogram_timeseries api r ?name)"
    by (simp add: record_to_prometheus_exponential_histogram_timeseries_def Let_def case_prod_unfold valid split: option.split)
  moreover have "list_all (series_valid (tenant_id r)) (record_to_prometheus_summary_timeseries api r ?name)"
    by (simp add: record_to_prometheus_summary_timeseries_def valid list.pred_map comp_def case_prod_unfold list.pred_True)
  moreover have "pred_option (series_valid (tenant_id r)) (record_to_prometheus_scalar_timeseries api r ?name)"
    by (auto simp: record_to_prometheus_scalar_timeseries_def series_valid_plain name split: bind_splits)
  ultimately show ?thesis by (auto simp: record_to_prometheus_timeseries_def Some Let_def split: option.splits)
qed

lemma bucket_series_sums:
  "map ts_samples (fst (bucket_series api r name 0 bs)) =
     map (\<lambda>i. [\<lparr>ps_value = f64_of_int api (int (min u64_max (sum_list (map snd (take (Suc i) bs))))), ps_timestamp = metric_timestamp_millis r\<rparr>])
       [0..<length bs]"
  "sorted (map (\<lambda>i. min u64_max (sum_list (map snd (take (Suc i) bs)))) [0..<length bs])"
  "snd (bucket_series api r name 0 bs) = min u64_max (sum_list (map snd bs))"
proof -
  have sat: "saturating_add_u64 a b = min u64_max (a + b)" for a b by (simp add: saturating_add_u64_def)
  have general: "map ts_samples (fst (bucket_series api r name acc bs)) =
     map (\<lambda>i. [\<lparr>ps_value = f64_of_int api (int (min u64_max (acc + sum_list (map snd (take (Suc i) bs))))), ps_timestamp = metric_timestamp_millis r\<rparr>])
       [0..<length bs] \<and> snd (bucket_series api r name acc bs) = min u64_max (acc + sum_list (map snd bs))" if "acc \<le> u64_max" for acc
    using that
  proof (induction bs arbitrary: acc)
    case Nil
    then show ?case by simp
  next
    case (Cons b bs)
    obtain le n where b: "b = (le, n)" by (cases b)
    have "min u64_max (min u64_max (acc + n) + k) = min u64_max (acc + (n + k))" for k by simp
    with Cons.IH [of "min u64_max (acc + n)"] show ?case
      by (simp add: b Let_def case_prod_unfold sat prometheus_timeseries_def map_upt_Suc del: upt_Suc)
  qed
  from general [of 0] show "map ts_samples (fst (bucket_series api r name 0 bs)) =
     map (\<lambda>i. [\<lparr>ps_value = f64_of_int api (int (min u64_max (sum_list (map snd (take (Suc i) bs))))), ps_timestamp = metric_timestamp_millis r\<rparr>])
       [0..<length bs]" and "snd (bucket_series api r name 0 bs) = min u64_max (sum_list (map snd bs))" by simp_all
  have "sum_list (map snd (take i bs)) \<le> sum_list (map snd (take j bs))" if "i \<le> j" for i j
  proof -
    have "take j bs = take i bs @ take (j - i) (drop i bs)" using that by (metis le_add_diff_inverse take_add)
    then show ?thesis by simp
  qed
  then show "sorted (map (\<lambda>i. min u64_max (sum_list (map snd (take (Suc i) bs)))) [0..<length bs])"
    by (auto simp: sorted_iff_nth_mono min_def intro: order_trans)
qed

text \<open>
  The buckets of a histogram are cumulative: the series for the bucket number \<open>i\<close> has the
  sum of the first \<open>i + 1\<close> counts as its value (at most the largest \<^verbatim>\<open>u64\<close>), and the values never decrease.
\<close>

theorem buckets_cumulative:
  "map ts_samples (fst (bucket_series api r name 0 bs)) =
     map (\<lambda>i. [\<lparr>ps_value = f64_of_int api (int (min u64_max (sum_list (map snd (take (Suc i) bs))))), ps_timestamp = metric_timestamp_millis r\<rparr>])
       [0..<length bs] \<and>
   sorted (map (\<lambda>i. min u64_max (sum_list (map snd (take (Suc i) bs)))) [0..<length bs]) \<and>
   snd (bucket_series api r name 0 bs) = min u64_max (sum_list (map snd bs))"
  by (intro conjI bucket_series_sums)

end
