(* ===== verification/Exporter_Send.thy ===== *)
theory Exporter_Send
  imports Exporter_Prometheus
begin

text \<open>
  The exporters themselves (\<^verbatim>\<open>crates/telemetry-exporters/src/lib.rs\<close>): how they are built from the configuration and what
  \<^verbatim>\<open>export\<close> does with a batch. The codecs of \<^verbatim>\<open>prost\<close> and \<^verbatim>\<open>serde_json\<close> are the fields of \<open>codecs\<close>; the network
  and the gRPC client are arguments.
\<close>

record 'f codecs =
  trace_protobuf :: "'f trace_request \<Rightarrow> u8 list"
  metrics_protobuf :: "'f metrics_request \<Rightarrow> u8 list"
  logs_protobuf :: "'f logs_request \<Rightarrow> u8 list"
  write_protobuf :: "'f prom_write_request \<Rightarrow> u8 list"
  trace_json :: "'f trace_request \<Rightarrow> string + u8 list"
  metrics_json :: "'f metrics_request \<Rightarrow> string + u8 list"
  logs_json :: "'f logs_request \<Rightarrow> string + u8 list"

definition default_export_report :: export_report where
  "default_export_report = \<lparr>report_records = 0, report_bytes = 0\<rparr>"

section \<open>Prometheus remote write\<close>

record remote_write_exporter =
  rw_endpoint :: export_endpoint
  rw_tls :: tls_config

definition remote_write_new :: "string \<Rightarrow> tls_config \<Rightarrow> exporter_error + remote_write_exporter" where
  "remote_write_new endpoint tls =
     res_bind (parse_http_endpoint_with_default_port endpoint 9090) (\<lambda>e. Inr \<lparr>rw_endpoint = e, rw_tls = tls\<rparr>)"

definition remote_write_export ::
  "'f proto_api \<Rightarrow> 'f codecs \<Rightarrow> export_network \<Rightarrow> remote_write_exporter \<Rightarrow> telemetry_record list \<Rightarrow> exporter_error + export_report" where
  "remote_write_export api co net x batch =
     (let request = batch_to_prometheus_remote_write_request api batch in
      if request = [] then Inr default_export_report
      else
        res_bind (post_body net (rw_endpoint x) (path_or (rw_endpoint x) ''/api/v1/write'') ''application/x-protobuf''
          (snappy_compress_literal (write_protobuf co request)) (rw_tls x)
          [(''Content-Encoding'', ''snappy''), (''X-Prometheus-Remote-Write-Version'', ''0.1.0''), (''User-Agent'', ''telemetry-fabric/0.1.0'')])
        (\<lambda>_. Inr \<lparr>report_records = length request, report_bytes = 0\<rparr>))"

section \<open>OTLP over HTTP\<close>

datatype otlp_http_encoding = Protobuf | Json

record otlp_http_exporter =
  oh_endpoint :: export_endpoint
  oh_encoding :: otlp_http_encoding
  oh_tls :: tls_config

definition otlp_http_new :: "otlp_http_encoding \<Rightarrow> string \<Rightarrow> tls_config \<Rightarrow> exporter_error + otlp_http_exporter" where
  "otlp_http_new encoding endpoint tls =
     res_bind (exporter_http_endpoint endpoint) (\<lambda>e. Inr \<lparr>oh_endpoint = e, oh_encoding = encoding, oh_tls = tls\<rparr>)"

definition post_otlp_http ::
  "export_network \<Rightarrow> otlp_http_exporter \<Rightarrow> string \<Rightarrow> u8 list \<Rightarrow> string + u8 list \<Rightarrow> exporter_error + unit" where
  "post_otlp_http net x signal_path protobuf json =
     (case oh_encoding x of
        Protobuf \<Rightarrow> post_body net (oh_endpoint x) (endpoint_path (oh_endpoint x) signal_path) ''application/x-protobuf'' protobuf (oh_tls x) []
      | Json \<Rightarrow>
          res_bind (map_err Grpc json) (\<lambda>bs.
          post_body net (oh_endpoint x) (endpoint_path (oh_endpoint x) signal_path) ''application/json'' bs (oh_tls x) []))"

text \<open>Both OTLP exporters send the three requests in turn, those that have something, and stop at the first error.\<close>

definition otlp_http_export ::
  "'f proto_api \<Rightarrow> 'f codecs \<Rightarrow> export_network \<Rightarrow> otlp_http_exporter \<Rightarrow> telemetry_record list \<Rightarrow> exporter_error + export_report" where
  "otlp_http_export api co net x batch =
     (let trace_request = batch_to_trace_request batch; span_count = count_spans trace_request;
          metrics_request = batch_to_metrics_request api batch; data_point_count = count_metric_data_points metrics_request;
          logs_request = batch_to_logs_request api batch; log_record_count = count_log_records logs_request in
      if span_count = 0 \<and> data_point_count = 0 \<and> log_record_count = 0 then Inr default_export_report
      else
        res_bind (if span_count > 0 then post_otlp_http net x ''/v1/traces'' (trace_protobuf co trace_request) (trace_json co trace_request) else Inr ()) (\<lambda>_.
        res_bind (if data_point_count > 0 then post_otlp_http net x ''/v1/metrics'' (metrics_protobuf co metrics_request) (metrics_json co metrics_request) else Inr ()) (\<lambda>_.
        res_bind (if log_record_count > 0 then post_otlp_http net x ''/v1/logs'' (logs_protobuf co logs_request) (logs_json co logs_request) else Inr ()) (\<lambda>_.
        Inr \<lparr>report_records = span_count + data_point_count + log_record_count, report_bytes = 0\<rparr>))))"

section \<open>OTLP over gRPC\<close>

text \<open>A client of type \<open>'c\<close> is connected when it is first needed and dropped when a call fails.\<close>

record 'c otlp_grpc_exporter =
  gx_endpoint :: string
  trace_client :: "'c option"
  metrics_client :: "'c option"
  logs_client :: "'c option"

record ('f, 'c) grpc_stubs =
  connect_client :: "string \<Rightarrow> string + 'c"
  call_traces :: "'c \<Rightarrow> 'f trace_request \<Rightarrow> string + unit"
  call_metrics :: "'c \<Rightarrow> 'f metrics_request \<Rightarrow> string + unit"
  call_logs :: "'c \<Rightarrow> 'f logs_request \<Rightarrow> string + unit"

type_synonym ('c, 'a) grpc_act = "('c otlp_grpc_exporter, exporter_error, 'a) act"

definition otlp_grpc_new :: "string \<Rightarrow> exporter_error + 'c otlp_grpc_exporter" where
  "otlp_grpc_new endpoint =
     res_bind (normalize_grpc_endpoint endpoint) (\<lambda>e.
     Inr \<lparr>gx_endpoint = e, trace_client = None, metrics_client = None, logs_client = None\<rparr>)"

text \<open>The three methods differ in the client's slot only. \<open>name\<close> is for the error that cannot happen.\<close>

definition grpc_call ::
  "string \<Rightarrow> (string \<Rightarrow> string + 'c) \<Rightarrow> ('c \<Rightarrow> string + unit) \<Rightarrow> ('c otlp_grpc_exporter \<Rightarrow> 'c option) \<Rightarrow>
   ('c option \<Rightarrow> 'c otlp_grpc_exporter \<Rightarrow> 'c otlp_grpc_exporter) \<Rightarrow> ('c, unit) grpc_act" where
  "grpc_call name connect call slot set_slot =
     seq_act
       (\<lambda>x. if slot x = None then
              (case connect (gx_endpoint x) of
                 Inl e \<Rightarrow> (Inl (Grpc e), x)
               | Inr c \<Rightarrow> (Inr (), set_slot (Some c) x))
            else (Inr (), x))
       (\<lambda>x. case slot x of
              None \<Rightarrow> (Inl (Grpc (''OTLP gRPC '' @ name @ '' client was not initialized'')), x)
            | Some c \<Rightarrow>
                (case call c of
                   Inr _ \<Rightarrow> (Inr (), x)
                 | Inl status \<Rightarrow> (Inl (Grpc status), set_slot None x)))"

definition export_traces :: "('f, 'c) grpc_stubs \<Rightarrow> 'f trace_request \<Rightarrow> ('c, unit) grpc_act" where
  "export_traces st req =
     grpc_call ''trace'' (connect_client st) (\<lambda>c. call_traces st c req) trace_client (\<lambda>v x. x\<lparr>trace_client := v\<rparr>)"

definition export_metrics :: "('f, 'c) grpc_stubs \<Rightarrow> 'f metrics_request \<Rightarrow> ('c, unit) grpc_act" where
  "export_metrics st req =
     grpc_call ''metrics'' (connect_client st) (\<lambda>c. call_metrics st c req) metrics_client (\<lambda>v x. x\<lparr>metrics_client := v\<rparr>)"

definition export_logs :: "('f, 'c) grpc_stubs \<Rightarrow> 'f logs_request \<Rightarrow> ('c, unit) grpc_act" where
  "export_logs st req =
     grpc_call ''logs'' (connect_client st) (\<lambda>c. call_logs st c req) logs_client (\<lambda>v x. x\<lparr>logs_client := v\<rparr>)"

definition otlp_grpc_export :: "'f proto_api \<Rightarrow> ('f, 'c) grpc_stubs \<Rightarrow> telemetry_record list \<Rightarrow> ('c, export_report) grpc_act" where
  "otlp_grpc_export api st batch =
     (let trace_request = batch_to_trace_request batch; span_count = count_spans trace_request;
          metrics_request = batch_to_metrics_request api batch; data_point_count = count_metric_data_points metrics_request;
          logs_request = batch_to_logs_request api batch; log_record_count = count_log_records logs_request in
      if span_count = 0 \<and> data_point_count = 0 \<and> log_record_count = 0 then ok_act default_export_report
      else
        seq_act (when_act (span_count > 0) (export_traces st trace_request))
        (seq_act (when_act (data_point_count > 0) (export_metrics st metrics_request))
        (seq_act (when_act (log_record_count > 0) (export_logs st logs_request))
        (ok_act \<lparr>report_records = span_count + data_point_count + log_record_count, report_bytes = 0\<rparr>))))"

section \<open>Building the exporters\<close>

text \<open>
  What \<^verbatim>\<open>Box<dyn Exporter>\<close> may hold. The stdout exporter and the file exporter own a writer, of type \<open>'w\<close>; opening a file
  for appending is an argument.
\<close>

datatype ('w, 'c) exporter =
  StdoutExporter 'w
| FileExporter 'w
| GrpcExporter "'c otlp_grpc_exporter"
| HttpExporter otlp_http_exporter
| RemoteWriteExporter remote_write_exporter

definition stdout_new :: "'w \<Rightarrow> ('w, 'c) exporter" where
  "stdout_new stdout = StdoutExporter stdout"

definition file_open :: "(string \<Rightarrow> io_error + 'w) \<Rightarrow> string \<Rightarrow> exporter_error + ('w, 'c) exporter" where
  "file_open open_append path = res_bind (map_err ExpIo (open_append path)) (\<lambda>w. Inr (FileExporter w))"

definition build_exporter ::
  "(string \<Rightarrow> io_error + 'w) \<Rightarrow> 'w \<Rightarrow> exporter_config \<Rightarrow> exporter_error + ('w, 'c) exporter" where
  "build_exporter open_append stdout config =
     (case exp_protocol config of
        Stdout \<Rightarrow> Inr (stdout_new stdout)
      | File \<Rightarrow> res_bind (endpoint_to_path (exp_endpoint config)) (file_open open_append)
      | OtlpGrpc \<Rightarrow> res_bind (otlp_grpc_new (exp_endpoint config)) (\<lambda>x. Inr (GrpcExporter x))
      | OtlpHttp \<Rightarrow> res_bind (otlp_http_new Protobuf (exp_endpoint config) (exp_tls config)) (\<lambda>x. Inr (HttpExporter x))
      | OtlpHttpJson \<Rightarrow> res_bind (otlp_http_new Json (exp_endpoint config) (exp_tls config)) (\<lambda>x. Inr (HttpExporter x))
      | PrometheusRemoteWrite \<Rightarrow> res_bind (remote_write_new (exp_endpoint config) (exp_tls config)) (\<lambda>x. Inr (RemoteWriteExporter x)))"

fun build_exporters_from ::
  "(string \<Rightarrow> io_error + 'w) \<Rightarrow> 'w \<Rightarrow> (string \<times> ('w, 'c) exporter) list \<Rightarrow> exporter_config list \<Rightarrow>
   exporter_error + (string \<times> ('w, 'c) exporter) list" where
  "build_exporters_from open_append stdout built [] = Inr built"
| "build_exporters_from open_append stdout built (config # configs) =
     res_bind (build_exporter open_append stdout config) (\<lambda>x.
     build_exporters_from open_append stdout (btree_insert (exp_name config) x built) configs)"

definition build_exporters ::
  "(string \<Rightarrow> io_error + 'w) \<Rightarrow> 'w \<Rightarrow> exporter_config list \<Rightarrow> exporter_error + (string \<times> ('w, 'c) exporter) list" where
  "build_exporters open_append stdout configs = build_exporters_from open_append stdout [] configs"

section \<open>The method export\<close>

text \<open>What an exporter finds when it exports: the codecs, the calls on its writer, the network, the gRPC stubs.\<close>

record ('f, 'w, 'c) export_world =
  ew_api :: "'f proto_api"
  ew_codecs :: "'f codecs"
  ew_write :: "'w write_fn"
  ew_flush :: "'w flush_fn"
  ew_net :: export_network
  ew_stubs :: "('f, 'c) grpc_stubs"

text \<open>The file exporter has the loop of the stdout exporter.\<close>

definition file_export :: "('f, 'w, 'c) export_world \<Rightarrow> telemetry_record list \<Rightarrow> ('w, exporter_error, export_report) act" where
  "file_export ew batch = line_export (ew_write ew) (ew_flush ew) batch"

definition dyn_export ::
  "('f, 'w, 'c) export_world \<Rightarrow> telemetry_record list \<Rightarrow> (('w, 'c) exporter, exporter_error, export_report) act" where
  "dyn_export ew batch x =
     (case x of
        StdoutExporter w \<Rightarrow> map_prod id StdoutExporter (line_export (ew_write ew) (ew_flush ew) batch w)
      | FileExporter w \<Rightarrow> map_prod id FileExporter (file_export ew batch w)
      | GrpcExporter g \<Rightarrow> map_prod id GrpcExporter (otlp_grpc_export (ew_api ew) (ew_stubs ew) batch g)
      | HttpExporter h \<Rightarrow> (otlp_http_export (ew_api ew) (ew_codecs ew) (ew_net ew) h batch, x)
      | RemoteWriteExporter r \<Rightarrow> (remote_write_export (ew_api ew) (ew_codecs ew) (ew_net ew) r batch, x))"

section \<open>What is sent and what is reported\<close>

text \<open>The records that become something: every span and log, and the metrics that can be converted.\<close>

definition sendable :: "'f proto_api \<Rightarrow> telemetry_record \<Rightarrow> bool" where
  "sendable api r \<longleftrightarrow> signal r = Trace \<or> signal r = Log \<or> (signal r = Metric \<and> record_to_metric api r \<noteq> None)"

lemma count_spans_batch: "count_spans (batch_to_trace_request batch) = length (filter (\<lambda>r. signal r = Trace) batch)"
  by (auto simp: count_spans_def batch_to_trace_request_def Let_def)

lemma count_logs_batch: "count_log_records (batch_to_logs_request api batch) = length (filter (\<lambda>r. signal r = Log) batch)"
  by (induction batch) (auto simp: count_log_records_def batch_to_logs_request_def record_to_resource_log_def List.map_filter_simps)

lemma one_data_point: "record_to_metric api r = Some m \<Longrightarrow> data_points_of m = 1"
  by (auto simp: record_to_metric_def record_to_metric_data_def Let_def data_points_of_def split: bind_splits if_splits)

lemma count_points_batch:
  "count_metric_data_points (batch_to_metrics_request api batch) =
   length (filter (\<lambda>r. signal r = Metric \<and> record_to_metric api r \<noteq> None) batch)"
proof (induction batch)
  case Nil
  then show ?case by (simp add: count_metric_data_points_def batch_to_metrics_request_def List.map_filter_simps)
next
  case (Cons r batch)
  then show ?case
    by (cases "record_to_metric api r")
      (auto simp: count_metric_data_points_def batch_to_metrics_request_def record_to_resource_metric_def List.map_filter_simps one_data_point)
qed

lemma sendable_count:
  "length (filter (\<lambda>r. signal r = Trace) batch) + length (filter (\<lambda>r. signal r = Metric \<and> record_to_metric api r \<noteq> None) batch) +
   length (filter (\<lambda>r. signal r = Log) batch) = length (filter (sendable api) batch)"
  by (induction batch) (auto simp: sendable_def)

text \<open>
  Property C22 (http_export_exact). The OTLP/HTTP exporter succeeds exactly when each of the requests that have something
  in them is accepted, and then it reports the number of records that became a span, a data point or a log: every
  trace and log record, and every metric record that can be converted. A batch with none of these is not sent.
\<close>

theorem http_export_exact:
  "otlp_http_export api co net x batch = Inr rep \<longleftrightarrow>
     rep = \<lparr>report_records = length (filter (sendable api) batch), report_bytes = 0\<rparr> \<and>
     list_all (\<lambda>(n, posted). n = 0 \<or> posted = Inr ())
       [(length (filter (\<lambda>r. signal r = Trace) batch),
         post_otlp_http net x ''/v1/traces'' (trace_protobuf co (batch_to_trace_request batch)) (trace_json co (batch_to_trace_request batch))),
        (length (filter (\<lambda>r. signal r = Metric \<and> record_to_metric api r \<noteq> None) batch),
         post_otlp_http net x ''/v1/metrics'' (metrics_protobuf co (batch_to_metrics_request api batch)) (metrics_json co (batch_to_metrics_request api batch))),
        (length (filter (\<lambda>r. signal r = Log) batch),
         post_otlp_http net x ''/v1/logs'' (logs_protobuf co (batch_to_logs_request api batch)) (logs_json co (batch_to_logs_request api batch)))]"
  unfolding otlp_http_export_def Let_def count_spans_batch count_logs_batch count_points_batch
  by (auto simp: default_export_report_def res_bind_Inr_iff sendable_count [symmetric] simp del: length_greater_0_conv length_0_conv
      split: if_splits)

text \<open>A gRPC client is kept exactly when the call succeeded; after an error the next call connects again.\<close>

lemma grpc_call_keeps:
  assumes "\<And>v x. slot (set_slot v x) = v" and "\<And>v x. gx_endpoint (set_slot v x) = gx_endpoint x"
  shows "case grpc_call name connect call slot set_slot x of
    (Inr _, x') \<Rightarrow> slot x' \<noteq> None | (Inl _, x') \<Rightarrow> slot x' = None"
  using assms
  by (cases "slot x"; cases "connect (gx_endpoint x)") (auto simp: grpc_call_def seq_act_def bind_act_def split: sum.splits)

end
