(* ===== verification/Agent_Chain.thy ===== *)
theory Agent_Chain
  imports Receiver_Properties Http_Agreement Exporter_Send
begin

text \<open>
  Two agents in a row, the first exporting to the second over OTLP/HTTP: the conversions, the queue and the processors of the first, the exporter, the
  wire, the receiver and the codecs together. The codecs of the OTLP messages are parameters of which only that decoding reverses encoding is used.
\<close>

section \<open>What an exporter sends\<close>

definition content_type_of :: "otlp_http_exporter \<Rightarrow> string" where
  "content_type_of x = (case oh_encoding x of Protobuf \<Rightarrow> ''application/x-protobuf'' | Json \<Rightarrow> ''application/json'')"

definition body_of :: "otlp_http_exporter \<Rightarrow> u8 list \<Rightarrow> string + u8 list \<Rightarrow> string + u8 list" where
  "body_of x protobuf json = (case oh_encoding x of Protobuf \<Rightarrow> Inr protobuf | Json \<Rightarrow> json)"

definition wire_bytes :: "otlp_http_exporter \<Rightarrow> string \<Rightarrow> u8 list \<Rightarrow> u8 list" where
  "wire_bytes x signal_path bs =
     as_bytes (post_headers (oh_endpoint x) (endpoint_path (oh_endpoint x) signal_path) (content_type_of x) [] (length bs)) @ bs"

lemma post_sends_wire_bytes:
  "net (oh_endpoint x) (oh_tls x) = Inr stream \<Longrightarrow>
   post_otlp_http net x signal_path protobuf json =
     res_bind (map_err Grpc (body_of x protobuf json)) (\<lambda>bs.
     res_bind (map_err ExpIo (stream (wire_bytes x signal_path bs))) (\<lambda>response.
     res_bind (parse_http_status response) (\<lambda>status.
     if \<not> (200 \<le> status \<and> status < 300)
     then Inl (Grpc (''OTLP/HTTP export failed with HTTP status '' @ show_nat status)) else Inr ())))"
  by (cases "oh_encoding x") (simp_all add: post_otlp_http_def post_body_def wire_bytes_def content_type_of_def body_of_def)

text \<open>A request arrives in pieces of any size, none of them empty: at a host written in plain characters, under the path of the signal (the endpoint
  has no path of its own, or one that ends in that of the signal and is the same), and within the limit that the receiver has for a whole request.\<close>

definition delivered :: "otlp_http_exporter \<Rightarrow> string \<Rightarrow> u8 list \<Rightarrow> u8 list list \<Rightarrow> bool" where
  "delivered x signal_path bs chunks \<longleftrightarrow>
     endpoint_path (oh_endpoint x) signal_path = signal_path \<and> list_all plain_char (he_host (oh_endpoint x)) \<and>
     list_all (\<lambda>c. c \<noteq> []) chunks \<and> concat chunks = wire_bytes x signal_path bs \<and> length (concat chunks) \<le> MAX_OTLP_HTTP_BODY_BYTES"

lemma wire_tokens: "http_token (content_type_of x)" "http_token ''/v1/traces''"
proof -
  have "http_token ''application/x-protobuf''" "http_token ''application/json''" "http_token ''/v1/traces''" by code_simp+
  then show "http_token (content_type_of x)" "http_token ''/v1/traces''" by (simp_all add: content_type_of_def split: otlp_http_encoding.split)
qed

lemma delivered_read:
  assumes "delivered x path bs chunks" and "http_token path"
  shows "read_otlp_http_request (map Inr chunks) [] =
    Inr \<lparr>req_method = ''POST'', req_path = path, req_content_type = Some (content_type_of x), req_body = bs\<rparr>"
proof -
  have "length bs \<le> MAX_OTLP_HTTP_BODY_BYTES" using assms(1) by (auto simp: delivered_def wire_bytes_def)
  with assms have "parse_buffered_http_request (concat chunks) =
    Inr (Some \<lparr>req_method = ''POST'', req_path = path, req_content_type = Some (content_type_of x), req_body = bs\<rparr>)"
    using post_request_parsed [of path "content_type_of x" "oh_endpoint x" "[]" bs] wire_tokens(1) [of x]
    by (simp add: delivered_def wire_bytes_def)
  with assms(1) show ?thesis using read_chunks [of chunks] by (auto simp: delivered_def)
qed

lemma wire_json:
  "is_json \<lparr>req_method = ''POST'', req_path = path, req_content_type = Some (content_type_of x), req_body = bs\<rparr> = (oh_encoding x = Json)"
proof -
  have "\<not> eq_ignore_ascii_case (trim (takeWhile (\<lambda>c. c \<noteq> CHR '';'') ''application/x-protobuf'')) ''application/json''"
    "eq_ignore_ascii_case (trim (takeWhile (\<lambda>c. c \<noteq> CHR '';'') ''application/json'')) ''application/json''" by code_simp+
  then show ?thesis by (cases "oh_encoding x") (simp_all add: is_json_def content_type_of_def)
qed

section \<open>Through the queue and the processors\<close>

lemma chain_process_plain:
  assumes "redactors (chain_processors c) = []" and "chain_process clock r c = (Inr (Some r'), c')"
  shows "r' = r \<and> redactors (chain_processors c') = []"
proof -
  obtain d ps where run: "run_processors clock r (chain_processors c) = (Inr d, ps)"
    using run_processors_total by (metis prod.collapse)
  then have "d = Some r'" "chain_processors c' = ps" using assms(2) by (auto simp: chain_process_def split: option.splits)
  then show ?thesis using run run_processors_redacts [of clock r "chain_processors c" r' ps] run_processors_redactors [OF run] assms(1) by simp
qed

text \<open>With no redaction, and when nothing is dropped, the flush reads back the records that were put in.\<close>

lemma payloads_read_back:
  assumes "list_all valid_rec rs" and "map Inr ps = map encode rs" and "redactors (chain_processors c) = []"
    and "process_payloads clock ps c = (Inr (batch, 0), c')"
  shows "batch = rs"
  using assms
proof (induction rs arbitrary: ps clock c batch)
  case Nil
  then show ?case by (simp add: ok_act_def)
next
  case (Cons r rs)
  then obtain p ps1 where p: "ps = p # ps1" "encode r = Inr p" "map Inr ps1 = map encode rs" by (cases ps) auto
  have "decode p = Inr r" using Cons.prems(1) p(2) decode_enc_record by (simp add: encode_Inr)
  with Cons.prems(4) p(1) obtain d c1 rs1 n where d: "chain_process (clock 0) r c = (Inr d, c1)"
    "process_payloads (\<lambda>i. clock (Suc i)) ps1 c1 = (Inr (rs1, n), c')" "(batch, 0) = (case d of Some r' \<Rightarrow> (r' # rs1, n) | None \<Rightarrow> (rs1, n + 1))"
    by (auto simp: bind_act_Inr_iff map_err_act_def lift_res_def ok_act_def split: prod.splits sum.splits)
  then obtain r' where r': "d = Some r'" "n = 0" "batch = r' # rs1" by (cases d) auto
  have "r' = r" "redactors (chain_processors c1) = []" using chain_process_plain [OF Cons.prems(3)] d(1) r'(1) by auto
  moreover from this(2) have "rs1 = rs" using Cons.IH [of ps1 c1 "\<lambda>i. clock (Suc i)" rs1] Cons.prems(1) p(3) d(2) r'(2) by simp
  ultimately show ?case using r'(3) by simp
qed

section \<open>Two agents\<close>

text \<open>
  Property C17 (agents_chained). A client sends an agent a trace request with well-formed spans (as for \<open>spans_forwarded\<close>: proper identifiers, a name that
  is not blank, numbers within their types) and text in valid UTF-8. The agent queues the records; a flush takes exactly
  these from the queue, the processors redact nothing and drop nothing, and the batch is exported over OTLP/HTTP, as Protobuf or as JSON, to a
  second agent, as \<open>delivered\<close> says: under the path \<^verbatim>\<open>/v1/traces\<close>, a host in plain characters, the whole request at most 16 MiB. Let the decoder of
  the second agent read back the message that was encoded. Then, however the network cuts up the bytes, the second agent makes its records
  from the spans the client sent, in the same order, with the same identifiers, names, kinds and times, and with their attributes as \<open>spans_forwarded\<close> has them.
\<close>

theorem agents_chained:
  assumes "list_all wf_span (messages req)" and "list_all valid_rec (trace_request_to_records api clock tenant req)"
    and "map Inr ps = map encode (trace_request_to_records api clock tenant req)"
    and "redactors (chain_processors chain) = []" and "process_payloads flush_clock ps chain = (Inr (batch, 0), chain')"
    and "sent = batch_to_trace_request batch" and "body_of x (trace_protobuf pc sent) (trace_json pc sent) = Inr bs"
    and "delivered x ''/v1/traces'' bs chunks" and "decode_trace co (oh_encoding x = Json) bs = Inr sent"
  shows "map_option (\<lambda>(kind, http, rs). (kind, rs)) (request_records api co clock' tenant' (map Inr chunks)) =
    Some (Trace, trace_request_to_records api clock' tenant'
      (let spans = each_message (\<lambda>res scope s. [forwarded_span api res s]) req in
       if spans = [] then [] else [\<lparr>resource_of = Some [], scopes_of = [\<lparr>scope_name_of = None, items_of = spans\<rparr>]\<rparr>]))"
proof -
  have "batch = trace_request_to_records api clock tenant req" by (rule payloads_read_back [OF assms(2-5)])
  then show ?thesis
    using delivered_read [OF assms(8) wire_tokens(2)] assms(6,9) spans_read_back_request [OF assms(1), of api clock tenant]
    by (simp add: request_records_def wire_json)
qed

section \<open>An example\<close>

text \<open>An exporter that sends JSON, to an endpoint that has the path of the signal.\<close>

definition sample_exporter :: otlp_http_exporter where
  "sample_exporter =
     \<lparr>oh_endpoint = \<lparr>he_scheme = PlainHttp, he_host = ''gateway'', he_port = 4318, he_base_path = ''/v1/traces''\<rparr>,
      oh_encoding = Json, oh_tls = tls_default\<rparr>"

definition sample_trace_request :: "int trace_request" where
  "sample_trace_request = [\<lparr>resource_of = None, scopes_of = [\<lparr>scope_name_of = None, items_of = [sample_span]\<rparr>]\<rparr>]"

definition sample_forwarded :: "int trace_request" where
  "sample_forwarded =
     [\<lparr>resource_of = Some [], scopes_of = [\<lparr>scope_name_of = None, items_of = [forwarded_span sample_api None sample_span]\<rparr>]\<rparr>]"

definition sample_records :: "telemetry_record list" where
  "sample_records = trace_request_to_records sample_api (\<lambda>_. 0) ''t'' sample_trace_request"

definition sample_payloads :: "u8 list list" where
  "sample_payloads = map (\<lambda>r. case encode r of Inr bs \<Rightarrow> bs | Inl _ \<Rightarrow> []) sample_records"

text \<open>Codecs that know one message.\<close>

definition one_codec :: "int codecs" where
  "one_codec =
     \<lparr>trace_protobuf = (\<lambda>r. []), metrics_protobuf = (\<lambda>r. []), logs_protobuf = (\<lambda>r. []), write_protobuf = (\<lambda>r. []),
      trace_json = (\<lambda>r. if r = sample_forwarded then Inr [7] else Inl ''no''), metrics_json = (\<lambda>r. Inl ''no''), logs_json = (\<lambda>r. Inl ''no'')\<rparr>"

definition one_decoder :: "int receiver_codec" where
  "one_decoder = sample_codec\<lparr>decode_trace := (\<lambda>json bs. if json \<and> bs = [7] then Inr sample_forwarded else Inr [])\<rparr>"

lemma sample_spans:
  "list_all wf_span (messages sample_trace_request)"
  "batch_to_trace_request sample_records = sample_forwarded"
  "(let spans = each_message (\<lambda>res scope s. [forwarded_span sample_api res s]) sample_trace_request in
       if spans = [] then [] else [\<lparr>resource_of = Some [], scopes_of = [\<lparr>scope_name_of = None, items_of = spans\<rparr>]\<rparr>]) = sample_forwarded"
proof -
  have "proper_id 16 sample_trace_id" "proper_id 8 [0, 0, 0, 0, 0, 0, 0, 7]" "trim ''get'' \<noteq> []" by code_simp+
  then show wf: "list_all wf_span (messages sample_trace_request)"
    by (simp add: messages_def sample_trace_request_def wf_span_def sample_span_def i32_max_def)
  show s: "(let spans = each_message (\<lambda>res scope s. [forwarded_span sample_api res s]) sample_trace_request in
       if spans = [] then [] else [\<lparr>resource_of = Some [], scopes_of = [\<lparr>scope_name_of = None, items_of = spans\<rparr>]\<rparr>]) = sample_forwarded"
    by (simp add: each_message_def sample_trace_request_def sample_forwarded_def)
  show "batch_to_trace_request sample_records = sample_forwarded"
    using spans_read_back_request [OF wf, of sample_api "\<lambda>_. 0" "''t''"] s by (simp add: sample_records_def)
qed

lemma payloads_unprocessed:
  "list_all valid_rec rs \<Longrightarrow> map Inr ps = map encode rs \<Longrightarrow> chain_processors c = [] \<Longrightarrow> process_payloads clock ps c = (Inr (rs, 0), c)"
proof (induction rs arbitrary: ps clock)
  case (Cons r rs)
  then obtain p ps1 where p: "ps = p # ps1" "encode r = Inr p" "map Inr ps1 = map encode rs" by (cases ps) auto
  have "decode p = Inr r" using Cons.prems(1) p(2) decode_enc_record by (simp add: encode_Inr)
  moreover have "chain_process (clock 0) r c = (Inr (Some r), c)" using Cons.prems(3) by (cases c) (simp add: chain_process_def)
  ultimately show ?case
    using Cons.IH [of ps1] Cons.prems p by (simp add: bind_act_def map_err_act_def lift_res_def ok_act_def)
qed (simp add: ok_act_def)

theorem agents_chained_witness:
  "map_option (\<lambda>(kind, http, rs). (kind, rs)) (request_records sample_api one_decoder (\<lambda>_. 9) ''far''
     (map Inr [take 50 (wire_bytes sample_exporter ''/v1/traces'' [7]), drop 50 (wire_bytes sample_exporter ''/v1/traces'' [7])])) =
   Some (Trace, trace_request_to_records sample_api (\<lambda>_. 9) ''far'' sample_forwarded)"
proof -
  let ?w = "wire_bytes sample_exporter ''/v1/traces'' [7]"
  have valid: "list_all valid_rec sample_records" by code_simp
  have "list_all (\<lambda>r. is_ok (encode r)) sample_records" by code_simp
  then have ps: "map Inr sample_payloads = map encode sample_records" by (auto simp: sample_payloads_def list_all_iff is_ok_iff)
  let ?chain = "\<lparr>chain_processors = [], dropped_records = 0\<rparr>"
  have chain: "redactors (chain_processors ?chain) = []" by simp
  have batch: "process_payloads (\<lambda>_ _. 0) sample_payloads ?chain = (Inr (sample_records, 0), ?chain)"
    by (rule payloads_unprocessed [OF valid ps]) simp
  have "list_all plain_char ''gateway''" "50 < length ?w" "length ?w < 1000" "endpoint_path (oh_endpoint sample_exporter) ''/v1/traces'' = ''/v1/traces''"
    by code_simp+
  moreover from this have "?w \<noteq> []" by auto
  ultimately have wire: "delivered sample_exporter ''/v1/traces'' [7] [take 50 ?w, drop 50 ?w]"
    by (simp add: delivered_def MAX_OTLP_HTTP_BODY_BYTES_def) (simp add: sample_exporter_def)
  have "body_of sample_exporter (trace_protobuf one_codec sample_forwarded) (trace_json one_codec sample_forwarded) = Inr [7]"
    "decode_trace one_decoder (oh_encoding sample_exporter = Json) [7] = Inr sample_forwarded"
    by (simp_all add: body_of_def one_codec_def one_decoder_def sample_exporter_def)
  from agents_chained [OF sample_spans(1) valid [unfolded sample_records_def] ps [unfolded sample_records_def] chain batch sample_spans(2) [symmetric] this(1) wire this(2)]
  show ?thesis by (simp only: sample_spans(3))
qed

end
