(* ===== verification/Agent_Exporters.thy ===== *)
theory Agent_Exporters
  imports Exporter_Send Shared_Properties Otlp_Forward "HOL-Library.Sublist"
begin

text \<open>
  The runtime with the exporters of \<^verbatim>\<open>crates/telemetry-exporters/src/lib.rs\<close> in place of its parameters: \<^verbatim>\<open>build_exporters\<close> is what
  \<^verbatim>\<open>open\<close> and \<^verbatim>\<open>reload_config\<close> of \<^verbatim>\<open>runtime.rs\<close> call, and \<^verbatim>\<open>Exporter::export\<close> is what a flush calls. The second half
  follows the lines that the file exporter appends, with failures of the disk and retries.
\<close>

section \<open>The parameters of the runtime\<close>

text \<open>
  An exporter of the map, with the number of calls of its method so far: a call finds the world of that number. A call
  of an exporter that uses the network may be cut off by the timeout of the runtime, and \<open>cuts\<close> says in which state it is
  then. The exporters of lines do not wait for anything, so a timeout never finds them unfinished.
\<close>

type_synonym ('w, 'c) running_exporter = "('w, 'c) exporter \<times> nat"
type_synonym ('w, 'c) cut_fn = "nat \<Rightarrow> ('w, 'c) exporter \<Rightarrow> ('w, 'c) exporter option"

definition writes_lines :: "('w, 'c) exporter \<Rightarrow> bool" where
  "writes_lines x = (case x of StdoutExporter _ \<Rightarrow> True | FileExporter _ \<Rightarrow> True | _ \<Rightarrow> False)"

definition agent_build ::
  "(io_error \<Rightarrow> string) \<Rightarrow> (string \<Rightarrow> io_error + 'w) \<Rightarrow> 'w \<Rightarrow> ('w, 'c) running_exporter build_fn" where
  "agent_build show_io open_append stdout configs =
     map_err (show_exporter_error show_io)
       (res_bind (build_exporters open_append stdout configs) (\<lambda>built. Inr (\<lambda>name. map_option (\<lambda>x. (x, 0)) (map_of built name))))"

definition agent_export ::
  "(io_error \<Rightarrow> string) \<Rightarrow> (nat \<Rightarrow> ('f, 'w, 'c) export_world) \<Rightarrow> ('w, 'c) cut_fn \<Rightarrow> ('w, 'c) running_exporter export_fn" where
  "agent_export show_io worlds cuts batch = (\<lambda>(x, k).
     case (if writes_lines x then None else cuts k x) of
       Some x' \<Rightarrow> (TimedOut, x', Suc k)
     | None \<Rightarrow>
         (case dyn_export (worlds k) batch x of
            (Inr rep, x') \<Rightarrow> (Exported rep, x', Suc k)
          | (Inl err, x') \<Rightarrow> (ExportFailed (show_exporter_error show_io err), x', Suc k)))"

section \<open>What is built\<close>

lemma build_from_lookup:
  "build_exporters_from open_append stdout built configs = Inr m \<Longrightarrow>
   map_of m name =
     (case find (\<lambda>c. exp_name c = name) (rev configs) of
        None \<Rightarrow> map_of built name
      | Some c \<Rightarrow> res_ok (build_exporter open_append stdout c))"
proof (induction configs arbitrary: built)
  case (Cons c configs)
  then obtain x where x: "build_exporter open_append stdout c = Inr x"
    "build_exporters_from open_append stdout (btree_insert (exp_name c) x built) configs = Inr m"
    by (auto simp: res_bind_Inr_iff)
  have "find P (xs @ [y]) = (case find P xs of Some z \<Rightarrow> Some z | None \<Rightarrow> if P y then Some y else None)" for P and xs :: "exporter_config list" and y
    by (induction xs) auto
  with Cons.IH [OF x(2)] x(1) show ?case by (auto simp: btree_insert_lookup split: option.split)
qed simp

lemma build_from_all:
  fixes m :: "(string \<times> ('w, 'c) exporter) list"
  shows "build_exporters_from open_append stdout built configs = Inr m \<Longrightarrow> c \<in> set configs \<Longrightarrow>
    \<exists>x :: ('w, 'c) exporter. build_exporter open_append stdout c = Inr x"
  by (induction configs arbitrary: built) (auto simp: res_bind_Inr_iff)

lemma find_name: "find (\<lambda>c. exp_name c = name) (rev configs) = Some c \<Longrightarrow> c \<in> set configs \<and> exp_name c = name"
  by (metis (mono_tags, lifting) find_Some_iff nth_mem set_rev)

lemma agent_build_lookup:
  assumes "agent_build show_io open_append stdout configs = Inr es"
  shows "es name = (case find (\<lambda>c. exp_name c = name) (rev configs) of
      None \<Rightarrow> None | Some c \<Rightarrow> map_option (\<lambda>x. (x, 0)) (res_ok (build_exporter open_append stdout c)))"
  using assms by (auto simp: agent_build_def build_exporters_def map_err_Inr_iff res_bind_Inr_iff dest!: build_from_lookup [where name = name] split: option.split)

lemma agent_builds_all: "builds_all (agent_build show_io open_append stdout :: ('w, 'c) running_exporter build_fn)"
  unfolding builds_all_def
proof (intro allI impI set_eqI iffI)
  fix configs and es :: "('w, 'c) running_exporter exporter_map" and name
  assume b: "agent_build show_io open_append stdout configs = Inr es"
  then obtain m :: "(string \<times> ('w, 'c) exporter) list" where m: "build_exporters_from open_append stdout [] configs = Inr m"
    by (auto simp: agent_build_def build_exporters_def map_err_Inr_iff res_bind_Inr_iff)
  { assume "name \<in> dom es"
    then show "name \<in> set (map exp_name configs)"
      using agent_build_lookup [OF b, of name] by (cases "find (\<lambda>c. exp_name c = name) (rev configs)") (auto dest: find_name) }
  { assume "name \<in> set (map exp_name configs)"
    then have "find (\<lambda>c. exp_name c = name) (rev configs) \<noteq> None" unfolding find_None_iff by auto
    then obtain c where c: "find (\<lambda>c. exp_name c = name) (rev configs) = Some c" by blast
    then have "c \<in> set configs" using find_name by blast
    from build_from_all [OF m this] c show "name \<in> dom es" using agent_build_lookup [OF b, of name] by auto }
qed

section \<open>Lines in a file\<close>

definition lines_of :: "telemetry_record list \<Rightarrow> u8 list" where
  "lines_of batch = concat (map (\<lambda>r. as_bytes (format_record r) @ [10]) batch)"

lemma lines_of_simps [simp]: "lines_of [] = []" "lines_of (r # rs) = as_bytes (format_record r) @ 10 # lines_of rs"
  by (simp_all add: lines_of_def)

text \<open>What may be there after an attempt.\<close>

definition attempt_left :: "('w \<Rightarrow> u8 list) \<Rightarrow> telemetry_record list \<Rightarrow> bool \<Rightarrow> 'w \<Rightarrow> 'w \<Rightarrow> bool" where
  "attempt_left contents batch whole w w' \<longleftrightarrow>
     (\<exists>part. prefix part (lines_of batch) \<and> contents w' = contents w @ part \<and> (whole \<longrightarrow> part = lines_of batch))"

text \<open>
  What an exporter of lines relies on: a write that succeeds appends its bytes, one that fails appends the first so many of
  them, and a flush changes nothing that can be read.
\<close>

locale line_writer =
  fixes write_all :: "'w write_fn" and flush_writer :: "'w flush_fn" and contents :: "'w \<Rightarrow> u8 list"
  assumes write_appends: "write_all bs w = (Inr u, w') \<Longrightarrow> contents w' = contents w @ bs"
    and write_tears: "write_all bs w = (Inl e, w') \<Longrightarrow> \<exists>k. contents w' = contents w @ take k bs"
    and flush_keeps: "flush_writer w = (r, w') \<Longrightarrow> contents w' = contents w"
begin

lemma take_front: "prefix (take k xs) (xs @ ys)"
  by (rule prefix_order.trans [OF take_is_prefix]) simp

lemma write_lines_left:
  assumes "write_lines write_all batch n w = (r, w')"
  shows "attempt_left contents batch (is_ok r) w w' \<and> (\<forall>m. r = Inr m \<longrightarrow> m = n + sum_list (map (length \<circ> format_record) batch))"
  using assms
proof (induction batch arbitrary: n w)
  case (Cons x batch)
  let ?line = "as_bytes (format_record x)"
  obtain r1 w1 where a1: "write_all ?line w = (r1, w1)" by (cases "write_all ?line w")
  show ?case
  proof (cases r1)
    case (Inl e)
    then obtain k where "contents w1 = contents w @ take k ?line" using write_tears a1 by blast
    moreover have "w' = w1" "r = Inl (ExpIo e)" using Cons.prems a1 Inl by (auto simp: Let_def seq_act_def bind_act_def map_err_act_def)
    ultimately show ?thesis using take_front [of k ?line "10 # lines_of batch"] by (auto simp: attempt_left_def is_ok_def)
  next
    case ok1: (Inr u)
    have c1: "contents w1 = contents w @ ?line" using write_appends a1 ok1 by blast
    obtain r2 w2 where a2: "write_all [10] w1 = (r2, w2)" by (cases "write_all [10] w1")
    show ?thesis
    proof (cases r2)
      case (Inl e)
      then obtain k where "contents w2 = contents w @ ?line @ take k [10]" using write_tears a2 c1 by fastforce
      moreover have "w' = w2" "r = Inl (ExpIo e)" using Cons.prems a1 a2 ok1 Inl by (auto simp: Let_def seq_act_def bind_act_def map_err_act_def)
      ultimately show ?thesis using take_front [of k "[10]" "lines_of batch"] by (auto simp: attempt_left_def is_ok_def)
    next
      case ok2: (Inr v)
      have c2: "contents w2 = contents w @ ?line @ [10]" using write_appends a2 ok2 c1 by fastforce
      have "write_lines write_all batch (n + length (format_record x)) w2 = (r, w')"
        using Cons.prems a1 a2 ok1 ok2 by (auto simp: Let_def seq_act_def bind_act_def map_err_act_def)
      from Cons.IH [OF this] c2 show ?thesis by (fastforce simp: attempt_left_def)
    qed
  qed
qed (auto simp: attempt_left_def)

lemma line_export_left:
  assumes "line_export write_all flush_writer batch w = (r, w')"
  shows "attempt_left contents batch (is_ok r) w w' \<and>
    (\<forall>rep. r = Inr rep \<longrightarrow> rep = \<lparr>report_records = length batch, report_bytes = sum_list (map (length \<circ> format_record) batch)\<rparr>)"
proof -
  obtain r1 w1 where l: "write_lines write_all batch 0 w = (r1, w1)" by (cases "write_lines write_all batch 0 w")
  note left = write_lines_left [OF l]
  show ?thesis
  proof (cases r1)
    case (Inl e)
    then show ?thesis using assms l left by (auto simp: line_export_def bind_act_def is_ok_def)
  next
    case (Inr n)
    obtain r2 w2 where f: "flush_writer w1 = (r2, w2)" by (cases "flush_writer w1")
    show ?thesis using assms l left Inr f flush_keeps [OF f]
      by (cases r2) (auto simp: line_export_def bind_act_def seq_act_def map_err_act_def is_ok_def attempt_left_def)
  qed
qed

end

text \<open>A file opened for appending: its name and the disk; \<^verbatim>\<open>flush\<close> of a \<^verbatim>\<open>File\<close> does nothing.\<close>

definition append_all :: "(string \<times> disk) write_fn" where
  "append_all bs = (\<lambda>(p, d). case fs_write_all p bs d of (r, d') \<Rightarrow> (r, p, d'))"

definition flush_file :: "(string \<times> disk) flush_fn" where
  "flush_file = ok_act ()"

definition file_bytes :: "string \<times> disk \<Rightarrow> u8 list" where
  "file_bytes = (\<lambda>(p, d). content (files d) p)"

interpretation file_lines: line_writer append_all flush_file file_bytes
proof unfold_locales
  fix bs u w w'
  assume "append_all bs w = (Inr u, w')"
  then show "file_bytes w' = file_bytes w @ bs"
    by (auto simp: append_all_def file_bytes_def fs_write_all_def put_file_def next_call_def content_def update_conv' split: prod.splits option.splits)
next
  fix bs e w w'
  assume "append_all bs w = (Inl e, w')"
  then show "\<exists>k. file_bytes w' = file_bytes w @ take k bs"
    by (auto simp: append_all_def file_bytes_def fs_write_all_def put_file_def next_call_def content_def update_conv' split: prod.splits option.splits)
next
  fix r w w'
  assume "flush_file w = (r, w')"
  then show "file_bytes w' = file_bytes w" by (simp add: flush_file_def)
qed

text \<open>The world of an exporter whose writer is a file on the disk.\<close>

definition on_disk :: "('f, string \<times> disk, 'c) export_world \<Rightarrow> bool" where
  "on_disk ew \<longleftrightarrow> ew_write ew = append_all \<and> ew_flush ew = flush_file"

lemma after_calls_Suc: "after_calls export batch (Suc n) x = snd (export batch (after_calls export batch n x))"
  by (induction n arbitrary: x) simp_all

lemma agent_export_file:
  assumes "on_disk (worlds k)"
  shows "\<exists>w' b. agent_export show_io worlds cuts batch (FileExporter w, k) = (b, FileExporter w', Suc k) \<and>
    attempt_left file_bytes batch (accepted b) w w' \<and>
    (\<forall>rep. b = Exported rep \<longrightarrow> rep = \<lparr>report_records = length batch, report_bytes = sum_list (map (length \<circ> format_record) batch)\<rparr>)"
proof -
  obtain r w' where l: "line_export append_all flush_file batch w = (r, w')" by (cases "line_export append_all flush_file batch w")
  show ?thesis using file_lines.line_export_left [OF l] l assms
    by (cases r) (auto simp: agent_export_def writes_lines_def dyn_export_def file_export_def on_disk_def is_ok_def)
qed

lemma failed_attempts:
  assumes "\<forall>k. on_disk (worlds k)"
    and "\<forall>i < n. \<not> accepted (outcome (agent_export show_io worlds cuts) batch i (FileExporter w, k))"
  shows "\<exists>w' parts. after_calls (agent_export show_io worlds cuts) batch n (FileExporter w, k) = (FileExporter w', k + n) \<and>
    length parts = n \<and> list_all (\<lambda>part. prefix part (lines_of batch)) parts \<and> file_bytes w' = file_bytes w @ concat parts"
  using assms(2)
proof (induction n arbitrary: w k)
  case (Suc n)
  obtain b w1 where e: "agent_export show_io worlds cuts batch (FileExporter w, k) = (b, FileExporter w1, Suc k)"
    "attempt_left file_bytes batch (accepted b) w w1" using agent_export_file assms(1) by blast
  then obtain part where part: "prefix part (lines_of batch)" "file_bytes w1 = file_bytes w @ part" by (auto simp: attempt_left_def)
  from Suc.prems e have "\<forall>i < n. \<not> accepted (outcome (agent_export show_io worlds cuts) batch i (FileExporter w1, Suc k))"
    by (simp add: all_calls_Suc)
  from Suc.IH [OF this] obtain w' parts where "after_calls (agent_export show_io worlds cuts) batch n (FileExporter w1, Suc k) = (FileExporter w', Suc k + n)"
    "length parts = n" "list_all (\<lambda>part. prefix part (lines_of batch)) parts" "file_bytes w' = file_bytes w1 @ concat parts" by blast
  with e part show ?case by (intro exI [of _ w'] exI [of _ "part # parts"]) simp
qed simp

text \<open>
  Property C23 (file_lines_exact). A batch that the runtime hands to the file exporter, with retries, while the disk may fail at any
  write: when the export succeeds the file ends with exactly one line for each record in order and the report
  has their number and length; before them, and when it fails, there is what each failed attempt left, the
  beginning of these lines. Nothing that was in the file changes.
\<close>

theorem file_lines_exact:
  assumes "\<forall>k. on_disk (worlds k)"
    and "export_with_retry (agent_export show_io worlds cuts) name batch retry 1 (FileExporter w, k) = (r, sleeps, x')"
  shows "\<exists>w' torn. x' = (FileExporter w', Suc (k + length sleeps)) \<and> list_all (\<lambda>part. prefix part (lines_of batch)) torn \<and>
    file_bytes w' = file_bytes w @ concat torn @ (if is_ok r then lines_of batch else []) \<and>
    (case r of
       Inr rep \<Rightarrow> length torn = length sleeps \<and>
         rep = \<lparr>report_records = length batch, report_bytes = sum_list (map (length \<circ> format_record) batch)\<rparr>
     | Inl _ \<Rightarrow> length torn = Suc (length sleeps))"
proof -
  let ?export = "agent_export show_io worlds cuts" and ?x = "(FileExporter w, k)"
  note spec = export_with_retry_spec [OF assms(2)]
  show ?thesis
  proof (cases r)
    case (Inl e)
    from spec have "\<forall>i < length sleeps. \<not> accepted (outcome ?export batch i ?x)" by simp
    moreover from spec Inl have "\<not> accepted (outcome ?export batch (length sleeps) ?x)" by simp
    ultimately have "\<forall>i < Suc (length sleeps). \<not> accepted (outcome ?export batch i ?x)" using less_Suc_eq by blast
    from failed_attempts [OF assms(1) this] show ?thesis using spec Inl by (auto simp: is_ok_def)
  next
    case (Inr rep)
    obtain w1 torn where f: "after_calls ?export batch (length sleeps) ?x = (FileExporter w1, k + length sleeps)"
      "length torn = length sleeps" "list_all (\<lambda>part. prefix part (lines_of batch)) torn" "file_bytes w1 = file_bytes w @ concat torn"
      using failed_attempts [OF assms(1)] spec by blast
    obtain b w' where e: "?export batch (FileExporter w1, k + length sleeps) = (b, FileExporter w', Suc (k + length sleeps))"
      "attempt_left file_bytes batch (accepted b) w1 w'"
      "\<forall>rep. b = Exported rep \<longrightarrow> rep = \<lparr>report_records = length batch, report_bytes = sum_list (map (length \<circ> format_record) batch)\<rparr>"
      using agent_export_file assms(1) by blast
    have "b = Exported rep" using spec Inr f(1) e(1) by (simp add: outcome_def)
    moreover have "x' = snd (?export batch (after_calls ?export batch (length sleeps) ?x))"
      using spec unfolding after_calls_Suc [symmetric] by blast
    then have "x' = (FileExporter w', Suc (k + length sleeps))" using f(1) e(1) by simp
    ultimately show ?thesis using f e Inr by (intro exI [of _ w'] exI [of _ torn]) (auto simp: attempt_left_def is_ok_def)
  qed
qed

text \<open>A disk whose second write fails after four bytes: the torn line stays in front of the lines of the second attempt.\<close>

definition torn_disk :: disk where
  "torn_disk = \<lparr>files = [(''out.log'', [])], faults = (\<lambda>n. if n = 0 then Some (4, ''disk full'') else None)\<rparr>"

definition silent_codecs :: "int codecs" where
  "silent_codecs =
     \<lparr>trace_protobuf = (\<lambda>_. []), metrics_protobuf = (\<lambda>_. []), logs_protobuf = (\<lambda>_. []), write_protobuf = (\<lambda>_. []),
      trace_json = (\<lambda>_. Inr []), metrics_json = (\<lambda>_. Inr []), logs_json = (\<lambda>_. Inr [])\<rparr>"

definition disk_world :: "nat \<Rightarrow> (int, string \<times> disk, unit) export_world" where
  "disk_world k =
     \<lparr>ew_api = sample_api, ew_codecs = silent_codecs, ew_write = append_all, ew_flush = flush_file, ew_net = (\<lambda>_ _. Inl (Grpc [])),
      ew_stubs = \<lparr>connect_client = (\<lambda>_. Inl []), call_traces = (\<lambda>_ _. Inl []), call_metrics = (\<lambda>_ _. Inl []), call_logs = (\<lambda>_ _. Inl [])\<rparr>\<rparr>"

theorem file_lines_exact_witness:
  "\<exists>w' torn sleeps. export_with_retry (agent_export (\<lambda>_. []) disk_world (\<lambda>_ _. None)) ''out'' [sample_log] retry_default 1
       (FileExporter (''out.log'', torn_disk), 0) =
     (Inr \<lparr>report_records = 1, report_bytes = length (format_record sample_log)\<rparr>, sleeps, FileExporter w', 2) \<and>
   length torn = 1 \<and> file_bytes w' = concat torn @ lines_of [sample_log]"
proof -
  let ?run = "export_with_retry (agent_export (\<lambda>_. []) disk_world (\<lambda>_ _. None)) ''out'' [sample_log] retry_default 1
       (FileExporter (''out.log'', torn_disk), 0)"
  obtain r sleeps x' where run: "?run = (r, sleeps, x')" by (cases ?run)
  have "is_ok (fst ?run) \<and> length (fst (snd ?run)) = 1" by code_simp
  with run obtain rep where r: "r = Inr rep" "length sleeps = 1" by (cases r) (auto simp: is_ok_def)
  have "\<forall>k. on_disk (disk_world k)" by (simp add: on_disk_def disk_world_def)
  moreover have "file_bytes (''out.log'', torn_disk) = []" by code_simp
  ultimately show ?thesis using file_lines_exact [OF _ run] run r by (fastforce simp: is_ok_def numeral_2_eq_2)
qed

end
