(* ===== verification/Agent_Serve.thy ===== *)
theory Agent_Serve
  imports Agent_Exporters Receiver_Properties Agent_Control
begin

text \<open>
  The servers of the agent process: the accept loops of the OTLP/HTTP receiver (\<^verbatim>\<open>otlp_http.rs\<close>), of the gRPC receiver
  (\<^verbatim>\<open>otlp.rs\<close>) and of the health endpoint (\<^verbatim>\<open>main.rs\<close>). A loop spawns a task for each connection, and the tasks run
  between the critical sections of flushes, reloads and of each other: \<open>serve_step\<close> is all of it together. The
  locale \<open>request_server\<close> says what the rest relies on of a receiver; both receivers interpret it.
\<close>

section \<open>The OTLP/HTTP server\<close>

text \<open>Before the loop: the socket, then TLS, and the line it prints.\<close>

definition start_otlp_http ::
  "(string \<Rightarrow> string + unit) \<Rightarrow> (tls_config \<Rightarrow> string + 'acc) \<Rightarrow> string \<Rightarrow> tls_config \<Rightarrow> string + 'acc option \<times> string" where
  "start_otlp_http bind_socket tls_acceptor addr tls =
     res_bind (bind_socket addr) (\<lambda>_.
     res_bind (if tls_enabled tls then res_bind (tls_acceptor tls) (\<lambda>a. Inr (Some a)) else Inr None) (\<lambda>acceptor.
     let mode = (if acceptor \<noteq> None then ''OTLP/HTTP protobuf+JSON over TLS'' else ''OTLP/HTTP protobuf+JSON'') in
     Inr (acceptor, ''telemetry-agent listening on '' @ addr @ '' using '' @ mode)))"

text \<open>A connection: what its reads give, what writing does, and the clock while it is served.\<close>

record connection =
  conn_reads :: "(string + u8 list) list"
  conn_send :: "u8 list \<Rightarrow> string + unit"
  conn_clock :: "nat \<Rightarrow> 128 word"

text \<open>The task of a connection; \<open>tls_accept\<close> is the handshake and gives the stream inside.\<close>

definition serve_connection ::
  "'f proto_api \<Rightarrow> 'f receiver_codec \<Rightarrow> ('acc \<Rightarrow> connection \<Rightarrow> string + connection) \<Rightarrow> 'acc option \<Rightarrow> string \<Rightarrow> connection \<Rightarrow> 'x http_act" where
  "serve_connection api co tls_accept acceptor tenant c =
     (case acceptor of
        Some a \<Rightarrow>
          (case tls_accept a c of
             Inr stream \<Rightarrow> handle_otlp_http api co (conn_send stream) (conn_clock stream) tenant (conn_reads stream)
           | Inl err \<Rightarrow> err_act (StreamFailed err))
      | None \<Rightarrow> handle_otlp_http api co (conn_send c) (conn_clock c) tenant (conn_reads c))"

section \<open>The OTLP/gRPC server\<close>

text \<open>The calls that the transport delivers to the three services, which share the runtime and the tenant.\<close>

datatype 'f grpc_request =
  TraceCall "nat \<Rightarrow> 128 word" "'f trace_request"
| MetricsCall "nat \<Rightarrow> 128 word" "'f metrics_request"
| LogsCall "nat \<Rightarrow> 128 word" "'f logs_request"

definition start_otlp_grpc :: "(string \<Rightarrow> string + 'addr) \<Rightarrow> ('addr \<Rightarrow> string) \<Rightarrow> string \<Rightarrow> string + 'addr \<times> string" where
  "start_otlp_grpc parse_addr show_addr bind_addr =
     res_bind (parse_addr bind_addr) (\<lambda>addr.
     Inr (addr, ''telemetry-agent listening on '' @ show_addr addr @ '' using OTLP/gRPC traces, metrics, and logs''))"

definition serve_call ::
  "'f proto_api \<Rightarrow> (io_error \<Rightarrow> string) \<Rightarrow> string \<Rightarrow> 'f grpc_request \<Rightarrow> ('x agent_runtime, grpc_status, unit) act" where
  "serve_call api show_io tenant call =
     (case call of
        TraceCall clock req \<Rightarrow> grpc_export_traces api show_io clock tenant req
      | MetricsCall clock req \<Rightarrow> grpc_export_metrics api show_io clock tenant req
      | LogsCall clock req \<Rightarrow> grpc_export_logs api show_io clock tenant req)"

section \<open>The health server\<close>

text \<open>One read into a buffer of 1024 bytes.\<close>

definition read_request_path :: "string + u8 list \<Rightarrow> string option" where
  "read_request_path rd =
     Option.bind (res_ok rd) (\<lambda>bs. if bs = [] then None else parse_request_path (from_utf8_lossy (take 1024 bs)))"

definition serve_health_connection :: "(io_error \<Rightarrow> string) \<Rightarrow> string + u8 list \<Rightarrow> 'x agent_runtime \<Rightarrow> string" where
  "serve_health_connection show_io rd rt = handle_health show_io (read_request_path rd) rt"

section \<open>All tasks together\<close>

text \<open>
  The process while it serves: the runtime with its flush tasks, the connections that were accepted and whose task has not
  yet had its turn, those that were served with the answer and the payloads it put into the queue, and the
  answers of the health endpoint.
\<close>

record ('x, 'c, 'a) serving =
  sv_world :: "'x world"
  sv_open :: "nat \<Rightarrow> 'c option"
  sv_served :: "('c \<times> 'a \<times> u8 list list) list"
  sv_probes :: "string list"

definition put_in :: "'x agent_runtime \<Rightarrow> 'x agent_runtime \<Rightarrow> u8 list list" where
  "put_in rt rt' = drop (length (pending (rt_queue rt))) (pending (rt_queue rt'))"

text \<open>
  A task holds the lock of the runtime for all records of its request, so its turn is one step. The guard of \<open>handled\<close> bounds a
  counter only, as for \<open>shared_step\<close>; a step of \<open>worker\<close> is one of a flush, a reload, a pause or a resume, not an ingest.
\<close>

inductive serve_step ::
  "'x build_fn \<Rightarrow> 'x export_fn \<Rightarrow> (io_error \<Rightarrow> string) \<Rightarrow> ('c \<Rightarrow> 'x agent_runtime \<Rightarrow> 'a \<times> 'x agent_runtime) \<Rightarrow> ('c \<Rightarrow> telemetry_record list) \<Rightarrow>
   ('x, 'c, 'a) serving \<Rightarrow> ('x, 'c, 'a) serving \<Rightarrow> bool" for build export show_io handle wanted where
  accept: "sv_open s i = None \<Longrightarrow> serve_step build export show_io handle wanted s (s\<lparr>sv_open := (sv_open s)(i \<mapsto> c)\<rparr>)"
| accept_failed: "serve_step build export show_io handle wanted s s"
| handled: "sv_open s i = Some c \<Longrightarrow> active_segment_id (rt_queue (runtime (sv_world s))) + Suc (length (wanted c)) < u64_max \<Longrightarrow>
    handle c (runtime (sv_world s)) = (a, rt') \<Longrightarrow>
    serve_step build export show_io handle wanted s
      (s\<lparr>sv_world := (sv_world s)\<lparr>runtime := rt', taken_in := taken_in (sv_world s) @ put_in (runtime (sv_world s)) rt'\<rparr>,
         sv_open := (sv_open s)(i := None), sv_served := sv_served s @ [(c, a, put_in (runtime (sv_world s)) rt')]\<rparr>)"
| probe: "serve_step build export show_io handle wanted s
    (s\<lparr>sv_probes := sv_probes s @ [serve_health_connection show_io rd (runtime (sv_world s))]\<rparr>)"
| worker: "shared_step build export (sv_world s) w' \<Longrightarrow> taken_in w' = taken_in (sv_world s) \<Longrightarrow>
    serve_step build export show_io handle wanted s (s\<lparr>sv_world := w'\<rparr>)"

definition listening :: "'x agent_runtime \<Rightarrow> ('x, 'c, 'a) serving" where
  "listening rt = \<lparr>sv_world = idle_world rt, sv_open = Map.empty, sv_served = [], sv_probes = []\<rparr>"

section \<open>A request is a sequence of ingests\<close>

lemma ingest_is_step:
  assumes "Suc (active_segment_id (rt_queue (runtime w))) < u64_max" and "ingest r (runtime w) = (res, rt')"
  shows "shared_step build export w
    (w\<lparr>runtime := rt', taken_in := taken_in w @ (case (res, encode r) of (Inr _, Inr bs) \<Rightarrow> [bs] | _ \<Rightarrow> [])\<rparr>)"
  using assms by (rule shared_step.ingest)

lemma each_ingest_steps:
  assumes "room_for (Suc (length rs)) (runtime w)" and "each_act (\<lambda>r. map_err_act h (ingest r)) rs (runtime w) = (res, rt')"
  shows "\<exists>n ps. (shared_step build export)\<^sup>*\<^sup>* w (w\<lparr>runtime := rt', taken_in := taken_in w @ ps\<rparr>) \<and> n \<le> length rs \<and>
    map Inr ps = map encode (take n rs) \<and> pending (rt_queue rt') = pending (rt_queue (runtime w)) @ ps \<and> (n = length rs \<longleftrightarrow> res = Inr ())"
  using assms
proof (induction rs arbitrary: w)
  case Nil
  then show ?case by (intro exI [of _ 0] exI [of _ "[]"]) auto
next
  case (Cons r rs)
  from Cons.prems(1) have room: "room_for (Suc (Suc (length rs))) (runtime w)" by simp
  then have g: "Suc (active_segment_id (rt_queue (runtime w))) < u64_max" by (simp add: room_for_def)
  from ingest_room [OF room, of r] consider
    (ok) bs rt1 where "ingest r (runtime w) = (Inr (), rt1)" "encode r = Inr bs" "room_for (Suc (length rs)) rt1"
      "pending (rt_queue rt1) = pending (rt_queue (runtime w)) @ [bs]"
  | (no) e rt1 where "ingest r (runtime w) = (Inl e, rt1)" "rt_queue rt1 = rt_queue (runtime w)" by blast
  then show ?case
  proof cases
    case ok
    let ?w = "w\<lparr>runtime := rt1, taken_in := taken_in w @ [bs]\<rparr>"
    have step: "shared_step build export w ?w" using ingest_is_step [OF g ok(1)] ok(2) by simp
    have "map_err_act h (ingest r) (runtime w) = (Inr (), rt1)" using ok(1) by (simp add: map_err_act_def)
    with Cons.prems(2) have "each_act (\<lambda>r. map_err_act h (ingest r)) rs (runtime ?w) = (res, rt')" by (simp add: seq_act_def bind_act_def)
    from Cons.IH [OF _ this] ok(3) obtain n ps where n: "(shared_step build export)\<^sup>*\<^sup>* ?w (?w\<lparr>runtime := rt', taken_in := taken_in ?w @ ps\<rparr>)"
      "n \<le> length rs" "map Inr ps = map encode (take n rs)" "pending (rt_queue rt') = pending (rt_queue (runtime ?w)) @ ps"
      "n = length rs \<longleftrightarrow> res = Inr ()" by auto
    have "(shared_step build export)\<^sup>*\<^sup>* w (w\<lparr>runtime := rt', taken_in := taken_in w @ bs # ps\<rparr>)"
      using converse_rtranclp_into_rtranclp [of "shared_step build export", OF step n(1)] by simp
    with n(2-) ok(2,4) show ?thesis by (intro exI [of _ "Suc n"] exI [of _ "bs # ps"]) auto
  next
    case no
    have "map_err_act h (ingest r) (runtime w) = (Inl (h e), rt1)" using no(1) by (simp add: map_err_act_def)
    with Cons.prems(2) have "res = Inl (h e)" "rt' = rt1" by (auto simp: seq_act_def bind_act_def)
    with ingest_is_step [OF g no(1), of build export] no show ?thesis by (intro exI [of _ 0] exI [of _ "[]"]) auto
  qed
qed

end
