(* ===== verification/Transport_Tls.thy ===== *)
theory Transport_Tls
  imports Agent_Serve
begin

text \<open>
  The connections of the agent: files with certificates and keys, the TLS configuration of the two HTTP clients (the exporters of
  \<^verbatim>\<open>telemetry-exporters/src/lib.rs\<close> and the control client of \<^verbatim>\<open>control_client.rs\<close>) and of the receiver (\<^verbatim>\<open>otlp_http.rs\<close>), and what is
  written to a stream and read from it. The calls of \<^verbatim>\<open>rustls\<close>, \<^verbatim>\<open>rustls_pemfile\<close> and \<^verbatim>\<open>tokio\<close> are the fields of
  \<open>transport\<close>; nothing is assumed about them but where a hypothesis says so.
\<close>

record ('cert, 'key, 'roots, 'cfg, 'sni, 'tcp, 'tls) transport =
  open_pem :: "string \<Rightarrow> io_error + u8 list"
  pem_certs :: "u8 list \<Rightarrow> (string + 'cert) list"
  pem_private_key :: "u8 list \<Rightarrow> string + 'key option"
  empty_roots :: 'roots
  add_root :: "'roots \<Rightarrow> 'cert \<Rightarrow> string + 'roots"
  public_roots :: 'roots
  with_no_client_auth :: "'roots \<Rightarrow> 'cfg"
  with_client_auth_cert :: "'roots \<Rightarrow> 'cert list \<Rightarrow> 'key \<Rightarrow> string + 'cfg"
  parse_server_name :: "string \<Rightarrow> string + 'sni"
  tcp_connect :: "string \<Rightarrow> nat \<Rightarrow> io_error + 'tcp"
  tls_connect :: "'cfg \<Rightarrow> 'sni \<Rightarrow> 'tcp \<Rightarrow> io_error + 'tls"
  tcp_write :: "u8 list \<Rightarrow> ('tcp, io_error, unit) act"
  tcp_shutdown :: "('tcp, io_error, unit) act"
  tcp_read_to_end :: "('tcp, io_error, u8 list) act"
  tls_write :: "u8 list \<Rightarrow> ('tls, io_error, unit) act"
  tls_shutdown :: "('tls, io_error, unit) act"
  tls_read_to_end :: "('tls, io_error, u8 list) act"

text \<open>\<^verbatim>\<open>collect\<close> into a \<^verbatim>\<open>Result\<close>: the first error, or all values.\<close>

fun collect_results :: "('e + 'a) list \<Rightarrow> 'e + 'a list" where
  "collect_results [] = Inr []"
| "collect_results (r # rs) = res_bind r (\<lambda>x. res_bind (collect_results rs) (\<lambda>xs. Inr (x # xs)))"

text \<open>The loop that adds the certificates of a file to the roots.\<close>

fun add_roots :: "('roots \<Rightarrow> 'cert \<Rightarrow> string + 'roots) \<Rightarrow> 'roots \<Rightarrow> 'cert list \<Rightarrow> string + 'roots" where
  "add_roots add roots [] = Inr roots"
| "add_roots add roots (c # cs) = res_bind (add roots c) (\<lambda>roots'. add_roots add roots' cs)"

section \<open>The exporters\<close>

definition exporter_load_certificates ::
  "('cert, 'key, 'roots, 'cfg, 'sni, 'tcp, 'tls) transport \<Rightarrow> string \<Rightarrow> exporter_error + 'cert list" where
  "exporter_load_certificates t path =
     res_bind (map_err ExpIo (open_pem t path)) (\<lambda>bs.
     map_err (\<lambda>err. Tls (''failed to read certificate '' @ path @ '': '' @ err)) (collect_results (pem_certs t bs)))"

definition exporter_load_private_key ::
  "('cert, 'key, 'roots, 'cfg, 'sni, 'tcp, 'tls) transport \<Rightarrow> string \<Rightarrow> exporter_error + 'key" where
  "exporter_load_private_key t path =
     res_bind (map_err ExpIo (open_pem t path)) (\<lambda>bs.
     res_bind (map_err (\<lambda>err. Tls (''failed to read private key '' @ path @ '': '' @ err)) (pem_private_key t bs)) (\<lambda>key.
     ok_or (Tls (''private key not found in '' @ path)) key))"

definition exporter_client_tls_config ::
  "('cert, 'key, 'roots, 'cfg, 'sni, 'tcp, 'tls) transport \<Rightarrow> tls_config \<Rightarrow> exporter_error + 'cfg" where
  "exporter_client_tls_config t tls =
     res_bind
       (case ca_file tls of
          Some ca \<Rightarrow>
            res_bind (exporter_load_certificates t ca) (\<lambda>certs. map_err Tls (add_roots (add_root t) (empty_roots t) certs))
        | None \<Rightarrow> Inr (public_roots t)) (\<lambda>roots.
     case (cert_file tls, key_file tls) of
       (Some cert, Some key) \<Rightarrow>
         res_bind (exporter_load_certificates t cert) (\<lambda>certs.
         res_bind (exporter_load_private_key t key) (\<lambda>k.
         map_err Tls (with_client_auth_cert t roots certs k)))
     | _ \<Rightarrow> Inr (with_no_client_auth t roots))"

datatype ('tcp, 'tls) client_stream = PlainStream 'tcp | TlsStream 'tls

definition exporter_connect ::
  "('cert, 'key, 'roots, 'cfg, 'sni, 'tcp, 'tls) transport \<Rightarrow> export_endpoint \<Rightarrow> tls_config \<Rightarrow> exporter_error + ('tcp, 'tls) client_stream" where
  "exporter_connect t e tls =
     res_bind (map_err ExpIo (tcp_connect t (he_host e) (he_port e))) (\<lambda>tcp.
     case he_scheme e of
       PlainHttp \<Rightarrow> Inr (PlainStream tcp)
     | TlsHttps \<Rightarrow>
         res_bind (exporter_client_tls_config t tls) (\<lambda>cfg.
         res_bind (map_err Tls (parse_server_name t (unwrap_or (server_name tls) (he_host e)))) (\<lambda>sni.
         res_bind (map_err ExpIo (tls_connect t cfg sni tcp)) (\<lambda>stream. Inr (TlsStream stream)))))"

section \<open>Streams\<close>

text \<open>The methods of \<^verbatim>\<open>HttpStream\<close> and of \<^verbatim>\<open>ControlStream\<close>.\<close>

definition stream_write_all ::
  "('cert, 'key, 'roots, 'cfg, 'sni, 'tcp, 'tls) transport \<Rightarrow> u8 list \<Rightarrow> (('tcp, 'tls) client_stream, io_error, unit) act" where
  "stream_write_all t bs s =
     (case s of
        PlainStream x \<Rightarrow> map_prod id PlainStream (tcp_write t bs x)
      | TlsStream x \<Rightarrow> map_prod id TlsStream (tls_write t bs x))"

definition stream_shutdown ::
  "('cert, 'key, 'roots, 'cfg, 'sni, 'tcp, 'tls) transport \<Rightarrow> (('tcp, 'tls) client_stream, io_error, unit) act" where
  "stream_shutdown t s =
     (case s of
        PlainStream x \<Rightarrow> map_prod id PlainStream (tcp_shutdown t x)
      | TlsStream x \<Rightarrow> map_prod id TlsStream (tls_shutdown t x))"

definition stream_read_to_end ::
  "('cert, 'key, 'roots, 'cfg, 'sni, 'tcp, 'tls) transport \<Rightarrow> (('tcp, 'tls) client_stream, io_error, u8 list) act" where
  "stream_read_to_end t s =
     (case s of
        PlainStream x \<Rightarrow> map_prod id PlainStream (tcp_read_to_end t x)
      | TlsStream x \<Rightarrow> map_prod id TlsStream (tls_read_to_end t x))"

text \<open>Both clients write the head and the body of a request, close their side and read to the end.\<close>

definition exchange ::
  "('cert, 'key, 'roots, 'cfg, 'sni, 'tcp, 'tls) transport \<Rightarrow> u8 list \<Rightarrow> u8 list \<Rightarrow> (('tcp, 'tls) client_stream, io_error, u8 list) act" where
  "exchange t head bs =
     seq_act (stream_write_all t head) (seq_act (stream_write_all t bs) (seq_act (stream_shutdown t) (stream_read_to_end t)))"

text \<open>\<^verbatim>\<open>post_body\<close> of an exporter as it is on the stream.\<close>

definition post_on_stream ::
  "('cert, 'key, 'roots, 'cfg, 'sni, 'tcp, 'tls) transport \<Rightarrow> export_endpoint \<Rightarrow> string \<Rightarrow> string \<Rightarrow> u8 list \<Rightarrow> tls_config \<Rightarrow>
   (string \<times> string) list \<Rightarrow> exporter_error + unit" where
  "post_on_stream t e path content_type bs tls extra_headers =
     res_bind (exporter_connect t e tls) (\<lambda>stream.
     let headers = post_headers e path content_type extra_headers (length bs) in
     res_bind (map_err ExpIo (fst (exchange t (as_bytes headers) bs stream))) (\<lambda>response.
     res_bind (parse_http_status response) (\<lambda>status.
     if \<not> (200 \<le> status \<and> status < 300)
     then Inl (Grpc (''OTLP/HTTP export failed with HTTP status '' @ show_nat status))
     else Inr ())))"

section \<open>The control client\<close>

definition control_load_certificates ::
  "(io_error \<Rightarrow> string) \<Rightarrow> ('cert, 'key, 'roots, 'cfg, 'sni, 'tcp, 'tls) transport \<Rightarrow> string \<Rightarrow> string + 'cert list" where
  "control_load_certificates show_io t path =
     res_bind (map_err show_io (open_pem t path)) (\<lambda>bs.
     map_err (\<lambda>err. ''failed to read control TLS certificate '' @ path @ '': '' @ err) (collect_results (pem_certs t bs)))"

definition control_load_private_key ::
  "(io_error \<Rightarrow> string) \<Rightarrow> ('cert, 'key, 'roots, 'cfg, 'sni, 'tcp, 'tls) transport \<Rightarrow> string \<Rightarrow> string + 'key" where
  "control_load_private_key show_io t path =
     res_bind (map_err show_io (open_pem t path)) (\<lambda>bs.
     res_bind (map_err (\<lambda>err. ''failed to read control TLS private key '' @ path @ '': '' @ err) (pem_private_key t bs)) (\<lambda>key.
     ok_or (''private key not found in '' @ path) key))"

definition control_client_tls_config ::
  "(io_error \<Rightarrow> string) \<Rightarrow> ('cert, 'key, 'roots, 'cfg, 'sni, 'tcp, 'tls) transport \<Rightarrow> tls_config \<Rightarrow> string + 'cfg" where
  "control_client_tls_config show_io t tls =
     res_bind
       (case ca_file tls of
          Some ca \<Rightarrow>
            res_bind (control_load_certificates show_io t ca) (\<lambda>certs.
            map_err (\<lambda>err. ''invalid control CA file: '' @ err) (add_roots (add_root t) (empty_roots t) certs))
        | None \<Rightarrow> Inr (public_roots t)) (\<lambda>roots.
     case (cert_file tls, key_file tls) of
       (Some cert, Some key) \<Rightarrow>
         res_bind (control_load_certificates show_io t cert) (\<lambda>certs.
         res_bind (control_load_private_key show_io t key) (\<lambda>k.
         map_err (\<lambda>err. ''invalid control client cert/key: '' @ err) (with_client_auth_cert t roots certs k)))
     | _ \<Rightarrow> Inr (with_no_client_auth t roots))"

definition control_connect ::
  "(io_error \<Rightarrow> string) \<Rightarrow> ('cert, 'key, 'roots, 'cfg, 'sni, 'tcp, 'tls) transport \<Rightarrow> http_endpoint \<Rightarrow> tls_config \<Rightarrow>
   string + ('tcp, 'tls) client_stream" where
  "control_connect show_io t ep tls =
     res_bind (map_err show_io (tcp_connect t (ep_host ep) (ep_port ep))) (\<lambda>tcp.
     case ep_scheme ep of
       Http \<Rightarrow> Inr (PlainStream tcp)
     | Https \<Rightarrow>
         res_bind (control_client_tls_config show_io t tls) (\<lambda>cfg.
         res_bind (map_err (\<lambda>err. ''invalid control TLS server name: '' @ err)
             (parse_server_name t (unwrap_or (server_name tls) (ep_host ep)))) (\<lambda>sni.
         res_bind (map_err show_io (tls_connect t cfg sni tcp)) (\<lambda>stream. Inr (TlsStream stream)))))"

text \<open>\<^verbatim>\<open>post_json\<close> as it is on the stream.\<close>

definition post_json_on_stream ::
  "(io_error \<Rightarrow> string) \<Rightarrow> ('cert, 'key, 'roots, 'cfg, 'sni, 'tcp, 'tls) transport \<Rightarrow> 'v value_api \<Rightarrow> control_client \<Rightarrow> string \<Rightarrow> string \<Rightarrow>
   string + 'v" where
  "post_json_on_stream show_io t api cl path body_text =
     res_bind (render_post_request cl path body_text) (\<lambda>request.
     res_bind (map_err (\<lambda>err. ''failed to connect to control endpoint '' @ ep_host (cc_endpoint cl) @ '':'' @
         show_nat (ep_port (cc_endpoint cl)) @ '': '' @ err) (control_connect show_io t (cc_endpoint cl) (sec_tls (cc_security cl)))) (\<lambda>stream.
     res_bind (map_err show_io (fst (exchange t (as_bytes request) (as_bytes body_text) stream))) (\<lambda>bytes.
     res_bind (map_err show_utf8_error (from_utf8 bytes)) (\<lambda>response.
     parse_http_json_response api response))))"

section \<open>The receiver\<close>

definition receiver_load_certificates ::
  "(io_error \<Rightarrow> string) \<Rightarrow> ('cert, 'key, 'roots, 'cfg, 'sni, 'tcp, 'tls) transport \<Rightarrow> string \<Rightarrow> string + 'cert list" where
  "receiver_load_certificates show_io t path =
     res_bind (map_err show_io (open_pem t path)) (\<lambda>bs.
     map_err (\<lambda>err. ''failed to read certificate '' @ path @ '': '' @ err) (collect_results (pem_certs t bs)))"

definition receiver_load_private_key ::
  "(io_error \<Rightarrow> string) \<Rightarrow> ('cert, 'key, 'roots, 'cfg, 'sni, 'tcp, 'tls) transport \<Rightarrow> string \<Rightarrow> string + 'key" where
  "receiver_load_private_key show_io t path =
     res_bind (map_err show_io (open_pem t path)) (\<lambda>bs.
     res_bind (pem_private_key t bs) (\<lambda>key. ok_or (''private key not found in '' @ path) key))"

text \<open>\<^verbatim>\<open>build_tls_acceptor\<close> with its files; \<open>verifier\<close> and \<open>single_cert\<close> are the builders of \<^verbatim>\<open>rustls\<close>.\<close>

definition receiver_tls_acceptor ::
  "(io_error \<Rightarrow> string) \<Rightarrow> ('cert, 'key, 'roots, 'cfg, 'sni, 'tcp, 'tls) transport \<Rightarrow> ('roots \<Rightarrow> string + 'ver) \<Rightarrow>
   ('ver option \<Rightarrow> 'cert list \<Rightarrow> 'key \<Rightarrow> string + 'acc) \<Rightarrow> tls_config \<Rightarrow> string + 'acc" where
  "receiver_tls_acceptor show_io t verifier single_cert tls =
     build_tls_acceptor (receiver_load_certificates show_io t) (receiver_load_private_key show_io t)
       (\<lambda>certs. res_bind (add_roots (add_root t) (empty_roots t) certs) verifier) single_cert tls"

end
