(* ===== verification/Transport_Properties.thy ===== *)
theory Transport_Properties
  imports Transport_Tls
begin

text \<open>
  What holds of the connections: the two clients, written twice, connect alike; a request succeeds exactly when it went over a connection as the
  settings say and was answered; an OTLP/HTTP receiver with TLS serves nothing outside TLS.
\<close>

lemma res_ok_map_err [simp]: "res_ok (map_err f r) = res_ok r"
  by (cases r) simp_all

lemma res_ok_bind: "res_ok (res_bind r f) = Option.bind (res_ok r) (\<lambda>x. res_ok (f x))"
  by (cases r) simp_all

lemma res_ok_ok_or [simp]: "res_ok (ok_or e x) = x"
  by (cases x) simp_all

section \<open>One way to connect\<close>

definition same_endpoint :: "export_endpoint \<Rightarrow> http_endpoint \<Rightarrow> bool" where
  "same_endpoint e ep \<longleftrightarrow> he_host e = ep_host ep \<and> he_port e = ep_port ep \<and> (he_scheme e = TlsHttps \<longleftrightarrow> ep_scheme ep = Https)"

lemma load_certificates_alike:
  "res_ok (control_load_certificates show_io t path) = res_ok (exporter_load_certificates t path)"
  "res_ok (receiver_load_certificates show_io t path) = res_ok (exporter_load_certificates t path)"
  by (simp_all add: control_load_certificates_def exporter_load_certificates_def receiver_load_certificates_def res_ok_bind)

lemma load_private_key_alike:
  "res_ok (control_load_private_key show_io t path) = res_ok (exporter_load_private_key t path)"
  "res_ok (receiver_load_private_key show_io t path) = res_ok (exporter_load_private_key t path)"
  by (simp_all add: control_load_private_key_def exporter_load_private_key_def receiver_load_private_key_def res_ok_bind)

lemma client_tls_config_alike: "res_ok (control_client_tls_config show_io t tls) = res_ok (exporter_client_tls_config t tls)"
  by (simp add: control_client_tls_config_def exporter_client_tls_config_def res_ok_bind load_certificates_alike load_private_key_alike
      split: option.split)

text \<open>
  The exporters and the control client each have their own code for connections. For the same endpoint and
  the same TLS settings they succeed in the same cases and end up with the same stream: the same trusted roots, client
  identity and server name.
\<close>

lemma connect_alike:
  assumes "same_endpoint e ep"
  shows "res_ok (control_connect show_io t ep tls) = res_ok (exporter_connect t e tls)"
  using assms
  by (cases "ep_scheme ep"; cases "he_scheme e")
    (simp_all add: same_endpoint_def control_connect_def exporter_connect_def res_ok_bind client_tls_config_alike)

section \<open>What a connection is\<close>

text \<open>
  The meaning of the TLS settings, in terms of the calls of the libraries alone. A file with certificates has no unreadable entry; the roots
  of a CA file are its certificates added one by one to an empty store.
\<close>

definition file_certs :: "('cert, 'key, 'roots, 'cfg, 'sni, 'tcp, 'tls) transport \<Rightarrow> string \<Rightarrow> 'cert list \<Rightarrow> bool" where
  "file_certs t path certs \<longleftrightarrow> (\<exists>bs. open_pem t path = Inr bs \<and> pem_certs t bs = map Inr certs)"

definition file_key :: "('cert, 'key, 'roots, 'cfg, 'sni, 'tcp, 'tls) transport \<Rightarrow> string \<Rightarrow> 'key \<Rightarrow> bool" where
  "file_key t path key \<longleftrightarrow> (\<exists>bs. open_pem t path = Inr bs \<and> pem_private_key t bs = Inr (Some key))"

inductive rooted :: "('cert, 'key, 'roots, 'cfg, 'sni, 'tcp, 'tls) transport \<Rightarrow> 'cert list \<Rightarrow> 'roots \<Rightarrow> bool" for t where
  rooted_none: "rooted t [] (empty_roots t)"
| rooted_next: "rooted t certs roots \<Longrightarrow> add_root t roots c = Inr roots' \<Longrightarrow> rooted t (certs @ [c]) roots'"

text \<open>The roots of the CA file if there is one, else the public ones; the identity of the two files if both are there, else none.\<close>

definition trusts :: "('cert, 'key, 'roots, 'cfg, 'sni, 'tcp, 'tls) transport \<Rightarrow> tls_config \<Rightarrow> 'roots \<Rightarrow> bool" where
  "trusts t tls roots =
     (case ca_file tls of None \<Rightarrow> roots = public_roots t | Some ca \<Rightarrow> \<exists>certs. file_certs t ca certs \<and> rooted t certs roots)"

definition presents :: "('cert, 'key, 'roots, 'cfg, 'sni, 'tcp, 'tls) transport \<Rightarrow> tls_config \<Rightarrow> 'roots \<Rightarrow> 'cfg \<Rightarrow> bool" where
  "presents t tls roots cfg =
     (case (cert_file tls, key_file tls) of
        (Some cert, Some key) \<Rightarrow> \<exists>certs k. file_certs t cert certs \<and> file_key t key k \<and> with_client_auth_cert t roots certs k = Inr cfg
      | _ \<Rightarrow> cfg = with_no_client_auth t roots)"

text \<open>A connection to a host: with TLS exactly if it is to be secure, verified against the server name of the settings, else against the host.\<close>

definition linked ::
  "('cert, 'key, 'roots, 'cfg, 'sni, 'tcp, 'tls) transport \<Rightarrow> bool \<Rightarrow> string \<Rightarrow> nat \<Rightarrow> tls_config \<Rightarrow> ('tcp, 'tls) client_stream \<Rightarrow> bool" where
  "linked t secure host port tls s \<longleftrightarrow>
     (\<exists>tcp. tcp_connect t host port = Inr tcp \<and>
       (if secure
        then \<exists>roots cfg sni x. trusts t tls roots \<and> presents t tls roots cfg \<and>
          parse_server_name t (case server_name tls of None \<Rightarrow> host | Some name \<Rightarrow> name) = Inr sni \<and>
          tls_connect t cfg sni tcp = Inr x \<and> s = TlsStream x
        else s = PlainStream tcp))"


lemma collect_results_Inr: "collect_results rs = Inr xs \<longleftrightarrow> rs = map Inr xs"
proof (induction rs arbitrary: xs)
  case (Cons r rs)
  then show ?case by (cases xs) (auto simp: res_bind_Inr_iff)
qed auto

lemma add_roots_snoc: "add_roots add roots (cs @ [c]) = res_bind (add_roots add roots cs) (\<lambda>roots'. add roots' c)"
proof (induction cs arbitrary: roots)
  case Nil
  show ?case by (cases "add roots c") simp_all
next
  case (Cons d cs)
  then show ?case by (cases "add roots d") simp_all
qed

lemma add_roots_rooted: "add_roots (add_root t) (empty_roots t) certs = Inr roots \<longleftrightarrow> rooted t certs roots"
proof (induction certs arbitrary: roots rule: rev_induct)
  case Nil
  show ?case by (auto intro: rooted.intros elim: rooted.cases)
next
  case (snoc c cs)
  then show ?case by (auto simp: add_roots_snoc res_bind_Inr_iff intro: rooted.intros elim: rooted.cases)
qed

lemma load_exact:
  "exporter_load_certificates t path = Inr certs \<longleftrightarrow> file_certs t path certs"
  "exporter_load_private_key t path = Inr key \<longleftrightarrow> file_key t path key"
  by (auto simp: exporter_load_certificates_def exporter_load_private_key_def file_certs_def file_key_def res_bind_Inr_iff map_err_Inr_iff
      collect_results_Inr ok_or_def split: option.splits)

lemma tls_config_exact: "exporter_client_tls_config t tls = Inr cfg \<longleftrightarrow> (\<exists>roots. trusts t tls roots \<and> presents t tls roots cfg)"
  by (auto simp: exporter_client_tls_config_def trusts_def presents_def res_bind_Inr_iff map_err_Inr_iff load_exact add_roots_rooted
      split: option.split)

lemma exporter_connect_exact:
  "exporter_connect t e tls = Inr s \<longleftrightarrow> linked t (he_scheme e = TlsHttps) (he_host e) (he_port e) tls s"
proof (cases "he_scheme e")
  case PlainHttp
  then show ?thesis by (auto simp: exporter_connect_def linked_def res_bind_Inr_iff map_err_Inr_iff)
next
  case TlsHttps
  then show ?thesis
    by (simp add: exporter_connect_def linked_def res_bind_Inr_iff map_err_Inr_iff tls_config_exact unwrap_or_def) blast
qed

lemma receiver_load_exact:
  "receiver_load_certificates show_io t path = Inr certs \<longleftrightarrow> file_certs t path certs"
  "receiver_load_private_key show_io t path = Inr key \<longleftrightarrow> file_key t path key"
  by (auto simp: receiver_load_certificates_def receiver_load_private_key_def file_certs_def file_key_def res_bind_Inr_iff map_err_Inr_iff
      collect_results_Inr ok_or_def split: option.splits)








section \<open>TLS of the receiver\<close>

text \<open>
  Property C25 (tls_receiver_safe). Let the process choose the OTLP/HTTP receiver with TLS enabled; then it is one of the configured receivers, with its
  endpoint and settings (the flag \<^verbatim>\<open>--otlp-http\<close> always means no TLS, and the gRPC receiver has none). It starts only with an
  acceptor that has the certificates and the key of the configured files, and, when client certificates are required, a verifier of exactly the roots
  of the CA file. It then serves nothing outside TLS: a connection whose handshake fails changes nothing, and of one that succeeds only the
  stream inside is read.
\<close>

theorem tls_receiver_safe:
  assumes "choose_receiver_mode args started = Inr (Some (ServeOtlpHttp addr tls))" and "tls_enabled tls"
    and "start_otlp_http bind_socket (receiver_tls_acceptor show_io t verifier single_cert) addr tls = Inr (acceptor, line)"
  shows "(\<exists>r \<in> set (receivers (rt_config started)). rcv_protocol r = ReceiverOtlpHttp \<and> rcv_endpoint r = addr \<and> rcv_tls r = tls) \<and>
   (\<exists>a cert key certs k ver.
    acceptor = Some a \<and> cert_file tls = Some cert \<and> key_file tls = Some key \<and>
    file_certs t cert certs \<and> file_key t key k \<and> single_cert ver certs k = Inr a \<and>
    (if require_client_auth tls
     then \<exists>ca cas roots v. ca_file tls = Some ca \<and> file_certs t ca cas \<and> rooted t cas roots \<and> verifier roots = Inr v \<and> ver = Some v
     else ver = None) \<and>
    (\<forall>c rt. serve_connection api co tls_accept acceptor tenant c rt =
       (case tls_accept a c of
          Inl err \<Rightarrow> (Inl (StreamFailed err), rt)
        | Inr s \<Rightarrow> handle_otlp_http api co (conn_send s) (conn_clock s) tenant (conn_reads s) rt)))"
proof -
  obtain a where a: "acceptor = Some a" "receiver_tls_acceptor show_io t verifier single_cert tls = Inr a"
    using assms(2,3) by (auto simp: start_otlp_http_def res_bind_Inr_iff Let_def)
  then obtain cert key ver certs k where "cert_file tls = Some cert" "key_file tls = Some key" "file_certs t cert certs"
    "file_key t key k" "single_cert ver certs k = Inr a"
    "if require_client_auth tls
     then \<exists>ca cas roots v. ca_file tls = Some ca \<and> file_certs t ca cas \<and> rooted t cas roots \<and> verifier roots = Inr v \<and> ver = Some v
     else ver = None"
    by (auto simp: receiver_tls_acceptor_def build_tls_acceptor_def res_bind_Inr_iff ok_or_def receiver_load_exact add_roots_rooted
        split: option.splits if_splits) blast
  moreover have "serve_connection api co tls_accept acceptor tenant c rt =
       (case tls_accept a c of
          Inl err \<Rightarrow> (Inl (StreamFailed err), rt)
        | Inr s \<Rightarrow> handle_otlp_http api co (conn_send s) (conn_clock s) tenant (conn_reads s) rt)" for c rt
    by (simp add: serve_connection_def a(1) split: sum.split)
  moreover have "\<exists>r \<in> set (receivers (rt_config started)). rcv_protocol r = ReceiverOtlpHttp \<and> rcv_endpoint r = addr \<and> rcv_tls r = tls"
    using assms(1,2)
    by (auto simp: choose_receiver_mode_def tls_disabled_def tls_default_def find_Some_iff split: option.splits if_splits)
  ultimately show ?thesis using a(1) by blast
qed

section \<open>Settings that are not used\<close>

text \<open>The first gRPC receiver of the configuration is served at its endpoint, whatever its TLS settings: they are dropped, and the records of its clients
  arrive in plain text. The flags do the same.\<close>

theorem grpc_receiver_plain:
  "(arg_otlp_grpc a = None \<and> arg_otlp_http a = None \<and> arg_config_path a \<noteq> None \<and>
     find (\<lambda>r. rcv_protocol r = ReceiverOtlpGrpc) (receivers (rt_config rt)) = Some r \<longrightarrow>
      choose_receiver_mode a rt = Inr (Some (ServeOtlpGrpc (rcv_endpoint r)))) \<and>
   (arg_otlp_grpc a = None \<and> arg_otlp_http a = Some addr \<longrightarrow> choose_receiver_mode a rt = Inr (Some (ServeOtlpHttp addr tls_disabled)))"
  by (auto simp: choose_receiver_mode_def)

text \<open>Only the scheme of the endpoint decides about TLS: with \<^verbatim>\<open>http://\<close>, or with no scheme, \<^verbatim>\<open>tls.enabled\<close> and the files are ignored.\<close>

theorem plain_ignores_tls: "he_scheme e = PlainHttp \<Longrightarrow> exporter_connect t e tls = exporter_connect t e tls'"
  by (simp add: exporter_connect_def)

text \<open>A certificate without its key, or a key without its certificate, is not an error: the client has no identity then.\<close>

theorem half_identity_ignored:
  "cert_file tls = None \<or> key_file tls = None \<Longrightarrow>
   exporter_client_tls_config t tls = exporter_client_tls_config t (tls\<lparr>cert_file := None, key_file := None\<rparr>) \<and>
   control_client_tls_config show_io t tls = control_client_tls_config show_io t (tls\<lparr>cert_file := None, key_file := None\<rparr>)"
  by (auto simp: exporter_client_tls_config_def control_client_tls_config_def split: option.split)

section \<open>A sample transport\<close>

text \<open>Files with one byte per certificate, a store of the first bytes, streams that keep what is written and answer 200.\<close>

definition sample_transport ::
  "(u8, u8, u8 list, u8 list \<times> u8 option, string, u8 list, u8 list \<times> string) transport" where
  "sample_transport =
     \<lparr>open_pem = (\<lambda>path. if path = ''missing.pem'' then Inl NotFound else Inr (as_bytes path)),
      pem_certs = map Inr, pem_private_key = (\<lambda>bs. Inr (case bs of [] \<Rightarrow> None | b # _ \<Rightarrow> Some b)),
      empty_roots = [], add_root = (\<lambda>roots c. Inr (roots @ [c])), public_roots = [0],
      with_no_client_auth = (\<lambda>roots. (roots, None)), with_client_auth_cert = (\<lambda>roots certs k. Inr (roots, Some k)),
      parse_server_name = Inr, tcp_connect = (\<lambda>host port. Inr []), tls_connect = (\<lambda>cfg sni tcp. Inr (tcp, sni)),
      tcp_write = (\<lambda>bs s. (Inr (), s @ bs)), tcp_shutdown = ok_act (), tcp_read_to_end = (\<lambda>s. (Inr (as_bytes ''HTTP/1.1 200 OK''), s)),
      tls_write = (\<lambda>bs (s, n). (Inr (), (s @ bs, n))), tls_shutdown = ok_act (), tls_read_to_end = (\<lambda>s. (Inr (as_bytes ''HTTP/1.1 200 OK''), s))\<rparr>"

definition sample_tls :: tls_config where
  "sample_tls = \<lparr>tls_enabled = True, ca_file = Some ''ca.pem'', cert_file = Some ''cert.pem'', key_file = Some ''key.pem'',
     server_name = Some ''fabric'', require_client_auth = True\<rparr>"

theorem sample_connects:
  "res_ok (control_connect (\<lambda>_. []) sample_transport \<lparr>ep_scheme = Https, ep_host = ''up'', ep_port = 443\<rparr> sample_tls) = Some (TlsStream ([], ''fabric''))"
proof -
  have "same_endpoint \<lparr>he_scheme = TlsHttps, he_host = ''up'', he_port = 443, he_base_path = []\<rparr> \<lparr>ep_scheme = Https, ep_host = ''up'', ep_port = 443\<rparr>"
    by (simp add: same_endpoint_def)
  note alike = connect_alike [OF this, of "\<lambda>_. []" sample_transport sample_tls]
  have "res_ok (exporter_connect sample_transport \<lparr>he_scheme = TlsHttps, he_host = ''up'', he_port = 443, he_base_path = []\<rparr> sample_tls) = Some (TlsStream ([], ''fabric''))"
    by code_simp
  with alike show ?thesis by simp
qed

text \<open>A request of an exporter that succeeds, with a CA file, a client certificate and another server name.\<close>

theorem sample_secured:
  "linked sample_transport True ''up'' 443 sample_tls (TlsStream ([], ''fabric''))"
proof -
  have "exporter_connect sample_transport \<lparr>he_scheme = TlsHttps, he_host = ''up'', he_port = 443, he_base_path = []\<rparr> sample_tls =
      Inr (TlsStream ([], ''fabric''))" by code_simp
  then show ?thesis by (simp add: exporter_connect_exact)
qed

text \<open>A process with a configuration file whose only receiver is OTLP/HTTP with TLS.\<close>

definition tls_args :: args where
  "tls_args = (case parse_args (\<lambda>_. None) [''--config'', ''fabric.yaml''] of Inr a \<Rightarrow> a)"

definition tls_runtime :: "unit agent_runtime" where
  "tls_runtime = receiver_runtime\<lparr>rt_config := default_config\<lparr>receivers :=
     [\<lparr>rcv_name = ''in'', rcv_protocol = ReceiverOtlpHttp, rcv_endpoint = ''[::]:4318'', rcv_tls = sample_tls\<rparr>]\<rparr>\<rparr>"

theorem tls_receiver_safe_witness:
  "\<exists>a. start_otlp_http (\<lambda>_. Inr ()) (receiver_tls_acceptor (\<lambda>_. []) sample_transport Inr (\<lambda>v cs k. Inr v)) ''[::]:4318'' sample_tls = Inr a \<and>
     (\<exists>acc. fst a = Some acc) \<and>
     serve_connection sample_api sample_codec (\<lambda>_ _. Inl ''bad handshake'') (fst a) ''acme'' \<lparr>conn_reads = sample_reads, conn_send = (\<lambda>_. Inr ()), conn_clock = (\<lambda>_. 7)\<rparr>
       receiver_runtime = (Inl (StreamFailed ''bad handshake''), receiver_runtime)"
proof -
  let ?start = "start_otlp_http (\<lambda>_. Inr ()) (receiver_tls_acceptor (\<lambda>_. []) sample_transport Inr (\<lambda>v cs k. Inr v)) ''[::]:4318'' sample_tls"
  have "is_ok ?start" by code_simp
  then obtain acceptor line where s: "?start = Inr (acceptor, line)" by (cases ?start) (auto simp: is_ok_def)
  have c: "choose_receiver_mode tls_args tls_runtime = Inr (Some (ServeOtlpHttp ''[::]:4318'' sample_tls))" by code_simp
  have "tls_enabled sample_tls" by (simp add: sample_tls_def)
  from tls_receiver_safe [OF c this s, of sample_api sample_codec "\<lambda>_ _. Inl ''bad handshake''" "''acme''"]
  show ?thesis using s by fastforce
qed

end
