(* ===== verification/Serve_Properties.thy ===== *)
theory Serve_Properties
  imports Agent_Serve
begin

text \<open>
  What the clients of a running agent can rely on: whatever the interleaving of requests, flushes, reloads and probes, the
  records of an answered request are in the queue or were committed after export, once and in order.
\<close>

section \<open>What the process relies on of a receiver\<close>

text \<open>Of a request that was served: the payloads it put into the queue are those of its first records, all of them if it was acknowledged.\<close>

definition served_as :: "('c \<Rightarrow> telemetry_record list) \<Rightarrow> ('a \<Rightarrow> bool) \<Rightarrow> 'c \<times> 'a \<times> u8 list list \<Rightarrow> bool" where
  "served_as wanted acked = (\<lambda>(c, a, ps).
     \<exists>n \<le> length (wanted c). map Inr ps = map encode (take n (wanted c)) \<and> (acked a \<longrightarrow> n = length (wanted c)))"

definition all_served :: "('x, 'c, 'a) serving \<Rightarrow> u8 list list" where
  "all_served s = concat (map (\<lambda>(c, a, ps). ps) (sv_served s))"

definition answers_ok :: "string \<Rightarrow> bool" where
  "answers_ok answer = starts_with ''HTTP/1.1 200 OK'' answer"

lemma probe_answer: "answers_ok (serve_health_connection show_io rd rt)"
  by (simp add: answers_ok_def serve_health_connection_def handle_health_def health_answer_def starts_with_def)

definition serving_ok :: "('c \<Rightarrow> telemetry_record list) \<Rightarrow> ('a \<Rightarrow> bool) \<Rightarrow> u8 list list \<Rightarrow> ('x, 'c, 'a) serving \<Rightarrow> bool" where
  "serving_ok wanted acked start s \<longleftrightarrow>
     world_ok start (sv_world s) \<and> taken_in (sv_world s) = all_served s \<and> list_all (served_as wanted acked) (sv_served s) \<and>
     list_all answers_ok (sv_probes s)"

locale request_server =
  fixes handle :: "'c \<Rightarrow> 'x agent_runtime \<Rightarrow> 'a \<times> 'x agent_runtime" and wanted :: "'c \<Rightarrow> telemetry_record list"
    and acked :: "'a \<Rightarrow> bool" and err :: "agent_error \<Rightarrow> 'e"
  assumes handle_ingests: "handle c rt = (a, rt') \<Longrightarrow>
    \<exists>res. each_act (\<lambda>r. map_err_act err (ingest r)) (wanted c) rt = (res, rt') \<and> (acked a \<longrightarrow> res = Inr ())"
begin

text \<open>The turn of a task is a run of \<open>shared_step\<close>.\<close>

lemma handled_steps:
  assumes "world_ok start w" and "active_segment_id (rt_queue (runtime w)) + Suc (length (wanted c)) < u64_max"
    and "handle c (runtime w) = (a, rt')"
  shows "(shared_step build export)\<^sup>*\<^sup>* w (w\<lparr>runtime := rt', taken_in := taken_in w @ put_in (runtime w) rt'\<rparr>) \<and>
    served_as wanted acked (c, a, put_in (runtime w) rt')"
proof -
  obtain res where run: "each_act (\<lambda>r. map_err_act err (ingest r)) (wanted c) (runtime w) = (res, rt')" "acked a \<longrightarrow> res = Inr ()"
    using handle_ingests [OF assms(3)] by blast
  have "room_for (Suc (length (wanted c))) (runtime w)" using world_okD(6,7) [OF assms(1)] assms(2) by (simp add: room_for_def)
  from each_ingest_steps [OF this run(1), of build export] obtain n ps where
    n: "(shared_step build export)\<^sup>*\<^sup>* w (w\<lparr>runtime := rt', taken_in := taken_in w @ ps\<rparr>)" "n \<le> length (wanted c)"
    "map Inr ps = map encode (take n (wanted c))" "pending (rt_queue rt') = pending (rt_queue (runtime w)) @ ps"
    "n = length (wanted c) \<longleftrightarrow> res = Inr ()" by blast
  have "put_in (runtime w) rt' = ps" using n(4) by (simp add: put_in_def)
  then show ?thesis using n run(2) by (auto simp: served_as_def)
qed

text \<open>Every step of the process is none, one or several of \<open>shared_step\<close>: the process refines the shared flush.\<close>

lemma step_simulated:
  assumes "serve_step build export show_io handle wanted s s'" and "serving_ok wanted acked start s"
  shows "(shared_step build export)\<^sup>*\<^sup>* (sv_world s) (sv_world s')"
  using assms
proof cases
  case (handled i c a rt')
  then show ?thesis using handled_steps [where w = "sv_world s" and start = start] assms(2) by (auto simp: serving_ok_def)
qed (use assms in auto)

lemma step_ok:
  assumes "serve_step build export show_io handle wanted s s'" and "builds_all build" and "serving_ok wanted acked start s"
  shows "serving_ok wanted acked start s'"
proof -
  have w: "world_ok start (sv_world s')"
    using shared_run_ok [OF step_simulated [OF assms(1,3)] assms(2)] assms(3) by (simp add: serving_ok_def)
  from assms(1) show ?thesis
  proof cases
    case (handled i c a rt')
    have "served_as wanted acked (c, a, put_in (runtime (sv_world s)) rt')"
      using handled_steps [where w = "sv_world s" and start = start] handled assms(3) by (simp add: serving_ok_def)
    then show ?thesis using w handled(1) assms(3) by (simp add: serving_ok_def all_served_def)
  qed (use w assms(3) probe_answer in \<open>auto simp: serving_ok_def all_served_def\<close>)
qed

lemma run_ok:
  "(serve_step build export show_io handle wanted)\<^sup>*\<^sup>* s s' \<Longrightarrow> builds_all build \<Longrightarrow> serving_ok wanted acked start s \<Longrightarrow>
   serving_ok wanted acked start s'"
  by (induction rule: rtranclp_induct) (auto intro: step_ok)

lemma run_simulated:
  assumes "(serve_step build export show_io handle wanted)\<^sup>*\<^sup>* s s'" and "builds_all build" and "serving_ok wanted acked start s"
  shows "(shared_step build export)\<^sup>*\<^sup>* (sv_world s) (sv_world s')"
  using assms(1)
proof (induction rule: rtranclp_induct)
  case (step t t')
  then show ?case using step_simulated [OF step.hyps(2) run_ok [OF step.hyps(1) assms(2,3)]] by (simp add: rtranclp_trans)
qed simp

lemma listening_ok:
  assumes "runtime_ok rt" and "\<not> flush_in_progress rt"
  shows "serving_ok wanted acked (pending (rt_queue rt)) (listening rt)"
  using idle_world_ok [OF assms] by (simp add: serving_ok_def listening_def all_served_def idle_world_def)

lemma served_exactly:
  assumes "runtime_ok rt" and "\<not> flush_in_progress rt" and "builds_all build"
    and "(serve_step build export show_io handle wanted)\<^sup>*\<^sup>* (listening rt) s"
  shows "pending (rt_queue rt) @ all_served s = committed (sv_world s) @ pending (rt_queue (runtime (sv_world s))) \<and>
    list_all (served_as wanted acked) (sv_served s) \<and> list_all answers_ok (sv_probes s)"
  using run_ok [OF assms(4,3) listening_ok [OF assms(1,2)]] by (auto simp: serving_ok_def world_ok_def)

end

section \<open>The receivers keep the contract\<close>

text \<open>The records a connection asks to be stored, and the answers that say that they are.\<close>

definition http_wanted ::
  "'f proto_api \<Rightarrow> 'f receiver_codec \<Rightarrow> ('acc \<Rightarrow> connection \<Rightarrow> string + connection) \<Rightarrow> 'acc option \<Rightarrow> string \<Rightarrow> connection \<Rightarrow> telemetry_record list" where
  "http_wanted api co tls_accept acceptor tenant c =
     (case (case acceptor of Some a \<Rightarrow> tls_accept a c | None \<Rightarrow> Inr c) of
        Inl _ \<Rightarrow> []
      | Inr stream \<Rightarrow>
          (case request_records api co (conn_clock stream) tenant (conn_reads stream) of None \<Rightarrow> [] | Some (_, _, rs) \<Rightarrow> rs))"

definition http_acked :: "http_failure + u8 list \<Rightarrow> bool" where
  "http_acked a = (case a of Inl _ \<Rightarrow> False | Inr bs \<Rightarrow> \<not> refusal bs)"

lemma handle_ingests_all:
  assumes "handle_otlp_http api co send clock tenant reads rt = (a, rt')"
  shows "\<exists>res. each_act (\<lambda>r. map_err_act IngestFailed (ingest r))
      (case request_records api co clock tenant reads of None \<Rightarrow> [] | Some (_, _, rs) \<Rightarrow> rs) rt = (res, rt') \<and>
    (http_acked a \<longrightarrow> res = Inr ())"
proof (cases "request_records api co clock tenant reads")
  case None
  obtain status ct bs where "handle_otlp_http api co send clock tenant reads rt = respond send (CHR ''4'' # status) ct bs rt"
    using handle_refused [OF None] by blast
  with assms respond_refusal [of send status ct bs rt] have "rt' = rt" "\<not> http_acked a"
    by (auto simp: http_acked_def split: sum.split)
  with None show ?thesis by simp
next
  case (Some krs)
  obtain kind req rs where krs: "krs = (kind, req, rs)" by (cases krs)
  obtain r1 rt1 where run: "each_act (\<lambda>r. map_err_act IngestFailed (ingest r)) rs rt = (r1, rt1)"
    by (cases "each_act (\<lambda>r. map_err_act IngestFailed (ingest r)) rs rt")
  show ?thesis using assms handle_served [OF Some [unfolded krs], of send rt] run Some krs by (cases r1) (auto simp: http_acked_def)
qed

interpretation http_server: request_server "serve_connection api co tls_accept acceptor tenant" "http_wanted api co tls_accept acceptor tenant"
    http_acked IngestFailed
  for api co tls_accept acceptor tenant
proof unfold_locales
  fix c a and rt rt' :: "'x agent_runtime"
  assume s: "serve_connection api co tls_accept acceptor tenant c rt = (a, rt')"
  show "\<exists>res. each_act (\<lambda>r. map_err_act IngestFailed (ingest r)) (http_wanted api co tls_accept acceptor tenant c) rt = (res, rt') \<and>
    (http_acked a \<longrightarrow> res = Inr ())"
  proof (cases "case acceptor of Some a \<Rightarrow> tls_accept a c | None \<Rightarrow> Inr c")
    case (Inl e)
    then show ?thesis using s by (auto simp: serve_connection_def http_wanted_def http_acked_def split: option.splits sum.splits)
  next
    case (Inr stream)
    then have "handle_otlp_http api co (conn_send stream) (conn_clock stream) tenant (conn_reads stream) rt = (a, rt')"
      using s by (auto simp: serve_connection_def split: option.splits)
    from handle_ingests_all [OF this] show ?thesis by (simp add: http_wanted_def Inr)
  qed
qed

definition grpc_wanted :: "'f proto_api \<Rightarrow> string \<Rightarrow> 'f grpc_request \<Rightarrow> telemetry_record list" where
  "grpc_wanted api tenant call =
     (case call of
        TraceCall clock req \<Rightarrow> trace_request_to_records api clock tenant req
      | MetricsCall clock req \<Rightarrow> metrics_request_to_records api clock tenant req
      | LogsCall clock req \<Rightarrow> logs_request_to_records api clock tenant req)"

interpretation grpc_server: request_server "serve_call api show_io tenant" "grpc_wanted api tenant" is_ok
    "\<lambda>e. ResourceExhausted (show_agent_error show_io e)"
  for api show_io tenant
proof unfold_locales
  fix c a and rt rt' :: "'x agent_runtime"
  assume "serve_call api show_io tenant c rt = (a, rt')"
  then have "each_act (\<lambda>r. map_err_act (\<lambda>e. ResourceExhausted (show_agent_error show_io e)) (ingest r)) (grpc_wanted api tenant c) rt = (a, rt')"
    by (cases c) (simp_all add: serve_call_def grpc_wanted_def grpc_export_traces_def grpc_export_metrics_def grpc_export_logs_def grpc_ingest_def)
  then show "\<exists>res. each_act (\<lambda>r. map_err_act (\<lambda>e. ResourceExhausted (show_agent_error show_io e)) (ingest r)) (grpc_wanted api tenant c) rt = (res, rt') \<and>
    (is_ok a \<longrightarrow> res = Inr ())" by (cases a) (auto simp: is_ok_def)
qed

section \<open>From the command line to the answer\<close>

lemma start_serving_ok:
  assumes "sound_queue q" and "builds_all (exporter_factory p)" and "run p values (dir q) = (Inr (Serving m st), d)"
    and "max_queue_bytes (limits (rt_config (start_runtime st))) \<le> max_offset"
  shows "runtime_ok (start_runtime st) \<and> \<not> flush_in_progress (start_runtime st) \<and> pending (rt_queue (start_runtime st)) = pending q"
proof -
  obtain cfg rt d1 where rt: "runtime_open (exporter_factory p) cfg default_disk_queue_options (dir q) = (Inr rt, d1)" "start_runtime st = rt"
    by (rule run_serving [OF assms(3)]) blast
  show ?thesis using runtime_open_sound [OF assms(1,2) rt(1)] rt(2) assms(4) by (auto simp: runtime_ok_def)
qed

text \<open>
  Property C5 (acknowledged_kept). The process starts on the directory of a sound queue with the exporters of its configuration and
  serves OTLP/HTTP. In whatever order connections are accepted and served, flushes prepare, export and commit, the
  configuration is reloaded, exports are paused and probes arrive: what an earlier process had queued, followed by what the requests put in,
  is what was committed after export, followed by what is queued now. A request with an answer that is no refusal has all its
  records there, any other the first so many; and the health endpoint answers 200.
\<close>

theorem acknowledged_kept:
  assumes "sound_queue q" and "exporter_factory p = agent_build show_io open_append stdout"
    and "run p values (dir q) = (Inr (Serving m st), d)" and "max_queue_bytes (limits (rt_config (start_runtime st))) \<le> max_offset"
    and "(serve_step (agent_build show_io open_append stdout) (agent_export show_io worlds cuts) show_io
      (serve_connection api co tls_accept acceptor tenant) (http_wanted api co tls_accept acceptor tenant))\<^sup>*\<^sup>* (listening (start_runtime st)) s"
  shows "pending q @ all_served s = committed (sv_world s) @ pending (rt_queue (runtime (sv_world s))) \<and>
    list_all (served_as (http_wanted api co tls_accept acceptor tenant) http_acked) (sv_served s) \<and> list_all answers_ok (sv_probes s)"
proof -
  have "builds_all (exporter_factory p)" unfolding assms(2) by (rule agent_builds_all)
  from start_serving_ok [OF assms(1) this assms(3,4)]
  show ?thesis using http_server.served_exactly [OF _ _ agent_builds_all assms(5)] by simp
qed

text \<open>
  Property C6 (calls_kept). The same for the gRPC receiver: under every interleaving nothing is lost or doubled between the queue and the
  committed batches, and a call that returns success has all its records there.
\<close>

theorem calls_kept:
  assumes "sound_queue q" and "exporter_factory p = agent_build show_io open_append stdout"
    and "run p values (dir q) = (Inr (Serving m st), d)" and "max_queue_bytes (limits (rt_config (start_runtime st))) \<le> max_offset"
    and "(serve_step (agent_build show_io open_append stdout) (agent_export show_io worlds cuts) show_io
      (serve_call api show_io tenant) (grpc_wanted api tenant))\<^sup>*\<^sup>* (listening (start_runtime st)) s"
  shows "pending q @ all_served s = committed (sv_world s) @ pending (rt_queue (runtime (sv_world s))) \<and>
    list_all (served_as (grpc_wanted api tenant) is_ok) (sv_served s)"
proof -
  have "builds_all (exporter_factory p)" unfolding assms(2) by (rule agent_builds_all)
  from start_serving_ok [OF assms(1) this assms(3,4)]
  show ?thesis using grpc_server.served_exactly [OF _ _ agent_builds_all assms(5)] by simp
qed

section \<open>A sample process\<close>

type_synonym plain_exporter = "(unit, unit) running_exporter"

definition plain_build :: "plain_exporter build_fn" where
  "plain_build = agent_build (\<lambda>_. []) (\<lambda>_. Inl NotFound) ()"

definition plain_worlds :: "nat \<Rightarrow> (int, unit, unit) export_world" where
  "plain_worlds k =
     \<lparr>ew_api = sample_api, ew_codecs = silent_codecs, ew_write = (\<lambda>_. ok_act ()), ew_flush = ok_act (), ew_net = (\<lambda>_ _. Inl (Grpc [])),
      ew_stubs = \<lparr>connect_client = (\<lambda>_. Inl []), call_traces = (\<lambda>_ _. Inl []), call_metrics = (\<lambda>_ _. Inl []), call_logs = (\<lambda>_ _. Inl [])\<rparr>\<rparr>"

definition plain_process :: "plain_exporter surroundings" where
  "plain_process =
     \<lparr>env_vars = (\<lambda>_. None), pkg_version = ''0.1.0'', file_text = (\<lambda>_. Inl ''not found''),
      yaml_config = (\<lambda>_. Inl ''not yaml''), io_text = (\<lambda>_. ''error''), exporter_factory = plain_build,
      export_call = (\<lambda>batch x. (Exported \<lparr>report_records = length batch, report_bytes = 0\<rparr>, x)),
      start_clock = (\<lambda>_ _. 0), wall_clock = 7\<rparr>"

definition starts_fresh :: "(string + 'x run_outcome) \<times> disk \<Rightarrow> bool" where
  "starts_fresh r = (case r of
     (Inr (Serving m st), _) \<Rightarrow> active_segment_id (rt_queue (start_runtime st)) < 10 \<and> max_queue_bytes (limits (rt_config (start_runtime st))) \<le> max_offset
   | _ \<Rightarrow> False)"

lemma starts_freshD: "starts_fresh r \<Longrightarrow> \<exists>m st d. r = (Inr (Serving m st), d) \<and>
    active_segment_id (rt_queue (start_runtime st)) < 10 \<and> max_queue_bytes (limits (rt_config (start_runtime st))) \<le> max_offset"
  by (auto simp: starts_fresh_def split: sum.splits prod.splits run_outcome.splits)

text \<open>One connection is accepted and served.\<close>

lemma one_served:
  fixes handle :: "'c \<Rightarrow> 'x agent_runtime \<Rightarrow> 'a \<times> 'x agent_runtime"
  assumes "active_segment_id (rt_queue rt) + Suc (length (wanted c)) < u64_max"
  shows "\<exists>s ps a. (serve_step build export show_io handle wanted)\<^sup>*\<^sup>* (listening rt) s \<and> sv_served s = [(c, a, ps)] \<and> tasks (sv_world s) = Map.empty"
proof -
  let ?S = "serve_step build export show_io handle wanted" and ?s0 = "listening rt :: ('x, 'c, 'a) serving"
  let ?s1 = "?s0\<lparr>sv_open := (sv_open ?s0)(0 \<mapsto> c)\<rparr>"
  have s1: "?S ?s0 ?s1" by (rule serve_step.accept) (simp add: listening_def)
  obtain a rt' where h: "handle c (runtime (sv_world ?s1)) = (a, rt')" by (cases "handle c (runtime (sv_world ?s1))")
  have "sv_open ?s1 0 = Some c" by simp
  moreover have "active_segment_id (rt_queue (runtime (sv_world ?s1))) + Suc (length (wanted c)) < u64_max"
    using assms by (simp add: listening_def idle_world_def)
  ultimately have s2: "?S ?s1 (?s1\<lparr>sv_world := (sv_world ?s1)\<lparr>runtime := rt', taken_in := taken_in (sv_world ?s1) @ put_in (runtime (sv_world ?s1)) rt'\<rparr>,
         sv_open := (sv_open ?s1)(0 := None), sv_served := sv_served ?s1 @ [(c, a, put_in (runtime (sv_world ?s1)) rt')]\<rparr>)"
    using h by (rule serve_step.handled)
  then show ?thesis
    using rtranclp.rtrancl_into_rtrancl [of ?S, OF r_into_rtranclp [of ?S, OF s1] s2]
    by (fastforce simp: listening_def idle_world_def)
qed

lemma fresh_sound_queue: "sound_queue (fresh_queue default_disk_queue_options)" "pending (fresh_queue default_disk_queue_options) = []"
  using fresh_queue_ok by (simp_all add: sound_queue_def fresh_queue_def)

definition sample_connection :: connection where
  "sample_connection = \<lparr>conn_reads = sample_reads, conn_send = (\<lambda>_. Inr ()), conn_clock = (\<lambda>_. 7)\<rparr>"

lemma sample_connection_wanted: "length (http_wanted sample_api sample_codec tls_accept None ''acme'' sample_connection) = 1"
proof -
  have "length sample_logs = 1" by code_simp
  then show ?thesis using sample_logs_request by (simp add: http_wanted_def sample_connection_def)
qed

lemma plain_starts_fresh: "starts_fresh (run plain_process [''--otlp-http'', ''[::]:4318''] (dir (fresh_queue default_disk_queue_options)))"
  by code_simp

theorem acknowledged_kept_witness:
  "\<exists>(s :: (plain_exporter, connection, http_failure + u8 list) serving) a ps. sv_served s = [(sample_connection, a, ps)] \<and>
     ps = committed (sv_world s) @ pending (rt_queue (runtime (sv_world s))) \<and> list_all answers_ok (sv_probes s)"
proof -
  let ?q = "fresh_queue default_disk_queue_options"
  let ?wanted = "http_wanted sample_api sample_codec (\<lambda>(_ :: unit) _. Inl []) None ''acme''"
  obtain m st d where r: "run plain_process [''--otlp-http'', ''[::]:4318''] (dir ?q) = (Inr (Serving m st), d)"
    "active_segment_id (rt_queue (start_runtime st)) < 10" "max_queue_bytes (limits (rt_config (start_runtime st))) \<le> max_offset"
    using starts_freshD [OF plain_starts_fresh] by blast
  have "active_segment_id (rt_queue (start_runtime st)) + Suc (length (?wanted sample_connection)) < u64_max" using r(2) by (simp add: sample_connection_wanted)
  from one_served [where wanted = ?wanted and c = sample_connection, OF this, of plain_build "agent_export (\<lambda>_. []) plain_worlds (\<lambda>_ _. None)" "\<lambda>_. []" "serve_connection sample_api sample_codec (\<lambda>(_ :: unit) _. Inl []) None ''acme''"]
  obtain s a ps where s: "(serve_step plain_build (agent_export (\<lambda>_. []) plain_worlds (\<lambda>_ _. None)) (\<lambda>_. [])
      (serve_connection sample_api sample_codec (\<lambda>(_ :: unit) _. Inl []) None ''acme'') ?wanted)\<^sup>*\<^sup>* (listening (start_runtime st)) s"
    "sv_served s = [(sample_connection, a, ps)]" by blast
  have "exporter_factory plain_process = agent_build (\<lambda>_. []) (\<lambda>_. Inl NotFound) ()" by (simp add: plain_process_def plain_build_def)
  from acknowledged_kept [OF fresh_sound_queue(1) this r(1,3) s(1) [unfolded plain_build_def]] s(2) show ?thesis
    by (intro exI [of _ s] exI [of _ a] exI [of _ ps]) (simp add: all_served_def fresh_sound_queue(2))
qed

theorem calls_kept_witness:
  "\<exists>(s :: (plain_exporter, int grpc_request, grpc_status + unit) serving) a ps.
     sv_served s = [(LogsCall (\<lambda>_. 7) [\<lparr>resource_of = None, scopes_of = [\<lparr>scope_name_of = None, items_of = [sample_log_message]\<rparr>]\<rparr>], a, ps)] \<and>
     ps = committed (sv_world s) @ pending (rt_queue (runtime (sv_world s)))"
proof -
  let ?q = "fresh_queue default_disk_queue_options" and ?wanted = "grpc_wanted sample_api ''acme''"
  let ?call = "LogsCall (\<lambda>_. 7) [\<lparr>resource_of = None, scopes_of = [\<lparr>scope_name_of = None, items_of = [sample_log_message]\<rparr>]\<rparr>]"
  have "starts_fresh (run plain_process [''--otlp-grpc'', ''[::]:4317''] (dir ?q))" by code_simp
  then obtain m st d where r: "run plain_process [''--otlp-grpc'', ''[::]:4317''] (dir ?q) = (Inr (Serving m st), d)"
    "active_segment_id (rt_queue (start_runtime st)) < 10" "max_queue_bytes (limits (rt_config (start_runtime st))) \<le> max_offset"
    using starts_freshD by blast
  have "length sample_logs = 1" by code_simp
  then have "length (?wanted ?call) = 1" by (simp add: grpc_wanted_def sample_logs_def)
  with r(2) have "active_segment_id (rt_queue (start_runtime st)) + Suc (length (?wanted ?call)) < u64_max" by simp
  from one_served [where wanted = ?wanted and c = ?call, OF this, of plain_build "agent_export (\<lambda>_. []) plain_worlds (\<lambda>_ _. None)" "\<lambda>_. []" "serve_call sample_api (\<lambda>_. []) ''acme''"]
  obtain s a ps where s: "(serve_step plain_build (agent_export (\<lambda>_. []) plain_worlds (\<lambda>_ _. None)) (\<lambda>_. [])
      (serve_call sample_api (\<lambda>_. []) ''acme'') ?wanted)\<^sup>*\<^sup>* (listening (start_runtime st)) s" "sv_served s = [(?call, a, ps)]" by blast
  have "exporter_factory plain_process = agent_build (\<lambda>_. []) (\<lambda>_. Inl NotFound) ()" by (simp add: plain_process_def plain_build_def)
  from calls_kept [OF fresh_sound_queue(1) this r(1,3) s(1) [unfolded plain_build_def]] s(2) show ?thesis
    by (intro exI [of _ s] exI [of _ a] exI [of _ ps]) (simp add: all_served_def fresh_sound_queue(2))
qed

end
