(* ===== verification/Agent_Drain.thy ===== *)
theory Agent_Drain
  imports Agent_Properties Shared_Properties "HOL-Library.Sublist"
begin

text \<open>
  The two drains of \<^verbatim>\<open>main.rs\<close> (\<^verbatim>\<open>drain_for_shutdown\<close> and the loop of \<^verbatim>\<open>drain_and_exit\<close>) while the other tasks of the process go on:
  receivers ingest, the flush worker flushes, the control worker reloads, pauses and resumes. A round of a drain is a forced flush task among
  the tasks of \<open>shared_step\<close>; \<open>drain_step\<close> adds the loop around it. The functions of \<open>Agent_Control\<close> are the runs in which no other
  task has a turn.
\<close>

section \<open>A drain among other tasks\<close>

text \<open>Between two rounds, in the flush task of a round, or over.\<close>

datatype drain_phase = NextRound | InRound nat | Over drain_end

text \<open>
  The loop: a round spawns a flush that also runs while exports are paused; a flush that took records leads to the next round, one that took none ends
  the drain, and so does an error. The deadline may pass at any moment (only \<^verbatim>\<open>drain_for_shutdown\<close> has one). All other tasks, and the task of the
  round itself, take their steps in between and afterwards, for example while the acknowledgement is sent before the process exits.
\<close>

inductive drain_step :: "'x build_fn \<Rightarrow> 'x export_fn \<Rightarrow> usize \<Rightarrow> 'x world \<times> drain_phase \<Rightarrow> 'x world \<times> drain_phase \<Rightarrow> bool"
  for build export n where
  tasks_run: "shared_step build export w w' \<Longrightarrow> drain_step build export n (w, ph) (w', ph)"
| round: "tasks w i = None \<Longrightarrow>
    drain_step build export n (w, NextRound) (w\<lparr>tasks := (tasks w)(i \<mapsto> Waiting n True)\<rparr>, InRound i)"
| took_some: "tasks w i = Some (Finished (Inr report)) \<Longrightarrow> drained_records report \<noteq> 0 \<Longrightarrow>
    drain_step build export n (w, InRound i) (w, NextRound)"
| took_none: "tasks w i = Some (Finished (Inr report)) \<Longrightarrow> drained_records report = 0 \<Longrightarrow>
    drain_step build export n (w, InRound i) (w, Over QueueEmpty)"
| flush_failed: "tasks w i = Some (Finished (Inl err)) \<Longrightarrow>
    drain_step build export n (w, InRound i) (w, Over (FlushFailed err))"
| deadline: "(\<forall>e. ph \<noteq> Over e) \<Longrightarrow> drain_step build export n (w, ph) (w, Over (log_shutdown_drain_timeout (runtime w)))"

section \<open>The drain on its own\<close>

text \<open>A shared flush with no other task in between is a run of one flush task.\<close>

lemma flush_task_run:
  assumes "flush_shared_inner export clock n force (runtime w) = Some (res, rt')" and "tasks w i = Some (Waiting n force)"
  shows "\<exists>w'. (shared_step build export)\<^sup>*\<^sup>* w w' \<and> runtime w' = rt' \<and> tasks w' = (tasks w)(i \<mapsto> Finished res)"
proof -
  let ?S = "shared_step build export"
  obtain out rt1 where p: "prepare_shared_flush clock n force (runtime w) = (out, rt1)" by (cases "prepare_shared_flush clock n force (runtime w)")
  consider (wait) "out = TryAgain" | (err) e where "out = Returned (Inl e)" | (none) "out = Returned (Inr None)"
    | (some) pf where "out = Returned (Inr (Some pf))"
    by (metis prepare_round.exhaust sum.exhaust option.exhaust)
  then show ?thesis
  proof cases
    case wait
    then show ?thesis using assms(1) p by (simp add: flush_shared_inner_def)
  next
    case err
    with assms(1) p have "res = Inl e" "rt' = rt1" by (simp_all add: flush_shared_inner_def)
    with r_into_rtranclp [of ?S, OF shared_step.give_up [OF assms(2) p [unfolded err]]] show ?thesis
      by (intro exI [of _ "w\<lparr>runtime := rt1, tasks := (tasks w)(i \<mapsto> Finished res)\<rparr>"]) simp
  next
    case none
    with assms(1) p have "res = Inr default_flush_report" "rt' = rt1" by (simp_all add: flush_shared_inner_def)
    with r_into_rtranclp [of ?S, OF shared_step.nothing [OF assms(2) p [unfolded none]]] show ?thesis
      by (intro exI [of _ "w\<lparr>runtime := rt1, tasks := (tasks w)(i \<mapsto> Finished res)\<rparr>"]) simp
  next
    case some
    obtain er es where e: "export_records export (pf_config pf) (pf_records pf) (pf_exporters pf) = (er, es)"
      by (cases "export_records export (pf_config pf) (pf_records pf) (pf_exporters pf)")
    have f: "finish_shared_flush pf er es rt1 = (res, rt')" using assms(1) p some e by (simp add: flush_shared_inner_def)
    let ?w1 = "w\<lparr>runtime := rt1, tasks := (tasks w)(i \<mapsto> Exporting pf)\<rparr>"
    have s1: "?S w ?w1" by (rule shared_step.prepare [OF assms(2) p [unfolded some]])
    have t1: "tasks ?w1 i = Some (Exporting pf)" "finish_shared_flush pf er es (runtime ?w1) = (res, rt')" using f by simp_all
    note s2 = shared_step.finish [OF t1(1) e t1(2), of build]
    show ?thesis by (intro exI conjI, rule rtranclp.rtrancl_into_rtrancl [of ?S, OF r_into_rtranclp [of ?S, OF s1] s2]) simp_all
  qed
qed

lemma drain_tasks_run: "(shared_step build export)\<^sup>*\<^sup>* w w' \<Longrightarrow> (drain_step build export n)\<^sup>*\<^sup>* (w, ph) (w', ph)"
  by (induction rule: rtranclp_induct) (auto intro: drain_step.tasks_run rtranclp.rtrancl_into_rtrancl)

lemma drain_round_run:
  assumes "flush_for_shutdown_shared export clock n (runtime w) = Some (res, rt')" and "tasks w i = None"
  shows "\<exists>w'. (drain_step build export n)\<^sup>*\<^sup>* (w, NextRound) (w', InRound i) \<and> runtime w' = rt' \<and> tasks w' = (tasks w)(i \<mapsto> Finished res)"
proof -
  let ?D = "drain_step build export n" and ?w1 = "w\<lparr>tasks := (tasks w)(i \<mapsto> Waiting n True)\<rparr>"
  have "?D (w, NextRound) (?w1, InRound i)" by (rule drain_step.round [OF assms(2)])
  moreover obtain w' where "(shared_step build export)\<^sup>*\<^sup>* ?w1 w'" "runtime w' = rt'" "tasks w' = (tasks ?w1)(i \<mapsto> Finished res)"
    using flush_task_run [of export clock n True ?w1 res rt' i build] assms(1) by (auto simp: flush_for_shutdown_shared_def)
  ultimately show ?thesis
    using converse_rtranclp_into_rtranclp [of ?D "(w, NextRound)" "(?w1, InRound i)" "(w', InRound i)"] drain_tasks_run [of build export ?w1 w' n "InRound i"]
    by (intro exI [of _ w']) simp
qed

text \<open>The drain at shutdown, as \<open>Agent_Control\<close> has it, is such a run.\<close>

lemma shutdown_rounds_run:
  assumes "shutdown_rounds export clocks n deadline now race k rt = Some (e, rt')" and "idle_runtime rt" and "0 < n"
    and "runtime w = rt" and "\<forall>j \<ge> k. tasks w j = None"
  shows "\<exists>w'. (drain_step build export n)\<^sup>*\<^sup>* (w, NextRound) (w', Over e) \<and> runtime w' = rt'"
  using assms
proof (induction rt arbitrary: k w rule: measure_induct_rule [where f = "\<lambda>rt. length (pending (rt_queue rt))"])
  case (less rt)
  let ?D = "drain_step build export n"
  note run = less.prems(1) [unfolded shutdown_rounds.simps [of export clocks n deadline now race k rt]]
  have k: "tasks w k = None" using less.prems(5) by simp
  have cut: ?case if "e = log_shutdown_drain_timeout rt" "rt' = rt"
  proof -
    have "?D (w, NextRound) (w, Over (log_shutdown_drain_timeout (runtime w)))" by (rule drain_step.deadline) simp
    then show ?thesis using that less.prems(4) by (auto intro: r_into_rtranclp [of ?D])
  qed
  consider "deadline - now k = 0 \<or> race k = CutWaiting" | "deadline - now k \<noteq> 0" "race k = CutExporting"
    | "deadline - now k \<noteq> 0" "race k = InTime" by (cases "race k") auto
  then show ?case
  proof cases
    case 1
    then have "e = log_shutdown_drain_timeout rt" "rt' = rt" using run by (auto split: if_splits)
    then show ?thesis by (rule cut)
  next
    case 2
    then have p: "\<exists>out. prepare_shared_flush (clocks k) n True rt = (out, rt')" "e = log_shutdown_drain_timeout rt'"
      using run by (auto split: prod.splits)
    let ?w1 = "w\<lparr>tasks := (tasks w)(k \<mapsto> Waiting n True)\<rparr>"
    have s1: "?D (w, NextRound) (?w1, InRound k)" by (rule drain_step.round [OF k])
    have t1: "tasks ?w1 k = Some (Waiting n True)" by simp
    obtain w2 where s2: "shared_step build export ?w1 w2" "runtime w2 = rt'"
    proof -
      obtain out where p': "prepare_shared_flush (clocks k) n True (runtime ?w1) = (out, rt')" using p(1) less.prems(4) by auto
      consider (wait) "out = TryAgain" | (err) e where "out = Returned (Inl e)" | (none) "out = Returned (Inr None)"
        | (some) pf where "out = Returned (Inr (Some pf))"
        by (metis prepare_round.exhaust sum.exhaust option.exhaust)
      then show thesis
      proof cases
        case wait then show thesis using that [OF shared_step.busy [OF t1 p' [unfolded wait]]] by simp
      next
        case err then show thesis using that [OF shared_step.give_up [OF t1 p' [unfolded err]]] by simp
      next
        case none then show thesis using that [OF shared_step.nothing [OF t1 p' [unfolded none]]] by simp
      next
        case some then show thesis using that [OF shared_step.prepare [OF t1 p' [unfolded some]]] by simp
      qed
    qed
    have s3: "?D (w2, InRound k) (w2, Over e)" using drain_step.deadline [of "InRound k" build export n w2] s2(2) p(2) by simp
    have "?D\<^sup>*\<^sup>* (w, NextRound) (w2, Over e)"
      by (rule rtranclp.rtrancl_into_rtrancl [OF rtranclp.rtrancl_into_rtrancl [OF r_into_rtranclp [of ?D, OF s1] drain_step.tasks_run [OF s2(1)]] s3])
    then show ?thesis using s2(2) by blast
  next
    case 3
    obtain res rt1 where f: "flush_for_shutdown_shared export (clocks k) n rt = Some (res, rt1)" "idle_runtime rt1"
      "case res of Inl e \<Rightarrow> pending (rt_queue rt1) = pending (rt_queue rt)
       | Inr report \<Rightarrow> pending (rt_queue rt1) = drop n (pending (rt_queue rt)) \<and>
           drained_records report = length (take n (pending (rt_queue rt)))"
      by (rule shutdown_flush [OF less.prems(2)])
    obtain w1 where w1: "?D\<^sup>*\<^sup>* (w, NextRound) (w1, InRound k)" "runtime w1 = rt1" "tasks w1 = (tasks w)(k \<mapsto> Finished res)"
      using drain_round_run [of export "clocks k" n w res rt1 k build] f(1) k less.prems(4) by blast
    have t1: "tasks w1 k = Some (Finished res)" using w1(3) by simp
    show ?thesis
    proof (cases res)
      case (Inl err)
      then have "e = FlushFailed err" "rt' = rt1" using run 3 f(1) by auto
      moreover have "?D (w1, InRound k) (w1, Over (FlushFailed err))" using t1 Inl by (auto intro: drain_step.flush_failed)
      ultimately show ?thesis using rtranclp.rtrancl_into_rtrancl [of ?D, OF w1(1)] w1(2) by blast
    next
      case (Inr report)
      show ?thesis
      proof (cases "drained_records report = 0")
        case True
        then have "e = QueueEmpty" "rt' = rt1" using run 3 f(1) Inr by auto
        moreover have "?D (w1, InRound k) (w1, Over QueueEmpty)" using t1 Inr True by (auto intro: drain_step.took_none)
        ultimately show ?thesis using rtranclp.rtrancl_into_rtrancl [of ?D, OF w1(1)] w1(2) by blast
      next
        case False
        have "shutdown_rounds export clocks n deadline now race (Suc k) rt1 = Some (e, rt')"
          using run 3 f(1) Inr False by auto
        moreover have "length (pending (rt_queue rt1)) < length (pending (rt_queue rt))" using f(3) Inr False assms(3) by auto
        moreover have "\<forall>j \<ge> Suc k. tasks w1 j = None" using w1(3) less.prems(5) by simp
        ultimately obtain w' where "?D\<^sup>*\<^sup>* (w1, NextRound) (w', Over e)" "runtime w' = rt'"
          using less.IH [of rt1 "Suc k" w1] f(2) assms(3) w1(2) by blast
        moreover have "?D (w1, InRound k) (w1, NextRound)" using t1 Inr False by (auto intro: drain_step.took_some)
        ultimately show ?thesis
          using rtranclp_trans [of ?D, OF rtranclp.rtrancl_into_rtrancl [of ?D, OF w1(1)]] by blast
      qed
    qed
  qed
qed

text \<open>On an idle runtime the drain at shutdown with no other task in between is one of the runs of the drain among other tasks.\<close>

theorem shutdown_is_run:
  assumes "idle_runtime rt" and "0 < n" and "drain_for_shutdown export clocks n timeout started now race rt = Some (e, rt')"
  shows "\<exists>w. (drain_step build export n)\<^sup>*\<^sup>* (idle_world rt, NextRound) (w, Over e) \<and> runtime w = rt'"
  using shutdown_rounds_run [OF assms(3) [unfolded drain_for_shutdown_def] assms(1,2), of "idle_world rt"] by (simp add: idle_world_def)

section \<open>What the end of a drain says\<close>

lemma prepare_report:
  assumes "prepare_shared_flush clock n force rt = (Returned (Inr (Some pf)), rt')"
  shows "drained_records (pf_report pf) \<noteq> 0"
proof -
  obtain rb q1 where rb: "read_batch n (rt_queue rt) = (rb, q1)" by (cases "read_batch n (rt_queue rt)")
  obtain b where b: "rb = Inr b" using assms rb
    by (cases rb) (auto simp: prepare_shared_flush_def prepare_flush_work_def section_simps split: if_splits)
  obtain rp c1 where rp: "process_payloads clock (payloads b) (rt_processors rt) = (rp, c1)"
    by (cases "process_payloads clock (payloads b) (rt_processors rt)")
  have "payloads b \<noteq> [] \<and> pf_report pf = default_flush_report\<lparr>drained_records := length (payloads b), report_dropped_records := report_dropped_records (pf_report pf)\<rparr>"
    using assms rb b rp
    by (cases rp; cases "commit_batch b q1"; cases "fst (commit_batch b q1)")
      (auto simp: prepare_shared_flush_def prepare_flush_work_def section_simps split: if_splits)
  then obtain d where "payloads b \<noteq> []" "pf_report pf = default_flush_report\<lparr>drained_records := length (payloads b), report_dropped_records := d\<rparr>" by blast
  then show ?thesis by simp
qed

lemma finish_report:
  "finish_shared_flush pf result es rt = (Inr report, rt') \<Longrightarrow> drained_records report = drained_records (pf_report pf)"
  by (auto simp: finish_shared_flush_def Let_def split: sum.splits prod.splits)

text \<open>A forced flush that finds nothing found an empty queue.\<close>

lemma forced_nothing:
  assumes s: "sound_queue (rt_queue rt)" and n: "0 < n" and p: "prepare_shared_flush clock n True rt = (Returned (Inr None), rt')"
  shows "pending (rt_queue rt) = []"
proof -
  obtain b where b: "read_batch n (rt_queue rt) = (Inr b, rt_queue rt)" "payloads b = take n (pending (rt_queue rt))" using sound_read [OF s] by blast
  obtain rp c1 where rp: "process_payloads clock (payloads b) (rt_processors rt) = (rp, c1)"
    by (cases "process_payloads clock (payloads b) (rt_processors rt)")
  have "payloads b = []"
  proof (rule ccontr)
    assume "payloads b \<noteq> []"
    with p b(1) rp show False
      by (cases rp) (auto simp: prepare_shared_flush_def prepare_flush_work_def section_simps split: if_splits)
  qed
  then show ?thesis using b(2) n by simp
qed

lemma shared_step_mono:
  assumes "shared_step build export w w'"
  shows "prefix (taken_in w) (taken_in w') \<and> prefix (committed w) (committed w')"
  using assms by (induction rule: shared_step.induct) auto

lemma shared_run_mono: "(shared_step build export)\<^sup>*\<^sup>* w w' \<Longrightarrow> prefix (taken_in w) (taken_in w') \<and> prefix (committed w) (committed w')"
  by (induction rule: rtranclp_induct) (auto dest: shared_step_mono intro: prefix_order.trans)

text \<open>The task of a round: it waits, exports a batch that is not empty, or has finished; and once a round took nothing, all of \<open>before\<close> is committed.\<close>

definition round_ok :: "usize \<Rightarrow> u8 list list \<Rightarrow> 'x world \<Rightarrow> 'x flush_task option \<Rightarrow> bool" where
  "round_ok n before w task \<longleftrightarrow>
     task = Some (Waiting n True) \<or> (\<exists>pf. task = Some (Exporting pf) \<and> drained_records (pf_report pf) \<noteq> 0) \<or>
     (\<exists>res. task = Some (Finished res) \<and> (\<forall>report. res = Inr report \<and> drained_records report = 0 \<longrightarrow> prefix before (committed w)))"

definition drain_ok :: "usize \<Rightarrow> u8 list list \<Rightarrow> u8 list list \<Rightarrow> 'x world \<times> drain_phase \<Rightarrow> bool" where
  "drain_ok n start before = (\<lambda>(w, ph). world_ok start w \<and> prefix before (start @ taken_in w) \<and>
     (case ph of NextRound \<Rightarrow> True | InRound i \<Rightarrow> round_ok n before w (tasks w i) | Over e \<Rightarrow> e = QueueEmpty \<longrightarrow> prefix before (committed w)))"

lemma round_ok_step:
  assumes "shared_step build export w w'" and "0 < n" and "world_ok start w" and "prefix before (start @ taken_in w)"
    and "round_ok n before w (tasks w i)"
  shows "round_ok n before w' (tasks w' i)"
proof -
  have keep: "round_ok n before w' (tasks w' i)" if "tasks w' i = tasks w i"
    using assms(5) that shared_step_mono [OF assms(1)] prefix_order.trans unfolding round_ok_def by metis
  from assms(1) show ?thesis
  proof cases
    case (spawn j m force)
    then have "tasks w i \<noteq> None" using assms(5) by (auto simp: round_ok_def)
    then show ?thesis using spawn keep by (cases "j = i") simp_all
  next
    case (prepare j m force clock pf rt')
    then show ?thesis using prepare_report [OF prepare(3)] keep by (cases "j = i") (simp_all add: round_ok_def)
  next
    case none: (nothing j m force clock rt')
    show ?thesis
    proof (cases "j = i")
      case True
      then have "m = n" "force" using none(2) assms(5) by (auto simp: round_ok_def)
      then have "pending (rt_queue (runtime w)) = []"
        using forced_nothing [OF world_okD(6) [OF assms(3)] assms(2)] none(3) by simp
      then have "prefix before (committed w)" using world_okD(2) [OF assms(3)] assms(4) by simp
      then show ?thesis using True none(1) by (simp add: round_ok_def)
    qed (use none keep in simp)
  next
    case (give_up j m force clock err rt')
    then show ?thesis using keep by (cases "j = i") (simp_all add: round_ok_def)
  next
    case (finish j pf result es out rt')
    show ?thesis
    proof (cases "j = i")
      case True
      then have "drained_records (pf_report pf) \<noteq> 0" using finish(2) assms(5) by (auto simp: round_ok_def)
      then show ?thesis using True finish(1) finish_report [of pf result es "runtime w"] finish(4) by (auto simp: round_ok_def)
    qed (use finish keep in simp)
  qed (use keep in auto)
qed

lemma drain_step_ok:
  assumes "drain_step build export n x y" and "builds_all build" and "0 < n" and "drain_ok n start before x"
  shows "drain_ok n start before y"
  using assms
proof (induction rule: drain_step.induct)
  case (tasks_run w w' ph)
  have w: "world_ok start w" "prefix before (start @ taken_in w)" using tasks_run(4) by (simp_all add: drain_ok_def)
  have "world_ok start w'" by (rule shared_step_ok [OF tasks_run(1,2) w(1)])
  moreover have m: "prefix (taken_in w) (taken_in w')" "prefix (committed w) (committed w')" using shared_step_mono [OF tasks_run(1)] by auto
  have "prefix before (start @ taken_in w')" using w(2) m(1) by (meson prefix_order.trans same_prefix_prefix)
  ultimately show ?case
    using tasks_run(4) m(2) round_ok_step [OF tasks_run(1,3) w] by (auto simp: drain_ok_def split: drain_phase.splits intro: prefix_order.trans)
next
  case (round w i)
  then show ?case using world_ok_spawn [of start w i n True] by (simp add: drain_ok_def round_ok_def)
qed (auto simp: drain_ok_def round_ok_def log_shutdown_drain_timeout_def)

lemma drain_run_ok:
  "(drain_step build export n)\<^sup>*\<^sup>* x y \<Longrightarrow> builds_all build \<Longrightarrow> 0 < n \<Longrightarrow> drain_ok n start before x \<Longrightarrow> drain_ok n start before y"
  by (induction rule: rtranclp_induct) (auto intro: drain_step_ok)

text \<open>
  Property C13 (drain_complete). The process runs, and at some moment a drain begins, for a signal or for a \<^verbatim>\<open>drain_and_restart\<close> command, while all other
  tasks go on: receivers ingest, other flushes run, configurations are reloaded, exports are paused and resumed. If the drain ends because the
  queue is empty, then everything that was in the queue when the process started and everything it had accepted when the drain
  began has been committed after a successful flush, in order; this still holds when the process exits later. (What arrives during the drain may stay in the queue.)
\<close>

theorem drain_complete:
  assumes "runtime_ok rt" and "\<not> flush_in_progress rt" and "builds_all build" and "0 < n"
    and "(shared_step build export)\<^sup>*\<^sup>* (idle_world rt) begun"
    and "(drain_step build export n)\<^sup>*\<^sup>* (begun, NextRound) (w, Over QueueEmpty)"
  shows "prefix (pending (rt_queue rt) @ taken_in begun) (committed w)"
proof -
  have "world_ok (pending (rt_queue rt)) begun" by (rule shared_run_ok [OF assms(5,3) idle_world_ok [OF assms(1,2)]])
  then have "drain_ok n (pending (rt_queue rt)) (pending (rt_queue rt) @ taken_in begun) (begun, NextRound)" by (simp add: drain_ok_def)
  from drain_run_ok [OF assms(6,3,4) this] show ?thesis by (simp add: drain_ok_def)
qed

text \<open>The drain of a runtime with one queued record, on its own.\<close>

theorem drain_complete_witness:
  "\<exists>w :: unit world. (drain_step build_units steady 10)\<^sup>*\<^sup>* (idle_world Shared_Properties.sample_runtime, NextRound) (w, Over QueueEmpty) \<and>
     prefix [sample_payload] (committed w)"
proof -
  let ?rt = "Shared_Properties.sample_runtime"
  have i: "idle_runtime ?rt" using sample_queue by (simp add: idle_runtime_def)
  have "map_option fst (drain_for_shutdown steady (\<lambda>_ _ _. 0) 10 30000 0 (\<lambda>k. 50 * k) (\<lambda>_. InTime) ?rt) = Some QueueEmpty" by code_simp
  then obtain rt' where "drain_for_shutdown steady (\<lambda>_ _ _. 0) 10 30000 0 (\<lambda>k. 50 * k) (\<lambda>_. InTime) ?rt = Some (QueueEmpty, rt')" by auto
  from shutdown_is_run [OF i _ this, of build_units] obtain w where
    w: "(drain_step build_units steady 10)\<^sup>*\<^sup>* (idle_world ?rt, NextRound) (w, Over QueueEmpty)" by auto
  from drain_complete [OF sample_runtime_ok _ build_units_all _ rtranclp.rtrancl_refl w] sample_queue
  have "prefix [sample_payload] (committed w)" by (simp add: idle_world_def)
  with w show ?thesis by blast
qed

end
