(* ===== verification/Agent_Process.thy ===== *)
theory Agent_Process
  imports Serve_Properties Agent_Drain
begin

text \<open>
  The life of a process (\<^verbatim>\<open>crates/telemetry-agent/src/main.rs\<close>): the text of \<^verbatim>\<open>--help\<close>, the signals that end it, and what the
  next process finds.
\<close>

section \<open>Help\<close>

text \<open>The lines that are printed, each followed by a newline; a backslash at the end of a line of the literal joins it
  with the next and drops the white space in front of that.\<close>

definition help_lines :: "string list" where
  "help_lines =
     [''telemetry-agent'',
      '''',
      ''Usage:'',
      ''telemetry-agent --self-test [--tenant TENANT] [--queue-dir DIR]'',
      ''telemetry-agent --config FILE [--queue-dir DIR]'',
      ''telemetry-agent --otlp-grpc HOST:PORT [--queue-dir DIR]'',
      ''telemetry-agent --otlp-http HOST:PORT [--queue-dir DIR]'',
      ''telemetry-agent [--queue-dir DIR]'',
      '''',
      ''Options:'',
      ''--tenant TENANT     Tenant id to use for generated records.'',
      ''--config FILE       Load pipeline configuration from YAML.'',
      ''--queue-dir DIR     Durable queue directory.'',
      ''--otlp-grpc HOST:PORT Start the OTLP/gRPC trace, metrics, and logs receiver.'',
      ''--otlp-http HOST:PORT Start the OTLP/HTTP protobuf trace, metrics, and logs receiver.'',
      ''--otlp-export-endpoint HOST:PORT|URL Forward traces, metrics, and logs to an upstream OTLP/gRPC endpoint.'',
      ''--health-listen HOST:PORT Start a JSON health endpoint for probes.'',
      ''--control-endpoint URL Register and heartbeat with the control plane over HTTP or HTTPS.'',
      ''--agent-id ID       Agent id used for control-plane registration.'',
      ''--control-auth-token TOKEN Bearer token for agent control-plane calls. Can also use TELEMETRY_FABRIC_CONTROL_AUTH_TOKEN.'',
      ''--control-ca-file FILE Custom CA bundle for HTTPS control-plane calls.'',
      ''--control-cert-file FILE Client certificate for mTLS control-plane calls.'',
      ''--control-key-file FILE Client private key for mTLS control-plane calls.'',
      ''--control-server-name NAME Override HTTPS control-plane server name verification.'',
      ''--flush-batch-size N Flush up to N queued records per background cycle.'',
      ''--flush-interval-ms N Background flush interval in milliseconds.'',
      ''--control-heartbeat-interval-ms N Control-plane heartbeat interval in milliseconds.'',
      ''--shutdown-drain-timeout-ms N Maximum time to drain queued records after SIGINT/SIGTERM.'',
      ''--check-config     Validate the resolved pipeline configuration and exit.'',
      ''--self-test         Enqueue and flush one synthetic record.'']"

definition print_help :: string where
  "print_help = concat (map (\<lambda>line. line @ [LF]) (help_lines @ [[]]))"

text \<open>The flags that the lines describe: the first word of each.\<close>

definition described_flags :: "string list" where
  "described_flags = map (takeWhile (\<lambda>c. c \<noteq> CHR '' '')) help_lines"

lemma described_flags_eq:
  "described_flags =
     [''telemetry-agent'', [], ''Usage:'', ''telemetry-agent'', ''telemetry-agent'', ''telemetry-agent'', ''telemetry-agent'',
      ''telemetry-agent'', [], ''Options:'', ''--tenant'', ''--config'', ''--queue-dir'', ''--otlp-grpc'', ''--otlp-http'',
      ''--otlp-export-endpoint'', ''--health-listen'', ''--control-endpoint'', ''--agent-id'', ''--control-auth-token'',
      ''--control-ca-file'', ''--control-cert-file'', ''--control-key-file'', ''--control-server-name'', ''--flush-batch-size'',
      ''--flush-interval-ms'', ''--control-heartbeat-interval-ms'', ''--shutdown-drain-timeout-ms'', ''--check-config'', ''--self-test'']"
  by (simp add: described_flags_def help_lines_def)

text \<open>Of the flags that take a value the text describes every one but the key for signed configurations; of the switches
  it leaves out itself.\<close>

theorem help_complete:
  "filter (\<lambda>f. f \<notin> set described_flags) (map fst value_flags) = [''--control-config-signing-key''] \<and>
   filter (\<lambda>f. f \<notin> set described_flags) (map fst switch_flags) = [''--help'', ''-h'']"
  by (simp add: described_flags_eq value_flags_def switch_flags_def)

section \<open>Signals\<close>

text \<open>Installing the handler of SIGTERM may fail; then the first of the two signals counts, and waiting for SIGINT may fail.\<close>

datatype first_signal = CtrlC "string + unit" | Terminate

definition wait_for_shutdown_signal :: "string + unit \<Rightarrow> first_signal \<Rightarrow> string + unit" where
  "wait_for_shutdown_signal installed first =
     res_bind installed (\<lambda>_. case first of CtrlC result \<Rightarrow> result | Terminate \<Rightarrow> Inr ())"

section \<open>The next process\<close>

text \<open>
  Property C7 (restart_keeps_acknowledged). A process starts on the directory of a sound queue and serves OTLP/HTTP. It may end at any moment between two
  steps of its tasks: with connections open, with a flush that is exporting, or in the middle of the drain that a signal starts (whose forced flushes are
  flush tasks like all others). Another process starts on the directory it left. Then what was queued at first, followed by what the requests put in, is
  exactly what the first process committed after export followed by what the second process has queued when it starts; and
  a request with an answer that is no refusal has all its records among them.
\<close>

theorem restart_keeps_acknowledged:
  assumes "sound_queue q" and "exporter_factory p = agent_build show_io open_append stdout"
    and "run p values (dir q) = (Inr (Serving m st), d)" and "max_queue_bytes (limits (rt_config (start_runtime st))) \<le> max_offset"
    and "(serve_step (agent_build show_io open_append stdout) (agent_export show_io worlds cuts) show_io
      (serve_connection api co tls_accept acceptor tenant) (http_wanted api co tls_accept acceptor tenant))\<^sup>*\<^sup>* (listening (start_runtime st)) s"
    and "run p' values' (dir (rt_queue (runtime (sv_world s)))) = (Inr (Serving m' st'), d')"
    and "exporter_factory p' = agent_build show_io' open_append' stdout'"
  shows "pending q @ all_served s = committed (sv_world s) @ pending (rt_queue (start_runtime st')) \<and>
    list_all (served_as (http_wanted api co tls_accept acceptor tenant) http_acked) (sv_served s)"
proof -
  have b: "builds_all (exporter_factory p)" "builds_all (exporter_factory p')" unfolding assms(2,7) by (rule agent_builds_all)+
  note start = start_serving_ok [OF assms(1) b(1) assms(3,4)]
  have ok: "serving_ok (http_wanted api co tls_accept acceptor tenant) http_acked (pending (rt_queue (start_runtime st))) s"
    using http_server.run_ok [OF assms(5) agent_builds_all http_server.listening_ok] start by blast
  then have s: "pending q @ all_served s = committed (sv_world s) @ pending (rt_queue (runtime (sv_world s)))"
    "sound_queue (rt_queue (runtime (sv_world s)))"
    using start by (auto simp: serving_ok_def world_ok_def runtime_ok_def)
  obtain cfg rt2 d2 where o: "runtime_open (exporter_factory p') cfg default_disk_queue_options (dir (rt_queue (runtime (sv_world s)))) = (Inr rt2, d2)"
    "start_runtime st' = rt2" by (rule run_serving [OF assms(6)]) blast
  have "pending (rt_queue (start_runtime st')) = pending (rt_queue (runtime (sv_world s)))" using runtime_open_sound [OF s(2) b(2) o(1)] o(2) by simp
  then show ?thesis using s(1) ok by (simp add: serving_ok_def)
qed

text \<open>The sample process starts on the directory of every sound queue.\<close>

definition serve_flags :: "string list" where
  "serve_flags = [''--otlp-http'', ''[::]:4318'']"

lemma plain_process_starts:
  assumes "sound_queue q"
  shows "\<exists>st d. run plain_process serve_flags (dir q) = (Inr (Serving (ServeOtlpHttp ''[::]:4318'' tls_disabled) st), d)"
proof -
  let ?env = "\<lambda>_. None :: string option"
  have "case parse_args ?env serve_flags of Inl _ \<Rightarrow> False | Inr a \<Rightarrow>
      \<not> arg_help a \<and> \<not> arg_check_config a \<and> \<not> arg_self_test a \<and> arg_control_endpoint a = None \<and> arg_otlp_grpc a = None \<and>
      arg_otlp_http a = Some ''[::]:4318'' \<and> arg_config_path a = None \<and> arg_tenant_id a = None \<and> arg_otlp_export_endpoint a = None" by code_simp
  then obtain a where a: "parse_args ?env serve_flags = Inr a" "\<not> arg_help a" "\<not> arg_check_config a" "\<not> arg_self_test a"
    "arg_control_endpoint a = None" "arg_otlp_grpc a = None" "arg_otlp_http a = Some ''[::]:4318''" "arg_config_path a = None"
    "arg_tenant_id a = None" "arg_otlp_export_endpoint a = None" by (auto split: sum.splits)
  have v: "validate_config default_config = Inr ()" by code_simp
  have cfg: "build_pipeline_config f y a = Inr default_config" for f y using a v by (simp add: build_pipeline_config_def)
  have "is_ok (plain_build (exporters default_config))" by code_simp
  then obtain es where es: "plain_build (exporters default_config) = Inr es" by (auto simp: is_ok_iff)
  obtain q' where q': "reopen default_disk_queue_options q = Inr q'" using sound_reopen [OF assms] by blast
  then obtain d1 where "disk_queue_open default_disk_queue_options (dir q) = (Inr q', d1)"
    by (cases "disk_queue_open default_disk_queue_options (dir q)") (simp add: reopen_def)
  then obtain rt where rt: "runtime_open plain_build default_config default_disk_queue_options (dir q) = (Inr rt, d1)"
    using v es by (simp add: runtime_open_def bind_act_def map_err_act_def lift_res_def ok_act_def)
  have "choose_receiver_mode a rt = Inr (Some (ServeOtlpHttp ''[::]:4318'' tls_disabled))" "connect_control ?env ''0.1.0'' a rt = Inr None"
    using a by (simp_all add: choose_receiver_mode_def connect_control_def)
  then show ?thesis
    using a v rt cfg by (simp add: run_def run_opened_def plain_process_def bind_act_def map_err_act_def lift_res_def ok_act_def Let_def)
qed

text \<open>One request is served, and the process ends; the next one starts with its record.\<close>

theorem restart_keeps_acknowledged_witness:
  "\<exists>(s :: (plain_exporter, connection, http_failure + u8 list) serving) st' a ps. sv_served s = [(sample_connection, a, ps)] \<and>
     ps = committed (sv_world s) @ pending (rt_queue (start_runtime (st' :: plain_exporter agent_start)))"
proof -
  let ?q = "fresh_queue default_disk_queue_options" and ?export = "agent_export (\<lambda>_. []) plain_worlds (\<lambda>_ _. None)"
  let ?handle = "serve_connection sample_api sample_codec (\<lambda>(_ :: unit) _. Inl []) None ''acme''"
  let ?wanted = "http_wanted sample_api sample_codec (\<lambda>(_ :: unit) _. Inl []) None ''acme''"
  obtain m st d where r: "run plain_process serve_flags (dir ?q) = (Inr (Serving m st), d)"
    "active_segment_id (rt_queue (start_runtime st)) < 10" "max_queue_bytes (limits (rt_config (start_runtime st))) \<le> max_offset"
    using starts_freshD [of "run plain_process serve_flags (dir ?q)"] plain_starts_fresh by (auto simp: serve_flags_def)
  have "active_segment_id (rt_queue (start_runtime st)) + Suc (length (?wanted sample_connection)) < u64_max"
    using r(2) by (simp add: sample_connection_wanted)
  from one_served [where wanted = ?wanted and c = sample_connection, OF this, of plain_build ?export "\<lambda>_. []" ?handle]
  obtain s a ps where s: "(serve_step plain_build ?export (\<lambda>_. []) ?handle ?wanted)\<^sup>*\<^sup>* (listening (start_runtime st)) s"
    "sv_served s = [(sample_connection, a, ps)]" by blast
  have f: "exporter_factory plain_process = agent_build (\<lambda>_. []) (\<lambda>_. Inl NotFound) ()" by (simp add: plain_process_def plain_build_def)
  then have b: "builds_all (exporter_factory plain_process)" "builds_all plain_build" by (simp_all add: plain_build_def agent_builds_all)
  have "serving_ok ?wanted http_acked (pending (rt_queue (start_runtime st))) s"
    using http_server.run_ok [OF s(1) b(2) http_server.listening_ok] start_serving_ok [OF fresh_sound_queue(1) b(1) r(1,3)] by blast
  then have "sound_queue (rt_queue (runtime (sv_world s)))" by (auto simp: serving_ok_def world_ok_def runtime_ok_def)
  then obtain m' st' d' where r': "run plain_process serve_flags (dir (rt_queue (runtime (sv_world s)))) = (Inr (Serving m' st'), d')"
    using plain_process_starts by blast
  from restart_keeps_acknowledged [OF fresh_sound_queue(1) f r(1,3) s(1) [unfolded plain_build_def] r' f]
  show ?thesis using s(2) by (intro exI [of _ s] exI [of _ st'] exI [of _ a] exI [of _ ps]) (simp add: all_served_def fresh_sound_queue(2))
qed

end
