(* ===== verification/Spec2Isabelle.thy ===== *)
theory Spec2Isabelle
  imports Shared_Properties Agent_Properties Metric_Properties Agent_Chain Transport_Properties Agent_Process
begin

text \<open>
  Telemetry fabric: a verification of the agent.

  The program (\<^verbatim>\<open>src/crates\<close>) is an agent that receives telemetry over OTLP, keeps it in a durable queue on disk, runs
  it through processors and exports it, under a pipeline configuration that a control plane can replace while it runs.
  A request is received (\<^verbatim>\<open>telemetry-agent/otlp.rs\<close>, \<^verbatim>\<open>otlp_http.rs\<close>), converted into records (\<^verbatim>\<open>telemetry-otlp\<close>), ingested by
  the runtime (\<^verbatim>\<open>telemetry-agent/runtime.rs\<close>) into the queue (\<^verbatim>\<open>telemetry-buffer\<close>), read in batches, processed
  (\<^verbatim>\<open>telemetry-processors\<close>), grouped by route (\<^verbatim>\<open>telemetry-core\<close>) and handed to the exporters (\<^verbatim>\<open>telemetry-exporters\<close>), which convert it
  back; only then is the batch committed. \<^verbatim>\<open>telemetry-agent/main.rs\<close> is the process: the command line, the flush worker, the
  control worker and its client (\<^verbatim>\<open>control_client.rs\<close>), the configuration file (\<^verbatim>\<open>config_file.rs\<close>), the health endpoint, and the shutdown.

  \<^bold>\<open>How the model is made.\<close> A method with \<^verbatim>\<open>&mut self\<close> that may return early is an action: a function from the
  state to a result (a sum, the error on the left) and the new state (\<open>Fabric_Prelude\<close>); the state changes made before
  an error stay, as in the code. Structs are records and enums datatypes, with the names of the source. Integers of Rust are naturals or
  integers with the checks, saturation and wrap-around of the code written out, and words where bits matter. A \<^verbatim>\<open>String\<close> is
  the sequence of its bytes, and that they are valid UTF-8 is a hypothesis where it is needed (\<open>Fabric_Text\<close>). Clocks are
  arguments. The code outside the repository is a parameter: the calls of \<^verbatim>\<open>std::fs\<close> may fail at any point (\<open>Segment_Dir\<close> has a schedule
  of faults), the YAML reader, the codecs of \<^verbatim>\<open>prost\<close> and \<^verbatim>\<open>serde_json\<close>, TLS and sockets, the gRPC client, \<^verbatim>\<open>f64\<close> and its text.

  \<^bold>\<open>Theories and sources.\<close>

  \<^item> \<open>Fabric_Prelude\<close>, \<open>Fabric_Text\<close>, \<open>Http_Text\<close>: integers, results, actions and their rules; bytes, UTF-8, white space, decimal numbers;
    splitting and JSON strings.

  \<^item> \<open>Telemetry\<close>, \<open>Pipeline_Config\<close> (\<^verbatim>\<open>telemetry-core\<close>): records and their wire format, with a locale for field codecs that
    every field of the format interprets; configuration, validation and routing.

  \<^item> \<open>Segment_Dir\<close>, \<open>Disk_Queue\<close> (\<^verbatim>\<open>telemetry-buffer\<close>): the directory and every operation of the queue. \<open>Queue_Contract\<close>, \<open>Queue_Writes\<close>,
    \<open>Queue_Open\<close>, \<open>Queue_Fifo\<close>, \<open>Queue_Crash\<close>: the invariant, what each operation does to the records that are still to be delivered, the
    contract of a durable queue as a locale that the disk queue interprets, and what failed calls leave. \<open>Queue_Properties\<close>: any session of
    enqueues, reads, commits and restarts delivers exactly what was put in; crashes lose nothing that was accepted.

  \<^item> \<open>Processors\<close> (\<^verbatim>\<open>telemetry-processors\<close>): memory limiter, redaction and rate limiter. What a configured chain emits, over any sequence of calls,
    is the record less the attributes with a redacted key, and a rate limit holds in any window of a second.

  \<^item> \<open>Runtime\<close>, \<open>Runtime_Metrics\<close>, \<open>Shared_Flush\<close> (\<^verbatim>\<open>runtime.rs\<close>): ingest, flush with retries, reload, health, Prometheus text, and the flush that
    gives up the lock while it exports, as a step relation over its critical sections. \<open>Export_Delivery\<close>, \<open>Runtime_Facts\<close>,
    \<open>Runtime_Properties\<close>, \<open>Shared_Properties\<close>: what is accepted, what reaches which exporter, progress, and that the shared flush
    loses and duplicates nothing under every interleaving, and never puts the exporters of an older configuration back over a reload.

  \<^item> \<open>Config_File\<close>, \<open>Sha_Standard\<close>, \<open>Config_Signature\<close>, \<open>Control_Client\<close>, \<open>Control_Properties\<close> (\<^verbatim>\<open>config_file.rs\<close>, \<^verbatim>\<open>control_client.rs\<close>): the file, and which
    configuration it describes, against tables of the names of its own; SHA-256 and HMAC against the standards, which \<open>Sha_Standard\<close> states on
    their own (FIPS 180-4 with its constants from the roots of primes, FIPS 198-1) with nothing of the code; requests and responses, and which updates are
    accepted.

  \<^item> \<open>Agent_Args\<close>, \<open>Agent_Startup\<close>, \<open>Agent_Control\<close>, \<open>Agent_Workers\<close>, \<open>Agent_Properties\<close> (\<^verbatim>\<open>main.rs\<close>): the command line and \<^verbatim>\<open>run\<close>, what holds when the
    process serves, the control worker with all its commands, drains and shutdown, run with no other task in between; they end,
    acknowledge what they were asked for, install only configurations that came with a valid signature when a key is set, and take off the queue only
    what an exporter accepted or a processor dropped. \<open>Agent_Drain\<close>: the drain before a restart, the acknowledgement and the exit as a step
    relation together with the receivers and flush tasks that run on meanwhile: what was queued when it began is delivered at the exit, and what
    arrives between the last empty flush and the exit is left in the queue.

  \<^item> \<open>Otlp_Convert\<close> (\<^verbatim>\<open>telemetry-otlp\<close>): spans, logs and all kinds of metrics to records.

  \<^item> \<open>Exporter_Http\<close>, \<open>Exporter_Convert\<close>, \<open>Exporter_Prometheus\<close>, \<open>Exporter_Send\<close> (\<^verbatim>\<open>telemetry-exporters\<close>): endpoints, HTTP requests and answers, Snappy; records to
    OTLP messages; records to Prometheus series; the exporters, how they are built and what \<^verbatim>\<open>export\<close> does. \<open>Agent_Exporters\<close> puts them in the place of
    the runtime's parameters and follows the lines of the file exporter through failed writes and retries; the locale \<open>line_writer\<close> says
    what it needs of a file, and the files of \<open>Segment_Dir\<close> interpret it.

  \<^item> \<open>Otlp_Forward\<close>, \<open>Metric_Forward\<close>, \<open>Metric_Properties\<close>: what becomes of a request that is received and exported again. The locale
    \<open>message_forwarding\<close> states what one signal has to promise (its records are read back as what they are forwarded as) and proves it for
    whole requests; spans, logs and metrics interpret it.

  \<^item> \<open>Http_Request\<close>, \<open>Otlp_Receivers\<close>, \<open>Receiver_Properties\<close> (\<^verbatim>\<open>otlp_http.rs\<close>, \<^verbatim>\<open>otlp.rs\<close>): reading a request that arrives in pieces, the handler and the gRPC
    services, and what an answer says about the queue. \<open>Http_Agreement\<close>, \<open>Agent_Chain\<close>: an exporter's request is what a receiver
    reads, and two agents in a row.

  \<^item> \<open>Agent_Serve\<close>, \<open>Serve_Properties\<close> (\<^verbatim>\<open>otlp_http.rs\<close>, \<^verbatim>\<open>otlp.rs\<close>, \<^verbatim>\<open>main.rs\<close>): the accept loops and their tasks together with flushes, reloads and
    health probes, as a step relation that refines the one of the shared flush. The locale \<open>request_server\<close> states what the
    process needs of a receiver; the HTTP and the gRPC receiver interpret it. Whatever the interleaving, an acknowledged request
    has all its records in the queue or committed. \<open>Agent_Process\<close>: signals, the help text, and the same across a restart: the next process
    starts with exactly what was accepted and not committed when the first one ended, at whatever point that was.

  \<^item> \<open>Transport_Tls\<close>, \<open>Transport_Properties\<close>: certificate files, TLS set-up and streams of the exporters, of the control client and of the
    receiver. When a client secured by its settings exchanges a request: with which roots, server name and client certificate; and that the
    OTLP/HTTP receiver of \<^verbatim>\<open>start_otlp_http\<close> with TLS serves nothing outside TLS. (The gRPC receiver ignores its TLS settings: \<open>grpc_receiver_plain\<close>.)

  \<^bold>\<open>Bounds and termination.\<close> Every definition is total but \<open>drain_rounds\<close>, the drain before a restart, a loop that the code does not
  bound: it is a partial function into options, and that it returns when no other task adds to the queue is proved (\<open>worker_total\<close>). The shutdown drain is bounded by its
  deadline, given as the clock readings. Theorems about the queue ask for room below the largest segment identifier and
  offset that \<^verbatim>\<open>u64\<close> holds; the quota is checked by the code and is not a hypothesis. Theorems on forwarding ask for identifiers, numbers
  and texts that the types of the protocol allow, for logs and metrics also for attribute keys outside the prefixes \<^verbatim>\<open>otel.\<close> and
  \<^verbatim>\<open>resource.\<close>, which the agent uses for itself; \<open>value_replaced\<close>, \<open>exemplars_from_attribute\<close> and \<open>log_field_forged\<close> show what happens otherwise.

  \<^bold>\<open>Not modelled.\<close> The inside of the libraries: sockets, \<^verbatim>\<open>rustls\<close>, HTTP/2 and the transport of \<^verbatim>\<open>tonic\<close>, the codecs, the scheduler; the code calls
  them and the calls are parameters. A task of a receiver holds the lock of the runtime for all records of its request and is one step; what
  it reads and writes on its connection touches nothing that is shared. A call of an exporter that is cut off by the timeout leaves the
  exporter in a state that is an argument; an export that the shutdown deadline cuts off is described in \<open>shutdown_rounds\<close>. The tasks of
  connections that are still open when a signal arrives are not followed through the drain of \<^verbatim>\<open>drain_for_shutdown\<close>; those that run during the drain
  before a restart are (\<open>Agent_Drain\<close>). A tick of the control worker is otherwise one step. Accessors that only tests use and the
  panic of a back-off longer than a \<^verbatim>\<open>Duration\<close> holds are left out. Events, links and status of a span are not carried by the code.
  The control plane (\<^verbatim>\<open>src/apps\<close>) is a service in another language; its answers are arguments of the control worker.
\<close>

end
